(* ===== verification/Prelude.thy ===== *)
theory Prelude
  imports Main "HOL-Library.Word" "HOL-Library.Multiset"
begin

text \<open>
  Shared vocabulary of the development: the machine types of \<^verbatim>\<open>euryale/Types.h\<close>, the
  little-endian layout of integers in memory, the iteration idioms of the code (search of the
  first match, erase of the first match, search of the first non-null slot), and the lemma
  collections the component theories extend.
\<close>

named_theorems wire \<open>byte layout of stream operations\<close>
named_theorems roundtrip \<open>reading back what was written\<close>
named_theorems codec \<open>serializers and deserializers to unfold in round trips\<close>
named_theorems shrink \<open>reads never lengthen the input\<close>

section \<open>Machine types\<close>

type_synonym byte = "8 word"
type_synonym u16 = "16 word"
type_synonym u32 = "32 word"
type_synonym u64 = "64 word"

section \<open>Little-endian layout\<close>

primrec nat_le :: "nat \<Rightarrow> nat \<Rightarrow> byte list" where
  "nat_le 0 k = []"
| "nat_le (Suc n) k = word_of_nat k # nat_le n (k div 256)"

primrec le_nat :: "byte list \<Rightarrow> nat" where
  "le_nat [] = 0"
| "le_nat (b # bs) = unat b + 256 * le_nat bs"

lemma length_nat_le [simp]: "length (nat_le n k) = n"
  by (induction n arbitrary: k) auto

lemma unat_byte_of_nat: "unat (word_of_nat k :: byte) = k mod 256"
  by (simp add: unat_of_nat)

lemma le_nat_nat_le: "le_nat (nat_le n k) = k mod 256 ^ n"
proof (induction n arbitrary: k)
  case 0
  then show ?case by simp
next
  case (Suc n)
  have "k mod 256 + 256 * (k div 256 mod 256 ^ n) = k mod (256 * 256 ^ n)"
    by (simp add: mod_mult2_eq)
  then show ?case by (simp add: Suc.IH unat_byte_of_nat)
qed

lemma nat_le_0: "nat_le n 0 = replicate n 0"
  by (induction n) auto

lemma nat_le_take: "m \<le> n \<Longrightarrow> take m (nat_le n k) = nat_le m k"
proof (induction m arbitrary: n k)
  case 0
  then show ?case by simp
next
  case (Suc m)
  then obtain n' where "n = Suc n'" by (cases n) auto
  with Suc show ?case by simp
qed

definition le16 :: "u16 \<Rightarrow> byte list" where
  "le16 x = nat_le 2 (unat x)"

definition le32 :: "u32 \<Rightarrow> byte list" where
  "le32 x = nat_le 4 (unat x)"

definition le64 :: "u64 \<Rightarrow> byte list" where
  "le64 x = nat_le 8 (unat x)"

lemma length_le16 [simp]: "length (le16 x) = 2"
  by (simp add: le16_def)

lemma length_le32 [simp]: "length (le32 x) = 4"
  by (simp add: le32_def)

lemma length_le64 [simp]: "length (le64 x) = 8"
  by (simp add: le64_def)

lemma le_nat_le16 [simp]: "word_of_nat (le_nat (le16 x)) = x"
proof -
  have "unat x < 256 ^ 2" using unsigned_less [of x, where ?'a = nat] by simp
  then show ?thesis by (simp add: le16_def le_nat_nat_le)
qed

lemma le_nat_le32 [simp]: "word_of_nat (le_nat (le32 x)) = x"
proof -
  have "unat x < 256 ^ 4" using unsigned_less [of x, where ?'a = nat] by simp
  then show ?thesis by (simp add: le32_def le_nat_nat_le)
qed

lemma le_nat_le64 [simp]: "word_of_nat (le_nat (le64 x)) = x"
proof -
  have "unat x < 256 ^ 8" using unsigned_less [of x, where ?'a = nat] by simp
  then show ?thesis by (simp add: le64_def le_nat_nat_le)
qed

lemma length_concat_const:
  "(\<And>x. length (f x) = n) \<Longrightarrow> length (concat (map f xs)) = n * length xs"
  by (induction xs) auto

section \<open>Characters and bytes\<close>

definition byte_of_char :: "char \<Rightarrow> byte" where
  "byte_of_char c = word_of_nat (of_char c)"

definition char_of_byte :: "byte \<Rightarrow> char" where
  "char_of_byte b = char_of (unat b)"

lemma char_of_byte_of_char [simp]: "char_of_byte (byte_of_char c) = c"
proof -
  have "(of_char c :: nat) < 256" by (rule nat_of_char_less_256)
  then show ?thesis
    by (simp add: char_of_byte_def byte_of_char_def unat_of_nat)
qed

lemma map_char_of_byte_of_char [simp]: "map (char_of_byte \<circ> byte_of_char) s = s"
  by (induction s) auto

lemma byte_of_char_eq_0 [simp]: "byte_of_char c = 0 \<longleftrightarrow> c = CHR 0x00"
proof
  assume "byte_of_char c = 0"
  then have "char_of_byte (byte_of_char c) = char_of_byte (byte_of_char (CHR 0x00))"
    by (simp add: byte_of_char_def)
  then show "c = CHR 0x00" by simp
next
  assume "c = CHR 0x00"
  then show "byte_of_char c = 0" by (simp add: byte_of_char_def of_char_def)
qed

section \<open>Iteration idioms\<close>

text \<open>
  The search loops \<^verbatim>\<open>while (iter != l.end()) { if (P(*iter)) return ...; iter++; }\<close> are
  \<open>List.find\<close>; the erase of the first match is \<open>erase1\<close>.
\<close>

fun erase1 :: "('a \<Rightarrow> bool) \<Rightarrow> 'a list \<Rightarrow> 'a list option" where
  "erase1 P [] = None"
| "erase1 P (x # xs) = (if P x then Some xs else map_option ((#) x) (erase1 P xs))"

lemma erase1_None_iff: "erase1 P xs = None \<longleftrightarrow> (\<forall>x\<in>set xs. \<not> P x)"
  by (induction xs) auto

lemma erase1_SomeD:
  assumes "erase1 P xs = Some ys"
  shows "\<exists>us x vs. xs = us @ x # vs \<and> ys = us @ vs \<and> P x \<and> (\<forall>u\<in>set us. \<not> P u)"
  using assms
proof (induction xs arbitrary: ys)
  case Nil
  then show ?case by simp
next
  case (Cons a xs)
  show ?case
  proof (cases "P a")
    case True
    with Cons.prems have "a # xs = [] @ a # xs \<and> ys = [] @ xs \<and> P a" by simp
    then show ?thesis by fastforce
  next
    case False
    with Cons.prems obtain zs where zs: "erase1 P xs = Some zs" "ys = a # zs" by auto
    from Cons.IH [OF zs(1)] obtain us x vs
      where "xs = us @ x # vs" "zs = us @ vs" "P x" "\<forall>u\<in>set us. \<not> P u" by blast
    with False zs(2) have "a # xs = (a # us) @ x # vs \<and> ys = (a # us) @ vs \<and> P x
        \<and> (\<forall>u\<in>set (a # us). \<not> P u)" by simp
    then show ?thesis by blast
  qed
qed

lemma erase1_length: "erase1 P xs = Some ys \<Longrightarrow> length xs = Suc (length ys)"
  by (induction xs arbitrary: ys) (auto split: if_splits)

lemma erase1_set: "erase1 P xs = Some ys \<Longrightarrow> set ys \<subseteq> set xs"
  by (induction xs arbitrary: ys) (auto split: if_splits)

lemma erase1_distinct_map:
  "erase1 P xs = Some ys \<Longrightarrow> distinct (map f xs) \<Longrightarrow> distinct (map f ys)"
  by (drule erase1_SomeD) auto

text \<open>Index of the first element with a property, for the slot scans over pointer arrays.\<close>

fun first_index :: "('a \<Rightarrow> bool) \<Rightarrow> 'a list \<Rightarrow> nat option" where
  "first_index P [] = None"
| "first_index P (x # xs) = (if P x then Some 0 else map_option Suc (first_index P xs))"

lemma first_index_None_iff: "first_index P xs = None \<longleftrightarrow> (\<forall>x\<in>set xs. \<not> P x)"
  by (induction xs) auto

lemma first_index_SomeD:
  "first_index P xs = Some i \<Longrightarrow> i < length xs \<and> P (xs ! i) \<and> (\<forall>j<i. \<not> P (xs ! j))"
proof (induction xs arbitrary: i)
  case Nil
  then show ?case by simp
next
  case (Cons x xs)
  then show ?case by (auto split: if_splits simp: nth_Cons split: nat.splits)
qed

text \<open>Sequencing of computations that may end in an error.\<close>

definition res_bind :: "'e + 'a \<Rightarrow> ('a \<Rightarrow> 'e + 'b) \<Rightarrow> 'e + 'b" where
  "res_bind m f = (case m of Inl e \<Rightarrow> Inl e | Inr x \<Rightarrow> f x)"

lemma res_bind_simps [simp]: "res_bind (Inl e) f = Inl e" "res_bind (Inr x) f = f x"
  by (simp_all add: res_bind_def)

lemma res_bind_Inr_iff: "res_bind m f = Inr y \<longleftrightarrow> (\<exists>x. m = Inr x \<and> f x = Inr y)"
  by (cases m) simp_all

lemma res_bind_Inl_iff: "res_bind m f = Inl e \<longleftrightarrow> m = Inl e \<or> (\<exists>x. m = Inr x \<and> f x = Inl e)"
  by (cases m) simp_all

end
