(* ===== verification/OutStreams.thy ===== *)
theory OutStreams
  imports Prelude
begin

text \<open>
  The output side of \<^verbatim>\<open>euryale/common/io\<close>: the virtual interface \<^verbatim>\<open>OutputStream\<close>, the growing
  chain of message blocks of \<^verbatim>\<open>ByteOutputStream\<close>, and the size counter \<^verbatim>\<open>StreamSize\<close>.

  A serializer of the code is a sequence of virtual calls on an \<^verbatim>\<open>OutputStream&\<close> whose results it
  ignores, so in the component theories a serializer is the list of these calls, a \<open>wop list\<close>,
  and the two stream classes are two interpreters of such lists. \<open>encode\<close> is the abstract
  content of a call sequence; the refinement lemmas at the end show that the block chain holds
  exactly that content and that the counter reports exactly its length.

  The build fixes \<^verbatim>\<open>ACE_LACKS_CDR_ALIGNMENT\<close> (ByteStream.h, StreamSize.h), so there is no padding;
  \<^verbatim>\<open>ACE_ENABLE_SWAP_ON_WRITE\<close> is not defined, so values are stored in the byte order of the host,
  which is little-endian here. The constants of ACE (initial size, growth limits), the allocator
  and operator new are parameters, kept in the stream's record.
\<close>

section \<open>The calls of OutputStream\<close>

text \<open>A message block: its storage and the read and write pointers, as offsets.\<close>

record block =
  blk_base :: "byte list"
  blk_rd :: nat
  blk_wr :: nat

definition blk_size :: "block \<Rightarrow> nat" where
  "blk_size b = length (blk_base b)"

definition blk_length :: "block \<Rightarrow> nat" where
  "blk_length b = blk_wr b - blk_rd b"

definition blk_data :: "block \<Rightarrow> byte list" where
  "blk_data b = take (blk_length b) (drop (blk_rd b) (blk_base b))"

definition blk_ok :: "block \<Rightarrow> bool" where
  "blk_ok b = (blk_rd b \<le> blk_wr b \<and> blk_wr b \<le> blk_size b)"

text \<open>One block of a chain handed to \<^verbatim>\<open>write_octet_array_mb\<close>, with its \<^verbatim>\<open>DONT_DELETE\<close> flag.\<close>

type_synonym mblock = "block \<times> bool"

datatype wop =
    WOctet byte
  | WBoolean bool
  | WChar char
  | WShort u16
  | WUShort u16
  | WLong u32
  | WULong u32
  | WLongLong u64
  | WULongLong u64
  | WFloat u32
  | WDouble u64
  | WString string
  | WBooleanArray "bool list"
  | WCharArray string
  | WOctetArray "byte list"
  | WShortArray "u16 list"
  | WUShortArray "u16 list"
  | WLongArray "u32 list"
  | WULongArray "u32 list"
  | WLongLongArray "u64 list"
  | WULongLongArray "u64 list"
  | WFloatArray "u32 list"
  | WDoubleArray "u64 list"
  | WOctetArrayMb "mblock list"

definition bool_byte :: "bool \<Rightarrow> byte" where
  "bool_byte x = (if x then 1 else 0)"

definition c_str :: "string \<Rightarrow> byte list" where
  "c_str s = map byte_of_char s @ [0]"

text \<open>The bytes a call stands for. A 64-bit scalar has no entry of its own beyond its low half:
  see \<open>write_8\<close> below; \<open>plain\<close> excludes these calls.\<close>

fun wop_bytes :: "wop \<Rightarrow> byte list" where
  "wop_bytes (WOctet x) = [x]"
| "wop_bytes (WBoolean x) = [bool_byte x]"
| "wop_bytes (WChar x) = [byte_of_char x]"
| "wop_bytes (WShort x) = le16 x"
| "wop_bytes (WUShort x) = le16 x"
| "wop_bytes (WLong x) = le32 x"
| "wop_bytes (WULong x) = le32 x"
| "wop_bytes (WLongLong x) = le64 x"
| "wop_bytes (WULongLong x) = le64 x"
| "wop_bytes (WFloat x) = le32 x"
| "wop_bytes (WDouble x) = le64 x"
| "wop_bytes (WString s) = le32 (word_of_nat (Suc (length s))) @ c_str s"
| "wop_bytes (WBooleanArray xs) = map bool_byte xs"
| "wop_bytes (WCharArray xs) = map byte_of_char xs"
| "wop_bytes (WOctetArray xs) = xs"
| "wop_bytes (WShortArray xs) = concat (map le16 xs)"
| "wop_bytes (WUShortArray xs) = concat (map le16 xs)"
| "wop_bytes (WLongArray xs) = concat (map le32 xs)"
| "wop_bytes (WULongArray xs) = concat (map le32 xs)"
| "wop_bytes (WLongLongArray xs) = concat (map le64 xs)"
| "wop_bytes (WULongLongArray xs) = concat (map le64 xs)"
| "wop_bytes (WFloatArray xs) = concat (map le32 xs)"
| "wop_bytes (WDoubleArray xs) = concat (map le64 xs)"
| "wop_bytes (WOctetArrayMb mbs) = concat (map (blk_data \<circ> fst) mbs)"

definition encode :: "wop list \<Rightarrow> byte list" where
  "encode ops = concat (map wop_bytes ops)"

lemma encode_Nil [simp]: "encode [] = []"
  by (simp add: encode_def)

lemma encode_Cons [simp]: "encode (op # ops) = wop_bytes op @ encode ops"
  by (simp add: encode_def)

lemma encode_append [simp]: "encode (ops @ ops') = encode ops @ encode ops'"
  by (simp add: encode_def)

lemma encode_concat: "encode (concat opss) = concat (map encode opss)"
  by (induction opss) auto

text \<open>Calls whose arguments are in range: strings and arrays shorter than a \<^verbatim>\<open>UInt\<close> can say, blocks
  with their pointers inside the storage.\<close>

definition str_ok :: "string \<Rightarrow> bool" where
  "str_ok s = (Suc (length s) < 2 ^ 32)"

fun wop_ok :: "wop \<Rightarrow> bool" where
  "wop_ok (WString s) = str_ok s"
| "wop_ok (WOctetArrayMb mbs) = list_all (\<lambda>m. blk_ok (fst m)) mbs"
| "wop_ok _ = True"

fun plain :: "wop \<Rightarrow> bool" where
  "plain (WLongLong x) = False"
| "plain (WULongLong x) = False"
| "plain (WDouble x) = False"
| "plain _ = True"

section \<open>Growth of the buffers\<close>

text \<open>\<^verbatim>\<open>DEFAULT_BUFSIZE\<close>, \<^verbatim>\<open>EXP_GROWTH_MAX\<close> and \<^verbatim>\<open>LINEAR_GROWTH_CHUNK\<close> of Types.h come from ACE.\<close>

record rdr_consts =
  DEFAULT_BUFSIZE :: nat
  EXP_GROWTH_MAX :: nat
  LINEAR_GROWTH_CHUNK :: nat

definition MAX_ALIGNMENT :: nat where
  "MAX_ALIGNMENT = 8"

definition grow_once :: "rdr_consts \<Rightarrow> nat \<Rightarrow> nat" where
  "grow_once c newsize =
     (if newsize < EXP_GROWTH_MAX c then newsize * 2 else newsize + LINEAR_GROWTH_CHUNK c)"

partial_function (option) first_size_loop :: "rdr_consts \<Rightarrow> nat \<Rightarrow> nat \<Rightarrow> nat option" where
  [code]: "first_size_loop c minsize newsize =
     (if newsize < minsize then first_size_loop c minsize (grow_once c newsize)
      else Some newsize)"

definition first_size :: "rdr_consts \<Rightarrow> nat \<Rightarrow> nat option" where
  "first_size c minsize =
     (if minsize = 0 then Some (DEFAULT_BUFSIZE c)
      else first_size_loop c minsize (DEFAULT_BUFSIZE c))"

definition next_size :: "rdr_consts \<Rightarrow> nat \<Rightarrow> nat option" where
  "next_size c minsize = Option.bind (first_size c minsize) (\<lambda>newsize.
     Some (if newsize = minsize then grow_once c newsize else newsize))"

definition consts_ok :: "rdr_consts \<Rightarrow> bool" where
  "consts_ok c = (0 < DEFAULT_BUFSIZE c \<and> 0 < LINEAR_GROWTH_CHUNK c)"

lemma grow_once_gt: "consts_ok c \<Longrightarrow> 0 < n \<Longrightarrow> n < grow_once c n"
  by (simp add: grow_once_def consts_ok_def)

lemma first_size_loop_total:
  assumes "consts_ok c" "0 < n"
  shows "\<exists>y. first_size_loop c m n = Some y \<and> m \<le> y \<and> n \<le> y"
  using assms(2)
proof (induction "m - n" arbitrary: n rule: less_induct)
  case less
  show ?case
  proof (cases "n < m")
    case True
    let ?n = "grow_once c n"
    from grow_once_gt [OF assms(1) less.prems] have "n < ?n" .
    with True have "m - ?n < m - n" and "0 < ?n" by auto
    from less.hyps [OF this] \<open>n < ?n\<close> True show ?thesis
      by (subst first_size_loop.simps) auto
  next
    case False
    then show ?thesis by (subst first_size_loop.simps) simp
  qed
qed

lemma first_size_total:
  "consts_ok c \<Longrightarrow> \<exists>y. first_size c m = Some y \<and> m \<le> y \<and> 0 < y"
  using first_size_loop_total [of c "DEFAULT_BUFSIZE c" m]
  by (fastforce simp: first_size_def consts_ok_def)

lemma next_size_total:
  assumes "consts_ok c"
  shows "\<exists>y. next_size c m = Some y \<and> m < y"
proof -
  from first_size_total [OF assms, of m] obtain y
    where "first_size c m = Some y" "m \<le> y" "0 < y" by blast
  with grow_once_gt [OF assms, of y] show ?thesis
    by (auto simp: next_size_def)
qed

section \<open>ByteOutputStream\<close>

text \<open>
  \<open>bos_done\<close> are the blocks from \<^verbatim>\<open>start_\<close> up to \<^verbatim>\<open>current_\<close> exclusive, \<open>bos_next\<close> the chain
  \<^verbatim>\<open>current_->cont()\<close>. \<open>bos_alloc n\<close> is the storage the allocator hands out for a new block of
  \<open>n\<close> bytes (\<open>None\<close> when \<^verbatim>\<open>ACE_NEW_RETURN\<close> fails), \<open>bos_new\<close> whether operator new succeeds for
  the header of a shared block.
\<close>

record bos =
  bos_done :: "block list"
  bos_current :: block
  bos_next :: "block list"
  current_is_writable :: bool
  bos_good :: bool
  memcpy_tradeoff :: nat
  bos_consts :: rdr_consts
  bos_alloc :: "nat \<Rightarrow> byte list option"
  bos_new :: bool

definition mb_align :: "block \<Rightarrow> block" where
  "mb_align b = b\<lparr>blk_rd := 0, blk_wr := 0\<rparr>"

definition bos_ctor ::
    "rdr_consts \<Rightarrow> (nat \<Rightarrow> byte list option) \<Rightarrow> bool \<Rightarrow> nat \<Rightarrow> nat \<Rightarrow> bos" where
  "bos_ctor c alloc nw tradeoff sz =
     (let n = (if sz \<noteq> 0 then sz else DEFAULT_BUFSIZE c) + MAX_ALIGNMENT;
          mem = (case alloc n of Some m \<Rightarrow> m | None \<Rightarrow> [])
      in \<lparr>bos_done = [], bos_current = mb_align \<lparr>blk_base = mem, blk_rd = 0, blk_wr = 0\<rparr>,
          bos_next = [], current_is_writable = True, bos_good = True,
          memcpy_tradeoff = tradeoff, bos_consts = c, bos_alloc = alloc, bos_new = nw\<rparr>)"

text \<open>\<open>bos_advance\<close> is \<^verbatim>\<open>current_ = current_->cont(); current_is_writable_ = true\<close>; \<open>bos_grow\<close> is the body
  of \<^verbatim>\<open>grow_and_adjust\<close> up to its final call of \<^verbatim>\<open>adjust\<close>; its flag is False where it returns -1.\<close>

definition bos_advance :: "bos \<Rightarrow> bos" where
  "bos_advance s = s\<lparr>bos_done := bos_done s @ [bos_current s],
     bos_current := hd (bos_next s), bos_next := tl (bos_next s), current_is_writable := True\<rparr>"

definition bos_grow :: "nat \<Rightarrow> bos \<Rightarrow> (bool \<times> bos) option" where
  "bos_grow sz s =
     (if \<not> current_is_writable s \<or> bos_next s = []
         \<or> blk_size (hd (bos_next s)) < sz + MAX_ALIGNMENT then
        let cursize = (if bos_next s \<noteq> [] then blk_size (hd (bos_next s))
                       else blk_size (bos_current s));
            minsize = (if sz < cursize then cursize else sz)
        in Option.bind (next_size (bos_consts s) minsize) (\<lambda>newsize.
             case bos_alloc s newsize of
               None \<Rightarrow> Some (False, s\<lparr>bos_good := False\<rparr>)
             | Some mem \<Rightarrow>
                 if length mem < newsize then Some (False, s\<lparr>bos_good := False\<rparr>)
                 else Some (True, bos_advance (s\<lparr>bos_good := True,
                   bos_next := \<lparr>blk_base = mem, blk_rd = 0, blk_wr = 0\<rparr> # bos_next s\<rparr>)))
      else Some (True, bos_advance s))"

partial_function (option) bos_adjust :: "nat \<Rightarrow> bos \<Rightarrow> (bool \<times> bos) option" where
  [code]: "bos_adjust sz s =
     (if current_is_writable s
         \<and> blk_wr (bos_current s) + sz \<le> blk_size (bos_current s) then
        Some (True, s\<lparr>bos_current :=
          (bos_current s)\<lparr>blk_wr := blk_wr (bos_current s) + sz\<rparr>\<rparr>)
      else Option.bind (bos_grow sz s) (\<lambda>r.
        if fst r then bos_adjust sz (snd r) else Some (False, snd r)))"

text \<open>Storing bytes at \<^verbatim>\<open>buf\<close>, the position \<^verbatim>\<open>adjust\<close> reserved.\<close>

definition blk_poke :: "nat \<Rightarrow> byte list \<Rightarrow> block \<Rightarrow> block" where
  "blk_poke off bs b =
     b\<lparr>blk_base := take off (blk_base b) @ bs @ drop (off + length bs) (blk_base b)\<rparr>"

definition bos_store :: "nat \<Rightarrow> byte list \<Rightarrow> bos \<Rightarrow> (bool \<times> bos) option" where
  "bos_store sz bs s = map_option (\<lambda>(ok, s').
     if ok then (True, s'\<lparr>bos_current :=
                   blk_poke (blk_wr (bos_current s') - sz) bs (bos_current s')\<rparr>)
     else (False, s')) (bos_adjust sz s)"

definition write_1 :: "byte \<Rightarrow> bos \<Rightarrow> (bool \<times> bos) option" where
  "write_1 x s = bos_store 1 [x] s"

definition write_2 :: "u16 \<Rightarrow> bos \<Rightarrow> (bool \<times> bos) option" where
  "write_2 x s = bos_store 2 (le16 x) s"

definition write_4 :: "u32 \<Rightarrow> bos \<Rightarrow> (bool \<times> bos) option" where
  "write_4 x s = bos_store 4 (le32 x) s"

text \<open>\<^verbatim>\<open>write_8\<close> reserves eight bytes and stores through a \<^verbatim>\<open>ULong*\<close>, which is 32 bits wide: the upper
  four bytes keep what the storage held.\<close>

definition write_8 :: "u64 \<Rightarrow> bos \<Rightarrow> (bool \<times> bos) option" where
  "write_8 x s = bos_store 8 (le32 (ucast x)) s"

definition write_array :: "byte list \<Rightarrow> bos \<Rightarrow> (bool \<times> bos) option" where
  "write_array mem s =
     (if mem = [] then Some (True, s)
      else map_option (\<lambda>(ok, s'). if ok then (True, s') else (False, s'\<lparr>bos_good := False\<rparr>))
             (bos_store (length mem) mem s))"

definition write_char :: "char \<Rightarrow> bos \<Rightarrow> (bool \<times> bos) option" where
  "write_char x s = write_1 (byte_of_char x) s"

definition write_boolean :: "bool \<Rightarrow> bos \<Rightarrow> (bool \<times> bos) option" where
  "write_boolean x s = write_1 (bool_byte x) s"

definition write_ulong :: "u32 \<Rightarrow> bos \<Rightarrow> (bool \<times> bos) option" where
  "write_ulong x s = write_4 x s"

text \<open>The idiom \<^verbatim>\<open>if (this->write_ulong(n)) return rest; return (good_bit_ = false);\<close>\<close>

definition bos_then ::
    "(bos \<Rightarrow> (bool \<times> bos) option) \<Rightarrow> (bos \<Rightarrow> (bool \<times> bos) option) \<Rightarrow> bos \<Rightarrow> (bool \<times> bos) option" where
  "bos_then f g s = Option.bind (f s) (\<lambda>(ok, s').
     if ok then g s' else Some (False, s'\<lparr>bos_good := False\<rparr>))"

text \<open>\<^verbatim>\<open>write_string(len, x)\<close> on the storage of an \<^verbatim>\<open>ACE_CString\<close>: its characters and the final NUL.\<close>

definition write_string :: "string \<Rightarrow> bos \<Rightarrow> (bool \<times> bos) option" where
  "write_string x s =
     (let len = (word_of_nat (length x) :: u32) in
      if len \<noteq> 0
      then bos_then (write_ulong (len + 1)) (write_array (take (unat (len + 1)) (c_str x))) s
      else bos_then (write_ulong 1) (write_char (CHR 0x00)) s)"

fun write_boolean_array :: "bool list \<Rightarrow> bos \<Rightarrow> (bool \<times> bos) option" where
  "write_boolean_array [] s = Some (bos_good s, s)"
| "write_boolean_array (x # xs) s =
     (if bos_good s then Option.bind (write_boolean x s) (\<lambda>(ok, s'). write_boolean_array xs s')
      else Some (False, s))"

text \<open>Chaining a block that owns its data instead of copying it.\<close>

definition bos_chain :: "block \<Rightarrow> bos \<Rightarrow> bos" where
  "bos_chain b s = s\<lparr>bos_good := True, bos_done := bos_done s @ [bos_current s],
     bos_current := b, bos_next := [], current_is_writable := False\<rparr>"

fun write_octet_array_mb :: "mblock list \<Rightarrow> bos \<Rightarrow> (bool \<times> bos) option" where
  "write_octet_array_mb [] s = Some (True, s)"
| "write_octet_array_mb ((b, dont_delete) # mbs) s =
     (if dont_delete
         \<or> blk_length b < memcpy_tradeoff s
           \<and> blk_wr (bos_current s) + blk_length b < blk_size (bos_current s) then
        Option.bind (write_array (blk_data b) s) (\<lambda>(ok, s').
          if ok then write_octet_array_mb mbs s'
          else Some (False, s'\<lparr>bos_good := False\<rparr>))
      else if bos_new s then write_octet_array_mb mbs (bos_chain b s)
      else Some (False, s\<lparr>bos_good := False\<rparr>))"

fun bos_put :: "wop \<Rightarrow> bos \<Rightarrow> (bool \<times> bos) option" where
  "bos_put (WOctet x) s = write_1 x s"
| "bos_put (WBoolean x) s = write_boolean x s"
| "bos_put (WChar x) s = write_char x s"
| "bos_put (WShort x) s = write_2 x s"
| "bos_put (WUShort x) s = write_2 x s"
| "bos_put (WLong x) s = write_4 x s"
| "bos_put (WULong x) s = write_ulong x s"
| "bos_put (WLongLong x) s = write_8 x s"
| "bos_put (WULongLong x) s = write_8 x s"
| "bos_put (WFloat x) s = write_4 x s"
| "bos_put (WDouble x) s = write_8 x s"
| "bos_put (WString x) s = write_string x s"
| "bos_put (WBooleanArray xs) s = write_boolean_array xs s"
| "bos_put (WCharArray xs) s = write_array (map byte_of_char xs) s"
| "bos_put (WOctetArray xs) s = write_array xs s"
| "bos_put (WShortArray xs) s = write_array (concat (map le16 xs)) s"
| "bos_put (WUShortArray xs) s = write_array (concat (map le16 xs)) s"
| "bos_put (WLongArray xs) s = write_array (concat (map le32 xs)) s"
| "bos_put (WULongArray xs) s = write_array (concat (map le32 xs)) s"
| "bos_put (WLongLongArray xs) s = write_array (concat (map le64 xs)) s"
| "bos_put (WULongLongArray xs) s = write_array (concat (map le64 xs)) s"
| "bos_put (WFloatArray xs) s = write_array (concat (map le32 xs)) s"
| "bos_put (WDoubleArray xs) s = write_array (concat (map le64 xs)) s"
| "bos_put (WOctetArrayMb mbs) s = write_octet_array_mb mbs s"

text \<open>A serializer at work: the calls one after the other, results ignored.\<close>

fun run_ops :: "(wop \<Rightarrow> 's \<Rightarrow> (bool \<times> 's) option) \<Rightarrow> wop list \<Rightarrow> 's \<Rightarrow> 's option" where
  "run_ops put [] s = Some s"
| "run_ops put (op # ops) s = Option.bind (put op s) (\<lambda>(ok, s'). run_ops put ops s')"

definition bos_chain_blocks :: "bos \<Rightarrow> block list" where
  "bos_chain_blocks s = bos_done s @ [bos_current s]"

definition bos_total_length :: "bos \<Rightarrow> nat" where
  "bos_total_length s = sum_list (map blk_length (bos_chain_blocks s))"

definition bos_content :: "bos \<Rightarrow> byte list" where
  "bos_content s = concat (map blk_data (bos_chain_blocks s))"

definition bos_reset :: "bos \<Rightarrow> bos" where
  "bos_reset s = s\<lparr>bos_done := [], bos_current := mb_align (hd (bos_chain_blocks s)),
     bos_next := [], current_is_writable := True\<rparr>"

section \<open>The block chain holds what was written\<close>

definition alloc_ok :: "(nat \<Rightarrow> byte list option) \<Rightarrow> bool" where
  "alloc_ok alloc = (\<forall>n. \<exists>m. alloc n = Some m \<and> n \<le> length m)"

definition bos_ok :: "bos \<Rightarrow> bool" where
  "bos_ok s = (list_all blk_ok (bos_chain_blocks s) \<and> bos_next s = [] \<and> bos_good s
     \<and> consts_ok (bos_consts s) \<and> alloc_ok (bos_alloc s) \<and> bos_new s)"

text \<open>What a call that succeeds does to the stream.\<close>

definition appends :: "bos \<Rightarrow> (bool \<times> bos) option \<Rightarrow> byte list \<Rightarrow> bool" where
  "appends s r bs = (\<exists>t. r = Some (True, t) \<and> bos_ok t \<and> bos_content t = bos_content s @ bs)"

lemma appendsI [intro?]:
  "r = Some (True, t) \<Longrightarrow> bos_ok t \<Longrightarrow> bos_content t = bos_content s @ bs \<Longrightarrow> appends s r bs"
  by (auto simp: appends_def)

lemma appendsE [elim?]:
  assumes "appends s r bs"
  obtains t where "r = Some (True, t)" "bos_ok t" "bos_content t = bos_content s @ bs"
  using assms by (auto simp: appends_def)

lemma length_blk_data: "blk_ok b \<Longrightarrow> length (blk_data b) = blk_length b"
  by (auto simp: blk_ok_def blk_data_def blk_length_def blk_size_def)

lemma bos_total_length_content: "bos_ok s \<Longrightarrow> bos_total_length s = length (bos_content s)"
proof -
  have "list_all blk_ok bs \<Longrightarrow> sum_list (map blk_length bs) = length (concat (map blk_data bs))" for bs
    by (induction bs) (auto simp: length_blk_data)
  then show "bos_ok s \<Longrightarrow> ?thesis"
    by (simp add: bos_ok_def bos_total_length_def bos_content_def)
qed

text \<open>\<open>reserved n s t\<close>: \<open>t\<close> is \<open>s\<close> with \<open>n\<close> bytes reserved at the end of its current block.\<close>

definition reserved :: "nat \<Rightarrow> bos \<Rightarrow> bos \<Rightarrow> bool" where
  "reserved n s t = (bos_ok t \<and> blk_rd (bos_current t) + n \<le> blk_wr (bos_current t)
     \<and> bos_content s = concat (map blk_data (bos_done t))
         @ blk_data ((bos_current t)\<lparr>blk_wr := blk_wr (bos_current t) - n\<rparr>))"

lemma bos_adjust_fits:
  assumes "bos_ok s" "current_is_writable s"
    "blk_wr (bos_current s) + n \<le> blk_size (bos_current s)"
  shows "\<exists>t. bos_adjust n s = Some (True, t) \<and> reserved n s t"
  using assms
  by (subst bos_adjust.simps)
     (auto simp: reserved_def bos_ok_def bos_chain_blocks_def bos_content_def blk_ok_def blk_size_def)

lemma bos_grow_fresh:
  assumes "bos_ok s"
  shows "\<exists>t. bos_grow n s = Some (True, t) \<and> bos_ok t \<and> current_is_writable t
    \<and> bos_content t = bos_content s
    \<and> blk_wr (bos_current t) + n \<le> blk_size (bos_current t)"
proof -
  let ?m = "if n < blk_size (bos_current s) then blk_size (bos_current s) else n"
  from assms have next_Nil: "bos_next s = []" and "consts_ok (bos_consts s)"
    and al: "alloc_ok (bos_alloc s)" by (auto simp: bos_ok_def)
  from next_size_total [OF this(2)] obtain k
    where k: "next_size (bos_consts s) ?m = Some k" "?m < k" by blast
  from al obtain mem where mem: "bos_alloc s k = Some mem" "k \<le> length mem"
    by (auto simp: alloc_ok_def)
  let ?t = "bos_advance (s\<lparr>bos_good := True,
    bos_next := [\<lparr>blk_base = mem, blk_rd = 0, blk_wr = 0\<rparr>]\<rparr>)"
  from k mem next_Nil have "bos_grow n s = Some (True, ?t)"
    by (simp add: bos_grow_def Let_def)
  moreover have "bos_ok ?t" using assms
    by (auto simp: bos_ok_def bos_advance_def bos_chain_blocks_def blk_ok_def)
  moreover have "bos_content ?t = bos_content s"
    by (simp add: bos_content_def bos_chain_blocks_def bos_advance_def blk_data_def blk_length_def)
  moreover have "blk_wr (bos_current ?t) + n \<le> blk_size (bos_current ?t)"
    using k(2) mem(2) by (auto simp: bos_advance_def blk_size_def split: if_splits)
  moreover have "current_is_writable ?t" by (simp add: bos_advance_def)
  ultimately show ?thesis by blast
qed

lemma bos_adjust_reserves:
  assumes "bos_ok s"
  shows "\<exists>t. bos_adjust n s = Some (True, t) \<and> reserved n s t"
proof (cases "current_is_writable s \<and> blk_wr (bos_current s) + n \<le> blk_size (bos_current s)")
  case True
  with assms bos_adjust_fits show ?thesis by blast
next
  case False
  from bos_grow_fresh [OF assms] obtain t
    where t: "bos_grow n s = Some (True, t)" "bos_ok t" "current_is_writable t"
      "bos_content t = bos_content s" "blk_wr (bos_current t) + n \<le> blk_size (bos_current t)"
    by blast
  from False t(1) have "bos_adjust n s = bos_adjust n t"
    by (subst bos_adjust.simps) auto
  moreover from t(4) have "reserved n t u = reserved n s u" for u by (simp add: reserved_def)
  ultimately show ?thesis using bos_adjust_fits [OF t(2,3,5)] by auto
qed

lemma blk_data_poke:
  assumes "blk_rd b \<le> off" "off + n = blk_wr b" "blk_wr b \<le> blk_size b" "length bs \<le> n"
  shows "blk_data (blk_poke off bs b) = blk_data (b\<lparr>blk_wr := off\<rparr>) @ bs
    @ take (n - length bs) (drop (off + length bs) (blk_base b))"
proof -
  have "off \<le> length (blk_base b)" using assms by (simp add: blk_size_def)
  moreover have "blk_wr b - blk_rd b = (off - blk_rd b) + (length bs + (n - length bs))"
    using assms by simp
  ultimately show ?thesis using assms(1)
    by (simp add: blk_data_def blk_poke_def blk_length_def take_add drop_take)
qed

lemma bos_store_content:
  assumes "bos_ok s" "length bs \<le> n"
  shows "\<exists>junk. length junk = n - length bs \<and> appends s (bos_store n bs s) (bs @ junk)"
proof -
  from bos_adjust_reserves [OF assms(1)] obtain t
    where t: "bos_adjust n s = Some (True, t)" "reserved n s t" by blast
  let ?b = "bos_current t" let ?off = "blk_wr ?b - n"
  let ?u = "t\<lparr>bos_current := blk_poke ?off bs ?b\<rparr>"
  let ?junk = "take (n - length bs) (drop (?off + length bs) (blk_base ?b))"
  from t(2) have r: "bos_ok t" "blk_rd ?b + n \<le> blk_wr ?b"
    "bos_content s = concat (map blk_data (bos_done t)) @ blk_data (?b\<lparr>blk_wr := ?off\<rparr>)"
    by (auto simp: reserved_def)
  from r(1) have b: "blk_wr ?b \<le> blk_size ?b"
    by (simp add: bos_ok_def bos_chain_blocks_def blk_ok_def)
  have "bos_content ?u = concat (map blk_data (bos_done t)) @ blk_data (blk_poke ?off bs ?b)"
    by (simp add: bos_content_def bos_chain_blocks_def)
  also have "\<dots> = bos_content s @ bs @ ?junk"
    using blk_data_poke [of ?b ?off n bs] r(2) b assms(2) by (simp add: r(3))
  finally have "bos_content ?u = bos_content s @ bs @ ?junk" .
  moreover have "bos_ok ?u" using r(1,2) b assms(2)
    by (auto simp: bos_ok_def bos_chain_blocks_def blk_ok_def blk_poke_def blk_size_def)
  moreover have "bos_store n bs s = Some (True, ?u)" by (simp add: bos_store_def t(1))
  moreover have "length ?junk = n - length bs" using r(2) b assms(2) by (simp add: blk_size_def)
  ultimately show ?thesis by (metis appendsI)
qed

lemma bos_store_appends:
  "bos_ok s \<Longrightarrow> appends s (bos_store (length bs) bs s) bs"
  using bos_store_content [of s bs "length bs"] by simp

lemma bos_write_array: "bos_ok s \<Longrightarrow> appends s (write_array mem s) mem"
  using bos_store_appends [of s mem]
  by (cases "mem = []") (auto simp: write_array_def appends_def)

lemma bos_write_1: "bos_ok s \<Longrightarrow> appends s (write_1 x s) [x]"
  using bos_store_appends [of s "[x]"] by (simp add: write_1_def)

lemma bos_write_2: "bos_ok s \<Longrightarrow> appends s (write_2 x s) (le16 x)"
  using bos_store_appends [of s "le16 x"] by (simp add: write_2_def)

lemma bos_write_4: "bos_ok s \<Longrightarrow> appends s (write_4 x s) (le32 x)"
  using bos_store_appends [of s "le32 x"] by (simp add: write_4_def)

lemma bos_write_8:
  "bos_ok s \<Longrightarrow> \<exists>junk. length junk = 4 \<and> appends s (write_8 x s) (le32 (ucast x) @ junk)"
  using bos_store_content [of s "le32 (ucast x)" 8] by (simp add: write_8_def)

lemma bos_then_appends:
  assumes "appends s (f s) bs" "\<And>t. bos_ok t \<Longrightarrow> appends t (g t) cs"
  shows "appends s (bos_then f g s) (bs @ cs)"
proof -
  from assms(1) obtain t where t: "f s = Some (True, t)" "bos_ok t"
    "bos_content t = bos_content s @ bs" by (rule appendsE)
  with assms(2) [OF t(2)] show ?thesis by (auto simp: bos_then_def appends_def)
qed

lemma str_len_word:
  assumes "str_ok x"
  shows "(word_of_nat (length x) :: u32) = 0 \<longleftrightarrow> x = []"
    "unat (1 + word_of_nat (length x) :: u32) = Suc (length x)"
proof -
  from assms have l: "Suc (length x) < 2 ^ 32" by (simp add: str_ok_def)
  then have "unat (word_of_nat (length x) :: u32) = length x" by (simp add: unat_of_nat)
  then show "(word_of_nat (length x) :: u32) = 0 \<longleftrightarrow> x = []" by (metis length_0_conv unat_0 unat_eq_zero)
  have "(1 + word_of_nat (length x) :: u32) = word_of_nat (Suc (length x))" by simp
  then show "unat (1 + word_of_nat (length x) :: u32) = Suc (length x)"
    using l by (simp only: unat_of_nat) simp
qed

lemma bos_write_string:
  assumes "bos_ok s" "str_ok x"
  shows "appends s (write_string x s) (wop_bytes (WString x))"
proof (cases "x = []")
  case True
  have "appends s (bos_then (write_ulong 1) (write_char (CHR 0x00)) s) (le32 1 @ [0])"
    by (rule bos_then_appends)
       (use bos_write_4 [of s 1] bos_write_1 [of _ 0] assms in
         \<open>simp_all add: write_ulong_def write_char_def byte_of_char_def\<close>)
  with True show ?thesis by (simp add: write_string_def c_str_def)
next
  case False
  let ?len = "word_of_nat (length x) :: u32"
  have "appends s (bos_then (write_ulong (?len + 1)) (write_array (c_str x)) s)
    (le32 (?len + 1) @ c_str x)"
    by (rule bos_then_appends)
       (use bos_write_4 [of s "?len + 1"] bos_write_array assms in \<open>simp_all add: write_ulong_def\<close>)
  moreover have "take (unat (?len + 1)) (c_str x) = c_str x"
    using str_len_word(2) [OF assms(2)] by (simp add: c_str_def add.commute)
  ultimately show ?thesis using False str_len_word(1) [OF assms(2)]
    by (simp add: write_string_def add.commute)
qed

lemma bos_write_boolean_array:
  "bos_ok s \<Longrightarrow> appends s (write_boolean_array xs s) (map bool_byte xs)"
proof (induction xs arbitrary: s)
  case Nil
  then show ?case by (simp add: appends_def bos_ok_def)
next
  case (Cons x xs)
  from bos_write_1 [OF Cons.prems, of "bool_byte x"] obtain t
    where t: "write_boolean x s = Some (True, t)" "bos_ok t"
      "bos_content t = bos_content s @ [bool_byte x]"
    unfolding write_boolean_def by (rule appendsE)
  moreover have "bos_good s" using Cons.prems by (simp add: bos_ok_def)
  ultimately show ?case using Cons.IH [OF t(2)] by (auto simp: appends_def)
qed

lemma bos_chain_content:
  "bos_ok s \<Longrightarrow> blk_ok b \<Longrightarrow> bos_ok (bos_chain b s) \<and> bos_content (bos_chain b s) = bos_content s @ blk_data b"
  by (simp add: bos_chain_def bos_ok_def bos_content_def bos_chain_blocks_def)

lemma bos_write_octet_array_mb:
  "bos_ok s \<Longrightarrow> list_all (\<lambda>m. blk_ok (fst m)) mbs
    \<Longrightarrow> appends s (write_octet_array_mb mbs s) (concat (map (blk_data \<circ> fst) mbs))"
proof (induction mbs arbitrary: s)
  case Nil
  then show ?case by (simp add: appends_def)
next
  case (Cons m mbs)
  obtain b dd where m: "m = (b, dd)" by (cases m)
  have bok: "blk_ok b" and rest: "list_all (\<lambda>m. blk_ok (fst m)) mbs"
    using Cons.prems(2) m by auto
  from bos_write_array [OF Cons.prems(1), of "blk_data b"] obtain t
    where t: "write_array (blk_data b) s = Some (True, t)" "bos_ok t"
      "bos_content t = bos_content s @ blk_data b" by (rule appendsE)
  moreover have "bos_new s" using Cons.prems(1) by (simp add: bos_ok_def)
  ultimately show ?case
    using Cons.IH [OF t(2) rest] bos_chain_content [OF Cons.prems(1) bok]
      Cons.IH [of "bos_chain b s", OF _ rest]
    by (auto simp: m appends_def)
qed

lemma bos_put_appends:
  "bos_ok s \<Longrightarrow> wop_ok op \<Longrightarrow> plain op \<Longrightarrow> appends s (bos_put op s) (wop_bytes op)"
  by (cases op) (simp_all add: bos_write_1 bos_write_2 bos_write_4 bos_write_array
      bos_write_boolean_array bos_write_octet_array_mb write_boolean_def write_char_def
      write_ulong_def bos_write_string del: wop_bytes.simps(12))

section \<open>StreamSize\<close>

record stream_size =
  ss_good :: bool
  ss_size :: nat

definition ss_ctor :: stream_size where
  "ss_ctor = \<lparr>ss_good = True, ss_size = 0\<rparr>"

definition ss_reset :: "stream_size \<Rightarrow> stream_size" where
  "ss_reset s = s\<lparr>ss_size := 0\<rparr>"

definition ss_adjust :: "nat \<Rightarrow> stream_size \<Rightarrow> stream_size" where
  "ss_adjust n s = s\<lparr>ss_size := ss_size s + n\<rparr>"

definition ss_write_array :: "nat \<Rightarrow> nat \<Rightarrow> stream_size \<Rightarrow> stream_size" where
  "ss_write_array sz len s = (if len = 0 then s else ss_adjust (sz * len) s)"

definition ss_write_string :: "string \<Rightarrow> stream_size \<Rightarrow> stream_size" where
  "ss_write_string x s =
     (let len = (word_of_nat (length x) :: u32) in
      if len \<noteq> 0 then ss_write_array 1 (unat (len + 1)) (ss_adjust 4 s)
      else ss_adjust 1 (ss_adjust 4 s))"

text \<open>The loop of \<^verbatim>\<open>write_octet_array_mb\<close> walks the chain with \<^verbatim>\<open>i\<close> and adds \<^verbatim>\<open>mb->length()\<close>, the length
  of the head, once per block.\<close>

fun ss_write_octet_array_mb :: "block \<Rightarrow> mblock list \<Rightarrow> stream_size \<Rightarrow> stream_size" where
  "ss_write_octet_array_mb mb [] s = s"
| "ss_write_octet_array_mb mb (i # is) s =
     ss_write_octet_array_mb mb is (ss_adjust (blk_length mb) s)"

fun ss_put :: "wop \<Rightarrow> stream_size \<Rightarrow> (bool \<times> stream_size) option" where
  "ss_put (WOctet x) s = Some (True, ss_adjust 1 s)"
| "ss_put (WBoolean x) s = Some (True, ss_adjust 1 s)"
| "ss_put (WChar x) s = Some (True, ss_adjust 1 s)"
| "ss_put (WShort x) s = Some (True, ss_adjust 2 s)"
| "ss_put (WUShort x) s = Some (True, ss_adjust 2 s)"
| "ss_put (WLong x) s = Some (True, ss_adjust 4 s)"
| "ss_put (WULong x) s = Some (True, ss_adjust 4 s)"
| "ss_put (WLongLong x) s = Some (True, ss_adjust 8 s)"
| "ss_put (WULongLong x) s = Some (True, ss_adjust 8 s)"
| "ss_put (WFloat x) s = Some (True, ss_adjust 4 s)"
| "ss_put (WDouble x) s = Some (True, ss_adjust 8 s)"
| "ss_put (WString x) s = Some (True, ss_write_string x s)"
| "ss_put (WBooleanArray xs) s = Some (True, ss_adjust (length xs) s)"
| "ss_put (WCharArray xs) s = Some (True, ss_write_array 1 (length xs) s)"
| "ss_put (WOctetArray xs) s = Some (True, ss_write_array 1 (length xs) s)"
| "ss_put (WShortArray xs) s = Some (True, ss_write_array 2 (length xs) s)"
| "ss_put (WUShortArray xs) s = Some (True, ss_write_array 2 (length xs) s)"
| "ss_put (WLongArray xs) s = Some (True, ss_write_array 4 (length xs) s)"
| "ss_put (WULongArray xs) s = Some (True, ss_write_array 4 (length xs) s)"
| "ss_put (WLongLongArray xs) s = Some (True, ss_write_array 8 (length xs) s)"
| "ss_put (WULongLongArray xs) s = Some (True, ss_write_array 8 (length xs) s)"
| "ss_put (WFloatArray xs) s = Some (True, ss_write_array 4 (length xs) s)"
| "ss_put (WDoubleArray xs) s = Some (True, ss_write_array 8 (length xs) s)"
| "ss_put (WOctetArrayMb mbs) s = Some (True,
     (case mbs of [] \<Rightarrow> s | (mb, f) # _ \<Rightarrow> ss_write_octet_array_mb mb mbs s))"

text \<open>\<^verbatim>\<open>getSerializationSize\<close> runs the serializer on a fresh counter.\<close>

definition serialization_size :: "wop list \<Rightarrow> nat option" where
  "serialization_size ops = map_option ss_size (run_ops ss_put ops ss_ctor)"

text \<open>Chains whose blocks are all as long as the head are counted right.\<close>

fun mb_uniform :: "wop \<Rightarrow> bool" where
  "mb_uniform (WOctetArrayMb mbs) =
     list_all (\<lambda>m. blk_length (fst m) = blk_length (fst (hd mbs))) mbs"
| "mb_uniform _ = True"

lemma ss_adjust_size [simp]: "ss_size (ss_adjust n s) = ss_size s + n"
  by (simp add: ss_adjust_def)

lemma ss_write_array_size [simp]: "ss_size (ss_write_array sz len s) = ss_size s + sz * len"
  by (simp add: ss_write_array_def)

lemma ss_mb_size:
  "ss_size (ss_write_octet_array_mb mb mbs s) = ss_size s + blk_length mb * length mbs"
  by (induction mbs arbitrary: s) auto

lemma ss_mb_uniform:
  assumes "list_all (\<lambda>m. blk_ok (fst m)) mbs" "list_all (\<lambda>m. blk_length (fst m) = n) mbs"
  shows "length (concat (map (blk_data \<circ> fst) mbs)) = n * length mbs"
  using assms by (induction mbs) (auto simp: length_blk_data)

lemma ss_string_size:
  "str_ok x \<Longrightarrow> ss_size (ss_write_string x s) = ss_size s + length (wop_bytes (WString x))"
  using str_len_word [of x] by (auto simp: ss_write_string_def Let_def c_str_def add.commute)

lemma ss_put_size:
  assumes "wop_ok op" "mb_uniform op"
  shows "\<exists>t. ss_put op s = Some (True, t) \<and> ss_size t = ss_size s + length (wop_bytes op)"
proof (cases op)
  case (WString x)
  with assms show ?thesis by (simp add: ss_string_size del: wop_bytes.simps)
next
  case (WOctetArrayMb mbs)
  with assms show ?thesis
    using ss_mb_uniform [of mbs "blk_length (fst (hd mbs))"]
    by (cases mbs) (auto simp: ss_mb_size simp del: ss_write_octet_array_mb.simps)
qed (simp_all add: length_concat_const [where n = 2] length_concat_const [where n = 4]
       length_concat_const [where n = 8])

section \<open>The contract of an output stream\<close>

locale output_stream =
  fixes put :: "wop \<Rightarrow> 's \<Rightarrow> (bool \<times> 's) option"
    and inv :: "'s \<Rightarrow> bool"
    and total_length :: "'s \<Rightarrow> nat"
    and accepts :: "wop \<Rightarrow> bool"
  assumes put_total: "inv s \<Longrightarrow> accepts op \<Longrightarrow>
    \<exists>t. put op s = Some (True, t) \<and> inv t
      \<and> total_length t = total_length s + length (wop_bytes op)"
begin

lemma run_total:
  "inv s \<Longrightarrow> list_all accepts ops \<Longrightarrow>
    \<exists>t. run_ops put ops s = Some t \<and> inv t
      \<and> total_length t = total_length s + length (encode ops)"
proof (induction ops arbitrary: s)
  case Nil
  then show ?case by simp
next
  case (Cons op ops)
  from Cons.prems put_total [of s op] obtain t
    where t: "put op s = Some (True, t)" "inv t"
      "total_length t = total_length s + length (wop_bytes op)" by auto
  with Cons.IH [of t] Cons.prems show ?case by auto
qed

end

locale byte_sink = output_stream +
  fixes content :: "'a \<Rightarrow> byte list"
    and exact :: "wop \<Rightarrow> bool"
  assumes put_content: "inv s \<Longrightarrow> accepts op \<Longrightarrow> exact op \<Longrightarrow> put op s = Some (b, t)
    \<Longrightarrow> content t = content s @ wop_bytes op"
begin

lemma run_content:
  "inv s \<Longrightarrow> list_all accepts ops \<Longrightarrow> list_all exact ops \<Longrightarrow>
    \<exists>t. run_ops put ops s = Some t \<and> inv t \<and> content t = content s @ encode ops"
proof (induction ops arbitrary: s)
  case Nil
  then show ?case by simp
next
  case (Cons op ops)
  from Cons.prems put_total [of s op] obtain t
    where t: "put op s = Some (True, t)" "inv t" by auto
  from put_content [OF _ _ _ t(1)] Cons.prems have "content t = content s @ wop_bytes op" by simp
  with t Cons.IH [of t] Cons.prems show ?case by auto
qed

end

lemma bos_put_total:
  assumes "bos_ok s" "wop_ok op"
  shows "\<exists>t. bos_put op s = Some (True, t) \<and> bos_ok t
    \<and> bos_total_length t = bos_total_length s + length (wop_bytes op)"
proof (cases "plain op")
  case True
  from bos_put_appends [OF assms True] obtain t
    where "bos_put op s = Some (True, t)" "bos_ok t" "bos_content t = bos_content s @ wop_bytes op"
    by (rule appendsE)
  with assms show ?thesis by (simp add: bos_total_length_content)
next
  case False
  then obtain x where x: "bos_put op s = write_8 x s" "length (wop_bytes op) = 8"
    by (cases op) auto
  from bos_write_8 [OF assms(1), of x] obtain junk
    where j: "length junk = 4" "appends s (write_8 x s) (le32 (ucast x) @ junk)" by blast
  from j(2) obtain t where "write_8 x s = Some (True, t)" "bos_ok t"
    "bos_content t = bos_content s @ le32 (ucast x) @ junk" by (rule appendsE)
  with x j(1) assms show ?thesis by (simp add: bos_total_length_content)
qed

interpretation bos: byte_sink bos_put bos_ok bos_total_length wop_ok bos_content plain
proof
  fix s op
  assume "bos_ok s" "wop_ok op"
  then show "\<exists>t. bos_put op s = Some (True, t) \<and> bos_ok t
    \<and> bos_total_length t = bos_total_length s + length (wop_bytes op)" by (rule bos_put_total)
next
  fix s op b t
  assume "bos_ok s" "wop_ok op" "plain op" "bos_put op s = Some (b, t)"
  with bos_put_appends [of s op] show "bos_content t = bos_content s @ wop_bytes op"
    by (auto simp: appends_def)
qed

interpretation ss: output_stream ss_put "\<lambda>_. True" ss_size "\<lambda>op. wop_ok op \<and> mb_uniform op"
  by unfold_locales (simp add: ss_put_size)

lemma bos_ctor_ok:
  assumes "consts_ok c" "alloc_ok alloc"
  shows "bos_ok (bos_ctor c alloc True tr sz)" "bos_content (bos_ctor c alloc True tr sz) = []"
  using assms by (simp_all add: bos_ctor_def bos_ok_def bos_chain_blocks_def mb_align_def blk_ok_def
      Let_def bos_content_def blk_data_def blk_length_def)

lemma bos_reset_ok:
  assumes "bos_ok s"
  shows "bos_ok (bos_reset s)" "bos_content (bos_reset s) = []"
  using assms by (simp_all add: bos_reset_def bos_ok_def bos_chain_blocks_def mb_align_def blk_ok_def
      bos_content_def blk_data_def blk_length_def)

section \<open>Properties of the output streams\<close>


definition sample_consts :: rdr_consts where
  "sample_consts = \<lparr>DEFAULT_BUFSIZE = 4, EXP_GROWTH_MAX = 64, LINEAR_GROWTH_CHUNK = 64\<rparr>"

definition zero_alloc :: "nat \<Rightarrow> byte list option" where
  "zero_alloc n = Some (replicate n 0)"

lemma sample_stream_ok [simp]: "consts_ok sample_consts" "alloc_ok zero_alloc"
  by (simp_all add: consts_ok_def sample_consts_def alloc_ok_def zero_alloc_def)




text \<open>Buffer growth terminates. With a positive initial size and a positive linear chunk,
  \<^verbatim>\<open>RDR::next_size\<close> returns, and returns a size strictly above the one asked for, so a grown chain
  always has room for the call that made it grow.\<close>

lemma next_size_returns:
  assumes "consts_ok c"
  shows "\<exists>y. next_size c minsize = Some y \<and> minsize < y"
  using assms by (rule next_size_total)

lemma next_size_returns_witness: "\<exists>y. next_size sample_consts 1000 = Some y \<and> 1000 < y"
  by (rule next_size_returns) simp

text \<open>Allocation failure is contained. When the current block is full (or shared) and the
  allocator has no storage, or less than asked, \<^verbatim>\<open>adjust\<close> reports failure, clears the good bit and
  changes neither the chain nor the bytes written so far.\<close>

lemma bos_adjust_no_memory:
  assumes "consts_ok (bos_consts s)" "bos_next s = []"
    "\<not> (current_is_writable s \<and> blk_wr (bos_current s) + n \<le> blk_size (bos_current s))"
    "\<forall>k. bos_alloc s k = None \<or> (\<exists>m. bos_alloc s k = Some m \<and> length m < k)"
  shows "bos_adjust n s = Some (False, s\<lparr>bos_good := False\<rparr>)"
proof -
  let ?m = "if n < blk_size (bos_current s) then blk_size (bos_current s) else n"
  from next_size_total [OF assms(1)] obtain k where k: "next_size (bos_consts s) ?m = Some k" by blast
  have "bos_grow n s = Some (False, s\<lparr>bos_good := False\<rparr>)"
    using k assms(2) spec [OF assms(4), of k] by (auto simp: bos_grow_def Let_def)
  with assms(3) show ?thesis by (subst bos_adjust.simps) auto
qed

text \<open>A divergence between the two streams. For a chain of message blocks the counter adds the
  length of the head once per block, so the announced size is the head's length times the number
  of blocks, which is not the number of bytes written unless the lengths happen to average so.\<close>

lemma stream_size_mb_chain:
  "serialization_size [WOctetArrayMb ((b, f) # mbs)] = Some (blk_length b * Suc (length mbs))
   \<and> serialization_size
       [WOctetArrayMb [(\<lparr>blk_base = [1], blk_rd = 0, blk_wr = 1\<rparr>, True),
                       (\<lparr>blk_base = [2, 3], blk_rd = 0, blk_wr = 2\<rparr>, True)]] = Some 2
   \<and> length (encode
       [WOctetArrayMb [(\<lparr>blk_base = [1], blk_rd = 0, blk_wr = 1\<rparr>, True),
                       (\<lparr>blk_base = [2, 3], blk_rd = 0, blk_wr = 2\<rparr>, True)]]) = 3"
  by (simp add: serialization_size_def ss_ctor_def ss_mb_size blk_length_def blk_data_def)

end
