(* ===== verification/InStreams.thy ===== *)
theory InStreams
  imports OutStreams
begin

text \<open>
  \<^verbatim>\<open>ByteInputStream\<close> of \<^verbatim>\<open>euryale/common/io\<close>: reading from one consolidated message block. The state
  is the data between \<^verbatim>\<open>rd_ptr\<close> and \<^verbatim>\<open>wr_ptr\<close> and the good bit. A read has the old value of the
  variable it is given as an argument, because a failed read leaves the variable alone and the
  deserializers ignore the result. \<open>bis_ub\<close> records that the code went on to behaviour C++ leaves
  undefined (a scan past the end of a heap buffer, a write out of bounds).
\<close>

section \<open>Primitive reads\<close>

record bis =
  bis_rest :: "byte list"
  bis_good :: bool
  bis_ub :: bool

abbreviation input :: "byte list \<Rightarrow> bis" where
  "input bs \<equiv> \<lparr>bis_rest = bs, bis_good = True, bis_ub = False\<rparr>"

definition bis_length :: "bis \<Rightarrow> nat" where
  "bis_length s = length (bis_rest s)"

definition bis_fail :: "bis \<Rightarrow> bis" where
  "bis_fail s = s\<lparr>bis_good := False\<rparr>"

definition bis_undef :: "bis \<Rightarrow> bis" where
  "bis_undef s = s\<lparr>bis_ub := True\<rparr>"

text \<open>\<^verbatim>\<open>adjust\<close>: the bytes at \<^verbatim>\<open>buf\<close> when the stream holds enough of them.\<close>

definition bis_adjust :: "nat \<Rightarrow> bis \<Rightarrow> byte list option \<times> bis" where
  "bis_adjust n s =
     (if n \<le> length (bis_rest s)
      then (Some (take n (bis_rest s)), s\<lparr>bis_rest := drop n (bis_rest s)\<rparr>)
      else (None, bis_fail s))"

definition read_1 :: "byte \<Rightarrow> bis \<Rightarrow> bool \<times> byte \<times> bis" where
  "read_1 x s = (case bis_rest s of
      b # bs \<Rightarrow> (True, b, s\<lparr>bis_rest := bs\<rparr>)
    | [] \<Rightarrow> (False, x, bis_fail s))"

definition read_2 :: "u16 \<Rightarrow> bis \<Rightarrow> bool \<times> u16 \<times> bis" where
  "read_2 x s = (case bis_adjust 2 s of
      (Some bs, s') \<Rightarrow> (True, word_of_nat (le_nat bs), s')
    | (None, s') \<Rightarrow> (False, x, bis_fail s'))"

definition read_4 :: "u32 \<Rightarrow> bis \<Rightarrow> bool \<times> u32 \<times> bis" where
  "read_4 x s = (case bis_adjust 4 s of
      (Some bs, s') \<Rightarrow> (True, word_of_nat (le_nat bs), s')
    | (None, s') \<Rightarrow> (False, x, bis_fail s'))"

text \<open>\<^verbatim>\<open>read_8\<close> takes eight bytes and reads them through a \<^verbatim>\<open>ULong*\<close> (32 bits).\<close>

definition read_8 :: "u64 \<Rightarrow> bis \<Rightarrow> bool \<times> u64 \<times> bis" where
  "read_8 x s = (case bis_adjust 8 s of
      (Some bs, s') \<Rightarrow> (True, ucast (word_of_nat (le_nat (take 4 bs)) :: u32), s')
    | (None, s') \<Rightarrow> (False, x, bis_fail s'))"

definition read_octet :: "byte \<Rightarrow> bis \<Rightarrow> bool \<times> byte \<times> bis" where
  "read_octet x s = read_1 x s"

definition read_boolean :: "bis \<Rightarrow> bool \<times> bool \<times> bis" where
  "read_boolean s = (let (ok, tmp, s') = read_octet 0 s in (bis_good s', tmp \<noteq> 0, s'))"

definition read_char :: "char \<Rightarrow> bis \<Rightarrow> bool \<times> char \<times> bis" where
  "read_char x s = (let (ok, b, s') = read_1 (byte_of_char x) s in (ok, char_of_byte b, s'))"

definition read_short :: "u16 \<Rightarrow> bis \<Rightarrow> bool \<times> u16 \<times> bis" where
  "read_short x s = read_2 x s"

definition read_ushort :: "u16 \<Rightarrow> bis \<Rightarrow> bool \<times> u16 \<times> bis" where
  "read_ushort x s = read_2 x s"

definition read_long :: "u32 \<Rightarrow> bis \<Rightarrow> bool \<times> u32 \<times> bis" where
  "read_long x s = read_4 x s"

definition read_ulong :: "u32 \<Rightarrow> bis \<Rightarrow> bool \<times> u32 \<times> bis" where
  "read_ulong x s = read_4 x s"

definition read_longlong :: "u64 \<Rightarrow> bis \<Rightarrow> bool \<times> u64 \<times> bis" where
  "read_longlong x s = read_8 x s"

definition read_ulonglong :: "u64 \<Rightarrow> bis \<Rightarrow> bool \<times> u64 \<times> bis" where
  "read_ulonglong x s = read_8 x s"

section \<open>Arrays and strings\<close>

text \<open>\<^verbatim>\<open>read_array\<close> into a caller's array, given and returned as its bytes.\<close>

definition read_array :: "nat \<Rightarrow> u32 \<Rightarrow> byte list \<Rightarrow> bis \<Rightarrow> bool \<times> byte list \<times> bis" where
  "read_array sz len x s =
     (if len = 0 then (True, x, s)
      else case bis_adjust (sz * unat len) s of
        (Some bs, s') \<Rightarrow> (bis_good s', bs @ drop (length bs) x, s')
      | (None, s') \<Rightarrow> (False, x, s'))"

text \<open>The guard of the typed array reads multiplies a \<^verbatim>\<open>UInt\<close> by the element size, at 32 bits;
  \<open>read_array\<close> multiplies at the width of \<^verbatim>\<open>size_t\<close>.\<close>

definition read_elems :: "nat \<Rightarrow> u32 \<Rightarrow> byte list \<Rightarrow> bis \<Rightarrow> bool \<times> byte list \<times> bis" where
  "read_elems sz len x s =
     (if bis_length s < unat (len * word_of_nat sz) then (False, x, bis_fail s)
      else read_array sz len x s)"

definition read_octet_array :: "u32 \<Rightarrow> byte list \<Rightarrow> bis \<Rightarrow> bool \<times> byte list \<times> bis" where
  "read_octet_array len x s = read_elems 1 len x s"

definition read_char_array :: "u32 \<Rightarrow> byte list \<Rightarrow> bis \<Rightarrow> bool \<times> byte list \<times> bis" where
  "read_char_array len x s =
     (if bis_length s < unat len then (False, x, bis_fail s) else read_array 1 len x s)"

definition read_short_array :: "u32 \<Rightarrow> byte list \<Rightarrow> bis \<Rightarrow> bool \<times> byte list \<times> bis" where
  "read_short_array len x s = read_elems 2 len x s"

definition read_long_array :: "u32 \<Rightarrow> byte list \<Rightarrow> bis \<Rightarrow> bool \<times> byte list \<times> bis" where
  "read_long_array len x s = read_elems 4 len x s"

definition read_longlong_array :: "u32 \<Rightarrow> byte list \<Rightarrow> bis \<Rightarrow> bool \<times> byte list \<times> bis" where
  "read_longlong_array len x s = read_elems 8 len x s"

fun read_boolean_loop :: "nat \<Rightarrow> bool list \<Rightarrow> bis \<Rightarrow> bool list \<times> bis" where
  "read_boolean_loop 0 x s = (x, s)"
| "read_boolean_loop (Suc n) x s =
     (if bis_good s then
        let (ok, b, s') = read_boolean s; (bs, t) = read_boolean_loop n (drop 1 x) s' in (b # bs, t)
      else (x, s))"

definition read_boolean_array :: "u32 \<Rightarrow> bool list \<Rightarrow> bis \<Rightarrow> bool \<times> bool list \<times> bis" where
  "read_boolean_array len x s =
     (if bis_length s < unat len then (False, x, bis_fail s)
      else let (bs, t) = read_boolean_loop (unat len) x s in (bis_good t, bs, t))"

text \<open>\<^verbatim>\<open>read_string(Char*&)\<close>: the new buffer, or None for the null pointer of the failing path.\<close>

definition read_string_buf :: "bis \<Rightarrow> byte list option \<times> bis" where
  "read_string_buf s =
     (let (ok, len, s1) = read_ulong 0 s in
      if \<not> ok then (None, s1)
      else if 0 < len \<and> unat len \<le> bis_length s1 then
        let (ok2, x, s2) = read_char_array len (replicate (unat len) 0) s1
        in if ok2 then (Some x, s2) else (None, bis_fail s2)
      else if len = 0 then (Some [0], s1)
      else (None, bis_fail s1))"

text \<open>\<^verbatim>\<open>read_string(ACE_CString&)\<close>: assigning a \<^verbatim>\<open>char*\<close> scans for the NUL.\<close>

definition read_string :: "bis \<Rightarrow> bool \<times> string \<times> bis" where
  "read_string s = (case read_string_buf s of
      (Some buf, s') \<Rightarrow> (True, map char_of_byte (takeWhile (\<lambda>b. b \<noteq> 0) buf),
         if 0 \<in> set buf then s' else bis_undef s')
    | (None, s') \<Rightarrow> (False, [], bis_fail s'))"

definition skip_bytes :: "nat \<Rightarrow> bis \<Rightarrow> bool \<times> bis" where
  "skip_bytes len s =
     (if len \<le> length (bis_rest s) then (True, s\<lparr>bis_rest := drop len (bis_rest s)\<rparr>)
      else (False, bis_fail s))"

definition skip_string :: "bis \<Rightarrow> bool \<times> bis" where
  "skip_string s =
     (let (ok, len, s1) = read_ulong 0 s in
      if ok then
        if unat len \<le> length (bis_rest s1)
        then (True, s1\<lparr>bis_rest := drop (unat len) (bis_rest s1)\<rparr>)
        else (False, bis_fail s1)
      else (False, s1))"

section \<open>Reading back\<close>

lemma bis_adjust_append:
  "length bs = n \<Longrightarrow> bis_adjust n (input (bs @ r)) = (Some bs, input r)"
  by (simp add: bis_adjust_def)

lemma read_octet_back [roundtrip]: "read_octet x0 (input (x # r)) = (True, x, input r)"
  by (simp add: read_octet_def read_1_def)

lemma read_boolean_back [roundtrip]: "read_boolean (input (bool_byte x # r)) = (True, x, input r)"
  by (simp add: read_boolean_def read_octet_back bool_byte_def)

lemma read_char_back [roundtrip]:
  "read_char x0 (input (byte_of_char x # r)) = (True, x, input r)"
  by (simp add: read_char_def read_1_def)

lemma read_ushort_back [roundtrip]: "read_ushort x0 (input (le16 x @ r)) = (True, x, input r)"
  by (simp add: read_ushort_def read_2_def bis_adjust_append)

lemma read_short_back [roundtrip]: "read_short x0 (input (le16 x @ r)) = (True, x, input r)"
  by (simp add: read_short_def read_2_def bis_adjust_append)

lemma read_ulong_back [roundtrip]: "read_ulong x0 (input (le32 x @ r)) = (True, x, input r)"
  by (simp add: read_ulong_def read_4_def bis_adjust_append)

lemma read_long_back [roundtrip]: "read_long x0 (input (le32 x @ r)) = (True, x, input r)"
  by (simp add: read_long_def read_4_def bis_adjust_append)

lemma read_ulonglong_low:
  assumes "length junk = 4"
  shows "read_ulonglong x0 (input ((le32 x @ junk) @ r)) = (True, ucast x, input r)"
proof -
  have "bis_adjust 8 (input ((le32 x @ junk) @ r)) = (Some (le32 x @ junk), input r)"
    by (rule bis_adjust_append) (simp add: assms)
  then show ?thesis by (simp add: read_ulonglong_def read_8_def)
qed

lemma read_octet_array_back [roundtrip]:
  assumes "length xs < 2 ^ 32" "length x0 = length xs"
  shows "read_octet_array (word_of_nat (length xs)) x0 (input (xs @ r)) = (True, xs, input r)"
proof -
  have l: "unat (word_of_nat (length xs) :: u32) = length xs" using assms(1) by (simp add: unat_of_nat)
  show ?thesis
  proof (cases "xs = []")
    case True
    with assms show ?thesis by (simp add: read_octet_array_def read_elems_def read_array_def bis_length_def)
  next
    case False
    then have "(word_of_nat (length xs) :: u32) \<noteq> 0" using l by (metis length_0_conv unat_0)
    with l assms(2) show ?thesis
      by (simp add: read_octet_array_def read_elems_def read_array_def bis_length_def bis_adjust_append)
  qed
qed

lemma takeWhile_c_str: "CHR 0x00 \<notin> set s \<Longrightarrow> takeWhile (\<lambda>b. b \<noteq> 0) (c_str s) = map byte_of_char s"
  unfolding c_str_def by (subst takeWhile_append2) auto

text \<open>Strings come back when they hold no NUL, which the assignment from \<^verbatim>\<open>char*\<close> would stop at.\<close>

definition text_ok :: "string \<Rightarrow> bool" where
  "text_ok s = (str_ok s \<and> CHR 0x00 \<notin> set s)"

lemma read_string_back [roundtrip]:
  assumes "text_ok s"
  shows "read_string (input (le32 (word_of_nat (Suc (length s))) @ c_str s @ r)) = (True, s, input r)"
proof -
  let ?n = "word_of_nat (Suc (length s)) :: u32"
  from assms have s: "str_ok s" "CHR 0x00 \<notin> set s" by (auto simp: text_ok_def)
  have n: "unat ?n = Suc (length s)" using s(1) by (simp only: str_ok_def unat_of_nat) simp
  then have "?n \<noteq> 0" by (metis nat.simps(3) unat_0)
  then have pos: "0 < ?n" by (simp add: word_neq_0_conv)
  have l: "length (c_str s) = Suc (length s)" by (simp add: c_str_def)
  have buf: "read_string_buf (input (le32 ?n @ c_str s @ r)) = (Some (c_str s), input r)"
    using n pos \<open>?n \<noteq> 0\<close> l
    by (simp add: read_string_buf_def read_ulong_back bis_length_def read_char_array_def
        read_array_def bis_adjust_append del: of_nat_Suc)
  have "0 \<in> set (c_str s)" by (simp add: c_str_def)
  then show ?thesis using buf takeWhile_c_str [OF s(2)]
    by (simp add: read_string_def del: of_nat_Suc)
qed

section \<open>Reads never lengthen the input\<close>

lemma shrink_flags [shrink]:
  "bis_length s \<le> n \<Longrightarrow> bis_length (bis_fail s) \<le> n"
  "bis_length s \<le> n \<Longrightarrow> bis_length (bis_undef s) \<le> n"
  by (simp_all add: bis_length_def bis_fail_def bis_undef_def)

lemma shrink_adjust [shrink]: "bis_length s \<le> n \<Longrightarrow> bis_length (snd (bis_adjust k s)) \<le> n"
  by (auto simp: bis_length_def bis_adjust_def bis_fail_def)

lemma shrink_read_1 [shrink]: "bis_length s \<le> n \<Longrightarrow> bis_length (snd (snd (read_1 x s))) \<le> n"
  by (auto simp: bis_length_def read_1_def bis_fail_def split: list.splits)

lemma shrink_read_words [shrink]:
  "bis_length s \<le> n \<Longrightarrow> bis_length (snd (snd (read_2 x s))) \<le> n"
  "bis_length s \<le> n \<Longrightarrow> bis_length (snd (snd (read_4 y s))) \<le> n"
  "bis_length s \<le> n \<Longrightarrow> bis_length (snd (snd (read_8 z s))) \<le> n"
  by (auto simp: bis_length_def read_2_def read_4_def read_8_def bis_adjust_def bis_fail_def)

lemma shrink_read_scalars [shrink]:
  "bis_length s \<le> n \<Longrightarrow> bis_length (snd (snd (read_octet x s))) \<le> n"
  "bis_length s \<le> n \<Longrightarrow> bis_length (snd (snd (read_boolean s))) \<le> n"
  "bis_length s \<le> n \<Longrightarrow> bis_length (snd (snd (read_short y s))) \<le> n"
  "bis_length s \<le> n \<Longrightarrow> bis_length (snd (snd (read_ushort y s))) \<le> n"
  "bis_length s \<le> n \<Longrightarrow> bis_length (snd (snd (read_long z s))) \<le> n"
  "bis_length s \<le> n \<Longrightarrow> bis_length (snd (snd (read_ulong z s))) \<le> n"
  by (simp_all add: read_octet_def read_boolean_def read_short_def read_ushort_def read_long_def
      read_ulong_def Let_def case_prod_unfold shrink)

lemma shrink_read_array [shrink]:
  "bis_length s \<le> n \<Longrightarrow> bis_length (snd (snd (read_array sz len x s))) \<le> n"
  by (auto simp: bis_length_def read_array_def bis_adjust_def bis_fail_def)

lemma shrink_read_arrays [shrink]:
  "bis_length s \<le> n \<Longrightarrow> bis_length (snd (snd (read_octet_array len x s))) \<le> n"
  "bis_length s \<le> n \<Longrightarrow> bis_length (snd (snd (read_char_array len x s))) \<le> n"
  by (simp_all add: read_octet_array_def read_char_array_def read_elems_def shrink)

lemma shrink_read_string_buf [shrink]: "bis_length s \<le> n \<Longrightarrow> bis_length (snd (read_string_buf s)) \<le> n"
  by (simp add: read_string_buf_def Let_def case_prod_unfold shrink)

lemma shrink_read_string [shrink]: "bis_length s \<le> n \<Longrightarrow> bis_length (snd (snd (read_string s))) \<le> n"
proof -
  assume "bis_length s \<le> n"
  moreover obtain r s' where r: "read_string_buf s = (r, s')" by fastforce
  ultimately have "bis_length s' \<le> n" using shrink_read_string_buf [of s n] by simp
  then show ?thesis by (cases r) (simp_all add: read_string_def r shrink_flags)
qed

text \<open>A positive count was really read: it took four bytes.\<close>

lemma read_long_progress:
  "fst (snd (read_long 0 s)) \<noteq> 0 \<Longrightarrow> bis_length (snd (snd (read_long 0 s))) < bis_length s"
  by (auto simp: read_long_def read_4_def bis_adjust_def bis_length_def bis_fail_def split: if_splits)

section \<open>Properties of the input stream\<close>

text \<open>64-bit scalars keep their low half only. What \<^verbatim>\<open>write_ulonglong\<close> (and \<^verbatim>\<open>write_longlong\<close>,
  \<^verbatim>\<open>write_double\<close>) appends to a well-formed stream occupies eight bytes, and \<^verbatim>\<open>read_ulonglong\<close> returns
  from them the value modulo \<open>2 ^ 32\<close>: values below \<open>2 ^ 32\<close> survive, no others.\<close>

lemma ulonglong_low_half:
  assumes "bos_ok s"
  shows "\<exists>t bs. bos_put (WULongLong x) s = Some (True, t) \<and> bos_content t = bos_content s @ bs
    \<and> length bs = 8 \<and> read_ulonglong x0 (input (bs @ r)) = (True, ucast (ucast x :: u32), input r)
    \<and> ((ucast (ucast x :: u32) :: u64) = x \<longleftrightarrow> unat x < 2 ^ 32)"
proof -
  from bos_write_8 [OF assms, of x] obtain junk
    where j: "length junk = 4" "appends s (write_8 x s) (le32 (ucast x) @ junk)" by blast
  from j(2) obtain t where "write_8 x s = Some (True, t)" "bos_content t = bos_content s @ le32 (ucast x) @ junk"
    by (rule appendsE)
  moreover have "(ucast (ucast x :: u32) :: u64) = x \<longleftrightarrow> unat x < 2 ^ 32"
  proof -
    have u: "unat (ucast (ucast x :: u32) :: u64) = unat x mod 2 ^ 32"
      by (simp add: unsigned_ucast_eq take_bit_eq_mod unat_mod_distrib)
    show ?thesis
    proof
      assume "(ucast (ucast x :: u32) :: u64) = x"
      with u have "unat x = unat x mod 2 ^ 32" by simp
      then show "unat x < 2 ^ 32" by (metis mod_less_divisor zero_less_numeral zero_less_power)
    next
      assume "unat x < 2 ^ 32"
      with u show "(ucast (ucast x :: u32) :: u64) = x" by (simp add: unsigned_word_eqI)
    qed
  qed
  ultimately show ?thesis using j(1) read_ulonglong_low [OF j(1), of x0 "ucast x" r]
    by (intro exI [of _ t] exI [of _ "le32 (ucast x) @ junk"]) simp
qed

text \<open>C40: array reads stay inside the buffer. The guard of the typed array reads wraps at 32 bits,
  but a read of a non-empty array that succeeds had all its \<open>sz * len\<close> bytes in the stream, delivers
  exactly those, and leaves the rest; one that does not fit fails, clears the good bit and leaves
  the caller's array as it was.\<close>

theorem read_elems_in_bounds:
  assumes "len \<noteq> 0"
  shows "if bis_good s \<and> sz * unat len \<le> bis_length s \<and> unat (len * word_of_nat sz) \<le> bis_length s
    then read_elems sz len x s = (True, take (sz * unat len) (bis_rest s) @ drop (sz * unat len) x,
           s\<lparr>bis_rest := drop (sz * unat len) (bis_rest s)\<rparr>)
    else \<not> fst (read_elems sz len x s)
      \<and> (bis_good s \<longrightarrow> read_elems sz len x s = (False, x, bis_fail s))"
  using assms
  by (auto simp: read_elems_def read_array_def bis_adjust_def bis_length_def bis_fail_def min_def)

theorem read_elems_in_bounds_witness:
  "read_elems 4 0x40000001 [9] (input [1, 2, 3, 4]) = (False, [9], bis_fail (input [1, 2, 3, 4]))"
  using read_elems_in_bounds [of "0x40000001" "input [1, 2, 3, 4]" 4 "[9]"]
  by (simp add: bis_length_def)

end
