(* ===== verification/Codecs.thy ===== *)
theory Codecs
  imports InStreams
begin

text \<open>
  The contract of \<^verbatim>\<open>euryale/serialization/Serializable.h\<close>: what a class that implements \<^verbatim>\<open>serialize\<close> and
  \<^verbatim>\<open>deserialize\<close> owes its callers. The locale is interpreted for every serializable class of the
  model; its lemmas carry single objects, counted lists of them, and the passage through the two
  concrete streams.
\<close>

text \<open>The loop \<^verbatim>\<open>for (i = 0; i < n; i++) l.push_back(new X(inputStream))\<close>.\<close>

fun read_n :: "nat \<Rightarrow> (bis \<Rightarrow> 'a \<times> bis) \<Rightarrow> bis \<Rightarrow> 'a list \<times> bis" where
  "read_n 0 des s = ([], s)"
| "read_n (Suc n) des s =
     (let (x, s1) = des s; (xs, s2) = read_n n des s1 in (x # xs, s2))"

lemma length_read_n: "length (fst (read_n n des s)) = n"
  by (induction n arbitrary: s) (auto split: prod.splits simp: Let_def, metis fst_conv)

text \<open>\<^verbatim>\<open>OutputStream::write_list\<close>: the count, then the elements.\<close>

definition write_list :: "('a \<Rightarrow> wop list) \<Rightarrow> 'a list \<Rightarrow> wop list" where
  "write_list ser xs = WULong (word_of_nat (length xs)) # concat (map ser xs)"

text \<open>The idiom for a pointer that may be null: a Boolean, then the object if there is one.\<close>

definition write_opt :: "('a \<Rightarrow> wop list) \<Rightarrow> 'a option \<Rightarrow> wop list" where
  "write_opt ser x = (case x of Some y \<Rightarrow> WBoolean True # ser y | None \<Rightarrow> [WBoolean False])"

definition read_opt :: "(bis \<Rightarrow> 'a \<times> bis) \<Rightarrow> bis \<Rightarrow> 'a option \<times> bis" where
  "read_opt des s =
     (let (ok, flag, s1) = read_boolean s in
      if flag then (let (x, s2) = des s1 in (Some x, s2)) else (None, s1))"

text \<open>A count sent with \<^verbatim>\<open>write_long\<close> and read into an \<^verbatim>\<open>int\<close>: a negative count runs no iteration.\<close>

definition int_count :: "u32 \<Rightarrow> nat" where
  "int_count n = nat (sint n)"

lemma int_count_of_nat: "n < 2 ^ 31 \<Longrightarrow> int_count (word_of_nat n) = n"
  by (simp add: int_count_def signed_of_nat signed_take_bit_int_eq_self)

definition wire_ok :: "wop list \<Rightarrow> bool" where
  "wire_ok ops = list_all (\<lambda>op. wop_ok op \<and> plain op \<and> mb_uniform op) ops"

lemma wire_ok_simps [simp]:
  "wire_ok []"
  "wire_ok (op # ops) \<longleftrightarrow> wop_ok op \<and> plain op \<and> mb_uniform op \<and> wire_ok ops"
  "wire_ok (ops @ ops') \<longleftrightarrow> wire_ok ops \<and> wire_ok ops'"
  by (auto simp: wire_ok_def)

lemma wire_ok_concat: "wire_ok (concat opss) \<longleftrightarrow> (\<forall>ops\<in>set opss. wire_ok ops)"
  by (induction opss) auto

lemma wire_ok_parts:
  "wire_ok ops \<Longrightarrow> list_all wop_ok ops \<and> list_all plain ops \<and> list_all mb_uniform ops"
  by (auto simp: wire_ok_def list_all_iff)

text \<open>What a run of a serializer on the two streams amounts to.\<close>

lemma wire_run:
  assumes "wire_ok ops" "consts_ok c" "alloc_ok alloc"
  shows "\<exists>t. run_ops bos_put ops (bos_ctor c alloc True tradeoff sz) = Some t
    \<and> bos_content t = encode ops \<and> serialization_size ops = Some (length (encode ops))"
proof -
  have "list_all wop_ok ops" "list_all plain ops" "list_all (\<lambda>op. wop_ok op \<and> mb_uniform op) ops"
    using wire_ok_parts [OF assms(1)] by (simp_all add: list_all_iff)
  then show ?thesis
    using bos.run_content [OF bos_ctor_ok(1) [OF assms(2,3)], of ops tradeoff sz]
      bos_ctor_ok(2) [OF assms(2,3)] ss.run_total [of ops ss_ctor]
    by (auto simp: serialization_size_def ss_ctor_def)
qed

text \<open>Where the object holds a hash table, what is read back is the same object up to the order of the
  table: \<open>sim\<close> says how much is preserved.\<close>

lemma shrink_read_n [shrink]:
  assumes "\<And>s n. bis_length s \<le> n \<Longrightarrow> bis_length (snd (des s)) \<le> n" "bis_length s \<le> n"
  shows "bis_length (snd (read_n k des s)) \<le> n"
  using assms(2) by (induction k arbitrary: s) (auto simp: Let_def case_prod_unfold assms(1))

lemma shrink_read_opt [shrink]:
  assumes "\<And>s n. bis_length s \<le> n \<Longrightarrow> bis_length (snd (des s)) \<le> n" "bis_length s \<le> n"
  shows "bis_length (snd (read_opt des s)) \<le> n"
  using assms by (simp add: read_opt_def Let_def case_prod_unfold shrink)

locale codec_upto =
  fixes ser :: "'a \<Rightarrow> wop list"
    and des :: "bis \<Rightarrow> 'a \<times> bis"
    and ok :: "'a \<Rightarrow> bool"
    and sim :: "'a \<Rightarrow> 'a \<Rightarrow> bool"
  assumes upto: "ok x \<Longrightarrow> \<exists>y. des (input (encode (ser x) @ r)) = (y, input r) \<and> sim x y"
    and upto_calls: "ok x \<Longrightarrow> wire_ok (ser x)"
begin

lemma list_upto:
  "list_all ok xs \<Longrightarrow>
    \<exists>ys. read_n (length xs) des (input (encode (concat (map ser xs)) @ r)) = (ys, input r)
      \<and> list_all2 sim xs ys"
proof (induction xs)
  case (Cons x xs)
  then obtain ys where ys: "read_n (length xs) des (input (encode (concat (map ser xs)) @ r)) = (ys, input r)"
    "list_all2 sim xs ys" by auto
  from Cons.prems upto [of x "encode (concat (map ser xs)) @ r"] obtain y
    where "des (input (encode (ser x) @ encode (concat (map ser xs)) @ r))
        = (y, input (encode (concat (map ser xs)) @ r))" "sim x y" by auto
  with ys show ?case by simp
qed simp

lemma list_upto_calls: "list_all ok xs \<Longrightarrow> wire_ok (concat (map ser xs))"
  by (auto simp: wire_ok_concat list_all_iff upto_calls)

lemma opt_upto:
  "pred_option ok x \<Longrightarrow>
    \<exists>y. read_opt des (input (encode (write_opt ser x) @ r)) = (y, input r) \<and> rel_option sim x y"
  by (cases x) (auto simp: write_opt_def read_opt_def read_boolean_back dest: upto [of _ r])

lemma opt_upto_calls: "pred_option ok x \<Longrightarrow> wire_ok (write_opt ser x)"
  by (cases x) (auto simp: write_opt_def upto_calls)

lemma through_streams_upto:
  assumes "ok x" "consts_ok c" "alloc_ok alloc"
  shows "\<exists>t y. run_ops bos_put (ser x) (bos_ctor c alloc True tradeoff sz) = Some t
    \<and> serialization_size (ser x) = Some (length (bos_content t))
    \<and> des (input (bos_content t)) = (y, input []) \<and> sim x y"
  using wire_run [OF upto_calls [OF assms(1)] assms(2,3), of tradeoff sz] upto [OF assms(1), of "[]"]
  by auto

end

locale codec =
  fixes ser :: "'a \<Rightarrow> wop list"
    and des :: "bis \<Rightarrow> 'a \<times> bis"
    and ok :: "'a \<Rightarrow> bool"
  assumes des_ser: "ok x \<Longrightarrow> des (input (encode (ser x) @ r)) = (x, input r)"
    and calls: "ok x \<Longrightarrow> wire_ok (ser x)"
begin

lemma list_back:
  "list_all ok xs \<Longrightarrow>
    read_n (length xs) des (input (encode (concat (map ser xs)) @ r)) = (xs, input r)"
  by (induction xs) (auto simp: des_ser)

lemma list_calls: "list_all ok xs \<Longrightarrow> wire_ok (concat (map ser xs))"
  by (auto simp: wire_ok_concat list_all_iff calls)

lemma write_list_back:
  assumes "list_all ok xs" "length xs < 2 ^ 32"
  shows "read_ulong 0 (input (encode (write_list ser xs) @ r))
      = (True, word_of_nat (length xs), input (encode (concat (map ser xs)) @ r))"
    "read_n (unat (word_of_nat (length xs) :: u32)) des (input (encode (concat (map ser xs)) @ r))
      = (xs, input r)"
proof -
  have "unat (word_of_nat (length xs) :: u32) = length xs" using assms(2) by (simp add: unat_of_nat)
  then show "read_n (unat (word_of_nat (length xs) :: u32)) des (input (encode (concat (map ser xs)) @ r))
      = (xs, input r)" using list_back [OF assms(1)] by simp
qed (simp add: write_list_def read_ulong_back)

lemma through_streams:
  assumes "ok x" "consts_ok c" "alloc_ok alloc"
  shows "\<exists>t. run_ops bos_put (ser x) (bos_ctor c alloc True tradeoff sz) = Some t
    \<and> serialization_size (ser x) = Some (length (bos_content t))
    \<and> des (input (bos_content t)) = (x, input [])"
  using wire_run [OF calls [OF assms(1)] assms(2,3), of tradeoff sz] des_ser [OF assms(1), of "[]"] by auto

lemma opt_back:
  "pred_option ok x \<Longrightarrow> read_opt des (input (encode (write_opt ser x) @ r)) = (x, input r)"
  by (cases x) (auto simp: write_opt_def read_opt_def read_boolean_back des_ser)

lemma opt_calls: "pred_option ok x \<Longrightarrow> wire_ok (write_opt ser x)"
  by (cases x) (auto simp: write_opt_def calls)

end

sublocale codec \<subseteq> codec_upto ser des ok "(=)"
  by unfold_locales (auto simp: des_ser calls)

end
