(* ===== verification/UUIDs.thy ===== *)
theory UUIDs
  imports Codecs
begin

text \<open>
  Identifiers: \<^verbatim>\<open>euryale/common/uuid/UUID.cpp\<close>, \<^verbatim>\<open>UUID.inl\<close> and \<^verbatim>\<open>UUIDDistance.cpp\<close>. A UUID is the bytes of
  its \<^verbatim>\<open>UUID_Data\<close> block. The text form is two upper-case hexadecimal digits per byte; comparison goes
  through the text form, equality through \<^verbatim>\<open>memcmp\<close>, the distance is Levenshtein's on text forms.
\<close>

type_synonym uuid = "byte list"

datatype uuid_error = INVALID_UUID

section \<open>Text form\<close>

definition hex_digit :: "nat \<Rightarrow> char" where
  "hex_digit n = (if n < 10 then char_of (48 + n) else char_of (55 + n))"

definition toString :: "uuid \<Rightarrow> string" where
  "toString u = concat (map (\<lambda>b. [hex_digit (unat b div 16), hex_digit (unat b mod 16)]) u)"

definition hex_val :: "char \<Rightarrow> nat option" where
  "hex_val c = (let n = of_char c :: nat in
     if 48 \<le> n \<and> n \<le> 57 then Some (n - 48)
     else if 65 \<le> n \<and> n \<le> 70 then Some (n - 55)
     else if 97 \<le> n \<and> n \<le> 102 then Some (n - 87) else None)"

definition isspace :: "char \<Rightarrow> bool" where
  "isspace c = (of_char c \<in> {9, 10, 11, 12, 13, 32 :: nat})"

text \<open>\<^verbatim>\<open>sscanf(str, "%02X", &num) == 1\<close> and its value as C defines it: white space is skipped, then at most
  two characters are taken, which are an optional sign and hexadecimal digits; the prefix \<^verbatim>\<open>0x\<close>
  with no room for a digit does not match.\<close>

fun scan_digits :: "nat \<Rightarrow> string \<Rightarrow> nat option" where
  "scan_digits 0 s = None"
| "scan_digits (Suc w) [] = None"
| "scan_digits (Suc w) (c # cs) = (case hex_val c of
      None \<Rightarrow> None
    | Some a \<Rightarrow>
        (if w = 0 then Some a
         else case cs of
           [] \<Rightarrow> Some a
         | c2 # _ \<Rightarrow> (case hex_val c2 of
             Some b \<Rightarrow> Some (16 * a + b)
           | None \<Rightarrow> if c = CHR ''0'' \<and> (c2 = CHR ''x'' \<or> c2 = CHR ''X'') then None else Some a)))"

definition scan_02X :: "string \<Rightarrow> u32 option" where
  "scan_02X str = (case dropWhile isspace str of
      [] \<Rightarrow> None
    | c # cs \<Rightarrow>
        if c = CHR ''+'' then map_option word_of_nat (scan_digits 1 cs)
        else if c = CHR ''-'' then map_option (\<lambda>n. - word_of_nat n) (scan_digits 1 cs)
        else map_option word_of_nat (scan_digits 2 (c # cs)))"

fun parse_loop :: "nat \<Rightarrow> string \<Rightarrow> uuid_error + uuid" where
  "parse_loop 0 str = Inr []"
| "parse_loop (Suc n) str = (case scan_02X str of
      None \<Rightarrow> Inl INVALID_UUID
    | Some num \<Rightarrow> (case parse_loop n (drop 2 str) of
        Inl e \<Rightarrow> Inl e
      | Inr bs \<Rightarrow> Inr (ucast num # bs)))"

definition parse :: "nat \<Rightarrow> string \<Rightarrow> uuid_error + uuid" where
  "parse keySize keyString =
     (if keyString = [] \<or> length keyString mod 2 \<noteq> 0 then Inl INVALID_UUID
      else parse_loop keySize keyString)"

text \<open>The constructor from a string allocates half its length.\<close>

definition UUID_of_string :: "string \<Rightarrow> uuid_error + uuid" where
  "UUID_of_string keyString =
     (if keyString = [] then Inl INVALID_UUID
      else parse (length keyString div 2) keyString)"

text \<open>\<^verbatim>\<open>generateUUIDWithPrefix\<close> and \<^verbatim>\<open>generateUUID\<close> draw from \<^verbatim>\<open>RAND_bytes\<close> of OpenSSL, a parameter: the
  bytes it delivers for a length, or None when it does not return 1.\<close>

definition generateUUID :: "(nat \<Rightarrow> byte list option) \<Rightarrow> nat \<Rightarrow> uuid_error + uuid" where
  "generateUUID RAND_bytes keySize = (case RAND_bytes keySize of
      Some bs \<Rightarrow> Inr bs
    | None \<Rightarrow> Inl INVALID_UUID)"

section \<open>Comparison and equality\<close>

fun strcmp :: "string \<Rightarrow> string \<Rightarrow> int" where
  "strcmp [] [] = 0"
| "strcmp [] (d # ds) = -1"
| "strcmp (c # cs) [] = 1"
| "strcmp (c # cs) (d # ds) =
     (if c = d then strcmp cs ds else if (of_char c :: nat) < of_char d then -1 else 1)"

definition compare :: "uuid \<Rightarrow> uuid \<Rightarrow> int" where
  "compare u v = strcmp (toString u) (toString v)"

text \<open>\<^verbatim>\<open>memcmp\<close> over the size of the left operand; where the right one is shorter the code reads past its
  storage and the model answers False.\<close>

definition isEqual :: "uuid \<Rightarrow> uuid \<Rightarrow> bool" where
  "isEqual u v = (take (length u) v = u)"

definition UUID_Data_eq :: "uuid \<Rightarrow> uuid \<Rightarrow> bool" where
  "UUID_Data_eq u v = (if length u \<noteq> length v then False else take (length u) v = u)"

section \<open>Wire form\<close>

definition uuid_serialize :: "uuid \<Rightarrow> wop list" where
  [codec]: "uuid_serialize u = [WULong (word_of_nat (length u)), WOctetArray u]"

definition uuid_deserialize :: "bis \<Rightarrow> uuid \<times> bis" where
  [codec]: "uuid_deserialize s =
     (let (ok, sz, s1) = read_ulong 0 s;
          (ok2, key, s2) = read_octet_array sz (replicate (unat sz) 0) s1
      in (key, s2))"

definition uuid_ok :: "uuid \<Rightarrow> bool" where
  "uuid_ok u = (length u < 2 ^ 32)"

lemma uuid_roundtrip [roundtrip]:
  assumes "uuid_ok u"
  shows "uuid_deserialize (input (encode (uuid_serialize u) @ r)) = (u, input r)"
proof -
  have "unat (word_of_nat (length u) :: u32) = length u"
    using assms by (simp add: uuid_ok_def unat_of_nat)
  then show ?thesis using assms
    by (simp add: uuid_serialize_def uuid_deserialize_def read_ulong_back uuid_ok_def
        read_octet_array_back)
qed

lemma shrink_uuid [shrink]: "bis_length s \<le> n \<Longrightarrow> bis_length (snd (uuid_deserialize s)) \<le> n"
  by (simp add: uuid_deserialize_def Let_def case_prod_unfold shrink)

lemma uuid_serialize_ok [simp]: "wire_ok (uuid_serialize u)"
  by (simp add: uuid_serialize_def)

interpretation uuid: codec uuid_serialize uuid_deserialize uuid_ok
  by unfold_locales (simp_all add: uuid_roundtrip)

lemma length_uuid_serialize [simp]: "length (encode (uuid_serialize u)) = 4 + length u"
  by (simp add: uuid_serialize_def)

section \<open>Lemmas on the text form\<close>

lemma hex_val_digit: "n < 16 \<Longrightarrow> hex_val (hex_digit n) = Some n"
  by (auto simp: hex_val_def hex_digit_def Let_def)

lemma hex_digit_neq: "n < 16 \<Longrightarrow> c \<in> {CHR ''+'', CHR ''-'', CHR ''x'', CHR ''X''} \<Longrightarrow> hex_digit n \<noteq> c"
  using hex_val_digit [of n] by (auto simp: hex_val_def)

lemma hex_digit_not_space: "n < 16 \<Longrightarrow> \<not> isspace (hex_digit n)"
  using hex_val_digit [of n]
  by (auto simp: isspace_def hex_digit_def)

lemma scan_digits2: "a < 16 \<Longrightarrow> b < 16 \<Longrightarrow>
    scan_digits 2 (hex_digit a # hex_digit b # cs) = Some (16 * a + b)"
  by (simp add: numeral_2_eq_2 hex_val_digit)

lemma scan_02X_byte:
  "scan_02X (hex_digit (unat (b :: byte) div 16) # hex_digit (unat b mod 16) # cs)
     = Some (word_of_nat (unat b))"
proof -
  have "unat b < 256" using unsigned_less [of b, where ?'a = nat] by simp
  then have "unat b div 16 < 16" by auto
  then show ?thesis
    using hex_digit_not_space [of "unat b div 16"] hex_digit_neq [of "unat b div 16"]
    by (simp add: scan_02X_def scan_digits2)
qed

lemma toString_Cons:
  "toString (b # u) = hex_digit (unat b div 16) # hex_digit (unat b mod 16) # toString u"
  by (simp add: toString_def)

lemma length_toString [simp]: "length (toString u) = 2 * length u"
  by (induction u) (simp_all add: toString_Cons, simp add: toString_def)

lemma byte_of_u32 [simp]: "(ucast (word_of_nat (unat b) :: u32) :: byte) = b"
proof -
  have "unat b < 256" using unsigned_less [of b, where ?'a = nat] by simp
  then have "unat (ucast (word_of_nat (unat b) :: u32) :: byte) = unat b"
    by (simp only: unsigned_ucast_eq) (simp add: unat_of_nat take_bit_eq_mod del: of_nat_unat)
  then show ?thesis by (rule unsigned_word_eqI)
qed

lemma parse_loop_toString: "parse_loop (length u) (toString u @ cs) = Inr u"
  by (induction u) (simp_all add: toString_Cons scan_02X_byte del: of_nat_unat)

lemma UUID_of_string_toString: "u \<noteq> [] \<Longrightarrow> UUID_of_string (toString u) = Inr u"
proof -
  assume "u \<noteq> []"
  then have "toString u \<noteq> []"
    using length_toString [of u] by (metis length_0_conv mult_is_0 zero_neq_numeral)
  then show ?thesis using parse_loop_toString [of u "[]"]
    by (simp add: UUID_of_string_def parse_def)
qed

lemma hex_digit_less_iff:
  "a < 16 \<Longrightarrow> b < 16 \<Longrightarrow> (of_char (hex_digit a) :: nat) < of_char (hex_digit b) \<longleftrightarrow> a < b"
  by (auto simp: hex_digit_def)

lemma hex_digit_eq_iff: "a < 16 \<Longrightarrow> b < 16 \<Longrightarrow> hex_digit a = hex_digit b \<longleftrightarrow> a = b"
  using hex_val_digit by (metis option.inject)

lemma byte_split: "unat (b :: byte) div 16 < 16" "unat b mod 16 < 16"
  "unat b = 16 * (unat b div 16) + unat b mod 16"
proof -
  have "unat b < 256" using unsigned_less [of b, where ?'a = nat] by simp
  then show "unat b div 16 < 16" by auto
qed simp_all

text \<open>The order \<^verbatim>\<open>compare\<close> means: lexicographic on bytes, a proper prefix first.\<close>

fun bytes_cmp :: "uuid \<Rightarrow> uuid \<Rightarrow> int" where
  "bytes_cmp [] [] = 0"
| "bytes_cmp [] (y # ys) = -1"
| "bytes_cmp (x # xs) [] = 1"
| "bytes_cmp (x # xs) (y # ys) = (if x = y then bytes_cmp xs ys else if x < y then -1 else 1)"

lemma hex_pair_order:
  assumes "(a :: nat) < 16" "b < 16" "c < 16" "d < 16"
  shows "16 * a + b < 16 * c + d \<longleftrightarrow> a < c \<or> a = c \<and> b < d"
  using assms by auto

lemma strcmp_toString: "strcmp (toString u) (toString v) = bytes_cmp u v"
proof (induction u v rule: bytes_cmp.induct)
  case (4 x xs y ys)
  have eq: "x = y \<longleftrightarrow> unat x div 16 = unat y div 16 \<and> unat x mod 16 = unat y mod 16"
    using byte_split(3) [of x] byte_split(3) [of y] by (metis unsigned_word_eqI)
  have less: "x < y \<longleftrightarrow> unat x div 16 < unat y div 16
      \<or> unat x div 16 = unat y div 16 \<and> unat x mod 16 < unat y mod 16"
    using hex_pair_order [OF byte_split(1,2) [of x] byte_split(1,2) [of y]]
    by (simp add: word_less_nat_alt flip: byte_split(3))
  show ?case using 4 byte_split(1,2) [of x] byte_split(1,2) [of y]
    by (auto simp: toString_Cons hex_digit_eq_iff hex_digit_less_iff eq less)
qed (simp_all add: toString_Cons, simp_all add: toString_def)

lemma bytes_cmp_0: "bytes_cmp u v = 0 \<longleftrightarrow> u = v"
  by (induction u v rule: bytes_cmp.induct) auto

lemma bytes_cmp_anti: "bytes_cmp u v = - bytes_cmp v u"
  by (induction u v rule: bytes_cmp.induct) auto

lemma bytes_cmp_trans: "bytes_cmp u v < 0 \<Longrightarrow> bytes_cmp v w < 0 \<Longrightarrow> bytes_cmp u w < 0"
proof (induction u v arbitrary: w rule: bytes_cmp.induct)
  case (2 y ys)
  then show ?case by (cases w) auto
next
  case (4 x xs y ys)
  then show ?case by (cases w) (auto split: if_splits)
qed auto

section \<open>Properties of identifiers\<close>

text \<open>Text round trip. Parsing the text form of a non-empty UUID gives the UUID back, and the
  text form has twice as many characters as the UUID has bytes.\<close>

lemma uuid_text_roundtrip:
  assumes "u \<noteq> []"
  shows "UUID_of_string (toString u) = Inr u \<and> length (toString u) = 2 * length u"
  using UUID_of_string_toString [OF assms] by simp

lemma uuid_text_roundtrip_witness:
  "toString [0x0F, 0xA0] = ''0FA0'' \<and> UUID_of_string ''0FA0'' = Inr [0x0F, 0xA0]"
proof -
  have "toString [0x0F, 0xA0] = ''0FA0''" by code_simp
  then show ?thesis using uuid_text_roundtrip [of "[0x0F, 0xA0]"] by simp
qed

text \<open>Malformed text is refused. The empty string and every string of odd length make the
  constructor throw, and a character that is neither a hexadecimal digit, a sign nor white space
  at an even position makes it throw wherever it stands.\<close>

lemma uuid_text_refused:
  "UUID_of_string [] = Inl INVALID_UUID
   \<and> (odd (length s) \<longrightarrow> UUID_of_string s = Inl INVALID_UUID)
   \<and> (i < length s div 2 \<and> hex_val (s ! (2 * i)) = None \<and> \<not> isspace (s ! (2 * i))
        \<and> s ! (2 * i) \<notin> {CHR ''+'', CHR ''-''} \<longrightarrow> UUID_of_string s = Inl INVALID_UUID)"
proof -
  have loop: "parse_loop n s = Inl INVALID_UUID"
    if "i < n" "2 * i < length s" "hex_val (s ! (2 * i)) = None" "\<not> isspace (s ! (2 * i))"
      "s ! (2 * i) \<notin> {CHR ''+'', CHR ''-''}" for n s i
    using that
  proof (induction n s arbitrary: i rule: parse_loop.induct)
    case (2 n str)
    show ?case
    proof (cases i)
      case 0
      with 2 show ?thesis by (cases str) (auto simp: scan_02X_def numeral_2_eq_2)
    next
      case (Suc k)
      with 2 show ?thesis by (auto split: option.splits sum.splits)
    qed
  qed simp
  have "odd (length s) \<longrightarrow> UUID_of_string s = Inl INVALID_UUID"
    by (simp add: UUID_of_string_def parse_def mod_2_eq_odd)
  with loop [of i "length s div 2" s] show ?thesis
    by (auto simp: UUID_of_string_def parse_def)
qed

text \<open>\<^verbatim>\<open>compare\<close> is a strict total order on identifiers: it is the lexicographic order of the
  bytes, answers 0 exactly on equal identifiers, is antisymmetric and transitive. Maps and joins
  that order peers by it agree on every node.\<close>

lemma uuid_compare_order:
  "compare u v = bytes_cmp u v \<and> (compare u v = 0 \<longleftrightarrow> u = v) \<and> compare u v = - compare v u
   \<and> (compare u v < 0 \<and> compare v w < 0 \<longrightarrow> compare u w < 0)"
  using bytes_cmp_trans [of u v w] bytes_cmp_anti [of u v]
  by (auto simp: compare_def strcmp_toString bytes_cmp_0)

text \<open>Equality. On identifiers of one size \<^verbatim>\<open>operator==\<close> and \<^verbatim>\<open>isEqual\<close> agree with
  \<^verbatim>\<open>UUID_Data::operator==\<close> and are equality of the bytes; across sizes they are only the prefix test,
  which is not symmetric.\<close>

lemma uuid_equality:
  "(length u = length v \<longrightarrow> isEqual u v = UUID_Data_eq u v)
   \<and> (UUID_Data_eq u v \<longleftrightarrow> u = v)
   \<and> (isEqual u v \<longleftrightarrow> (\<exists>w. v = u @ w))
   \<and> isEqual [1] [1, 2] \<and> \<not> isEqual [1, 2] [1]"
  by (auto simp: isEqual_def UUID_Data_eq_def) (metis append_take_drop_id)

end
