(* ===== verification/UUIDDistances.thy ===== *)
theory UUIDDistances
  imports UUIDs
begin

text \<open>
  \<^verbatim>\<open>euryale/common/uuid/UUIDDistance.cpp\<close>: the Levenshtein distance computed in a matrix. The matrix is
  a list of rows; \<^verbatim>\<open>new int[m+1]\<close> leaves its cells undetermined, so the initial content is a parameter.
  The reference definitions are the recurrence \<open>lev\<close> and the edit scripts \<open>edits\<close>.
\<close>

section \<open>The matrix program\<close>

definition Minimum :: "int \<Rightarrow> int \<Rightarrow> int \<Rightarrow> int" where
  "Minimum a b c =
     (let mi = a; mi = (if b < mi then b else mi) in if c < mi then c else mi)"

definition cell_set :: "nat \<Rightarrow> nat \<Rightarrow> int \<Rightarrow> int list list \<Rightarrow> int list list" where
  "cell_set i j v d = d[i := (d ! i)[j := v]]"

definition LD_new :: "(nat \<Rightarrow> nat \<Rightarrow> int) \<Rightarrow> nat \<Rightarrow> nat \<Rightarrow> int list list" where
  "LD_new mem n m = map (\<lambda>i. map (mem i) [0..<Suc m]) [0..<Suc n]"

definition LD_init :: "nat \<Rightarrow> nat \<Rightarrow> int list list \<Rightarrow> int list list" where
  "LD_init n m d = fold (\<lambda>j d. cell_set 0 j (int j) d) [0..<Suc m]
     (fold (\<lambda>i d. cell_set i 0 (int i) d) [0..<Suc n] d)"

definition LD_cell :: "string \<Rightarrow> string \<Rightarrow> nat \<Rightarrow> nat \<Rightarrow> int list list \<Rightarrow> int list list" where
  "LD_cell s t i j d =
     (let cost = (if s ! (i - 1) = t ! (j - 1) then 0 else 1)
      in cell_set i j (Minimum (d ! (i - 1) ! j + 1) (d ! i ! (j - 1) + 1)
           (d ! (i - 1) ! (j - 1) + cost)) d)"

definition LD_fill :: "string \<Rightarrow> string \<Rightarrow> int list list \<Rightarrow> int list list" where
  "LD_fill s t d = fold (\<lambda>i d. fold (\<lambda>j d. LD_cell s t i j d) [1..<Suc (length t)] d)
     [1..<Suc (length s)] d"

definition LD :: "(nat \<Rightarrow> nat \<Rightarrow> int) \<Rightarrow> string \<Rightarrow> string \<Rightarrow> int" where
  "LD mem s t =
     (let n = length s; m = length t in
      if n = 0 then int m
      else if m = 0 then int n
      else LD_fill s t (LD_init n m (LD_new mem n m)) ! n ! m)"

definition LD_uuid :: "(nat \<Rightarrow> nat \<Rightarrow> int) \<Rightarrow> uuid \<Rightarrow> uuid \<Rightarrow> int" where
  "LD_uuid mem u1 u2 = LD mem (toString u1) (toString u2)"

section \<open>Reference definitions\<close>

fun lev :: "string \<Rightarrow> string \<Rightarrow> nat \<Rightarrow> nat \<Rightarrow> nat" where
  "lev s t 0 j = j"
| "lev s t (Suc i) 0 = Suc i"
| "lev s t (Suc i) (Suc j) =
     min (min (lev s t i (Suc j) + 1) (lev s t (Suc i) j + 1))
         (lev s t i j + (if s ! i = t ! j then 0 else 1))"

text \<open>\<open>edits xs ys k\<close>: \<open>k\<close> insertions, deletions and substitutions at the end of the word turn
  \<open>xs\<close> into \<open>ys\<close>, working from left to right.\<close>

inductive edits :: "string \<Rightarrow> string \<Rightarrow> nat \<Rightarrow> bool" where
  nil: "edits [] [] 0"
| keep: "edits xs ys k \<Longrightarrow> edits (xs @ [c]) (ys @ [c]) k"
| subst: "edits xs ys k \<Longrightarrow> edits (xs @ [c]) (ys @ [d]) (Suc k)"
| delete: "edits xs ys k \<Longrightarrow> edits (xs @ [c]) ys (Suc k)"
| insert: "edits xs ys k \<Longrightarrow> edits xs (ys @ [d]) (Suc k)"

section \<open>The matrix holds the recurrence\<close>

lemma Minimum_min: "Minimum (int a) (int b) (int c) = int (min (min a b) c)"
  by (auto simp: Minimum_def Let_def)

definition shape :: "nat \<Rightarrow> nat \<Rightarrow> int list list \<Rightarrow> bool" where
  "shape n m d = (length d = Suc n \<and> (\<forall>i\<le>n. length (d ! i) = Suc m))"

lemma shape_cell_set [simp]: "shape n m d \<Longrightarrow> shape n m (cell_set i j v d)"
  by (cases "i < length d") (auto simp: shape_def cell_set_def nth_list_update)

lemma cell_set_nth:
  "shape n m d \<Longrightarrow> i \<le> n \<Longrightarrow> j \<le> m \<Longrightarrow> a \<le> n \<Longrightarrow> b \<le> m \<Longrightarrow>
    cell_set i j v d ! a ! b = (if a = i \<and> b = j then v else d ! a ! b)"
  by (auto simp: shape_def cell_set_def nth_list_update)

text \<open>The cells known to be right: column 0, row 0 and those before the cell being computed.\<close>

definition filled :: "string \<Rightarrow> string \<Rightarrow> nat \<Rightarrow> nat \<Rightarrow> int list list \<Rightarrow> bool" where
  "filled s t i j d = (shape (length s) (length t) d \<and>
     (\<forall>a\<le>length s. \<forall>b\<le>length t. a = 0 \<or> b = 0 \<or> a < i \<or> a = i \<and> b < j
        \<longrightarrow> d ! a ! b = int (lev s t a b)))"

lemma filledD:
  "filled s t i j d \<Longrightarrow> a \<le> length s \<Longrightarrow> b \<le> length t \<Longrightarrow> a = 0 \<or> b = 0 \<or> a < i \<or> a = i \<and> b < j
    \<Longrightarrow> d ! a ! b = int (lev s t a b)"
  unfolding filled_def by blast

lemma lev_0 [simp]: "lev s t i 0 = i"
  by (cases i) auto

lemma LD_new_shape: "shape n m (LD_new mem n m)"
  by (auto simp: shape_def LD_new_def simp del: upt_Suc)

lemma fold_column:
  "shape n m d \<Longrightarrow> k \<le> Suc n \<Longrightarrow> shape n m (fold (\<lambda>i d. cell_set i 0 (int i) d) [0..<k] d)
    \<and> (\<forall>a<k. fold (\<lambda>i d. cell_set i 0 (int i) d) [0..<k] d ! a ! 0 = int a)"
  by (induction k) (auto simp: cell_set_nth less_Suc_eq)

lemma fold_row:
  "shape n m d \<Longrightarrow> (\<forall>a\<le>n. d ! a ! 0 = int a) \<Longrightarrow> k \<le> Suc m \<Longrightarrow>
    shape n m (fold (\<lambda>j d. cell_set 0 j (int j) d) [0..<k] d)
    \<and> (\<forall>a\<le>n. fold (\<lambda>j d. cell_set 0 j (int j) d) [0..<k] d ! a ! 0 = int a)
    \<and> (\<forall>b<k. fold (\<lambda>j d. cell_set 0 j (int j) d) [0..<k] d ! 0 ! b = int b)"
  by (induction k) (auto simp: cell_set_nth less_Suc_eq)

lemma LD_init_filled:
  "filled s t 1 1 (LD_init (length s) (length t) (LD_new mem (length s) (length t)))"
proof -
  let ?n = "length s" and ?m = "length t"
  let ?d = "fold (\<lambda>i d. cell_set i 0 (int i) d) [0..<Suc ?n] (LD_new mem ?n ?m)"
  have c: "shape ?n ?m ?d" "\<forall>a\<le>?n. ?d ! a ! 0 = int a"
    using fold_column [OF LD_new_shape, of "Suc ?n" ?n ?m mem] by (auto simp del: upt_Suc)
  from fold_row [OF c, of "Suc ?m"] show ?thesis
    by (auto simp: filled_def LD_init_def less_Suc_eq_le simp del: upt_Suc)
qed

lemma LD_cell_filled:
  assumes "filled s t (Suc i) (Suc j) d" "i < length s" "j < length t"
  shows "filled s t (Suc i) (Suc (Suc j)) (LD_cell s t (Suc i) (Suc j) d)"
proof -
  have sh: "shape (length s) (length t) d" using assms(1) by (simp add: filled_def)
  have up: "d ! i ! Suc j = int (lev s t i (Suc j))" and left: "d ! Suc i ! j = int (lev s t (Suc i) j)"
    and diag: "d ! i ! j = int (lev s t i j)"
    using assms by (simp_all add: filledD)
  let ?c = "if s ! i = t ! j then 0 else 1 :: nat"
  have "LD_cell s t (Suc i) (Suc j) d = cell_set (Suc i) (Suc j)
      (Minimum (int (lev s t i (Suc j) + 1)) (int (lev s t (Suc i) j + 1)) (int (lev s t i j + ?c))) d"
    by (simp add: LD_cell_def up left diag add.commute)
  then have "LD_cell s t (Suc i) (Suc j) d = cell_set (Suc i) (Suc j) (int (lev s t (Suc i) (Suc j))) d"
    by (simp only: Minimum_min lev.simps)
  then show ?thesis using assms sh
    by (auto simp: filled_def cell_set_nth less_Suc_eq)
qed

lemma LD_row_filled:
  "filled s t (Suc i) 1 d \<Longrightarrow> i < length s \<Longrightarrow> j \<le> length t \<Longrightarrow>
    filled s t (Suc i) (Suc j) (fold (\<lambda>j d. LD_cell s t (Suc i) j d) [1..<Suc j] d)"
proof (induction j)
  case (Suc j)
  then show ?case using LD_cell_filled [of s t i j] by simp
qed simp

lemma filled_next_row: "filled s t (Suc i) (Suc (length t)) d \<Longrightarrow> filled s t (Suc (Suc i)) 1 d"
  unfolding filled_def by (metis less_Suc0 less_SucE less_Suc_eq_le One_nat_def)

lemma LD_fill_filled:
  assumes "filled s t 1 1 d" "k \<le> length s"
  shows "filled s t (Suc k) 1
    (fold (\<lambda>i d. fold (\<lambda>j d. LD_cell s t i j d) [1..<Suc (length t)] d) [1..<Suc k] d)"
  using assms(2)
proof (induction k)
  case 0
  then show ?case using assms(1) by simp
next
  case (Suc k)
  then show ?case using filled_next_row [OF LD_row_filled [of s t k _ "length t"]]
    by (simp del: upt_Suc add: upt_Suc_append)
qed

lemma LD_lev: "LD mem s t = int (lev s t (length s) (length t))"
proof -
  let ?d = "LD_fill s t (LD_init (length s) (length t) (LD_new mem (length s) (length t)))"
  have "filled s t (Suc (length s)) 1 ?d"
    unfolding LD_fill_def by (rule LD_fill_filled [OF LD_init_filled]) simp
  then have "?d ! length s ! length t = int (lev s t (length s) (length t))"
    by (simp add: filled_def)
  then show ?thesis by (auto simp: LD_def Let_def)
qed

section \<open>The recurrence is the least number of edits\<close>

lemma edits_Nil: "edits [] ys (length ys)"
  by (induction ys rule: rev_induct) (auto intro: edits.intros)

lemma edits_lev:
  "i \<le> length s \<Longrightarrow> j \<le> length t \<Longrightarrow> edits (take i s) (take j t) (lev s t i j)"
proof (induction s t i j rule: lev.induct)
  case (1 s t j)
  then show ?case using edits_Nil [of "take j t"] by simp
next
  case (2 s t i)
  have "edits xs [] (length xs)" for xs
    by (induction xs rule: rev_induct) (auto intro: edits.intros)
  from this [of "take (Suc i) s"] 2 show ?case by simp
next
  case (3 s t i j)
  have s: "take (Suc i) s = take i s @ [s ! i]" and t: "take (Suc j) t = take j t @ [t ! j]"
    using 3 by (simp_all add: take_Suc_conv_app_nth)
  have up: "edits (take i s @ [s ! i]) (take (Suc j) t) (Suc (lev s t i (Suc j)))"
    and left: "edits (take (Suc i) s) (take j t @ [t ! j]) (Suc (lev s t (Suc i) j))"
    using 3 by (auto intro: edits.intros)
  have diag: "edits (take i s @ [s ! i]) (take j t @ [t ! j]) (lev s t i j + (if s ! i = t ! j then 0 else 1))"
    using 3 by (auto intro: edits.intros)
  show ?case using up left diag by (auto simp: s t min_def)
qed

lemma lev_step_le: "lev s t (Suc i) j \<le> Suc (lev s t i j)" "lev s t i (Suc j) \<le> Suc (lev s t i j)"
proof -
  show "lev s t (Suc i) j \<le> Suc (lev s t i j)" by (cases j) auto
  show "lev s t i (Suc j) \<le> Suc (lev s t i j)" by (cases i) auto
qed

lemma lev_edits_le:
  "edits xs ys k \<Longrightarrow> \<exists>s' t'. s = xs @ s' \<and> t = ys @ t' \<Longrightarrow> lev s t (length xs) (length ys) \<le> k"
proof (induction rule: edits.induct)
  case (keep xs ys k c)
  then obtain s' t' where st: "s = xs @ c # s'" "t = ys @ c # t'" by auto
  with keep.IH have "lev s t (length xs) (length ys) \<le> k" by auto
  moreover have "s ! length xs = t ! length ys" by (simp add: st)
  ultimately show ?case by simp
next
  case (subst xs ys k c d)
  then obtain s' t' where st: "s = xs @ c # s'" "t = ys @ d # t'" by auto
  with subst.IH have "lev s t (length xs) (length ys) \<le> k" by auto
  then show ?case by (auto simp: min_le_iff_disj)
next
  case (delete xs ys k c)
  then have "lev s t (length xs) (length ys) \<le> k" by auto
  then show ?case using lev_step_le(1) [of s t "length xs" "length ys"] by simp
next
  case (insert xs ys k d)
  then have "lev s t (length xs) (length ys) \<le> k" by auto
  then show ?case using lev_step_le(2) [of s t "length xs" "length ys"] by simp
qed simp

text \<open>The distance is the Levenshtein distance. Whatever the fresh matrix held, \<^verbatim>\<open>LD\<close> returns the
  least number of single-character insertions, deletions and substitutions that turn one text into
  the other: there is an edit script of that length and none is shorter.\<close>

lemma LD_is_edit_distance:
  "\<exists>k. LD mem s t = int k \<and> edits s t k \<and> (\<forall>k'. edits s t k' \<longrightarrow> k \<le> k')"
proof (intro exI conjI allI impI)
  show "LD mem s t = int (lev s t (length s) (length t))" by (rule LD_lev)
  show "edits s t (lev s t (length s) (length t))"
    using edits_lev [of "length s" s "length t" t] by simp
  fix k' assume "edits s t k'"
  from lev_edits_le [OF this, of s t] show "lev s t (length s) (length t) \<le> k'" by simp
qed

lemma LD_is_edit_distance_witness:
  "\<exists>k. LD (\<lambda>_ _. 99) ''A0B1'' ''A1B'' = int k \<and> edits ''A0B1'' ''A1B'' k
    \<and> (\<forall>k'. edits ''A0B1'' ''A1B'' k' \<longrightarrow> k \<le> k')"
  by (rule LD_is_edit_distance)

end
