(* ===== verification/HashMaps.thy ===== *)
theory HashMaps
  imports UUIDs
begin

text \<open>
  The tables of the peer-to-peer layer are \<^verbatim>\<open>ACE_Hash_Map_Manager\<close>s keyed by \<^verbatim>\<open>UUIDPtr\<close>. ACE is not part
  of the repository; what the code relies on is the documented behaviour of find, bind and unbind
  and an iteration in some order. A table is the list of its entries in iteration order; where a
  new entry goes is a parameter \<open>pos\<close> (of the present keys and the new one), so that nothing proved
  depends on the order. The locale states the contract the clients use.
\<close>

type_synonym 'v hmap = "(uuid \<times> 'v) list"
type_synonym hpos = "uuid list \<Rightarrow> uuid \<Rightarrow> nat"

text \<open>\<^verbatim>\<open>ACE_Equal_To<UUIDPtr>\<close> compares text forms.\<close>

definition key_equal :: "uuid \<Rightarrow> uuid \<Rightarrow> bool" where
  "key_equal u v = (toString u = toString v)"

definition hm_find :: "'v hmap \<Rightarrow> uuid \<Rightarrow> 'v option" where
  "hm_find m k = map_option snd (List.find (\<lambda>e. key_equal (fst e) k) m)"

text \<open>\<^verbatim>\<open>bind\<close>: 0 when the entry was added, 1 when the key is present (the table is then unchanged).\<close>

definition hm_bind :: "hpos \<Rightarrow> uuid \<Rightarrow> 'v \<Rightarrow> 'v hmap \<Rightarrow> int \<times> 'v hmap" where
  "hm_bind pos k v m =
     (if hm_find m k \<noteq> None then (1, m)
      else let i = pos (map fst m) k in (0, take i m @ (k, v) # drop i m))"

text \<open>\<^verbatim>\<open>unbind\<close>: 0 when the entry was removed, -1 when there was none.\<close>

definition hm_unbind :: "uuid \<Rightarrow> 'v hmap \<Rightarrow> int \<times> 'v hmap" where
  "hm_unbind k m = (case erase1 (\<lambda>e. key_equal (fst e) k) m of
      Some m' \<Rightarrow> (0, m')
    | None \<Rightarrow> (-1, m))"

text \<open>Mutating the object an entry points to.\<close>

definition hm_update :: "uuid \<Rightarrow> ('v \<Rightarrow> 'v) \<Rightarrow> 'v hmap \<Rightarrow> 'v hmap" where
  "hm_update k f m = map (\<lambda>(k', v). (k', if key_equal k' k then f v else v)) m"

definition hm_ok :: "'v hmap \<Rightarrow> bool" where
  "hm_ok m = distinct (map fst m)"

lemma toString_inj: "toString u = toString v \<longleftrightarrow> u = v"
proof
  assume eq: "toString u = toString v"
  then have "length u = length v" using length_toString by (metis mult_left_cancel zero_neq_numeral)
  with eq parse_loop_toString [of u "[]"] parse_loop_toString [of v "[]"] show "u = v" by simp
qed simp

lemma key_equal_iff [simp]: "key_equal u v \<longleftrightarrow> u = v"
  by (simp add: key_equal_def toString_inj)

lemma hm_find_map_of: "hm_find m = map_of m"
  by (rule ext) (induction m, auto simp: hm_find_def)

lemma map_of_insert: "k \<notin> fst ` set a \<Longrightarrow> map_of (a @ (k, v) # b) = (map_of (a @ b))(k \<mapsto> v)"
  by (induction a) (auto simp: fun_upd_twist)

lemma hm_bind_absent: "hm_find m k = None \<Longrightarrow> hm_ok m \<Longrightarrow>
    fst (hm_bind pos k v m) = 0 \<and> hm_ok (snd (hm_bind pos k v m))
    \<and> hm_find (snd (hm_bind pos k v m)) = (hm_find m)(k \<mapsto> v)
    \<and> length (snd (hm_bind pos k v m)) = Suc (length m)"
proof -
  assume k: "hm_find m k = None" and ok: "hm_ok m"
  let ?i = "pos (map fst m) k"
  have m: "m = take ?i m @ drop ?i m" by simp
  have "k \<notin> fst ` set m" using k by (simp add: hm_find_map_of map_of_eq_None_iff)
  then have nin: "k \<notin> fst ` set (take ?i m)" "k \<notin> fst ` set (drop ?i m)"
    by (auto dest: in_set_takeD in_set_dropD)
  have d: "distinct (map fst (take ?i m @ drop ?i m))" using ok by (simp add: hm_ok_def)
  then have "hm_ok (take ?i m @ (k, v) # drop ?i m)"
    using nin unfolding hm_ok_def map_append distinct_append by auto
  moreover have "map_of (take ?i m @ (k, v) # drop ?i m) = (map_of m)(k \<mapsto> v)"
    using map_of_insert [OF nin(1), of v "drop ?i m"] by simp
  moreover have "length (take ?i m @ (k, v) # drop ?i m) = Suc (length m)"
    using m by (metis add_Suc_right length_Cons length_append)
  ultimately show ?thesis using k by (auto simp: hm_bind_def hm_find_map_of Let_def)
qed

lemma hm_bind_present: "hm_find m k \<noteq> None \<Longrightarrow> hm_bind pos k v m = (1, m)"
  by (simp add: hm_bind_def)

lemma hm_unbind_find:
  assumes "hm_ok m"
  shows "hm_ok (snd (hm_unbind k m)) \<and> hm_find (snd (hm_unbind k m)) = (hm_find m)(k := None)
    \<and> (fst (hm_unbind k m) = 0 \<longleftrightarrow> hm_find m k \<noteq> None)"
proof (cases "erase1 (\<lambda>e. key_equal (fst e) k) m")
  case None
  then have "map_of m k = None" by (auto simp: erase1_None_iff map_of_eq_None_iff)
  then show ?thesis using None assms by (auto simp: hm_unbind_def hm_find_map_of fun_upd_idem)
next
  case (Some m')
  from erase1_SomeD [OF this] obtain us e vs where e: "m = us @ e # vs" "m' = us @ vs" "fst e = k"
    by auto
  have "k \<notin> fst ` set us" "k \<notin> fst ` set vs" using assms e by (auto simp: hm_ok_def)
  then have none: "map_of us k = None" "map_of vs k = None" by (simp_all add: map_of_eq_None_iff)
  have "map_of m' = (map_of m)(k := None)"
  proof
    fix x
    show "map_of m' x = ((map_of m)(k := None)) x"
      using none e by (cases e) (auto simp: map_add_def split: option.splits)
  qed
  moreover have "map_of m k \<noteq> None" using e by (cases e) (auto simp: map_add_def split: option.splits)
  moreover have "hm_ok m'" using assms e by (auto simp: hm_ok_def)
  ultimately show ?thesis using Some by (simp add: hm_unbind_def hm_find_map_of)
qed

lemma hm_update_find:
  "hm_find (hm_update k f m) = (\<lambda>k'. if k' = k then map_option f (hm_find m k) else hm_find m k')"
  by (rule ext) (induction m, auto simp: hm_find_map_of hm_update_def)

lemma hm_update_keys [simp]: "map fst (hm_update k f m) = map fst m"
  by (induction m) (auto simp: hm_update_def)

lemma hm_update_ok [simp]: "hm_ok (hm_update k f m) \<longleftrightarrow> hm_ok m"
  by (simp add: hm_ok_def)

section \<open>The contract\<close>

locale hash_map =
  fixes find :: "'m \<Rightarrow> uuid \<Rightarrow> 'v option"
    and bind :: "uuid \<Rightarrow> 'v \<Rightarrow> 'm \<Rightarrow> int \<times> 'm"
    and unbind :: "uuid \<Rightarrow> 'm \<Rightarrow> int \<times> 'm"
    and inv :: "'m \<Rightarrow> bool"
  assumes bind_new: "inv m \<Longrightarrow> find m k = None \<Longrightarrow>
      fst (bind k v m) = 0 \<and> inv (snd (bind k v m)) \<and> find (snd (bind k v m)) = (find m)(k \<mapsto> v)"
    and bind_old: "inv m \<Longrightarrow> find m k \<noteq> None \<Longrightarrow> bind k v m = (1, m)"
    and unbind_find: "inv m \<Longrightarrow> inv (snd (unbind k m)) \<and> find (snd (unbind k m)) = (find m)(k := None)
      \<and> (fst (unbind k m) = 0 \<longleftrightarrow> find m k \<noteq> None)"
begin

lemma bind_inv: "inv m \<Longrightarrow> inv (snd (bind k v m))"
  using bind_new bind_old by (cases "find m k") auto

lemma bind_result: "inv m \<Longrightarrow> fst (bind k v m) = 0 \<longleftrightarrow> find m k = None"
  using bind_new bind_old by (cases "find m k") auto

lemma bind_find:
  "inv m \<Longrightarrow> find (snd (bind k v m)) = (if find m k = None then (find m)(k \<mapsto> v) else find m)"
  using bind_new bind_old by (cases "find m k") auto

text \<open>Renaming a key, as the code does it: unbind, then bind under the new key.\<close>

lemma rename:
  assumes "inv m" "find m old = Some v" "k = old \<or> find m k = None"
  shows "fst (bind k w (snd (unbind old m))) = 0
    \<and> find (snd (bind k w (snd (unbind old m)))) = ((find m)(old := None))(k \<mapsto> w)"
  using assms unbind_find [of m old] bind_new [of "snd (unbind old m)" k w] by auto

lemma rename_clash:
  assumes "inv m" "find m k \<noteq> None" "k \<noteq> old"
  shows "fst (bind k w (snd (unbind old m))) \<noteq> 0
    \<and> find (snd (bind k w (snd (unbind old m)))) = (find m)(old := None)"
  using assms unbind_find [of m old] bind_old [of "snd (unbind old m)" k w] by auto

end

interpretation hm: hash_map hm_find "hm_bind pos" hm_unbind hm_ok for pos
  by unfold_locales (auto simp: hm_bind_absent hm_bind_present hm_unbind_find)

text \<open>Rebuilding a table from a list of entries, as copying and deserializing do.\<close>

definition hm_bind_all :: "hpos \<Rightarrow> (uuid \<times> 'v) list \<Rightarrow> 'v hmap \<Rightarrow> 'v hmap" where
  "hm_bind_all pos es m = fold (\<lambda>(k, v) m. snd (hm_bind pos k v m)) es m"

lemma hm_bind_all_find:
  "hm_ok m \<Longrightarrow> hm_ok (hm_bind_all pos es m) \<and> hm_find (hm_bind_all pos es m) = hm_find (m @ es)"
proof (induction es arbitrary: m)
  case Nil
  then show ?case by (simp add: hm_bind_all_def)
next
  case (Cons e es)
  obtain k v where e: "e = (k, v)" by (cases e)
  let ?m = "snd (hm_bind pos k v m)"
  have IH: "hm_ok (hm_bind_all pos es ?m)" "hm_find (hm_bind_all pos es ?m) = hm_find (?m @ es)"
    using Cons.IH [OF hm.bind_inv [OF Cons.prems, of pos k v]] by simp_all
  moreover have "hm_find (?m @ es) = hm_find (m @ e # es)"
    using hm.bind_find [OF Cons.prems, of pos k v]
    by (auto simp: hm_find_map_of e map_add_def fun_eq_iff split: option.splits if_splits)
  ultimately show ?case by (simp add: hm_bind_all_def e)
qed

lemma hm_bind_all_distinct:
  "hm_ok es \<Longrightarrow> hm_ok (hm_bind_all pos es []) \<and> hm_find (hm_bind_all pos es []) = hm_find es"
  using hm_bind_all_find [of "[]" pos es] by (simp add: hm_ok_def)

text \<open>The loop \<^verbatim>\<open>for (i = 0; i < count; i++) { X* x = new X(inputStream); map.bind(x->getKey(), x); }\<close>\<close>

fun hm_read :: "hpos \<Rightarrow> (bis \<Rightarrow> 'v \<times> bis) \<Rightarrow> ('v \<Rightarrow> uuid) \<Rightarrow> nat \<Rightarrow> 'v hmap \<Rightarrow> bis \<Rightarrow> 'v hmap \<times> bis" where
  "hm_read pos des key 0 m s = (m, s)"
| "hm_read pos des key (Suc n) m s =
     (let (x, s1) = des s in hm_read pos des key n (snd (hm_bind pos (key x) x m)) s1)"

lemma hm_read_bind_all:
  "hm_read pos des key n m s =
    (hm_bind_all pos (map (\<lambda>x. (key x, x)) (fst (read_n n des s))) m, snd (read_n n des s))"
  by (induction n arbitrary: m s) (simp_all add: hm_bind_all_def split: prod.splits)

lemma hm_read_ok: "hm_ok m \<Longrightarrow> hm_ok (fst (hm_read pos des key n m s))"
  by (simp add: hm_read_bind_all hm_bind_all_find)

lemma shrink_hm_read [shrink]:
  "(\<And>s n. bis_length s \<le> n \<Longrightarrow> bis_length (snd (des s)) \<le> n) \<Longrightarrow> bis_length s \<le> n
    \<Longrightarrow> bis_length (snd (hm_read pos des key k m s)) \<le> n"
  by (simp add: hm_read_bind_all shrink_read_n)

text \<open>Every entry sits under its own key.\<close>

definition keyed :: "('v \<Rightarrow> uuid) \<Rightarrow> 'v hmap \<Rightarrow> bool" where
  "keyed key m = (\<forall>(k, v)\<in>set m. k = key v)"

lemma keyed_map: "keyed key m \<Longrightarrow> map (\<lambda>x. (key x, x)) (map snd m) = m"
  by (induction m) (auto simp: keyed_def)

lemma keyed_find: "keyed key m \<Longrightarrow> hm_find m k = Some v \<Longrightarrow> k = key v"
  by (auto simp: keyed_def hm_find_map_of dest!: map_of_SomeD)

lemma keyed_bind: "keyed key m \<Longrightarrow> k = key v \<Longrightarrow> keyed key (snd (hm_bind pos k v m))"
  by (auto simp: keyed_def hm_bind_def Let_def dest: in_set_takeD in_set_dropD)

lemma keyed_unbind: "keyed key m \<Longrightarrow> keyed key (snd (hm_unbind k m))"
  by (auto simp: keyed_def hm_unbind_def split: option.splits dest: erase1_set)

lemma keyed_update: "keyed key m \<Longrightarrow> (\<And>v. key (f v) = key v) \<Longrightarrow> keyed key (hm_update k f m)"
  by (auto simp: keyed_def hm_update_def)

lemma map_of_list_all2:
  "list_all2 (\<lambda>x y. fst x = fst y \<and> R (snd x) (snd y)) ms ns \<Longrightarrow> rel_option R (map_of ms k) (map_of ns k)"
  by (induction rule: list_all2_induct) auto

lemma list_all2_keys:
  assumes "list_all2 R xs ys" "\<And>x y. R x y \<Longrightarrow> key x = key y"
  shows "list_all2 (\<lambda>x y. fst x = fst y \<and> R (snd x) (snd y)) (map (\<lambda>x. (key x, x)) xs) (map (\<lambda>x. (key x, x)) ys)"
    "map fst (map (\<lambda>x. (key x, x)) xs) = map fst (map (\<lambda>x. (key x, x)) ys)"
  using assms by (induction rule: list_all2_induct) auto

text \<open>Reading back a table written as the list of its objects.\<close>

lemma hm_read_back:
  assumes "read_n (length m) des s = (ys, s')" "list_all2 R (map snd m) ys"
    "\<And>x y. R x y \<Longrightarrow> key x = key y" "hm_ok m" "keyed key m"
  shows "\<exists>m'. hm_read pos des key (length m) [] s = (m', s') \<and> hm_ok m'
    \<and> (\<forall>k. rel_option R (hm_find m k) (hm_find m' k))"
proof -
  let ?es = "map (\<lambda>x. (key x, x)) ys"
  have m: "map (\<lambda>x. (key x, x)) (map snd m) = m" by (rule keyed_map [OF assms(5)])
  note l2 = list_all2_keys [OF assms(2), where key = key, OF assms(3), unfolded m]
  have "hm_ok ?es" using l2(2) assms(4) by (simp add: hm_ok_def)
  from hm_bind_all_distinct [OF this, of pos] show ?thesis
    using map_of_list_all2 [OF l2(1)] assms(1) by (simp add: hm_read_bind_all hm_find_map_of)
qed

end
