(* ===== verification/Endpoints.thy ===== *)
theory Endpoints
  imports UUIDs
begin

text \<open>
  Service access points, \<^verbatim>\<open>euryale/net/endpoint\<close>: the QoS of an endpoint, the endpoint, and \<^verbatim>\<open>SAPInfo\<close>,
  a list of endpoints without duplicates. The cached text representations and the \<^verbatim>\<open>ACE_INET_Addr\<close>
  derived from host and port are not state of their own.
\<close>

section \<open>QoSEndpoint and Endpoint\<close>

record qos_endpoint =
  qe_type :: u16
  qe_priority :: u16

datatype qos_class = HRT | SRT | BE

text \<open>Default constructor: \<^verbatim>\<open>m_type(-1)\<close>, priority 0.\<close>

definition QoSEndpoint_default :: qos_endpoint where
  "QoSEndpoint_default = \<lparr>qe_type = - 1, qe_priority = 0\<rparr>"

definition QoSEndpoint_isEqual :: "qos_endpoint \<Rightarrow> qos_endpoint \<Rightarrow> bool" where
  "QoSEndpoint_isEqual p q = (qe_type p = qe_type q \<and> qe_priority p = qe_priority q)"

definition QoSEndpoint_serialize :: "qos_endpoint \<Rightarrow> wop list" where
  [codec]: "QoSEndpoint_serialize q = [WUShort (qe_type q), WUShort (qe_priority q)]"

definition QoSEndpoint_deserialize :: "qos_endpoint \<Rightarrow> bis \<Rightarrow> qos_endpoint \<times> bis" where
  [codec]: "QoSEndpoint_deserialize q s =
     (let (ok1, ty, s1) = read_ushort (qe_type q) s;
          (ok2, pr, s2) = read_ushort (qe_priority q) s1
      in (\<lparr>qe_type = ty, qe_priority = pr\<rparr>, s2))"

record endpoint =
  ep_type :: byte
  ep_host :: string
  ep_port :: u16
  ep_qos :: qos_endpoint

definition Endpoint_isEqual :: "endpoint \<Rightarrow> endpoint \<Rightarrow> bool" where
  "Endpoint_isEqual e f = (ep_type e = ep_type f \<and> ep_host e = ep_host f \<and> ep_port e = ep_port f
     \<and> QoSEndpoint_isEqual (ep_qos e) (ep_qos f))"

definition Endpoint_serialize :: "endpoint \<Rightarrow> wop list" where
  [codec]: "Endpoint_serialize e = [WOctet (ep_type e), WString (ep_host e), WUShort (ep_port e)]
     @ QoSEndpoint_serialize (ep_qos e)"

text \<open>\<^verbatim>\<open>Endpoint(InputStream&)\<close> starts from type 0, the empty host and port 0.\<close>

definition Endpoint_deserialize :: "bis \<Rightarrow> endpoint \<times> bis" where
  [codec]: "Endpoint_deserialize s =
     (let (ok1, ty, s1) = read_octet 0 s;
          (ok2, host, s2) = read_string s1;
          (ok3, port, s3) = read_ushort 0 s2;
          (q, s4) = QoSEndpoint_deserialize QoSEndpoint_default s3
      in (\<lparr>ep_type = ty, ep_host = host, ep_port = port, ep_qos = q\<rparr>, s4))"

definition endpoint_ok :: "endpoint \<Rightarrow> bool" where
  "endpoint_ok e = text_ok (ep_host e)"

lemma QoSEndpoint_isEqual_iff [simp]: "QoSEndpoint_isEqual p q \<longleftrightarrow> p = q"
  by (auto simp: QoSEndpoint_isEqual_def)

lemma Endpoint_isEqual_iff [simp]: "Endpoint_isEqual e f \<longleftrightarrow> e = f"
  by (auto simp: Endpoint_isEqual_def)

interpretation endpoint: codec Endpoint_serialize Endpoint_deserialize endpoint_ok
proof
  fix x r
  assume "endpoint_ok x"
  then show "Endpoint_deserialize (input (encode (Endpoint_serialize x) @ r)) = (x, input r)"
    by (simp add: codec roundtrip endpoint_ok_def del: of_nat_Suc)
next
  fix x
  assume "endpoint_ok x"
  then show "wire_ok (Endpoint_serialize x)"
    by (simp add: codec endpoint_ok_def text_ok_def)
qed

section \<open>SAPInfo\<close>

type_synonym sap_info = "endpoint list"

datatype endpoint_error = QOS_NOT_AVAILABLE | NO_ENDPOINTS

definition addEndpoint :: "endpoint \<Rightarrow> sap_info \<Rightarrow> bool \<times> sap_info" where
  "addEndpoint e l =
     (if list_ex (\<lambda>x. Endpoint_isEqual x e) l then (False, l) else (True, l @ [e]))"

definition addEndpointList :: "endpoint list \<Rightarrow> sap_info \<Rightarrow> bool \<times> sap_info" where
  "addEndpointList es l =
     (if list_ex (\<lambda>e. list_ex (\<lambda>x. Endpoint_isEqual x e) l) es then (False, l)
      else (True, fold (\<lambda>e l. snd (addEndpoint e l)) es l))"

definition removeEndpoint :: "endpoint \<Rightarrow> sap_info \<Rightarrow> bool \<times> sap_info" where
  "removeEndpoint e l = (case erase1 (\<lambda>x. Endpoint_isEqual x e) l of
      Some l' \<Rightarrow> (True, l')
    | None \<Rightarrow> (False, l))"

definition getEndpoint :: "qos_endpoint \<Rightarrow> sap_info \<Rightarrow> endpoint_error + endpoint" where
  "getEndpoint q l = (case List.find (\<lambda>e. QoSEndpoint_isEqual (ep_qos e) q) l of
      Some e \<Rightarrow> Inr e
    | None \<Rightarrow> Inl QOS_NOT_AVAILABLE)"

definition getFirstEndpoint :: "sap_info \<Rightarrow> endpoint_error + endpoint" where
  "getFirstEndpoint l = (case l of [] \<Rightarrow> Inl NO_ENDPOINTS | e # _ \<Rightarrow> Inr e)"

definition SAPInfo_serialize :: "sap_info \<Rightarrow> wop list" where
  "SAPInfo_serialize l = WULong (word_of_nat (length l)) # concat (map Endpoint_serialize l)"

fun SAPInfo_read :: "nat \<Rightarrow> sap_info \<Rightarrow> bis \<Rightarrow> sap_info \<times> bis" where
  "SAPInfo_read 0 l s = (l, s)"
| "SAPInfo_read (Suc n) l s =
     (let (e, s1) = Endpoint_deserialize s in SAPInfo_read n (snd (addEndpoint e l)) s1)"

definition SAPInfo_deserialize :: "bis \<Rightarrow> sap_info \<times> bis" where
  "SAPInfo_deserialize s =
     (let (ok, n, s1) = read_ulong 0 s in SAPInfo_read (unat n) [] s1)"

definition sap_ok :: "sap_info \<Rightarrow> bool" where
  "sap_ok l = (distinct l \<and> list_all endpoint_ok l \<and> length l < 2 ^ 32)"

section \<open>Lemmas\<close>

lemma addEndpoint_simp:
  "addEndpoint e l = (if e \<in> set l then (False, l) else (True, l @ [e]))"
  by (auto simp: addEndpoint_def list_ex_iff)

lemma addEndpoint_distinct: "distinct l \<Longrightarrow> distinct (snd (addEndpoint e l))"
  by (simp add: addEndpoint_simp)

lemma fold_addEndpoint:
  "distinct l \<Longrightarrow> distinct (fold (\<lambda>e l. snd (addEndpoint e l)) es l)
    \<and> set (fold (\<lambda>e l. snd (addEndpoint e l)) es l) = set l \<union> set es"
  by (induction es arbitrary: l) (auto simp: addEndpoint_simp)

lemma SAPInfo_read_distinct: "distinct l \<Longrightarrow> distinct (fst (SAPInfo_read n l s))"
  by (induction n arbitrary: l s) (auto split: prod.splits simp: addEndpoint_simp)

lemma SAPInfo_read_length: "length (fst (SAPInfo_read n l s)) \<le> length l + n"
proof (induction n arbitrary: l s)
  case (Suc n)
  obtain e s1 where e: "Endpoint_deserialize s = (e, s1)" by fastforce
  from Suc [of "snd (addEndpoint e l)" s1] show ?case by (simp add: e addEndpoint_simp split: if_splits)
qed simp

lemma SAPInfo_read_back:
  "list_all endpoint_ok es \<Longrightarrow> distinct (l @ es) \<Longrightarrow>
    SAPInfo_read (length es) l (input (encode (concat (map Endpoint_serialize es)) @ r)) = (l @ es, input r)"
proof (induction es arbitrary: l)
  case (Cons e es)
  then show ?case using Cons.IH [of "l @ [e]"] by (simp add: endpoint.des_ser addEndpoint_simp)
qed simp

interpretation sap: codec SAPInfo_serialize SAPInfo_deserialize sap_ok
proof
  fix x r
  assume "sap_ok x"
  then have x: "distinct x" "list_all endpoint_ok x" "length x < 2 ^ 32" by (auto simp: sap_ok_def)
  then have "unat (word_of_nat (length x) :: u32) = length x" by (simp add: unat_of_nat)
  with SAPInfo_read_back [OF x(2), of "[]"] x(1)
  show "SAPInfo_deserialize (input (encode (SAPInfo_serialize x) @ r)) = (x, input r)"
    by (simp add: SAPInfo_serialize_def SAPInfo_deserialize_def read_ulong_back)
next
  fix x
  assume "sap_ok x"
  then show "wire_ok (SAPInfo_serialize x)"
    using endpoint.list_calls [of x] by (simp add: SAPInfo_serialize_def sap_ok_def)
qed

lemma shrink_endpoint [shrink]: "bis_length s \<le> n \<Longrightarrow> bis_length (snd (Endpoint_deserialize s)) \<le> n"
  by (simp add: codec Let_def case_prod_unfold shrink)

lemma shrink_sap_read: "bis_length s \<le> n \<Longrightarrow> bis_length (snd (SAPInfo_read k l s)) \<le> n"
  by (induction k arbitrary: l s) (simp_all add: Let_def case_prod_unfold shrink)

lemma shrink_sap [shrink]: "bis_length s \<le> n \<Longrightarrow> bis_length (snd (SAPInfo_deserialize s)) \<le> n"
  by (simp add: SAPInfo_deserialize_def Let_def case_prod_unfold shrink shrink_sap_read)

section \<open>Properties of service access points\<close>

text \<open>A service access point is a set of endpoints. Starting from distinct endpoints, adding one
  keeps them distinct, adds it exactly when it was absent and says so; adding a list is all or
  nothing: refused whole when any of its endpoints is present, else the union; removing deletes
  exactly that endpoint and keeps the order of the rest.\<close>

lemma sap_set_operations:
  assumes "distinct l"
  shows "distinct (snd (addEndpoint e l)) \<and> set (snd (addEndpoint e l)) = insert e (set l)
      \<and> (fst (addEndpoint e l) \<longleftrightarrow> e \<notin> set l)
    \<and> (if set es \<inter> set l \<noteq> {} then addEndpointList es l = (False, l)
       else fst (addEndpointList es l) \<and> distinct (snd (addEndpointList es l))
         \<and> set (snd (addEndpointList es l)) = set l \<union> set es)
    \<and> removeEndpoint e l = (e \<in> set l, filter (\<lambda>x. x \<noteq> e) l)"
proof (intro conjI)
  have "list_ex (\<lambda>e. list_ex (\<lambda>x. Endpoint_isEqual x e) l) es \<longleftrightarrow> set es \<inter> set l \<noteq> {}"
    by (auto simp: list_ex_iff)
  then show "if set es \<inter> set l \<noteq> {} then addEndpointList es l = (False, l)
       else fst (addEndpointList es l) \<and> distinct (snd (addEndpointList es l))
         \<and> set (snd (addEndpointList es l)) = set l \<union> set es"
    using fold_addEndpoint [OF assms, of es] by (simp add: addEndpointList_def)
  show "removeEndpoint e l = (e \<in> set l, filter (\<lambda>x. x \<noteq> e) l)"
  proof (cases "erase1 (\<lambda>x. Endpoint_isEqual x e) l")
    case None
    then have "e \<notin> set l" by (auto simp: erase1_None_iff)
    moreover from this have "filter (\<lambda>x. x \<noteq> e) l = l" by (auto simp: filter_id_conv)
    ultimately show ?thesis using None by (simp add: removeEndpoint_def)
  next
    case (Some l')
    from erase1_SomeD [OF this] obtain us vs where "l = us @ e # vs" "l' = us @ vs" by auto
    moreover from this assms have "filter (\<lambda>x. x \<noteq> e) us = us" "filter (\<lambda>x. x \<noteq> e) vs = vs"
      by (auto simp: filter_id_conv)
    ultimately show ?thesis using Some by (simp add: removeEndpoint_def)
  qed
qed (use assms in \<open>auto simp: addEndpoint_simp\<close>)

definition sample_endpoint :: "u16 \<Rightarrow> endpoint" where
  "sample_endpoint port = \<lparr>ep_type = 1, ep_host = ''127.0.0.1'', ep_port = port,
     ep_qos = \<lparr>qe_type = 2, qe_priority = 10\<rparr>\<rparr>"

text \<open>Service access points survive the wire. Written to a \<^verbatim>\<open>ByteOutputStream\<close>, an access point
  occupies the announced number of bytes and is read back unchanged, the stream left at its end.\<close>

lemma sap_through_streams:
  assumes "sap_ok l" "consts_ok c" "alloc_ok alloc"
  shows "\<exists>t. run_ops bos_put (SAPInfo_serialize l) (bos_ctor c alloc True tradeoff sz) = Some t
    \<and> serialization_size (SAPInfo_serialize l) = Some (length (bos_content t))
    \<and> SAPInfo_deserialize (input (bos_content t)) = (l, input [])"
  using assms by (rule sap.through_streams)

text \<open>Hostile counts do no harm to the set. Whatever bytes arrive, deserialization returns a list
  without duplicates, no longer than the announced count.\<close>

lemma sap_deserialize_distinct:
  "distinct (fst (SAPInfo_deserialize s))
   \<and> length (fst (SAPInfo_deserialize s)) \<le> unat (fst (snd (read_ulong 0 s)))"
proof -
  obtain b n s1 where "read_ulong 0 s = (b, n, s1)" by (metis prod_cases3)
  then show ?thesis
    using SAPInfo_read_distinct [of "[]" "unat n" s1] SAPInfo_read_length [of "unat n" "[]" s1]
    by (simp add: SAPInfo_deserialize_def)
qed

end
