(* ===== verification/PeerInfos.thy ===== *)
theory PeerInfos
  imports HashMaps Endpoints
begin

text \<open>
  What peers know of each other: \<^verbatim>\<open>ServiceInstanceInfo\<close>, \<^verbatim>\<open>ServiceInfo\<close>, \<^verbatim>\<open>PeerInfo\<close> and \<^verbatim>\<open>OverlayPeerInfo\<close> of
  \<^verbatim>\<open>stheno/core/p2p/common\<close>, the template \<^verbatim>\<open>PeerMapBase\<close>, and \<^verbatim>\<open>P3PeerInfo\<close> of \<^verbatim>\<open>p3/common\<close>. A peer keeps a
  table of services by service identifier, each with a table of running instances by instance
  identifier. The abstract view is \<open>running\<close>: which instance of which service runs with which
  description.
\<close>

section \<open>Instances and services\<close>

datatype service_error = SERVICE_NOT_FOUND | NOT_EXISTS

record service_instance_info =
  sii_sid :: uuid
  sii_iid :: uuid
  sii_sapInfo :: "sap_info option"

definition ServiceInstanceInfo_serialize :: "service_instance_info \<Rightarrow> wop list" where
  "ServiceInstanceInfo_serialize i =
     uuid_serialize (sii_sid i) @ uuid_serialize (sii_iid i) @ write_opt SAPInfo_serialize (sii_sapInfo i)"

definition ServiceInstanceInfo_deserialize :: "bis \<Rightarrow> service_instance_info \<times> bis" where
  "ServiceInstanceInfo_deserialize s =
     (let (sid, s1) = uuid_deserialize s; (iid, s2) = uuid_deserialize s1;
          (sap, s3) = read_opt SAPInfo_deserialize s2
      in (\<lparr>sii_sid = sid, sii_iid = iid, sii_sapInfo = sap\<rparr>, s3))"

record service_info =
  svc_sid :: uuid
  svc_instances :: "service_instance_info hmap"

definition ServiceInfo_ctor :: "uuid \<Rightarrow> service_info" where
  "ServiceInfo_ctor sid = \<lparr>svc_sid = sid, svc_instances = []\<rparr>"

definition ServiceInfo_addInstance :: "hpos \<Rightarrow> service_instance_info \<Rightarrow> service_info \<Rightarrow> bool \<times> service_info" where
  "ServiceInfo_addInstance pos i svc =
     (let (r, m) = hm_bind pos (sii_iid i) i (svc_instances svc)
      in (r = 0, svc\<lparr>svc_instances := m\<rparr>))"

definition ServiceInfo_addServiceInstance ::
    "hpos \<Rightarrow> uuid \<Rightarrow> sap_info option \<Rightarrow> service_info \<Rightarrow> bool \<times> service_info" where
  "ServiceInfo_addServiceInstance pos iid sap svc =
     (if hm_find (svc_instances svc) iid \<noteq> None then (False, svc)
      else ServiceInfo_addInstance pos
        \<lparr>sii_sid = svc_sid svc, sii_iid = iid, sii_sapInfo = sap\<rparr> svc)"

definition ServiceInfo_removeServiceInstance :: "uuid \<Rightarrow> service_info \<Rightarrow> bool \<times> service_info" where
  "ServiceInfo_removeServiceInstance iid svc =
     (let (r, m) = hm_unbind iid (svc_instances svc) in (r = 0, svc\<lparr>svc_instances := m\<rparr>))"

definition ServiceInfo_setIID :: "hpos \<Rightarrow> uuid \<Rightarrow> uuid \<Rightarrow> service_info \<Rightarrow> bool \<times> service_info" where
  "ServiceInfo_setIID pos oldIid newIid svc =
     (case hm_find (svc_instances svc) oldIid of
        None \<Rightarrow> (False, svc)
      | Some info \<Rightarrow>
          let m = snd (hm_unbind oldIid (svc_instances svc));
              (r, m') = hm_bind pos newIid (info\<lparr>sii_iid := newIid\<rparr>) m
          in (r = 0, svc\<lparr>svc_instances := m'\<rparr>))"

definition ServiceInfo_isServiceInstanceRunning :: "uuid \<Rightarrow> service_info \<Rightarrow> bool" where
  "ServiceInfo_isServiceInstanceRunning iid svc = (hm_find (svc_instances svc) iid \<noteq> None)"

definition ServiceInfo_getInstanceOfService :: "uuid \<Rightarrow> service_info \<Rightarrow> service_error + service_instance_info" where
  "ServiceInfo_getInstanceOfService iid svc = (case hm_find (svc_instances svc) iid of
      Some i \<Rightarrow> Inr i
    | None \<Rightarrow> Inl NOT_EXISTS)"

definition ServiceInfo_getInstancesOfService :: "service_info \<Rightarrow> uuid list" where
  "ServiceInfo_getInstancesOfService svc = map (\<lambda>e. sii_iid (snd e)) (svc_instances svc)"

definition ServiceInfo_getInstanceCount :: "service_info \<Rightarrow> u32" where
  "ServiceInfo_getInstanceCount svc = word_of_nat (length (svc_instances svc))"

definition ServiceInfo_serialize :: "service_info \<Rightarrow> wop list" where
  "ServiceInfo_serialize svc =
     uuid_serialize (svc_sid svc) @ [WLong (word_of_nat (length (svc_instances svc)))]
     @ concat (map ServiceInstanceInfo_serialize (map snd (svc_instances svc)))"

definition ServiceInfo_deserialize :: "hpos \<Rightarrow> bis \<Rightarrow> service_info \<times> bis" where
  "ServiceInfo_deserialize pos s =
     (let (sid, s1) = uuid_deserialize s; (ok, count, s2) = read_long 0 s1;
          (m, s3) = hm_read pos ServiceInstanceInfo_deserialize sii_iid (int_count count) [] s2
      in (\<lparr>svc_sid = sid, svc_instances = m\<rparr>, s3))"

section \<open>Peers\<close>

record peer_info =
  pi_type :: u32
  pi_pid :: uuid
  pi_fid :: uuid
  pi_meshSAP :: "sap_info option"
  pi_discoverySAP :: "sap_info option"
  pi_ftSAP :: "sap_info option"
  pi_services :: "service_info hmap"

definition PeerInfo_addService :: "hpos \<Rightarrow> service_info \<Rightarrow> peer_info \<Rightarrow> bool \<times> peer_info" where
  "PeerInfo_addService pos svc p =
     (if hm_find (pi_services p) (svc_sid svc) = None then
        let (r, m) = hm_bind pos (svc_sid svc) svc (pi_services p)
        in (r = 0, p\<lparr>pi_services := m\<rparr>)
      else (False, p))"

definition PeerInfo_addService_sid :: "hpos \<Rightarrow> uuid \<Rightarrow> peer_info \<Rightarrow> bool \<times> peer_info" where
  "PeerInfo_addService_sid pos sid p =
     (if hm_find (pi_services p) sid = None then PeerInfo_addService pos (ServiceInfo_ctor sid) p
      else (False, p))"

definition PeerInfo_removeService :: "uuid \<Rightarrow> peer_info \<Rightarrow> bool \<times> peer_info" where
  "PeerInfo_removeService sid p =
     (if hm_find (pi_services p) sid = None then (False, p)
      else let (r, m) = hm_unbind sid (pi_services p) in (r = 0, p\<lparr>pi_services := m\<rparr>))"

text \<open>The operations below change the \<^verbatim>\<open>ServiceInfo\<close> the table points to.\<close>

definition PeerInfo_removeServiceInstance :: "uuid \<Rightarrow> uuid \<Rightarrow> peer_info \<Rightarrow> bool \<times> peer_info" where
  "PeerInfo_removeServiceInstance sid iid p =
     (case hm_find (pi_services p) sid of
        None \<Rightarrow> (False, p)
      | Some info \<Rightarrow>
          let (ok, info') = ServiceInfo_removeServiceInstance iid info;
              m = hm_update sid (\<lambda>_. info') (pi_services p)
          in if \<not> ok then (False, p\<lparr>pi_services := m\<rparr>)
             else if ServiceInfo_getInstanceCount info' = 0
               then (True, p\<lparr>pi_services := snd (hm_unbind sid m)\<rparr>)
             else (True, p\<lparr>pi_services := m\<rparr>))"

definition PeerInfo_changeServiceIID :: "hpos \<Rightarrow> uuid \<Rightarrow> uuid \<Rightarrow> uuid \<Rightarrow> peer_info \<Rightarrow> bool \<times> peer_info" where
  "PeerInfo_changeServiceIID pos sid iid newIid p =
     (case hm_find (pi_services p) sid of
        None \<Rightarrow> (False, p)
      | Some info \<Rightarrow>
          let (r, info') = ServiceInfo_setIID pos iid newIid info
          in (r, p\<lparr>pi_services := hm_update sid (\<lambda>_. info') (pi_services p)\<rparr>))"

definition PeerInfo_addServiceInstance ::
    "hpos \<Rightarrow> uuid \<Rightarrow> uuid \<Rightarrow> sap_info option \<Rightarrow> peer_info \<Rightarrow> bool \<times> peer_info" where
  "PeerInfo_addServiceInstance pos sid iid sap p =
     (let (ok, info, p1) =
        (case hm_find (pi_services p) sid of
           Some info \<Rightarrow> (True, info, p)
         | None \<Rightarrow> let info = ServiceInfo_ctor sid; (r, p1) = PeerInfo_addService pos info p
                   in (r, info, p1))
      in if \<not> ok then (False, p1)
         else let (r, info') = ServiceInfo_addServiceInstance pos iid sap info
              in (r, p1\<lparr>pi_services := hm_update sid (\<lambda>_. info') (pi_services p1)\<rparr>))"

definition PeerInfo_isServiceRunning :: "uuid \<Rightarrow> peer_info \<Rightarrow> bool" where
  "PeerInfo_isServiceRunning sid p = (hm_find (pi_services p) sid \<noteq> None)"

definition PeerInfo_isServiceInstanceRunning :: "uuid \<Rightarrow> uuid \<Rightarrow> peer_info \<Rightarrow> bool" where
  "PeerInfo_isServiceInstanceRunning sid iid p = (case hm_find (pi_services p) sid of
      None \<Rightarrow> False
    | Some svc \<Rightarrow> ServiceInfo_isServiceInstanceRunning iid svc)"

definition PeerInfo_getInstanceOfService ::
    "uuid \<Rightarrow> uuid \<Rightarrow> peer_info \<Rightarrow> service_error + service_instance_info" where
  "PeerInfo_getInstanceOfService sid iid p = (case hm_find (pi_services p) sid of
      None \<Rightarrow> Inl SERVICE_NOT_FOUND
    | Some svc \<Rightarrow> ServiceInfo_getInstanceOfService iid svc)"

definition PeerInfo_getInstancesOfService :: "uuid \<Rightarrow> peer_info \<Rightarrow> service_error + uuid list" where
  "PeerInfo_getInstancesOfService sid p = (case hm_find (pi_services p) sid of
      None \<Rightarrow> Inl SERVICE_NOT_FOUND
    | Some svc \<Rightarrow> Inr (ServiceInfo_getInstancesOfService svc))"

definition PeerInfo_getTotalServicesRunning :: "peer_info \<Rightarrow> u32" where
  "PeerInfo_getTotalServicesRunning p =
     fold (\<lambda>e count. count + ServiceInfo_getInstanceCount (snd e)) (pi_services p) 0"

text \<open>The copy constructor copies type, identifiers and services, and leaves the three access points
  null.\<close>

definition PeerInfo_copy :: "hpos \<Rightarrow> peer_info \<Rightarrow> peer_info" where
  "PeerInfo_copy pos p = \<lparr>pi_type = pi_type p, pi_pid = pi_pid p, pi_fid = pi_fid p,
     pi_meshSAP = None, pi_discoverySAP = None, pi_ftSAP = None,
     pi_services = hm_bind_all pos (pi_services p) []\<rparr>"

definition PeerInfo_serialize :: "peer_info \<Rightarrow> wop list" where
  "PeerInfo_serialize p =
     [WULong (pi_type p)] @ uuid_serialize (pi_pid p) @ uuid_serialize (pi_fid p)
     @ write_opt SAPInfo_serialize (pi_meshSAP p) @ write_opt SAPInfo_serialize (pi_discoverySAP p)
     @ write_opt SAPInfo_serialize (pi_ftSAP p) @ [WLong (word_of_nat (length (pi_services p)))]
     @ concat (map ServiceInfo_serialize (map snd (pi_services p)))"

text \<open>The type of a peer under construction has no initial value; \<open>ty0\<close> stands for what it held.\<close>

definition PeerInfo_deserialize :: "hpos \<Rightarrow> u32 \<Rightarrow> bis \<Rightarrow> peer_info \<times> bis" where
  "PeerInfo_deserialize pos ty0 s =
     (let (ok1, ty, s1) = read_ulong ty0 s; (pid, s2) = uuid_deserialize s1;
          (fid, s3) = uuid_deserialize s2; (mesh, s4) = read_opt SAPInfo_deserialize s3;
          (disc, s5) = read_opt SAPInfo_deserialize s4; (ft, s6) = read_opt SAPInfo_deserialize s5;
          (ok2, count, s7) = read_long 0 s6;
          (m, s8) = hm_read pos (ServiceInfo_deserialize pos) svc_sid (int_count count) [] s7
      in (\<lparr>pi_type = ty, pi_pid = pid, pi_fid = fid, pi_meshSAP = mesh, pi_discoverySAP = disc,
           pi_ftSAP = ft, pi_services = m\<rparr>, s8))"

section \<open>Peers of the P3 overlay\<close>

definition SUPERPEER :: u32 where "SUPERPEER = 1"
definition SUPERPEER_COORD :: u32 where "SUPERPEER_COORD = 2"
definition SENSOR :: u32 where "SENSOR = 3"
definition MONITOR :: u32 where "MONITOR = 4"

definition INVALID_ID :: uuid where
  "INVALID_ID = replicate 16 0xFF"

record p3_peer_info =
  pp_info :: peer_info
  pp_cellEndpoint :: "endpoint option"

definition P3PeerInfo_ctor :: "u32 \<Rightarrow> uuid \<Rightarrow> uuid \<Rightarrow> endpoint option \<Rightarrow> sap_info option \<Rightarrow>
    sap_info option \<Rightarrow> sap_info option \<Rightarrow> p3_peer_info" where
  "P3PeerInfo_ctor ty pid fid cell mesh disc ft =
     \<lparr>pp_info = \<lparr>pi_type = ty, pi_pid = pid, pi_fid = fid, pi_meshSAP = mesh,
        pi_discoverySAP = disc, pi_ftSAP = ft, pi_services = []\<rparr>, pp_cellEndpoint = cell\<rparr>"

definition getType :: "p3_peer_info \<Rightarrow> u32" where
  "getType p = pi_type (pp_info p)"

definition getPID :: "p3_peer_info \<Rightarrow> uuid" where
  "getPID p = pi_pid (pp_info p)"

definition getFID :: "p3_peer_info \<Rightarrow> uuid" where
  "getFID p = pi_fid (pp_info p)"

definition isSensor :: "p3_peer_info \<Rightarrow> bool" where
  "isSensor p = (getType p = SENSOR)"

definition isSuperpeer :: "p3_peer_info \<Rightarrow> bool" where
  "isSuperpeer p = (getType p = SUPERPEER \<or> getType p = SUPERPEER_COORD)"

definition isCoordinator :: "p3_peer_info \<Rightarrow> bool" where
  "isCoordinator p = (getType p = SUPERPEER_COORD)"

definition isMonitor :: "p3_peer_info \<Rightarrow> bool" where
  "isMonitor p = (getType p = MONITOR)"

definition P3PeerInfo_serialize :: "p3_peer_info \<Rightarrow> wop list" where
  "P3PeerInfo_serialize p =
     PeerInfo_serialize (pp_info p) @ write_opt Endpoint_serialize (pp_cellEndpoint p)"

definition P3PeerInfo_deserialize :: "hpos \<Rightarrow> u32 \<Rightarrow> bis \<Rightarrow> p3_peer_info \<times> bis" where
  "P3PeerInfo_deserialize pos ty0 s =
     (let (p, s1) = PeerInfo_deserialize pos ty0 s; (e, s2) = read_opt Endpoint_deserialize s1
      in (\<lparr>pp_info = p, pp_cellEndpoint = e\<rparr>, s2))"

section \<open>Peer maps and overlay peers\<close>

datatype peer_error = PEER_NOT_FOUND

definition PeerMap_exists :: "uuid \<Rightarrow> p3_peer_info hmap \<Rightarrow> bool" where
  "PeerMap_exists u m = (hm_find m u \<noteq> None)"

definition PeerMap_addPeer :: "hpos \<Rightarrow> p3_peer_info \<Rightarrow> p3_peer_info hmap \<Rightarrow> bool \<times> p3_peer_info hmap" where
  "PeerMap_addPeer pos p m =
     (if \<not> PeerMap_exists (getPID p) m then
        let (r, m') = hm_bind pos (getPID p) p m in (r = 0, m')
      else (False, m))"

definition PeerMap_removePeer :: "uuid \<Rightarrow> p3_peer_info hmap \<Rightarrow> bool \<times> p3_peer_info hmap" where
  "PeerMap_removePeer u m = (let (r, m') = hm_unbind u m in (r = 0, m'))"

definition PeerMap_getPeerInfo :: "uuid \<Rightarrow> p3_peer_info hmap \<Rightarrow> peer_error + p3_peer_info" where
  "PeerMap_getPeerInfo u m = (case hm_find m u of Some p \<Rightarrow> Inr p | None \<Rightarrow> Inl PEER_NOT_FOUND)"

definition PeerMap_serialize :: "p3_peer_info hmap \<Rightarrow> wop list" where
  "PeerMap_serialize m = WULong (word_of_nat (length m)) # concat (map P3PeerInfo_serialize (map snd m))"

definition PeerMap_deserialize :: "hpos \<Rightarrow> u32 \<Rightarrow> bis \<Rightarrow> p3_peer_info hmap \<times> bis" where
  "PeerMap_deserialize pos ty0 s =
     (let (ok, count, s1) = read_ulong 0 s
      in hm_read pos (P3PeerInfo_deserialize pos ty0) getPID (unat count) [] s1)"

record overlay_peer_info =
  op_uuid :: uuid
  op_fid :: uuid
  op_meshSAP :: "sap_info option"
  op_ftSAP :: "sap_info option"
  op_ftDataSAP :: "sap_info option"

definition OverlayPeerInfo_copy :: "overlay_peer_info \<Rightarrow> overlay_peer_info" where
  "OverlayPeerInfo_copy p = p\<lparr>op_ftDataSAP := None\<rparr>"

text \<open>The serializer dereferences all three access points; None is the null dereference.\<close>

definition OverlayPeerInfo_serialize :: "overlay_peer_info \<Rightarrow> wop list option" where
  "OverlayPeerInfo_serialize p =
     (case (op_meshSAP p, op_ftSAP p, op_ftDataSAP p) of
        (Some m, Some f, Some d) \<Rightarrow> Some (uuid_serialize (op_uuid p) @ uuid_serialize (op_fid p)
          @ SAPInfo_serialize m @ SAPInfo_serialize f @ SAPInfo_serialize d)
      | _ \<Rightarrow> None)"

definition OverlayPeerInfo_deserialize :: "bis \<Rightarrow> overlay_peer_info \<times> bis" where
  "OverlayPeerInfo_deserialize s =
     (let (u, s1) = uuid_deserialize s; (f, s2) = uuid_deserialize s1;
          (m, s3) = SAPInfo_deserialize s2; (t, s4) = SAPInfo_deserialize s3;
          (d, s5) = SAPInfo_deserialize s4
      in (\<lparr>op_uuid = u, op_fid = f, op_meshSAP = Some m, op_ftSAP = Some t, op_ftDataSAP = Some d\<rparr>, s5))"

section \<open>Invariant and abstract view\<close>

definition svc_inv :: "service_info \<Rightarrow> bool" where
  "svc_inv svc = (hm_ok (svc_instances svc) \<and> keyed sii_iid (svc_instances svc)
     \<and> (\<forall>e\<in>set (svc_instances svc). sii_sid (snd e) = svc_sid svc))"

definition peer_inv :: "peer_info \<Rightarrow> bool" where
  "peer_inv p = (hm_ok (pi_services p) \<and> keyed svc_sid (pi_services p)
     \<and> (\<forall>e\<in>set (pi_services p). svc_inv (snd e)))"

definition running :: "peer_info \<Rightarrow> uuid \<Rightarrow> uuid \<Rightarrow> service_instance_info option" where
  "running p sid iid = (case hm_find (pi_services p) sid of
      None \<Rightarrow> None
    | Some svc \<Rightarrow> hm_find (svc_instances svc) iid)"

lemma hm_bind_set: "e \<in> set (snd (hm_bind pos k v m)) \<Longrightarrow> e = (k, v) \<or> e \<in> set m"
  by (auto simp: hm_bind_def Let_def split: if_splits dest: in_set_takeD in_set_dropD)

lemma hm_unbind_set: "e \<in> set (snd (hm_unbind k m)) \<Longrightarrow> e \<in> set m"
  by (auto simp: hm_unbind_def split: option.splits dest: erase1_set)

lemma hm_update_set: "e \<in> set (hm_update k f m) \<Longrightarrow> \<exists>v. (fst e, v) \<in> set m \<and> (snd e = v \<or> fst e = k \<and> snd e = f v)"
  by (auto simp: hm_update_def split: if_splits)

lemma hm_find_set: "hm_find m k = Some v \<Longrightarrow> (k, v) \<in> set m"
  by (simp add: hm_find_map_of map_of_SomeD)

lemma svc_inv_ctor [simp]: "svc_inv (ServiceInfo_ctor sid)"
  by (simp add: svc_inv_def ServiceInfo_ctor_def hm_ok_def keyed_def)

lemma svc_inv_add: "svc_inv svc \<Longrightarrow> svc_inv (snd (ServiceInfo_addServiceInstance pos iid sap svc))"
  by (auto simp: svc_inv_def ServiceInfo_addServiceInstance_def ServiceInfo_addInstance_def
      hm.bind_inv [of _ pos, simplified] keyed_bind case_prod_unfold Let_def dest!: hm_bind_set)

lemma svc_inv_remove: "svc_inv svc \<Longrightarrow> svc_inv (snd (ServiceInfo_removeServiceInstance iid svc))"
  by (auto simp: svc_inv_def ServiceInfo_removeServiceInstance_def hm_unbind_find keyed_unbind
      case_prod_unfold Let_def dest!: hm_unbind_set)

lemma svc_inv_setIID: "svc_inv svc \<Longrightarrow> svc_inv (snd (ServiceInfo_setIID pos old new svc))"
proof -
  assume inv: "svc_inv svc"
  show ?thesis
  proof (cases "hm_find (svc_instances svc) old")
    case (Some info)
    then have "sii_sid info = svc_sid svc" using inv hm_find_set [OF Some] by (auto simp: svc_inv_def)
    moreover have "hm_ok (snd (hm_unbind old (svc_instances svc)))"
      "keyed sii_iid (snd (hm_unbind old (svc_instances svc)))"
      using inv by (simp_all add: svc_inv_def hm_unbind_find keyed_unbind)
    ultimately show ?thesis using inv Some
      by (auto simp: svc_inv_def ServiceInfo_setIID_def hm.bind_inv [of _ pos, simplified] keyed_bind
          case_prod_unfold Let_def dest!: hm_bind_set hm_unbind_set)
  qed (use inv in \<open>simp add: ServiceInfo_setIID_def\<close>)
qed

lemma svc_sid_keep [simp]:
  "svc_sid (snd (ServiceInfo_addServiceInstance pos iid sap svc)) = svc_sid svc"
  "svc_sid (snd (ServiceInfo_removeServiceInstance iid svc)) = svc_sid svc"
  "svc_sid (snd (ServiceInfo_setIID pos old new svc)) = svc_sid svc"
  by (simp_all add: ServiceInfo_addServiceInstance_def ServiceInfo_addInstance_def case_prod_unfold
      ServiceInfo_removeServiceInstance_def ServiceInfo_setIID_def Let_def split: option.splits)

lemma peer_inv_update:
  assumes "peer_inv p" "svc_inv info" "svc_sid info = sid"
  shows "peer_inv (p\<lparr>pi_services := hm_update sid (\<lambda>_. info) (pi_services p)\<rparr>)"
proof -
  let ?m = "hm_update sid (\<lambda>_. info) (pi_services p)"
  have "keyed svc_sid ?m" "\<forall>e\<in>set ?m. svc_inv (snd e)"
    using assms by (auto simp: peer_inv_def keyed_def dest!: hm_update_set)
  then show ?thesis using assms(1) by (simp add: peer_inv_def)
qed

lemma peer_inv_addService:
  assumes "peer_inv p" "svc_inv svc"
  shows "peer_inv (snd (PeerInfo_addService pos svc p))"
  using assms by (auto simp: peer_inv_def PeerInfo_addService_def hm.bind_inv [of _ pos, simplified]
      keyed_bind case_prod_unfold Let_def dest!: hm_bind_set)

lemma peer_inv_find:
  "peer_inv p \<Longrightarrow> hm_find (pi_services p) sid = Some svc \<Longrightarrow> svc_inv svc \<and> svc_sid svc = sid"
  using keyed_find [of svc_sid "pi_services p" sid svc] hm_find_set [of "pi_services p" sid svc]
  by (auto simp: peer_inv_def)

lemma peer_inv_unbind:
  "peer_inv p \<Longrightarrow> peer_inv (p\<lparr>pi_services := snd (hm_unbind sid (pi_services p))\<rparr>)"
  by (auto simp: peer_inv_def hm_unbind_find keyed_unbind dest!: hm_unbind_set)

lemma peer_inv_addServiceInstance:
  assumes "peer_inv p"
  shows "peer_inv (snd (PeerInfo_addServiceInstance pos sid iid sap p))"
proof (cases "hm_find (pi_services p) sid")
  case None
  let ?p = "snd (PeerInfo_addService pos (ServiceInfo_ctor sid) p)"
  have "peer_inv ?p" using peer_inv_addService [OF assms svc_inv_ctor] .
  then show ?thesis using None
    by (auto simp: PeerInfo_addServiceInstance_def case_prod_unfold Let_def
        intro!: peer_inv_update svc_inv_add) (simp add: ServiceInfo_ctor_def)
next
  case (Some info)
  with peer_inv_find [OF assms Some] assms show ?thesis
    by (auto simp: PeerInfo_addServiceInstance_def case_prod_unfold Let_def
        intro!: peer_inv_update svc_inv_add)
qed

lemma peer_inv_removeServiceInstance:
  assumes "peer_inv p"
  shows "peer_inv (snd (PeerInfo_removeServiceInstance sid iid p))"
proof (cases "hm_find (pi_services p) sid")
  case (Some info)
  let ?i = "snd (ServiceInfo_removeServiceInstance iid info)"
  have "peer_inv (p\<lparr>pi_services := hm_update sid (\<lambda>_. ?i) (pi_services p)\<rparr>)"
    using peer_inv_find [OF assms Some] by (intro peer_inv_update [OF assms] svc_inv_remove) auto
  from this peer_inv_unbind [OF this, of sid] show ?thesis using Some
    by (auto simp: PeerInfo_removeServiceInstance_def case_prod_unfold Let_def)
qed (use assms in \<open>simp add: PeerInfo_removeServiceInstance_def\<close>)

lemma peer_inv_changeServiceIID:
  assumes "peer_inv p"
  shows "peer_inv (snd (PeerInfo_changeServiceIID pos sid iid new p))"
  using assms peer_inv_find [OF assms]
  by (auto simp: PeerInfo_changeServiceIID_def case_prod_unfold Let_def split: option.splits
      intro!: peer_inv_update svc_inv_setIID)

text \<open>The operations on the abstract view.\<close>

lemma svc_add_find:
  assumes "svc_inv svc"
  shows "ServiceInfo_addServiceInstance pos iid sap svc = (r, svc') \<Longrightarrow>
    (r \<longleftrightarrow> hm_find (svc_instances svc) iid = None)
    \<and> hm_find (svc_instances svc') = (if r then (hm_find (svc_instances svc))
        (iid \<mapsto> \<lparr>sii_sid = svc_sid svc, sii_iid = iid, sii_sapInfo = sap\<rparr>) else hm_find (svc_instances svc))"
  using assms hm.bind_new [of "svc_instances svc" iid pos]
  by (auto simp: svc_inv_def ServiceInfo_addServiceInstance_def ServiceInfo_addInstance_def
      case_prod_unfold Let_def split: if_splits)

lemma svc_remove_find:
  assumes "svc_inv svc"
  shows "ServiceInfo_removeServiceInstance iid svc = (r, svc') \<Longrightarrow>
    (r \<longleftrightarrow> hm_find (svc_instances svc) iid \<noteq> None)
    \<and> hm_find (svc_instances svc') = (hm_find (svc_instances svc))(iid := None)"
  using assms hm_unbind_find [of "svc_instances svc" iid]
  by (auto simp: svc_inv_def ServiceInfo_removeServiceInstance_def case_prod_unfold Let_def)

lemma hm_find_Nil_iff: "m = [] \<longleftrightarrow> hm_find m = (\<lambda>_. None)"
  by (cases m) (auto simp: hm_find_map_of fun_eq_iff)

lemma running_update:
  "hm_find (pi_services p) sid = Some svc \<Longrightarrow>
    running (p\<lparr>pi_services := hm_update sid (\<lambda>_. svc') (pi_services p)\<rparr>)
      = (running p)(sid := hm_find (svc_instances svc'))"
  by (auto simp: running_def hm_update_find fun_eq_iff)

lemma running_addServiceInstance:
  assumes inv: "peer_inv p" and add: "PeerInfo_addServiceInstance pos sid iid sap p = (r, p')"
  shows "(r \<longleftrightarrow> running p sid iid = None)
    \<and> running p' = (if r then (running p)(sid := (running p sid)
        (iid \<mapsto> \<lparr>sii_sid = sid, sii_iid = iid, sii_sapInfo = sap\<rparr>)) else running p)"
proof (cases "hm_find (pi_services p) sid")
  case (Some svc)
  obtain r' svc' where a: "ServiceInfo_addServiceInstance pos iid sap svc = (r', svc')" by fastforce
  have p': "r' = r" "p' = p\<lparr>pi_services := hm_update sid (\<lambda>_. svc') (pi_services p)\<rparr>"
    using add Some a by (auto simp: PeerInfo_addServiceInstance_def)
  have rs: "running p sid = hm_find (svc_instances svc)" using Some by (simp add: running_def fun_eq_iff)
  show ?thesis using svc_add_find [OF _ a] peer_inv_find [OF inv Some] running_update [OF Some, of svc']
    by (auto simp: p' rs fun_upd_idem_iff)
next
  case None
  let ?i = "ServiceInfo_ctor sid" let ?m = "snd (hm_bind pos sid ?i (pi_services p))"
  have b: "fst (hm_bind pos sid ?i (pi_services p)) = 0" "hm_find ?m = (hm_find (pi_services p))(sid \<mapsto> ?i)"
    using inv None hm.bind_new [of "pi_services p" sid pos ?i] by (auto simp: peer_inv_def)
  obtain r' svc' where a: "ServiceInfo_addServiceInstance pos iid sap ?i = (r', svc')" by fastforce
  have sid: "svc_sid ?i = sid" "svc_instances ?i = []" by (simp_all add: ServiceInfo_ctor_def)
  have p': "r' = r" "p' = p\<lparr>pi_services := hm_update sid (\<lambda>_. svc') ?m\<rparr>"
    using add None a b(1) sid
    by (auto simp: PeerInfo_addServiceInstance_def PeerInfo_addService_def case_prod_unfold Let_def)
  have "r'" "hm_find (svc_instances svc') = [iid \<mapsto> \<lparr>sii_sid = sid, sii_iid = iid, sii_sapInfo = sap\<rparr>]"
    using svc_add_find [OF svc_inv_ctor a] by (auto simp: sid hm_find_map_of)
  then show ?thesis using None b(2)
    by (auto simp: p' running_def hm_update_find fun_eq_iff)
qed

lemma running_removeServiceInstance:
  assumes inv: "peer_inv p" and rem: "PeerInfo_removeServiceInstance sid iid p = (r, p')"
    and small: "\<forall>e\<in>set (pi_services p). length (svc_instances (snd e)) < 2 ^ 32"
  shows "(r \<longleftrightarrow> running p sid iid \<noteq> None) \<and> running p' = (running p)(sid := (running p sid)(iid := None))
    \<and> (r \<longrightarrow> (\<forall>j. running p' sid j = None) \<longrightarrow> \<not> PeerInfo_isServiceRunning sid p')"
proof (cases "hm_find (pi_services p) sid")
  case None
  with rem show ?thesis by (auto simp: PeerInfo_removeServiceInstance_def running_def fun_eq_iff)
next
  case (Some svc)
  obtain r' svc' where a: "ServiceInfo_removeServiceInstance iid svc = (r', svc')" by fastforce
  note f = svc_remove_find [OF _ a] and i = peer_inv_find [OF inv Some]
  let ?m = "hm_update sid (\<lambda>_. svc') (pi_services p)"
  have m: "hm_ok ?m" using inv by (simp add: peer_inv_def)
  have "length (svc_instances svc') \<le> length (svc_instances svc)"
    using a by (auto simp: ServiceInfo_removeServiceInstance_def hm_unbind_def Let_def
        split: option.splits dest: erase1_length)
  with small hm_find_set [OF Some] have "length (svc_instances svc') < 2 ^ 32" by force
  then have cnt: "ServiceInfo_getInstanceCount svc' = 0 \<longleftrightarrow> svc_instances svc' = []"
    by (simp add: ServiceInfo_getInstanceCount_def word_of_nat_eq_0_iff)
      (metis dvd_imp_le length_0_conv length_greater_0_conv linorder_not_le dvd_0_right)
  have r: "r = r'" using rem Some a by (auto simp: PeerInfo_removeServiceInstance_def Let_def split: if_splits)
  have rs: "running p sid = hm_find (svc_instances svc)" using Some by (simp add: running_def fun_eq_iff)
  have fm: "hm_find ?m sid = Some svc'" using Some by (simp add: hm_update_find)
  consider (keep) "p' = p\<lparr>pi_services := ?m\<rparr>" "r' \<longrightarrow> svc_instances svc' \<noteq> []"
    | (drop) "p' = p\<lparr>pi_services := snd (hm_unbind sid ?m)\<rparr>" "svc_instances svc' = []"
    using rem Some a cnt by (auto simp: PeerInfo_removeServiceInstance_def Let_def split: if_splits)
  then show ?thesis
  proof cases
    case keep
    then show ?thesis using f i running_update [OF Some, of svc'] hm_find_Nil_iff [of "svc_instances svc'"]
      by (auto simp: rs r fun_eq_iff)
  next
    case drop
    have "hm_find (svc_instances svc') = (\<lambda>_. None)" using drop hm_find_Nil_iff by blast
    with f i have "(hm_find (svc_instances svc))(iid := None) = (\<lambda>_. None)" by simp
    then show ?thesis using drop f i hm_unbind_find [OF m, of sid]
      by (auto simp: rs r running_def PeerInfo_isServiceRunning_def hm_update_find fun_eq_iff)
  qed
qed

lemma running_changeServiceIID:
  assumes inv: "peer_inv p" and "running p sid old = Some i"
    and ch: "PeerInfo_changeServiceIID pos sid old new p = (r, p')"
  shows "if new = old \<or> running p sid new = None
    then r \<and> running p' = (running p)(sid := ((running p sid)(old := None))(new \<mapsto> i\<lparr>sii_iid := new\<rparr>))
    else \<not> r \<and> running p' = (running p)(sid := (running p sid)(old := None))"
proof -
  obtain svc where svc: "hm_find (pi_services p) sid = Some svc" "hm_find (svc_instances svc) old = Some i"
    using assms(2) by (auto simp: running_def split: option.splits)
  have ok: "hm_ok (svc_instances svc)" using peer_inv_find [OF inv svc(1)] by (simp add: svc_inv_def)
  obtain r' svc' where a: "ServiceInfo_setIID pos old new svc = (r', svc')" by fastforce
  have p': "r = r'" "p' = p\<lparr>pi_services := hm_update sid (\<lambda>_. svc') (pi_services p)\<rparr>"
    using ch svc(1) a by (auto simp: PeerInfo_changeServiceIID_def)
  have rs: "running p sid = hm_find (svc_instances svc)" using svc(1) by (simp add: running_def fun_eq_iff)
  let ?b = "hm_bind pos new (i\<lparr>sii_iid := new\<rparr>) (snd (hm_unbind old (svc_instances svc)))"
  have b: "r' = (fst ?b = 0)" "svc_instances svc' = snd ?b"
    using a svc(2) by (auto simp: ServiceInfo_setIID_def case_prod_unfold Let_def)
  show ?thesis
    using hm.rename [OF ok svc(2), of new pos "i\<lparr>sii_iid := new\<rparr>"]
      hm.rename_clash [OF ok, of new old pos "i\<lparr>sii_iid := new\<rparr>"] running_update [OF svc(1), of svc']
    by (auto simp: p' b rs)
qed

section \<open>Codecs\<close>

definition sii_ok :: "service_instance_info \<Rightarrow> bool" where
  "sii_ok i = (uuid_ok (sii_sid i) \<and> uuid_ok (sii_iid i) \<and> pred_option sap_ok (sii_sapInfo i))"

interpretation sii: codec ServiceInstanceInfo_serialize ServiceInstanceInfo_deserialize sii_ok
  by unfold_locales
     (simp_all add: ServiceInstanceInfo_serialize_def ServiceInstanceInfo_deserialize_def sii_ok_def
       uuid_roundtrip sap.opt_back sap.opt_calls)

definition svc_ok :: "service_info \<Rightarrow> bool" where
  "svc_ok svc = (svc_inv svc \<and> uuid_ok (svc_sid svc) \<and> length (svc_instances svc) < 2 ^ 31
     \<and> list_all sii_ok (map snd (svc_instances svc)))"

text \<open>The same service up to the order of its table.\<close>

definition svc_sim :: "service_info \<Rightarrow> service_info \<Rightarrow> bool" where
  "svc_sim a b = (svc_sid a = svc_sid b \<and> hm_ok (svc_instances b)
     \<and> hm_find (svc_instances a) = hm_find (svc_instances b))"

interpretation svc: codec_upto ServiceInfo_serialize "ServiceInfo_deserialize pos" svc_ok svc_sim for pos
proof
  fix x r
  assume ok: "svc_ok x"
  let ?m = "svc_instances x"
  let ?s = "input (encode (concat (map ServiceInstanceInfo_serialize (map snd ?m))) @ r)"
  have "read_n (length ?m) ServiceInstanceInfo_deserialize ?s = (map snd ?m, input r)"
    using sii.list_back [of "map snd ?m" r] ok by (simp add: svc_ok_def)
  moreover have "list_all2 (=) (map snd ?m) (map snd ?m)" by (simp add: list.rel_eq)
  ultimately obtain m' where m': "hm_read pos ServiceInstanceInfo_deserialize sii_iid (length ?m) [] ?s = (m', input r)"
    "hm_ok m'" "\<forall>k. rel_option (=) (hm_find ?m k) (hm_find m' k)"
    using hm_read_back [of ?m ServiceInstanceInfo_deserialize ?s "map snd ?m" "input r" "(=)" sii_iid pos] ok
    by (auto simp: svc_ok_def svc_inv_def)
  have "hm_find ?m = hm_find m'" using m'(3) by (simp add: option.rel_eq fun_eq_iff)
  moreover have "int_count (word_of_nat (length ?m)) = length ?m" using ok by (simp add: svc_ok_def int_count_of_nat)
  ultimately show "\<exists>y. ServiceInfo_deserialize pos (input (encode (ServiceInfo_serialize x) @ r)) = (y, input r) \<and> svc_sim x y"
    using ok m'(1,2)
    by (simp add: ServiceInfo_serialize_def ServiceInfo_deserialize_def svc_ok_def uuid_roundtrip
        read_long_back svc_sim_def)
next
  fix x
  assume "svc_ok x"
  then show "wire_ok (ServiceInfo_serialize x)"
    using sii.list_calls [of "map snd (svc_instances x)"] by (simp add: ServiceInfo_serialize_def svc_ok_def)
qed

definition peer_ok :: "peer_info \<Rightarrow> bool" where
  "peer_ok p = (peer_inv p \<and> uuid_ok (pi_pid p) \<and> uuid_ok (pi_fid p) \<and> pred_option sap_ok (pi_meshSAP p)
     \<and> pred_option sap_ok (pi_discoverySAP p) \<and> pred_option sap_ok (pi_ftSAP p)
     \<and> length (pi_services p) < 2 ^ 31 \<and> list_all svc_ok (map snd (pi_services p)))"

definition peer_sim :: "peer_info \<Rightarrow> peer_info \<Rightarrow> bool" where
  "peer_sim a b = (pi_type a = pi_type b \<and> pi_pid a = pi_pid b \<and> pi_fid a = pi_fid b
     \<and> pi_meshSAP a = pi_meshSAP b \<and> pi_discoverySAP a = pi_discoverySAP b \<and> pi_ftSAP a = pi_ftSAP b
     \<and> hm_ok (pi_services b) \<and> (\<forall>k. rel_option svc_sim (hm_find (pi_services a) k) (hm_find (pi_services b) k)))"

interpretation peer: codec_upto PeerInfo_serialize "PeerInfo_deserialize pos ty0" peer_ok peer_sim for pos ty0
proof
  fix x r
  assume ok: "peer_ok x"
  let ?m = "pi_services x"
  let ?s = "input (encode (concat (map ServiceInfo_serialize (map snd ?m))) @ r)"
  obtain ys where "read_n (length ?m) (ServiceInfo_deserialize pos) ?s = (ys, input r)" "list_all2 svc_sim (map snd ?m) ys"
    using svc.list_upto [of "map snd ?m" pos r] ok by (auto simp: peer_ok_def)
  then obtain m' where m': "hm_read pos (ServiceInfo_deserialize pos) svc_sid (length ?m) [] ?s = (m', input r)"
    "hm_ok m'" "\<forall>k. rel_option svc_sim (hm_find ?m k) (hm_find m' k)"
    using hm_read_back [of ?m "ServiceInfo_deserialize pos" ?s ys "input r" svc_sim svc_sid pos] ok
    by (auto simp: peer_ok_def peer_inv_def svc_sim_def)
  moreover have "int_count (word_of_nat (length ?m)) = length ?m" using ok by (simp add: peer_ok_def int_count_of_nat)
  ultimately show "\<exists>y. PeerInfo_deserialize pos ty0 (input (encode (PeerInfo_serialize x) @ r)) = (y, input r) \<and> peer_sim x y"
    using ok by (simp add: PeerInfo_serialize_def PeerInfo_deserialize_def peer_ok_def uuid_roundtrip
        read_ulong_back read_long_back sap.opt_back peer_sim_def)
next
  fix x
  assume "peer_ok x"
  then show "wire_ok (PeerInfo_serialize x)"
    using svc.list_upto_calls [of "map snd (pi_services x)"]
    by (simp add: PeerInfo_serialize_def peer_ok_def sap.opt_calls)
qed

definition p3_ok :: "p3_peer_info \<Rightarrow> bool" where
  "p3_ok p = (peer_ok (pp_info p) \<and> pred_option endpoint_ok (pp_cellEndpoint p))"

definition p3_sim :: "p3_peer_info \<Rightarrow> p3_peer_info \<Rightarrow> bool" where
  "p3_sim a b = (peer_sim (pp_info a) (pp_info b) \<and> pp_cellEndpoint a = pp_cellEndpoint b)"

interpretation p3: codec_upto P3PeerInfo_serialize "P3PeerInfo_deserialize pos ty0" p3_ok p3_sim for pos ty0
proof
  fix x r
  assume ok: "p3_ok x"
  let ?r = "encode (write_opt Endpoint_serialize (pp_cellEndpoint x)) @ r"
  obtain y where "PeerInfo_deserialize pos ty0 (input (encode (PeerInfo_serialize (pp_info x)) @ ?r)) = (y, input ?r)"
    "peer_sim (pp_info x) y" using peer.upto [of "pp_info x" pos ty0 ?r] ok by (auto simp: p3_ok_def)
  then show "\<exists>y. P3PeerInfo_deserialize pos ty0 (input (encode (P3PeerInfo_serialize x) @ r)) = (y, input r) \<and> p3_sim x y"
    using ok by (simp add: P3PeerInfo_serialize_def P3PeerInfo_deserialize_def endpoint.opt_back p3_ok_def p3_sim_def)
next
  fix x
  assume "p3_ok x"
  then show "wire_ok (P3PeerInfo_serialize x)"
    by (simp add: P3PeerInfo_serialize_def p3_ok_def peer.upto_calls endpoint.opt_calls)
qed

lemma p3_sim_fields: "p3_sim a b \<Longrightarrow> getPID a = getPID b \<and> getFID a = getFID b \<and> getType a = getType b"
  by (simp add: p3_sim_def peer_sim_def getPID_def getFID_def getType_def)

lemma shrink_sii [shrink]: "bis_length s \<le> n \<Longrightarrow> bis_length (snd (ServiceInstanceInfo_deserialize s)) \<le> n"
  by (simp add: ServiceInstanceInfo_deserialize_def Let_def case_prod_unfold shrink)

lemma shrink_svc [shrink]: "bis_length s \<le> n \<Longrightarrow> bis_length (snd (ServiceInfo_deserialize pos s)) \<le> n"
  by (simp add: ServiceInfo_deserialize_def Let_def case_prod_unfold shrink)

lemma shrink_peer [shrink]: "bis_length s \<le> n \<Longrightarrow> bis_length (snd (PeerInfo_deserialize pos ty0 s)) \<le> n"
  by (simp add: PeerInfo_deserialize_def Let_def case_prod_unfold shrink)

lemma shrink_p3 [shrink]: "bis_length s \<le> n \<Longrightarrow> bis_length (snd (P3PeerInfo_deserialize pos ty0 s)) \<le> n"
  by (simp add: P3PeerInfo_deserialize_def Let_def case_prod_unfold shrink)

section \<open>Properties of peers\<close>

text \<open>The service registry of a peer refines a partial function from service and instance to
  description. Registering an instance succeeds exactly when that instance was not running and
  adds just it, creating the service when needed; the queries report exactly that function; the
  invariant (tables without duplicate keys, every entry under its own identifier, instances that
  name their service) is kept.\<close>

lemma peer_register_refines:
  assumes "peer_inv p" "PeerInfo_addServiceInstance pos sid iid sap p = (r, p')"
  shows "peer_inv p' \<and> (r \<longleftrightarrow> running p sid iid = None)
    \<and> running p' = (if r then (running p)(sid := (running p sid)
        (iid \<mapsto> \<lparr>sii_sid = sid, sii_iid = iid, sii_sapInfo = sap\<rparr>)) else running p)
    \<and> PeerInfo_isServiceInstanceRunning sid iid p'
    \<and> (\<forall>i. PeerInfo_getInstanceOfService sid iid p' = Inr i \<longleftrightarrow> running p' sid iid = Some i)"
proof -
  note R = running_addServiceInstance [OF assms]
  have "running p' sid iid \<noteq> None" using R by auto
  then have "PeerInfo_isServiceInstanceRunning sid iid p'"
    by (auto simp: PeerInfo_isServiceInstanceRunning_def ServiceInfo_isServiceInstanceRunning_def running_def
        split: option.splits)
  moreover have "PeerInfo_getInstanceOfService sid iid p' = Inr i \<longleftrightarrow> running p' sid iid = Some i" for i
    by (auto simp: PeerInfo_getInstanceOfService_def ServiceInfo_getInstanceOfService_def running_def
        split: option.splits)
  moreover have "peer_inv p'" using peer_inv_addServiceInstance [OF assms(1), of pos sid iid sap] assms(2) by simp
  ultimately show ?thesis using R by blast
qed

definition sample_peer :: "u32 \<Rightarrow> byte \<Rightarrow> p3_peer_info" where
  "sample_peer ty n = P3PeerInfo_ctor ty (replicate 15 0 @ [n]) (replicate 16 7) None
     (Some [sample_endpoint 1]) None None"

lemma sample_peer_inv [simp]: "peer_inv (pp_info (sample_peer ty n))"
  by (simp add: sample_peer_def P3PeerInfo_ctor_def peer_inv_def hm_ok_def keyed_def)

lemma peer_register_refines_witness:
  "running (snd (PeerInfo_addServiceInstance (\<lambda>_ _. 0) [1] [2] None (pp_info (sample_peer 1 5)))) [1] [2]
     = Some \<lparr>sii_sid = [1], sii_iid = [2], sii_sapInfo = None\<rparr>"
proof -
  have "running (pp_info (sample_peer 1 5)) [1] [2] = None"
    by (simp add: sample_peer_def P3PeerInfo_ctor_def running_def hm_find_def)
  then show ?thesis
    using peer_register_refines [OF sample_peer_inv [of 1 5] surjective_pairing, of "\<lambda>_ _. 0" "[1]" "[2]" None] by simp
qed

text \<open>Removing an instance removes just it. It succeeds exactly when the instance was running; the
  last instance takes its service with it; everything else, and the invariant, is kept.\<close>

lemma peer_unregister_refines:
  assumes "peer_inv p" "PeerInfo_removeServiceInstance sid iid p = (r, p')"
    "\<forall>e\<in>set (pi_services p). length (svc_instances (snd e)) < 2 ^ 32"
  shows "peer_inv p' \<and> (r \<longleftrightarrow> running p sid iid \<noteq> None)
    \<and> running p' = (running p)(sid := (running p sid)(iid := None))
    \<and> (r \<and> (\<forall>j. running p' sid j = None) \<longrightarrow> \<not> PeerInfo_isServiceRunning sid p')"
  using running_removeServiceInstance [OF assms] peer_inv_removeServiceInstance [OF assms(1), of sid iid] assms(2)
  by simp

lemma peer_unregister_refines_witness:
  "running (snd (PeerInfo_removeServiceInstance [1] [2] (pp_info (sample_peer 1 5)))) [1] [2] = None"
  using peer_unregister_refines [OF sample_peer_inv [of 1 5] surjective_pairing, of "[1]" "[2]"]
  by (simp add: sample_peer_def P3PeerInfo_ctor_def)

text \<open>Renaming an instance. Under a fresh identifier the instance moves and is updated; when the
  new identifier is already running the call reports failure and the renamed instance is lost.\<close>

lemma peer_change_iid:
  assumes "peer_inv p" "running p sid old = Some i" "PeerInfo_changeServiceIID pos sid old new p = (r, p')"
  shows "peer_inv p' \<and> (if new = old \<or> running p sid new = None
    then r \<and> running p' = (running p)(sid := ((running p sid)(old := None))(new \<mapsto> i\<lparr>sii_iid := new\<rparr>))
    else \<not> r \<and> running p' = (running p)(sid := (running p sid)(old := None)))"
  using running_changeServiceIID [OF assms] peer_inv_changeServiceIID [OF assms(1), of pos sid old new] assms(3)
  by simp

text \<open>Peers survive the wire. A peer of the P3 overlay written to a \<^verbatim>\<open>ByteOutputStream\<close> occupies the
  announced number of bytes and is read back with the same type, identifiers, access points and
  cell endpoint, and tables with the same content, whatever order the hash tables iterate in.\<close>

lemma p3_peer_through_streams:
  assumes "p3_ok p" "consts_ok c" "alloc_ok alloc"
  shows "\<exists>t q. run_ops bos_put (P3PeerInfo_serialize p) (bos_ctor c alloc True tradeoff sz) = Some t
    \<and> serialization_size (P3PeerInfo_serialize p) = Some (length (bos_content t))
    \<and> P3PeerInfo_deserialize pos ty0 (input (bos_content t)) = (q, input []) \<and> p3_sim p q"
  using assms by (rule p3.through_streams_upto)

lemma sample_peer_ok [simp]: "p3_ok (sample_peer ty n)"
  by (simp add: p3_ok_def sample_peer_def P3PeerInfo_ctor_def peer_ok_def peer_inv_def hm_ok_def keyed_def
      uuid_ok_def sap_ok_def endpoint_ok_def text_ok_def str_ok_def sample_endpoint_def)

lemma p3_peer_through_streams_witness:
  "\<exists>t q. run_ops bos_put (P3PeerInfo_serialize (sample_peer 2 9)) (bos_ctor sample_consts zero_alloc True 256 0) = Some t
    \<and> P3PeerInfo_deserialize (\<lambda>_ _. 0) 0 (input (bos_content t)) = (q, input []) \<and> p3_sim (sample_peer 2 9) q"
  using p3_peer_through_streams [of "sample_peer 2 9" sample_consts zero_alloc 256 0 "\<lambda>_ _. 0" 0]
  by auto

end
