(* ===== verification/CellIDs.thy ===== *)
theory CellIDs
  imports UUIDs
begin

text \<open>
  \<^verbatim>\<open>p3/superpeer/cell/CellID.cpp\<close> and the number formatting it uses, \<^verbatim>\<open>euryale/common/Integer\<close>. A cell
  identifier is a UUID whose text is read as one hexadecimal digit per tree level
  (\<^verbatim>\<open>CHAR_PER_RANK = 1\<close>, \<^verbatim>\<open>KEY_STR_SIZE = 32\<close>): digit 0 is the root, the digits after it give the branch
  taken at each depth, and the first digit 0 after position 0 ends the path.
\<close>

section \<open>Integer\<close>

fun digits_of :: "nat \<Rightarrow> nat \<Rightarrow> nat \<Rightarrow> string" where
  "digits_of 0 radix n = []"
| "digits_of (Suc k) radix n =
     (if n < radix then [char_of (48 + n)]
      else digits_of k radix (n div radix) @ [char_of (48 + n mod radix)])"

text \<open>\<^verbatim>\<open>ACE_OS::itoa(i, buf, radix)\<close> for a non-negative number and a radix between 2 and 10; thirty-two
  digits are enough for 32 bits.\<close>

definition itoa :: "nat \<Rightarrow> nat \<Rightarrow> string" where
  "itoa n radix = digits_of 32 radix n"

text \<open>\<^verbatim>\<open>String str(buf, 32)\<close> has all 32 characters of the zeroed buffer, the NULs included.\<close>

definition toUnsignedString :: "nat \<Rightarrow> nat \<Rightarrow> string" where
  "toUnsignedString i shift =
     (let ds = itoa i shift in ds @ replicate (32 - length ds) (CHR 0x00))"

definition toHexString :: "nat \<Rightarrow> string" where
  "toHexString i = toUnsignedString i 4"

text \<open>The C string a \<^verbatim>\<open>char*\<close> consumer sees.\<close>

definition c_chars :: "string \<Rightarrow> string" where
  "c_chars s = takeWhile (\<lambda>c. c \<noteq> CHR 0x00) s"

text \<open>\<^verbatim>\<open>Integer::parseInt(prefix.substring(index, 1), 16)\<close>: \<^verbatim>\<open>strtoul\<close> of at most one character.\<close>

definition parse_rank :: "string \<Rightarrow> nat \<Rightarrow> nat" where
  "parse_rank prefix index =
     (if index < length prefix
      then (case hex_val (prefix ! index) of Some v \<Rightarrow> v | None \<Rightarrow> 0) else 0)"

section \<open>CellID\<close>

definition KEY_STR_SIZE :: nat where
  "KEY_STR_SIZE = 32"

text \<open>The scan \<^verbatim>\<open>for (i = 1; i < prefix.length(); i++)\<close> that stops at a digit 0.\<close>

fun rank_scan :: "nat \<Rightarrow> string \<Rightarrow> nat" where
  "rank_scan i [] = i"
| "rank_scan i (c # cs) = (if c = CHR ''0'' then i else rank_scan (Suc i) cs)"

definition getCellDepth :: "uuid \<Rightarrow> nat" where
  "getCellDepth u = (let i = rank_scan 1 (drop 1 (toString u)) in if i = 1 then 0 else i - 1)"

definition getCellSpan :: "uuid \<Rightarrow> nat \<Rightarrow> nat" where
  "getCellSpan u depth = parse_rank (toString u) depth"

definition getCellLevels :: "uuid \<Rightarrow> nat list" where
  "getCellLevels u = 0 # map (parse_rank (toString u)) [1..<KEY_STR_SIZE]"

datatype cell_parent = NoParent | ParentError uuid_error | Parent uuid

definition getParentGroupID :: "uuid \<Rightarrow> cell_parent" where
  "getParentGroupID u =
     (let prefix = toString u; i = rank_scan 1 (drop 1 prefix) in
      if i = 1 then NoParent
      else case UUID_of_string (prefix[i - 1 := CHR ''0'']) of
        Inl e \<Rightarrow> ParentError e
      | Inr v \<Rightarrow> Parent v)"

fun levels_agree :: "nat list \<Rightarrow> nat list \<Rightarrow> nat list \<Rightarrow> bool" where
  "levels_agree [] lvl1 lvl2 = True"
| "levels_agree (i # is) lvl1 lvl2 =
     (if lvl1 ! i \<noteq> lvl2 ! i then
        (if lvl1 ! i = 0 \<and> 0 < lvl2 ! i then True
         else if lvl2 ! i = 0 \<and> 0 < lvl1 ! i then True else False)
      else levels_agree is lvl1 lvl2)"

definition belongsToCellTree :: "uuid \<Rightarrow> uuid \<Rightarrow> bool" where
  "belongsToCellTree this cellID =
     (if isEqual cellID this then True
      else let cellDepth = getCellDepth cellID; thisDepth = getCellDepth this;
               depth = (if thisDepth < cellDepth then thisDepth else cellDepth)
           in levels_agree [1..<Suc depth] (getCellLevels cellID) (getCellLevels this))"

definition convertLvlsToCellID :: "nat list \<Rightarrow> uuid_error + uuid" where
  "convertLvlsToCellID lvls = UUID_of_string (c_chars (concat (map toHexString lvls)))"

fun next_lvls :: "nat \<Rightarrow> nat \<Rightarrow> nat list \<Rightarrow> nat list" where
  "next_lvls depth 0 lvls = lvls"
| "next_lvls depth (Suc k) lvls =
     (if lvls ! Suc k < 2 then lvls[Suc k := Suc (lvls ! Suc k)]
      else if k = 0 then (fold (\<lambda>j l. l[j := 1]) [1..<Suc depth] lvls)[Suc depth := 1]
      else next_lvls depth k lvls)"

definition getNextGroupID_2 :: "uuid \<Rightarrow> uuid_error + uuid" where
  "getNextGroupID_2 u =
     (let lvls = getCellLevels u; depth = getCellDepth u in
      if depth = 0 then convertLvlsToCellID (lvls[1 := 1])
      else convertLvlsToCellID (next_lvls depth depth lvls))"

section \<open>Paths of identifiers\<close>

definition cell_id_ok :: "uuid \<Rightarrow> bool" where
  "cell_id_ok u = (length u = 16)"

lemma toString_hex: "i < 2 * length u \<Longrightarrow> \<exists>v<16. toString u ! i = hex_digit v"
proof (induction u arbitrary: i)
  case (Cons b u)
  show ?case
  proof (cases "i < 2")
    case True
    then consider "i = 0" | "i = 1" by linarith
    then show ?thesis
    proof cases
      case 1
      then show ?thesis using byte_split(1) [of b] by (auto simp: toString_Cons)
    next
      case 2
      then show ?thesis using byte_split(2) [of b]
        by (intro exI [of _ "unat b mod 16"]) (simp add: toString_Cons)
    qed
  next
    case False
    then obtain k where "i = Suc (Suc k)" by (metis add_2_eq_Suc le_add_diff_inverse not_less)
    with Cons show ?thesis by (auto simp: toString_Cons)
  qed
qed simp

lemma hex_digit_0: "hex_digit 0 = CHR ''0''"
  by code_simp

lemma hex_digit_zero_iff: "v < 16 \<Longrightarrow> hex_digit v = CHR ''0'' \<longleftrightarrow> v = 0"
  using hex_digit_eq_iff [of v 0] by (simp add: hex_digit_0)

lemma parse_rank_zero_iff:
  "i < 2 * length u \<Longrightarrow> parse_rank (toString u) i = 0 \<longleftrightarrow> toString u ! i = CHR ''0''"
proof -
  assume i: "i < 2 * length u"
  from toString_hex [OF this] obtain v where "v < 16" "toString u ! i = hex_digit v" by blast
  with i show ?thesis by (simp add: parse_rank_def hex_val_digit hex_digit_zero_iff)
qed

lemma parse_rank_less: "parse_rank (toString u) i < 16"
  using toString_hex [of i u] by (auto simp: parse_rank_def hex_val_digit)

lemma parse_rank_inj:
  "i < 2 * length u \<Longrightarrow> i < 2 * length v \<Longrightarrow>
    parse_rank (toString u) i = parse_rank (toString v) i \<longleftrightarrow> toString u ! i = toString v ! i"
  using toString_hex [of i u] toString_hex [of i v]
  by (auto simp: parse_rank_def hex_val_digit hex_digit_eq_iff)

lemma rank_scan_spec:
  "i \<le> rank_scan i cs \<and> rank_scan i cs \<le> i + length cs
   \<and> (\<forall>k. i + k < rank_scan i cs \<longrightarrow> cs ! k \<noteq> CHR ''0'')
   \<and> (rank_scan i cs < i + length cs \<longrightarrow> cs ! (rank_scan i cs - i) = CHR ''0'')"
proof (induction i cs rule: rank_scan.induct)
  case (2 i c cs)
  show ?case
  proof (cases "c = CHR ''0''")
    case False
    with 2 have IH: "Suc i \<le> rank_scan (Suc i) cs" "rank_scan (Suc i) cs \<le> Suc i + length cs"
      "\<forall>k. Suc i + k < rank_scan (Suc i) cs \<longrightarrow> cs ! k \<noteq> CHR ''0''"
      "rank_scan (Suc i) cs < Suc i + length cs \<longrightarrow> cs ! (rank_scan (Suc i) cs - Suc i) = CHR ''0''"
      by auto
    have "(c # cs) ! k \<noteq> CHR ''0''" if "i + k < rank_scan (Suc i) cs" for k
      using that IH(3) False by (cases k) auto
    moreover have "rank_scan (Suc i) cs - i = Suc (rank_scan (Suc i) cs - Suc i)" using IH(1) by simp
    ultimately show ?thesis using False IH by simp
  qed simp
qed simp

text \<open>The depth is the number of digits before the first 0, not counting position 0.\<close>

lemma getCellDepth_spec:
  assumes "cell_id_ok u"
  shows "getCellDepth u < 32"
    "\<And>i. 1 \<le> i \<Longrightarrow> i \<le> getCellDepth u \<Longrightarrow> toString u ! i \<noteq> CHR ''0''"
    "Suc (getCellDepth u) < 32 \<Longrightarrow> toString u ! Suc (getCellDepth u) = CHR ''0''"
    "rank_scan 1 (drop 1 (toString u)) = Suc (getCellDepth u)"
proof -
  let ?cs = "drop 1 (toString u)" let ?i = "rank_scan 1 ?cs"
  have l: "length ?cs = 31" "length (toString u) = 32" using assms by (simp_all add: cell_id_ok_def)
  note spec = rank_scan_spec [of 1 ?cs]
  have d: "getCellDepth u = ?i - 1" using spec by (auto simp: getCellDepth_def Let_def)
  show "getCellDepth u < 32" using spec l d by auto
  show "?i = Suc (getCellDepth u)" using spec d by auto
  show "toString u ! i \<noteq> CHR ''0''" if "1 \<le> i" "i \<le> getCellDepth u" for i
  proof -
    have "1 + (i - 1) < ?i" using that d by simp
    with spec have "?cs ! (i - 1) \<noteq> CHR ''0''" by blast
    with that l show ?thesis by simp
  qed
  show "toString u ! Suc (getCellDepth u) = CHR ''0''" if "Suc (getCellDepth u) < 32"
  proof -
    have "?i < 1 + length ?cs" using that spec l d by auto
    with spec have "?cs ! (?i - 1) = CHR ''0''" by blast
    with that l d show ?thesis by simp
  qed
qed

lemma length_getCellLevels [simp]: "length (getCellLevels u) = 32"
  by (simp add: getCellLevels_def KEY_STR_SIZE_def)

lemma getCellLevels_nth: "1 \<le> i \<Longrightarrow> i < 32 \<Longrightarrow> getCellLevels u ! i = parse_rank (toString u) i"
  by (cases i) (auto simp: getCellLevels_def KEY_STR_SIZE_def)

lemma getCellLevels_depth:
  assumes "cell_id_ok u" "1 \<le> i" "i < 32"
  shows "i \<le> getCellDepth u \<Longrightarrow> 0 < getCellLevels u ! i"
    "i = Suc (getCellDepth u) \<Longrightarrow> getCellLevels u ! i = 0"
  using assms getCellDepth_spec [OF assms(1)] parse_rank_zero_iff [of i u]
  by (auto simp: getCellLevels_nth cell_id_ok_def)

lemma toString_surj:
  "length s = 2 * n \<Longrightarrow> \<forall>i<length s. \<exists>v<16. s ! i = hex_digit v \<Longrightarrow> \<exists>u. length u = n \<and> toString u = s"
proof (induction n arbitrary: s)
  case 0
  then show ?case by (simp add: toString_def)
next
  case (Suc n)
  then obtain c1 c2 s' where s: "s = c1 # c2 # s'" by (metis Suc_length_conv mult_Suc_right add_2_eq_Suc)
  from Suc.prems(2) s obtain a b where ab: "a < 16" "c1 = hex_digit a" "b < 16" "c2 = hex_digit b"
    by (metis length_Cons less_Suc_eq_0_disj nth_Cons_0 nth_Cons_Suc)
  have "\<forall>i<length s'. \<exists>v<16. s' ! i = hex_digit v"
    using Suc.prems(2) s by (metis Suc_less_eq length_Cons nth_Cons_Suc)
  with Suc.IH [of s'] Suc.prems(1) s obtain u where u: "length u = n" "toString u = s'" by auto
  let ?x = "word_of_nat (16 * a + b) :: byte"
  have "unat ?x = 16 * a + b" using ab by (simp only: unat_of_nat) simp
  then have "unat ?x div 16 = a" "unat ?x mod 16 = b" using ab by simp_all
  then have "toString (?x # u) = s" by (simp only: toString_Cons u ab s)
  with u show ?case by (metis length_Cons)
qed

lemma getParentGroupID_toString:
  assumes "cell_id_ok u" "0 < getCellDepth u"
  shows "\<exists>v. getParentGroupID u = Parent v \<and> cell_id_ok v
    \<and> toString v = (toString u)[getCellDepth u := CHR ''0'']"
proof -
  let ?s = "(toString u)[getCellDepth u := CHR ''0'']"
  have "\<exists>v<16. ?s ! i = hex_digit v" if "i < 32" for i
    using that toString_hex [of i u] assms(1) hex_digit_0
    by (cases "i = getCellDepth u") (auto simp: cell_id_ok_def intro: exI [of _ 0])
  then obtain v where v: "length v = 16" "toString v = ?s"
    using toString_surj [of ?s 16] assms(1) by (auto simp: cell_id_ok_def)
  then have "v \<noteq> []" by auto
  with v have "UUID_of_string ?s = Inr v" using UUID_of_string_toString [of v] by simp
  with v assms(2) getCellDepth_spec(4) [OF assms(1)] show ?thesis
    by (auto simp: getParentGroupID_def Let_def cell_id_ok_def)
qed

lemma getCellDepth_unique:
  assumes "cell_id_ok u" "d < 32" "\<And>i. 1 \<le> i \<Longrightarrow> i \<le> d \<Longrightarrow> toString u ! i \<noteq> CHR ''0''"
    "Suc d < 32 \<Longrightarrow> toString u ! Suc d = CHR ''0''"
  shows "getCellDepth u = d"
proof (rule linorder_cases)
  assume "getCellDepth u < d"
  with getCellDepth_spec(3) [OF assms(1)] assms(2) assms(3) [of "Suc (getCellDepth u)"] show ?thesis by simp
next
  assume lt: "d < getCellDepth u"
  then have "Suc d < 32" using getCellDepth_spec(1) [OF assms(1)] by simp
  with assms(4) getCellDepth_spec(2) [OF assms(1), of "Suc d"] lt show ?thesis by simp
qed simp

lemma levels_agree_nonzero:
  assumes "\<And>i. i \<in> set is \<Longrightarrow> 0 < l1 ! i \<and> 0 < l2 ! i"
  shows "levels_agree is l1 l2 \<longleftrightarrow> (\<forall>i\<in>set is. l1 ! i = l2 ! i)"
  using assms
proof (induction "is")
  case (Cons i "is")
  then have "0 < l1 ! i" "0 < l2 ! i"
    and "levels_agree is l1 l2 \<longleftrightarrow> (\<forall>i\<in>set is. l1 ! i = l2 ! i)" by simp_all
  then show ?case by simp
qed simp

section \<open>Properties of cell identifiers\<close>

text \<open>Depth and levels agree. For a 16-byte cell identifier the depth is at most 31, the level
  vector has 32 entries below 16 starting with 0, every level up to the depth is non-zero and the
  next one, if there is one, is 0.\<close>

lemma cell_levels_depth:
  assumes "cell_id_ok u"
  shows "getCellDepth u \<le> 31 \<and> length (getCellLevels u) = 32 \<and> getCellLevels u ! 0 = 0
    \<and> (\<forall>i<32. getCellLevels u ! i < 16)
    \<and> (\<forall>i. 1 \<le> i \<and> i \<le> getCellDepth u \<longrightarrow> 0 < getCellLevels u ! i)
    \<and> (getCellDepth u < 31 \<longrightarrow> getCellLevels u ! Suc (getCellDepth u) = 0)"
proof -
  have "getCellLevels u ! i < 16" if "i < 32" for i
    using that parse_rank_less by (cases i) (auto simp: getCellLevels_nth, simp add: getCellLevels_def)
  moreover have "getCellDepth u \<le> 31" using getCellDepth_spec(1) [OF assms] by simp
  moreover have "getCellLevels u ! 0 = 0" by (simp add: getCellLevels_def)
  ultimately show ?thesis using getCellLevels_depth [OF assms] by simp
qed

text \<open>The parent is one level up. The root (depth 0) has no parent; any other cell identifier has
  one, of the same size and of depth one less, which differs from it only in the digit of its
  own level.\<close>

lemma cell_parent_one_up:
  assumes "cell_id_ok u"
  shows "(getCellDepth u = 0 \<longrightarrow> getParentGroupID u = NoParent)
    \<and> (0 < getCellDepth u \<longrightarrow> (\<exists>v. getParentGroupID u = Parent v \<and> cell_id_ok v
         \<and> getCellDepth v = getCellDepth u - 1
         \<and> (\<forall>i<32. i \<noteq> getCellDepth u \<longrightarrow> toString v ! i = toString u ! i)))"
proof (intro conjI impI)
  assume "getCellDepth u = 0"
  then show "getParentGroupID u = NoParent"
    using getCellDepth_spec(4) [OF assms] by (simp add: getParentGroupID_def Let_def)
next
  assume d: "0 < getCellDepth u"
  from getParentGroupID_toString [OF assms d] obtain v where v: "getParentGroupID u = Parent v"
    "cell_id_ok v" "toString v = (toString u)[getCellDepth u := CHR ''0'']" by blast
  have "getCellDepth v = getCellDepth u - 1"
    using getCellDepth_spec [OF assms] d v(3) assms
    by (intro getCellDepth_unique [OF v(2)]) (auto simp: cell_id_ok_def)
  with v show "\<exists>v. getParentGroupID u = Parent v \<and> cell_id_ok v \<and> getCellDepth v = getCellDepth u - 1
      \<and> (\<forall>i<32. i \<noteq> getCellDepth u \<longrightarrow> toString v ! i = toString u ! i)" by auto
qed

text \<open>Membership of the cell tree. For 16-byte identifiers \<^verbatim>\<open>belongsToCellTree\<close> holds exactly
  when one path is a prefix of the other: the two agree on every level down to the shallower
  depth. In particular it is symmetric, and the branches that compare a level with 0 never run.\<close>

lemma cell_tree_membership:
  assumes "cell_id_ok u" "cell_id_ok v"
  shows "belongsToCellTree u v \<longleftrightarrow>
    (\<forall>i. 1 \<le> i \<and> i \<le> min (getCellDepth u) (getCellDepth v) \<longrightarrow> getCellLevels u ! i = getCellLevels v ! i)"
proof (cases "u = v")
  case True
  then show ?thesis by (simp add: belongsToCellTree_def isEqual_def)
next
  case False
  then have ne: "\<not> isEqual v u" using assms by (simp add: isEqual_def cell_id_ok_def)
  let ?d = "min (getCellDepth u) (getCellDepth v)"
  have d: "(if getCellDepth u < getCellDepth v then getCellDepth u else getCellDepth v) = ?d" by simp
  have "levels_agree [1..<Suc ?d] (getCellLevels v) (getCellLevels u)
      \<longleftrightarrow> (\<forall>i\<in>set [1..<Suc ?d]. getCellLevels v ! i = getCellLevels u ! i)"
    using getCellLevels_depth(1) [OF assms(1)] getCellLevels_depth(1) [OF assms(2)]
      getCellDepth_spec(1) [OF assms(1)] by (intro levels_agree_nonzero) auto
  also have "\<dots> \<longleftrightarrow> (\<forall>i. 1 \<le> i \<and> i \<le> ?d \<longrightarrow> getCellLevels u ! i = getCellLevels v ! i)"
    by (auto simp only: set_upt atLeastLessThan_iff less_Suc_eq_le)
  finally show ?thesis using ne by (simp only: belongsToCellTree_def Let_def d if_False)
qed

text \<open>No successor identifier is ever produced. \<^verbatim>\<open>toHexString\<close> pads with NULs to 32 characters, so
  the text \<^verbatim>\<open>convertLvlsToCellID\<close> hands to the constructor ends after the first level's digit; that
  text has odd length and \<^verbatim>\<open>getNextGroupID_2\<close> throws for every cell identifier.\<close>

lemma next_group_id_throws:
  "getNextGroupID_2 u = Inl INVALID_UUID"
proof -
  have conv: "convertLvlsToCellID (0 # ls) = Inl INVALID_UUID" for ls
  proof -
    have "toHexString 0 = CHR ''0'' # replicate 31 (CHR 0x00)" by code_simp
    then have "c_chars (concat (map toHexString (0 # ls))) = [CHR ''0'']"
      by (simp add: c_chars_def numeral_eq_Suc)
    moreover have "UUID_of_string [CHR ''0''] = Inl INVALID_UUID" by code_simp
    ultimately show ?thesis by (simp add: convertLvlsToCellID_def)
  qed
  have hd0: "\<exists>ls. fold (\<lambda>j l. l[j := 1]) js l = 0 # ls" if "\<exists>ls. l = 0 # ls" "0 \<notin> set js" for js and l :: "nat list"
    using that
  proof (induction js arbitrary: l)
    case (Cons j js)
    then obtain ls k where "l = 0 # ls" "j = Suc k" by (auto simp: gr0_conv_Suc)
    then have "l[j := 1] = 0 # ls[k := 1]" by simp
    with Cons.IH [of "l[j := 1]"] Cons.prems show ?case by simp
  qed simp
  have "\<exists>ls. next_lvls d k l = 0 # ls" if "\<exists>ls. l = 0 # ls" for d k l
    using that
  proof (induction d k l rule: next_lvls.induct)
    case (2 d k l)
    have "\<exists>ls. l'[Suc i := x] = 0 # ls" if "\<exists>ls. l' = 0 # ls" for l' i and x :: nat
      using that by auto
    with 2 hd0 [of l "[1..<Suc d]"] show ?case by (simp del: upt_Suc)
  qed simp
  then obtain ls where "next_lvls (getCellDepth u) (getCellDepth u) (getCellLevels u) = 0 # ls"
    by (meson getCellLevels_def)
  moreover have "(getCellLevels u)[1 := 1] = 0 # (map (parse_rank (toString u)) [1..<KEY_STR_SIZE])[0 := 1]"
    by (simp add: getCellLevels_def)
  ultimately show ?thesis by (simp add: getNextGroupID_2_def Let_def conv)
qed

end
