(* ===== verification/CellTreeNodes.thy ===== *)
theory CellTreeNodes
  imports PeerInfos CellIDs
begin

text \<open>
  A node of the cell tree, \<^verbatim>\<open>p3/superpeer/cell/CellTreeNode.cpp\<close>: one cell with its superpeers, sensors
  and monitors, its capacity for each, and an array of child pointers (the code calls children
  siblings). The tree of nodes is an algebraic tree; a pointer to a node is the path to it from
  the root, and the parent pointer is the path without its last step. The code's \<^verbatim>\<open>int\<close> fields are
  32-bit words read as signed numbers; a comparison of \<^verbatim>\<open>list::size()\<close> with an \<^verbatim>\<open>int\<close> is unsigned at
  64 bits.
\<close>

section \<open>Nodes\<close>

record cell_info =
  ct_cellID :: uuid
  ct_port :: u16
  ct_depth :: u32
  ct_spanNo :: u32
  ct_treeSpan :: u32
  ct_maxSPs :: u32
  ct_maxSensors :: u32
  ct_maxMonitor :: u32
  ct_sps :: "p3_peer_info list"
  ct_sensors :: "p3_peer_info list"
  ct_monitors :: "p3_peer_info list"

datatype node = Node (info: cell_info) (siblings: "node option list")

text \<open>The run-time configuration (an integer per key, when present and readable) and what an
  uninitialised \<^verbatim>\<open>m_port\<close> holds.\<close>

record node_env =
  env_lookup :: "string \<Rightarrow> u32 option"
  env_port :: u16

definition lookupValue :: "node_env \<Rightarrow> string \<Rightarrow> u32 \<Rightarrow> u32" where
  "lookupValue env path defaultValue = (case env_lookup env path of Some v \<Rightarrow> v | None \<Rightarrow> defaultValue)"

text \<open>The constructor; the array has \<^verbatim>\<open>treeSpan\<close> null pointers (a negative span makes \<^verbatim>\<open>new[]\<close> throw and is
  excluded by the invariant).\<close>

definition CellTreeNode_ctor :: "node_env \<Rightarrow> uuid \<Rightarrow> u32 \<Rightarrow> u32 \<Rightarrow> u32 \<Rightarrow> u32 \<Rightarrow> u32 \<Rightarrow> u32 \<Rightarrow> node" where
  "CellTreeNode_ctor env cellID spanNo depth treeSpan maxSP maxSensors maxMonitor =
     Node \<lparr>ct_cellID = cellID, ct_port = env_port env, ct_depth = depth, ct_spanNo = spanNo,
           ct_treeSpan = treeSpan, ct_maxSPs = maxSP, ct_maxSensors = maxSensors,
           ct_maxMonitor = maxMonitor, ct_sps = [], ct_sensors = [], ct_monitors = []\<rparr>
       (replicate (nat (sint treeSpan)) None)"

definition level_path :: "string \<Rightarrow> u32 \<Rightarrow> string" where
  "level_path key depth = c_chars (key @ toUnsignedString (unat depth) 10)"

text \<open>\<^verbatim>\<open>createSibling(spanNo, cellIDPtr)\<close>: the child for a free slot.\<close>

definition new_child :: "node_env \<Rightarrow> uuid \<Rightarrow> nat \<Rightarrow> cell_info \<Rightarrow> node" where
  "new_child env cellID spanNo i =
     (let d = ct_depth i + 1 in
      CellTreeNode_ctor env cellID (word_of_nat spanNo) d
        (lookupValue env (level_path ''TREE_SPAN_'' d) 2)
        (lookupValue env (level_path ''CELL_SPS_'' d) 2)
        (lookupValue env (level_path ''CELL_SENSORS_'' d) 80)
        (lookupValue env (level_path ''CELL_MONITORS_'' d) 2))"

definition hasAllSiblings :: "node \<Rightarrow> bool" where
  "hasAllSiblings n = list_all (\<lambda>c. c \<noteq> None) (siblings n)"

definition countSiblings :: "node \<Rightarrow> nat" where
  "countSiblings n = length (filter (\<lambda>c. c \<noteq> None) (siblings n))"

text \<open>\<^verbatim>\<open>createSibling(cellIDPtr)\<close>: the child goes into the first free slot; the slot used, or None.\<close>

definition createSibling :: "node_env \<Rightarrow> uuid \<Rightarrow> node \<Rightarrow> (nat \<times> node) option" where
  "createSibling env cellID n =
     (if \<not> hasAllSiblings n then
        (case first_index (\<lambda>c. c = None) (siblings n) of
           Some i \<Rightarrow> Some (i, Node (info n) ((siblings n)[i := Some (new_child env cellID i (info n))]))
         | None \<Rightarrow> None)
      else None)"

definition setSibbling :: "nat \<Rightarrow> node option \<Rightarrow> node \<Rightarrow> node" where
  "setSibbling i c n = Node (info n) ((siblings n)[i := c])"

definition removeSibling :: "nat \<Rightarrow> node \<Rightarrow> node" where
  "removeSibling i n = Node (info n) ((siblings n)[i := None])"

definition getCoordinator :: "node \<Rightarrow> p3_peer_info option" where
  "getCoordinator n = (case ct_sps (info n) of [] \<Rightarrow> None | p # _ \<Rightarrow> Some p)"

text \<open>\<^verbatim>\<open>setLocation\<close> renumbers a whole subtree.\<close>

lemma node_size_child [termination_simp]:
  "Some n \<in> set cs \<Longrightarrow> size n < Suc (size_list (size_option size) cs)"
  by (induction cs) auto

lemma node_size_child_enum [termination_simp]:
  "(i, Some n) \<in> set (enumerate k cs) \<Longrightarrow> size n < Suc (size_list (size_option size) cs)"
  by (rule node_size_child) (auto simp: enumerate_eq_zip dest: set_zip_rightD)

fun setLocation :: "u32 \<Rightarrow> u32 \<Rightarrow> node \<Rightarrow> node" where
  "setLocation depth spanNo (Node i cs) =
     Node (i\<lparr>ct_depth := depth, ct_spanNo := spanNo\<rparr>)
       (map (\<lambda>(k, c). case c of None \<Rightarrow> None
                      | Some n \<Rightarrow> Some (setLocation (depth + 1) (word_of_nat k) n)) (enumerate 0 cs))"

section \<open>Peers of a cell\<close>

datatype peer_slot = SPs | Sensors | Monitors

text \<open>The \<^verbatim>\<open>switch\<close> on the peer type that selects list and capacity.\<close>

definition slot_of :: "u32 \<Rightarrow> peer_slot option" where
  "slot_of ty = (if ty = SUPERPEER \<or> ty = SUPERPEER_COORD then Some SPs
     else if ty = SENSOR then Some Sensors
     else if ty = MONITOR then Some Monitors else None)"

fun slot_peers :: "peer_slot \<Rightarrow> cell_info \<Rightarrow> p3_peer_info list" where
  "slot_peers SPs i = ct_sps i"
| "slot_peers Sensors i = ct_sensors i"
| "slot_peers Monitors i = ct_monitors i"

fun slot_max :: "peer_slot \<Rightarrow> cell_info \<Rightarrow> u32" where
  "slot_max SPs i = ct_maxSPs i"
| "slot_max Sensors i = ct_maxSensors i"
| "slot_max Monitors i = ct_maxMonitor i"

fun slot_set :: "peer_slot \<Rightarrow> p3_peer_info list \<Rightarrow> cell_info \<Rightarrow> cell_info" where
  "slot_set SPs l i = i\<lparr>ct_sps := l\<rparr>"
| "slot_set Sensors l i = i\<lparr>ct_sensors := l\<rparr>"
| "slot_set Monitors l i = i\<lparr>ct_monitors := l\<rparr>"

text \<open>\<^verbatim>\<open>l->size() >= max\<close> with \<^verbatim>\<open>int max\<close> converted to \<^verbatim>\<open>size_t\<close>.\<close>

definition list_full :: "p3_peer_info list \<Rightarrow> u32 \<Rightarrow> bool" where
  "list_full l mx = (unat (scast mx :: u64) \<le> length l)"

text \<open>The default branch returns -1 from a function of type bool.\<close>

definition hasAvailableSlotsForPeer :: "byte \<Rightarrow> node \<Rightarrow> bool" where
  "hasAvailableSlotsForPeer ty n = (case slot_of (ucast ty) of
      None \<Rightarrow> True
    | Some k \<Rightarrow> \<not> list_full (slot_peers k (info n)) (slot_max k (info n)))"

definition node_add :: "p3_peer_info \<Rightarrow> node \<Rightarrow> int \<times> node" where
  "node_add peer n = (case slot_of (getType peer) of
      None \<Rightarrow> (-1, n)
    | Some k \<Rightarrow>
        let l = slot_peers k (info n) in
        if list_ex (\<lambda>t. isEqual (getPID t) (getPID peer)) l then (-1, n)
        else if list_full l (slot_max k (info n)) then (-1, n)
        else (0, Node (slot_set k (l @ [peer]) (info n)) (siblings n)))"

definition node_remove :: "uuid \<Rightarrow> node \<Rightarrow> int \<times> node" where
  "node_remove u n =
     (let i = info n; P = (\<lambda>t. isEqual (getPID t) u) in
      case erase1 P (ct_sps i) of
        Some l \<Rightarrow> (0, Node (i\<lparr>ct_sps := l\<rparr>) (siblings n))
      | None \<Rightarrow> (case erase1 P (ct_sensors i) of
          Some l \<Rightarrow> (0, Node (i\<lparr>ct_sensors := l\<rparr>) (siblings n))
        | None \<Rightarrow> (case erase1 P (ct_monitors i) of
            Some l \<Rightarrow> (0, Node (i\<lparr>ct_monitors := l\<rparr>) (siblings n))
          | None \<Rightarrow> (-1, n))))"

text \<open>\<^verbatim>\<open>getPeers\<close> appends the locations (peer and cell identifier) of all peers.\<close>

definition getPeers :: "node \<Rightarrow> (uuid \<times> uuid) list" where
  "getPeers n = map (\<lambda>p. (getPID p, getFID p)) (ct_sps (info n))
     @ map (\<lambda>p. (getPID p, getFID p)) (ct_sensors (info n))
     @ map (\<lambda>p. (getPID p, getFID p)) (ct_monitors (info n))"

definition getPeersByType :: "u32 \<Rightarrow> node \<Rightarrow> p3_peer_info list" where
  "getPeersByType ty n = (case slot_of ty of None \<Rightarrow> [] | Some k \<Rightarrow> slot_peers k (info n))"

definition node_getPeer :: "uuid \<Rightarrow> node \<Rightarrow> p3_peer_info option" where
  "node_getPeer pid n =
     (let P = (\<lambda>t. isEqual (getPID t) pid) in
      case List.find P (ct_sps (info n)) of
        Some p \<Rightarrow> Some p
      | None \<Rightarrow> (case List.find P (ct_sensors (info n)) of
          Some p \<Rightarrow> Some p
        | None \<Rightarrow> List.find P (ct_monitors (info n))))"

text \<open>The access point of a running instance; superpeers only.\<close>

definition node_getPeerByIID :: "uuid \<Rightarrow> uuid \<Rightarrow> node \<Rightarrow> sap_info option option" where
  "node_getPeerByIID sid iid n =
     (case List.find (\<lambda>p. PeerInfo_isServiceInstanceRunning sid iid (pp_info p)) (ct_sps (info n)) of
        None \<Rightarrow> None
      | Some p \<Rightarrow> (case PeerInfo_getInstanceOfService sid iid (pp_info p) of
          Inr i \<Rightarrow> Some (sii_sapInfo i)
        | Inl e \<Rightarrow> None))"

section \<open>Wire form\<close>

definition peers_serialize :: "p3_peer_info list \<Rightarrow> wop list" where
  "peers_serialize l = WLong (word_of_nat (length l)) # concat (map P3PeerInfo_serialize l)"

fun node_serialize :: "node \<Rightarrow> wop list" where
  "node_serialize (Node i cs) =
     uuid_serialize (ct_cellID i)
     @ [WShort (ct_port i), WLong (ct_depth i), WLong (ct_spanNo i), WLong (ct_treeSpan i),
        WLong (ct_maxSPs i), WLong (ct_maxSensors i), WLong (ct_maxMonitor i)]
     @ peers_serialize (ct_sps i) @ peers_serialize (ct_sensors i) @ peers_serialize (ct_monitors i)
     @ [WLong (word_of_nat (length (filter (\<lambda>c. c \<noteq> None) cs)))]
     @ concat (map (\<lambda>(k, c). case c of None \<Rightarrow> []
                            | Some n \<Rightarrow> WLong (word_of_nat k) # node_serialize n) (enumerate 0 cs))"

definition peers_deserialize :: "hpos \<Rightarrow> u32 \<Rightarrow> u32 \<Rightarrow> bis \<Rightarrow> u32 \<times> p3_peer_info list \<times> bis" where
  "peers_deserialize pos ty0 count0 s =
     (let (ok, count, s1) = read_long count0 s;
          (l, s2) = read_n (int_count count) (P3PeerInfo_deserialize pos ty0) s1
      in (count, l, s2))"

text \<open>What the fields of a node under construction hold before anything is read.\<close>

record raw_node =
  raw_port :: u16
  raw_int :: u32

text \<open>The loop over the announced children: an order outside the array writes out of bounds.\<close>

fun siblings_deserialize ::
    "(bis \<Rightarrow> (node \<times> bis) option) \<Rightarrow> nat \<Rightarrow> node option list \<Rightarrow> bis \<Rightarrow> (node option list \<times> bis) option" where
  "siblings_deserialize des 0 cs s = Some (cs, s)"
| "siblings_deserialize des (Suc n) cs s =
     (let (ok, order, s1) = read_long 0 s in
      case des s1 of
        None \<Rightarrow> None
      | Some (child, s2) \<Rightarrow>
          if 0 \<le> sint order \<and> nat (sint order) < length cs
          then siblings_deserialize des n (cs[nat (sint order) := Some child]) s2
          else siblings_deserialize des n cs (bis_undef s2))"

text \<open>The fields and the peers of a node, up to the number of children that follow.\<close>

definition node_fields_deserialize :: "hpos \<Rightarrow> raw_node \<Rightarrow> bis \<Rightarrow> cell_info \<times> u32 \<times> bis" where
  "node_fields_deserialize pos raw s =
     (let (cellID, s1) = uuid_deserialize s;
          (ok1, port, s2) = read_short (raw_port raw) s1;
          (ok2, depth, s3) = read_long (raw_int raw) s2;
          (ok3, spanNo, s4) = read_long (raw_int raw) s3;
          (ok4, treeSpan, s5) = read_long (raw_int raw) s4;
          (ok5, maxSPs, s6) = read_long (raw_int raw) s5;
          (ok6, maxSensors, s7) = read_long (raw_int raw) s6;
          (ok7, maxMonitor, s8) = read_long (raw_int raw) s7;
          s9 = (if sint treeSpan < 0 then bis_undef s8 else s8);
          (count1, sps, s10) = peers_deserialize pos (raw_int raw) 0 s9;
          (count2, sensors, s11) = peers_deserialize pos (raw_int raw) count1 s10;
          (count3, monitors, s12) = peers_deserialize pos (raw_int raw) count2 s11;
          (ok8, siblingCount, s13) = read_long 0 s12
      in (\<lparr>ct_cellID = cellID, ct_port = port, ct_depth = depth, ct_spanNo = spanNo,
            ct_treeSpan = treeSpan, ct_maxSPs = maxSPs, ct_maxSensors = maxSensors,
            ct_maxMonitor = maxMonitor, ct_sps = sps, ct_sensors = sensors, ct_monitors = monitors\<rparr>,
          siblingCount, s13))"

text \<open>The recursion follows the nesting of the input; the first argument bounds the nesting and None
  says that the bound was reached.\<close>

fun node_deserialize :: "nat \<Rightarrow> hpos \<Rightarrow> raw_node \<Rightarrow> bis \<Rightarrow> (node \<times> bis) option" where
  "node_deserialize 0 pos raw s = None"
| "node_deserialize (Suc fuel) pos raw s =
     (let (i, siblingCount, s1) = node_fields_deserialize pos raw s
      in map_option (\<lambda>(cs, s2). (Node i cs, s2))
           (siblings_deserialize (node_deserialize fuel pos raw) (int_count siblingCount)
              (replicate (nat (sint (ct_treeSpan i))) None) s1))"

section \<open>Invariant of a cell\<close>

lemma node_induct [case_names Node]:
  assumes "\<And>i cs. (\<And>n. Some n \<in> set cs \<Longrightarrow> P n) \<Longrightarrow> P (Node i cs)"
  shows "P n"
proof (induction n)
  case (Node i cs)
  then show ?case by (intro assms) auto
qed

definition within :: "p3_peer_info list \<Rightarrow> u32 \<Rightarrow> bool" where
  "within l mx = (length l \<le> unat (scast mx :: u64))"

definition pid_ok :: "p3_peer_info \<Rightarrow> bool" where
  "pid_ok p = (length (getPID p) = 16)"

definition slot_inv :: "peer_slot \<Rightarrow> cell_info \<Rightarrow> bool" where
  "slot_inv k i = (distinct (map getPID (slot_peers k i)) \<and> list_all pid_ok (slot_peers k i)
     \<and> list_all (\<lambda>p. slot_of (getType p) = Some k) (slot_peers k i)
     \<and> within (slot_peers k i) (slot_max k i))"

definition cell_inv :: "cell_info \<Rightarrow> bool" where
  "cell_inv i = (slot_inv SPs i \<and> slot_inv Sensors i \<and> slot_inv Monitors i)"

fun tree_inv :: "node \<Rightarrow> bool" where
  "tree_inv (Node i cs) =
     (cell_inv i \<and> 0 \<le> sint (ct_treeSpan i) \<and> length cs = nat (sint (ct_treeSpan i))
      \<and> list_all (\<lambda>(k, c). case c of None \<Rightarrow> True
          | Some n \<Rightarrow> ct_depth (info n) = ct_depth i + 1 \<and> ct_spanNo (info n) = word_of_nat k
              \<and> tree_inv n) (enumerate 0 cs))"

lemma list_all_enumerate:
  "list_all P (enumerate k xs) \<longleftrightarrow> (\<forall>i<length xs. P (k + i, xs ! i))"
  by (simp add: list_all_length nth_enumerate_eq)

lemma tree_inv_iff:
  "tree_inv (Node i cs) \<longleftrightarrow> cell_inv i \<and> 0 \<le> sint (ct_treeSpan i) \<and> length cs = nat (sint (ct_treeSpan i))
    \<and> (\<forall>k<length cs. \<forall>n. cs ! k = Some n \<longrightarrow> ct_depth (info n) = ct_depth i + 1
         \<and> ct_spanNo (info n) = word_of_nat k \<and> tree_inv n)"
  by (auto simp: list_all_enumerate split: option.splits)

declare tree_inv.simps [simp del]

lemma tree_inv_cell: "tree_inv n \<Longrightarrow> cell_inv (info n)"
  by (cases n) (simp add: tree_inv_iff)

lemma isEqual_pid: "length u = length v \<Longrightarrow> isEqual u v \<longleftrightarrow> u = v"
  by (auto simp: isEqual_def)

lemma list_ex_isEqual:
  "list_all pid_ok l \<Longrightarrow> pid_ok p \<Longrightarrow> list_ex (\<lambda>t. isEqual (getPID t) (getPID p)) l \<longleftrightarrow> getPID p \<in> getPID ` set l"
  by (induction l) (auto simp: pid_ok_def isEqual_pid)

lemma slot_set_simps [simp]:
  "slot_peers k (slot_set k l i) = l" "k' \<noteq> k \<Longrightarrow> slot_peers k' (slot_set k l i) = slot_peers k' i"
  "slot_max k' (slot_set k l i) = slot_max k' i" "ct_depth (slot_set k l i) = ct_depth i"
  "ct_spanNo (slot_set k l i) = ct_spanNo i" "ct_treeSpan (slot_set k l i) = ct_treeSpan i"
  "ct_cellID (slot_set k l i) = ct_cellID i"
  by (cases k; cases k'; simp)+

lemma ex_slot: "(\<exists>k. P k) \<longleftrightarrow> P SPs \<or> P Sensors \<or> P Monitors"
  by (metis peer_slot.exhaust)

lemma cell_inv_all: "cell_inv i \<longleftrightarrow> (\<forall>k. slot_inv k i)"
proof
  assume i: "cell_inv i"
  show "\<forall>k. slot_inv k i"
  proof
    fix k show "slot_inv k i" using i by (cases k) (simp_all add: cell_inv_def)
  qed
qed (simp add: cell_inv_def)

lemma cell_inv_slot_set:
  assumes "cell_inv i" "slot_inv k (slot_set k l i)"
  shows "cell_inv (slot_set k l i)"
  using assms unfolding cell_inv_all by (metis slot_inv_def slot_set_simps(2,3))

lemma node_add_cases:
  assumes "cell_inv (info n)" "pid_ok p"
  shows "case slot_of (getType p) of
      None \<Rightarrow> node_add p n = (-1, n)
    | Some k \<Rightarrow> if getPID p \<in> getPID ` set (slot_peers k (info n))
                 \<or> list_full (slot_peers k (info n)) (slot_max k (info n))
        then node_add p n = (-1, n)
        else node_add p n = (0, Node (slot_set k (slot_peers k (info n) @ [p]) (info n)) (siblings n))
          \<and> cell_inv (slot_set k (slot_peers k (info n) @ [p]) (info n))"
proof (cases "slot_of (getType p)")
  case None
  then show ?thesis by (simp add: node_add_def)
next
  case (Some k)
  let ?l = "slot_peers k (info n)"
  have inv: "slot_inv k (info n)" using assms(1) by (simp add: cell_inv_all)
  then have ex: "list_ex (\<lambda>t. isEqual (getPID t) (getPID p)) ?l \<longleftrightarrow> getPID p \<in> getPID ` set ?l"
    using list_ex_isEqual assms(2) by (simp add: slot_inv_def)
  have "cell_inv (slot_set k (?l @ [p]) (info n))"
    if "getPID p \<notin> getPID ` set ?l" "\<not> list_full ?l (slot_max k (info n))"
    using that inv Some assms(2)
    by (intro cell_inv_slot_set [OF assms(1)])
       (auto simp: slot_inv_def within_def list_full_def)
  then show ?thesis using Some ex by (simp add: node_add_def Let_def)
qed

lemma node_add_tree_inv: "tree_inv n \<Longrightarrow> pid_ok p \<Longrightarrow> tree_inv (snd (node_add p n))"
proof -
  assume inv: "tree_inv n" and p: "pid_ok p"
  obtain i cs where n: "n = Node i cs" by (cases n)
  have "cell_inv (info n)" using inv n by (simp add: tree_inv_iff)
  from node_add_cases [OF this p] show ?thesis using inv
    by (auto simp: n tree_inv_iff split: option.splits if_splits)
qed

lemma node_add_keeps [simp]:
  "ct_cellID (info (snd (node_add p n))) = ct_cellID (info n)"
  "ct_depth (info (snd (node_add p n))) = ct_depth (info n)"
  "ct_spanNo (info (snd (node_add p n))) = ct_spanNo (info n)"
  "siblings (snd (node_add p n)) = siblings n"
  by (auto simp: node_add_def Let_def split: option.splits)

lemma erase1_slot_inv:
  assumes "slot_inv k i" "erase1 P (slot_peers k i) = Some l"
  shows "slot_inv k (slot_set k l i)"
proof -
  have "set l \<subseteq> set (slot_peers k i)" using assms(2) by (rule erase1_set)
  moreover have "length l \<le> length (slot_peers k i)" using erase1_length [OF assms(2)] by simp
  moreover have "distinct (map getPID l)" using erase1_distinct_map [OF assms(2), of getPID] assms(1) by (simp add: slot_inv_def)
  ultimately show ?thesis using assms(1) by (auto simp: slot_inv_def within_def list_all_iff)
qed

lemma node_remove_cell_inv:
  assumes "cell_inv (info n)"
  shows "cell_inv (info (snd (node_remove u n)))"
proof -
  have slot: "slot_inv k (info n)" for k using assms by (simp add: cell_inv_all)
  have *: "cell_inv (slot_set k l (info n))" if "erase1 P (slot_peers k (info n)) = Some l" for k l P
    using cell_inv_slot_set [OF assms erase1_slot_inv [OF slot that]] .
  show ?thesis
    using assms *[where k = SPs] *[where k = Sensors] *[where k = Monitors]
    by (simp add: node_remove_def Let_def split: option.splits)
qed

section \<open>Round trip\<close>

definition info_sim :: "cell_info \<Rightarrow> cell_info \<Rightarrow> bool" where
  "info_sim i j = (ct_cellID i = ct_cellID j \<and> ct_port i = ct_port j \<and> ct_depth i = ct_depth j
     \<and> ct_spanNo i = ct_spanNo j \<and> ct_treeSpan i = ct_treeSpan j \<and> ct_maxSPs i = ct_maxSPs j
     \<and> ct_maxSensors i = ct_maxSensors j \<and> ct_maxMonitor i = ct_maxMonitor j
     \<and> list_all2 p3_sim (ct_sps i) (ct_sps j) \<and> list_all2 p3_sim (ct_sensors i) (ct_sensors j)
     \<and> list_all2 p3_sim (ct_monitors i) (ct_monitors j))"

inductive node_sim :: "node \<Rightarrow> node \<Rightarrow> bool" where
  node_simI: "info_sim i j \<Longrightarrow> list_all2 (rel_option node_sim) cs ds \<Longrightarrow> node_sim (Node i cs) (Node j ds)"
  monos list_all2_mono option.rel_mono

definition peers_ok :: "p3_peer_info list \<Rightarrow> bool" where
  "peers_ok l = (list_all p3_ok l \<and> length l < 2 ^ 31)"

definition info_ok :: "cell_info \<Rightarrow> bool" where
  "info_ok i = (uuid_ok (ct_cellID i) \<and> peers_ok (ct_sps i) \<and> peers_ok (ct_sensors i) \<and> peers_ok (ct_monitors i)
     \<and> 0 \<le> sint (ct_treeSpan i))"

fun node_ok :: "node \<Rightarrow> bool" where
  "node_ok (Node i cs) = (info_ok i \<and> length cs = nat (sint (ct_treeSpan i))
     \<and> list_all (\<lambda>c. case c of None \<Rightarrow> True | Some n \<Rightarrow> node_ok n) cs)"

fun height :: "node \<Rightarrow> nat" where
  "height (Node i cs) = Suc (foldr max (map (\<lambda>c. case c of None \<Rightarrow> 0 | Some n \<Rightarrow> height n) cs) 0)"

lemma height_child: "Some n \<in> set cs \<Longrightarrow> height n < height (Node i cs)"
proof -
  have "x \<in> set xs \<Longrightarrow> x \<le> foldr max xs (0 :: nat)" for x xs by (induction xs) auto
  then show "Some n \<in> set cs \<Longrightarrow> ?thesis" by (force simp: less_Suc_eq_le)
qed

lemma peers_back:
  assumes "peers_ok l"
  shows "\<exists>l'. peers_deserialize pos ty0 c0 (input (encode (peers_serialize l) @ r))
      = (word_of_nat (length l), l', input r) \<and> list_all2 p3_sim l l'"
proof -
  have "int_count (word_of_nat (length l)) = length l" using assms by (simp add: peers_ok_def int_count_of_nat)
  then show ?thesis using p3.list_upto [of l pos ty0 r] assms
    by (auto simp: peers_ok_def peers_deserialize_def peers_serialize_def read_long_back)
qed

lemma peers_calls: "peers_ok l \<Longrightarrow> wire_ok (peers_serialize l)"
  using p3.list_upto_calls [of l] by (simp add: peers_ok_def peers_serialize_def)

definition child_ops :: "nat \<Rightarrow> node option list \<Rightarrow> wop list" where
  "child_ops k cs = concat (map (\<lambda>(k, c). case c of None \<Rightarrow> []
      | Some n \<Rightarrow> WLong (word_of_nat k) # node_serialize n) (enumerate k cs))"

lemma child_ops_simps [simp]:
  "child_ops k [] = []" "child_ops k (None # cs) = child_ops (Suc k) cs"
  "child_ops k (Some n # cs) = WLong (word_of_nat k) # node_serialize n @ child_ops (Suc k) cs"
  by (simp_all add: child_ops_def)

lemma sint_of_index: "k < 2 ^ 31 \<Longrightarrow> sint (word_of_nat k :: u32) = int k"
  by (simp add: signed_of_nat signed_take_bit_int_eq_self)

lemma siblings_back:
  assumes "\<And>n r. Some n \<in> set cs \<Longrightarrow> \<exists>m. des (input (encode (node_serialize n) @ r)) = Some (m, input r) \<and> node_sim n m"
    and "k + length cs < 2 ^ 31" "length ds = k + length cs" "drop k ds = replicate (length cs) None"
  shows "\<exists>es. siblings_deserialize des (length (filter (\<lambda>c. c \<noteq> None) cs)) ds (input (encode (child_ops k cs) @ r))
      = Some (take k ds @ es, input r) \<and> list_all2 (rel_option node_sim) cs es"
  using assms
proof (induction cs arbitrary: k ds)
  case Nil
  then show ?case by simp
next
  case (Cons c cs)
  have dk: "drop k ds = None # replicate (length cs) None" using Cons.prems(4) by simp
  have k: "k < length ds" using Cons.prems(3) by simp
  have rest: "drop (Suc k) ds = replicate (length cs) None"
    using dk by (metis drop_Suc list.sel(3) tl_drop)
  show ?case
  proof (cases c)
    case None
    obtain es where "siblings_deserialize des (length (filter (\<lambda>c. c \<noteq> None) cs)) ds
        (input (encode (child_ops (Suc k) cs) @ r)) = Some (take (Suc k) ds @ es, input r)"
      "list_all2 (rel_option node_sim) cs es"
      using Cons.IH [of "Suc k" ds] Cons.prems(1-3) rest by auto
    moreover have "take (Suc k) ds = take k ds @ [None]"
      using dk k by (metis hd_drop_conv_nth list.sel(1) take_Suc_conv_app_nth)
    ultimately show ?thesis using None by (intro exI [of _ "None # es"]) simp
  next
    case (Some n)
    let ?r = "encode (child_ops (Suc k) cs) @ r"
    obtain m where m: "des (input (encode (node_serialize n) @ ?r)) = Some (m, input ?r)" "node_sim n m"
      using Cons.prems(1) [of n ?r] Some by auto
    have kk: "sint (word_of_nat k :: u32) = int k" using Cons.prems(2) by (intro sint_of_index) simp
    let ?ds = "ds[k := Some m]"
    have "drop (Suc k) ?ds = replicate (length cs) None" using rest by simp
    then obtain es where es: "siblings_deserialize des (length (filter (\<lambda>c. c \<noteq> None) cs)) ?ds (input ?r)
        = Some (take (Suc k) ?ds @ es, input r)" "list_all2 (rel_option node_sim) cs es"
      using Cons.IH [of "Suc k" ?ds] Cons.prems(1-3) by auto
    have "take (Suc k) ?ds = take k ds @ [Some m]" using k by (simp add: take_Suc_conv_app_nth)
    then show ?thesis using Some es m kk k
      by (intro exI [of _ "Some m # es"]) (simp add: read_long_back)
  qed
qed

lemma sint_less_nat: "nat (sint (x :: u32)) < 2 ^ 31"
  using sint_less [of x] by simp

lemma node_back:
  "node_ok n \<Longrightarrow> height n \<le> fuel \<Longrightarrow>
    \<exists>m. node_deserialize fuel pos raw (input (encode (node_serialize n) @ r)) = Some (m, input r) \<and> node_sim n m"
proof (induction n arbitrary: fuel r rule: node_induct)
  case (Node i cs)
  obtain f where f: "fuel = Suc f" using Node.prems(2) by (cases fuel) auto
  have ok: "info_ok i" "length cs = nat (sint (ct_treeSpan i))" using Node.prems(1) by auto
  then have io: "uuid_ok (ct_cellID i)" "peers_ok (ct_sps i)" "peers_ok (ct_sensors i)" "peers_ok (ct_monitors i)"
    "0 \<le> sint (ct_treeSpan i)" by (auto simp: info_ok_def)
  have len: "length cs < 2 ^ 31" using ok(2) sint_less_nat [of "ct_treeSpan i"] by simp
  have kids: "\<exists>m. node_deserialize f pos raw (input (encode (node_serialize n) @ r)) = Some (m, input r) \<and> node_sim n m"
    if "Some n \<in> set cs" for n r
    using Node.IH [OF that] Node.prems height_child [OF that, of i] that f
    by (auto simp: list_all_iff)
  let ?cnt = "length (filter (\<lambda>c. c \<noteq> None) cs)"
  have "?cnt < 2 ^ 31" using len length_filter_le [of "\<lambda>c. c \<noteq> None" cs] by linarith
  then have cnt: "int_count (word_of_nat ?cnt) = ?cnt" by (rule int_count_of_nat)
  obtain ds where ds: "siblings_deserialize (node_deserialize f pos raw) ?cnt (replicate (length cs) None)
      (input (encode (child_ops 0 cs) @ r)) = Some (ds, input r)" "list_all2 (rel_option node_sim) cs ds"
    using siblings_back [of cs "node_deserialize f pos raw" 0 "replicate (length cs) None" r] kids len by auto
  let ?r3 = "encode (WLong (word_of_nat ?cnt) # child_ops 0 cs) @ r"
  let ?r2 = "encode (peers_serialize (ct_monitors i)) @ ?r3"
  let ?r1 = "encode (peers_serialize (ct_sensors i)) @ ?r2"
  obtain l1 where l1: "\<And>c0. peers_deserialize pos (raw_int raw) c0 (input (encode (peers_serialize (ct_sps i)) @ ?r1))
      = (word_of_nat (length (ct_sps i)), l1, input ?r1)" "list_all2 p3_sim (ct_sps i) l1"
    using peers_back [OF io(2), of pos "raw_int raw" _ ?r1] by (fastforce simp: peers_deserialize_def peers_serialize_def read_long_back)
  obtain l2 where l2: "\<And>c0. peers_deserialize pos (raw_int raw) c0 (input ?r1)
      = (word_of_nat (length (ct_sensors i)), l2, input ?r2)" "list_all2 p3_sim (ct_sensors i) l2"
    using peers_back [OF io(3), of pos "raw_int raw" _ ?r2] by (fastforce simp: peers_deserialize_def peers_serialize_def read_long_back)
  obtain l3 where l3: "\<And>c0. peers_deserialize pos (raw_int raw) c0 (input ?r2)
      = (word_of_nat (length (ct_monitors i)), l3, input ?r3)" "list_all2 p3_sim (ct_monitors i) l3"
    using peers_back [OF io(4), of pos "raw_int raw" _ ?r3] by (fastforce simp: peers_deserialize_def peers_serialize_def read_long_back)
  have ser: "encode (node_serialize (Node i cs)) @ r = encode (uuid_serialize (ct_cellID i)) @ le16 (ct_port i)
      @ le32 (ct_depth i) @ le32 (ct_spanNo i) @ le32 (ct_treeSpan i) @ le32 (ct_maxSPs i) @ le32 (ct_maxSensors i)
      @ le32 (ct_maxMonitor i) @ encode (peers_serialize (ct_sps i)) @ ?r1"
    by (simp add: child_ops_def)
  let ?j = "i\<lparr>ct_sps := l1, ct_sensors := l2, ct_monitors := l3\<rparr>"
  have "node_deserialize fuel pos raw (input (encode (node_serialize (Node i cs)) @ r)) = Some (Node ?j ds, input r)"
    unfolding f ser using io(1,5) l1(1) l2(1) l3(1) ds(1) cnt ok(2)
    by (simp add: node_fields_deserialize_def uuid_roundtrip read_short_back read_long_back Let_def)
  moreover have "node_sim (Node i cs) (Node ?j ds)"
    using l1(2) l2(2) l3(2) ds(2) by (intro node_simI) (auto simp: info_sim_def)
  ultimately show ?case by blast
qed

lemma node_calls: "node_ok n \<Longrightarrow> wire_ok (node_serialize n)"
proof (induction n rule: node_induct)
  case (Node i cs)
  have "wire_ok (child_ops k ds)" if "set ds \<subseteq> set cs" for k ds
    using that
  proof (induction ds arbitrary: k)
    case (Cons c ds)
    then show ?case using Node.IH Node.prems by (cases c) (auto simp: list_all_iff)
  qed simp
  from this [of cs 0] show ?case
    using Node.prems by (simp add: child_ops_def info_ok_def peers_calls)
qed

section \<open>Deserialization terminates\<close>

lemma siblings_total:
  assumes "\<And>s. bis_length s < f \<Longrightarrow> \<exists>t s'. des s = Some (t, s') \<and> bis_length s' \<le> bis_length s"
    and "bis_length s < f"
  shows "\<exists>ds s'. siblings_deserialize des n cs s = Some (ds, s') \<and> bis_length s' \<le> bis_length s"
  using assms(2)
proof (induction n arbitrary: cs s)
  case (Suc n)
  obtain ok order s1 where o: "read_long 0 s = (ok, order, s1)" by (metis prod_cases3)
  have s1: "bis_length s1 \<le> bis_length s" using shrink_read_scalars(5) [of s "bis_length s" 0] o by simp
  with Suc.prems have "bis_length s1 < f" by simp
  from assms(1) [OF this] obtain t s2 where t: "des s1 = Some (t, s2)" "bis_length s2 \<le> bis_length s1" by blast
  let ?in = "0 \<le> sint order \<and> nat (sint order) < length cs"
  let ?s = "if ?in then s2 else bis_undef s2" and ?cs = "if ?in then cs[nat (sint order) := Some t] else cs"
  have u: "bis_length ?s = bis_length s2" by (simp add: bis_length_def bis_undef_def)
  have "siblings_deserialize des (Suc n) cs s = siblings_deserialize des n ?cs ?s" by (simp add: o t(1))
  moreover have "bis_length ?s < f" using u t(2) s1 Suc.prems by linarith
  from Suc.IH [OF this, of ?cs] obtain ds s' where "siblings_deserialize des n ?cs ?s = Some (ds, s')"
    "bis_length s' \<le> bis_length ?s" by blast
  ultimately have "siblings_deserialize des (Suc n) cs s = Some (ds, s') \<and> bis_length s' \<le> bis_length s"
    using u t(2) s1 by simp
  then show ?case by blast
qed simp

lemma shrink_peers [shrink]: "bis_length s \<le> n \<Longrightarrow> bis_length (snd (snd (peers_deserialize pos ty0 c0 s))) \<le> n"
  by (simp add: peers_deserialize_def Let_def case_prod_unfold shrink)

lemma node_fields_count:
  "\<exists>s12. fst (snd (node_fields_deserialize pos raw s)) = fst (snd (read_long 0 s12))
    \<and> snd (snd (node_fields_deserialize pos raw s)) = snd (snd (read_long 0 s12))
    \<and> bis_length s12 \<le> bis_length s"
  unfolding node_fields_deserialize_def Let_def case_prod_unfold fst_conv snd_conv
  by (rule exI, rule conjI, rule refl, rule conjI, rule refl) (simp add: shrink)

lemma node_fields_progress:
  assumes "node_fields_deserialize pos raw s = (i, cnt, s')"
  shows "bis_length s' \<le> bis_length s" "cnt \<noteq> 0 \<Longrightarrow> bis_length s' < bis_length s"
proof -
  obtain s12 where s12: "cnt = fst (snd (read_long 0 s12))" "s' = snd (snd (read_long 0 s12))"
    "bis_length s12 \<le> bis_length s" using node_fields_count [of pos raw s] assms by auto
  then show "bis_length s' \<le> bis_length s" using shrink_read_scalars(5) [OF s12(3), of 0] by simp
  show "bis_length s' < bis_length s" if "cnt \<noteq> 0"
    using read_long_progress [of s12] s12 that by simp
qed

lemma node_deserialize_total:
  "bis_length s < fuel \<Longrightarrow> \<exists>t s'. node_deserialize fuel pos raw s = Some (t, s') \<and> bis_length s' \<le> bis_length s"
proof (induction fuel arbitrary: s)
  case (Suc f)
  obtain i cnt s1 where h: "node_fields_deserialize pos raw s = (i, cnt, s1)" by (metis prod_cases3)
  note p = node_fields_progress [OF h]
  show ?case
  proof (cases "cnt = 0")
    case True
    then show ?thesis using h p(1) by (simp add: int_count_def)
  next
    case False
    then have "bis_length s1 < f" using p(2) Suc.prems by simp
    from siblings_total [OF Suc.IH this, of "int_count cnt" "replicate (nat (sint (ct_treeSpan i))) None"]
    show ?thesis using h p(1) by (auto dest: order_trans)
  qed
qed simp

section \<open>Properties of cells\<close>

text \<open>C36: admission to a cell. On a cell within its invariant (per kind: distinct peers of that kind, no
  more than the capacity) and a peer with a 16-byte identifier, \<^verbatim>\<open>add\<close> returns 0 exactly when the type
  is known, the peer is not yet listed under it and there is room; then the peer goes to the end of
  its own list and the other lists do not change; otherwise nothing changes. The invariant is kept,
  so no sequence of calls exceeds a capacity or lists a peer twice.\<close>

theorem node_add_admission:
  assumes "cell_inv (info n)" "pid_ok p"
  shows "(fst (node_add p n) = 0 \<longleftrightarrow> (\<exists>k. slot_of (getType p) = Some k
        \<and> getPID p \<notin> getPID ` set (slot_peers k (info n))
        \<and> length (slot_peers k (info n)) < unat (scast (slot_max k (info n)) :: u64)))
    \<and> (fst (node_add p n) = 0 \<longrightarrow> (\<exists>k. slot_of (getType p) = Some k
        \<and> slot_peers k (info (snd (node_add p n))) = slot_peers k (info n) @ [p]
        \<and> (\<forall>k'. k' \<noteq> k \<longrightarrow> slot_peers k' (info (snd (node_add p n))) = slot_peers k' (info n))))
    \<and> (fst (node_add p n) \<noteq> 0 \<longrightarrow> node_add p n = (-1, n))
    \<and> cell_inv (info (snd (node_add p n)))"
  using node_add_cases [OF assms] assms(1)
  by (auto simp: list_full_def split: option.splits if_splits)

definition sample_env :: node_env where
  "sample_env = \<lparr>env_lookup = (\<lambda>_. None), env_port = 0\<rparr>"

definition sample_node :: node where
  "sample_node = CellTreeNode_ctor sample_env (replicate 16 7) 0 0 2 2 80 2"

lemma sample_node_inv: "tree_inv sample_node"
  by (simp add: sample_node_def CellTreeNode_ctor_def tree_inv_iff cell_inv_def slot_inv_def within_def)

lemma sample_peer_pid [simp]: "pid_ok (sample_peer ty n)" "getType (sample_peer ty n) = ty"
  "getPID (sample_peer ty n) = replicate 15 0 @ [n]"
  by (simp_all add: pid_ok_def sample_peer_def P3PeerInfo_ctor_def getPID_def getType_def)

theorem node_add_admission_witness:
  "fst (node_add (sample_peer 1 5) sample_node) = 0
   \<and> cell_inv (info (snd (node_add (sample_peer 1 5) sample_node)))"
proof -
  have "cell_inv (info sample_node)" using sample_node_inv by (rule tree_inv_cell)
  from node_add_admission [OF this, of "sample_peer 1 5"] show ?thesis
    by (auto simp: slot_of_def SUPERPEER_def sample_node_def CellTreeNode_ctor_def)
qed

text \<open>The slot query against admission. For a known type and a peer not yet listed under it,
  \<^verbatim>\<open>hasAvailableSlotsForPeer\<close> answers true exactly when \<^verbatim>\<open>add\<close> would succeed; for an unknown type it
  answers true although \<^verbatim>\<open>add\<close> refuses every such peer.\<close>

lemma slot_query_admission:
  assumes "cell_inv (info n)" "pid_ok p" "getType p = ucast ty"
    "\<forall>k. slot_of (getType p) = Some k \<longrightarrow> getPID p \<notin> getPID ` set (slot_peers k (info n))"
  shows "if slot_of (getType p) = None
    then hasAvailableSlotsForPeer ty n \<and> node_add p n = (-1, n)
    else hasAvailableSlotsForPeer ty n \<longleftrightarrow> fst (node_add p n) = 0"
  using node_add_cases [OF assms(1,2)] assms(3,4)
  by (auto simp: hasAvailableSlotsForPeer_def split: option.splits if_splits)

text \<open>Leaving a cell. \<^verbatim>\<open>remove\<close> returns 0 exactly when the peer is listed; it deletes one entry, the
  first in the order superpeers, sensors, monitors, and keeps the invariant; a peer that is not
  listed changes nothing.\<close>

lemma node_remove_leaves:
  assumes "cell_inv (info n)" "length u = 16"
  shows "(fst (node_remove u n) = 0 \<longleftrightarrow> (\<exists>k. u \<in> getPID ` set (slot_peers k (info n))))
    \<and> (fst (node_remove u n) = 0 \<longrightarrow>
        length (getPeers n) = Suc (length (getPeers (snd (node_remove u n))))
        \<and> (u \<in> getPID ` set (ct_sps (info n)) \<longrightarrow> u \<notin> getPID ` set (ct_sps (info (snd (node_remove u n))))))
    \<and> (fst (node_remove u n) \<noteq> 0 \<longrightarrow> node_remove u n = (-1, n))
    \<and> cell_inv (info (snd (node_remove u n))) \<and> siblings (snd (node_remove u n)) = siblings n"
proof -
  let ?P = "\<lambda>t. isEqual (getPID t) u"
  have slot: "slot_inv k (info n)" for k using assms(1) by (simp add: cell_inv_all)
  have none: "erase1 ?P (slot_peers k (info n)) = None \<longleftrightarrow> u \<notin> getPID ` set (slot_peers k (info n))" for k
    using slot [of k] assms(2) by (auto simp: erase1_None_iff slot_inv_def list_all_iff pid_ok_def isEqual_pid)
  have ex: "(\<exists>k. u \<in> getPID ` set (slot_peers k (info n))) \<longleftrightarrow>
      u \<in> getPID ` set (ct_sps (info n)) \<or> u \<in> getPID ` set (ct_sensors (info n)) \<or> u \<in> getPID ` set (ct_monitors (info n))"
    by (simp add: ex_slot)
  have gone: "u \<notin> getPID ` set l" if l: "erase1 ?P (ct_sps (info n)) = Some l" for l
  proof -
    from erase1_SomeD [OF l] obtain us x vs where x: "ct_sps (info n) = us @ x # vs" "l = us @ vs" "?P x" by blast
    have "getPID x = u" using slot [of SPs] x assms(2) by (auto simp: slot_inv_def pid_ok_def isEqual_pid)
    then show ?thesis using slot [of SPs] x by (auto simp: slot_inv_def)
  qed
  show ?thesis
    using none [of SPs] none [of Sensors] none [of Monitors] node_remove_cell_inv [OF assms(1), of u] gone
    unfolding ex
    by (auto simp: node_remove_def Let_def getPeers_def split: option.splits dest: erase1_length)
qed

text \<open>a subtree survives the wire. The serialized subtree of a node, read with a nesting bound of at
  least its height, comes back with every field, every child in its slot and every peer (up to the
  order of hash tables), the rest of the input untouched.\<close>

theorem node_wire_roundtrip:
  assumes "node_ok n" "height n \<le> fuel"
  shows "\<exists>m. node_deserialize fuel pos raw (input (encode (node_serialize n) @ r)) = Some (m, input r) \<and> node_sim n m"
  using assms by (rule node_back)

definition sample_raw :: raw_node where
  "sample_raw = \<lparr>raw_port = 0, raw_int = 0\<rparr>"

definition sample_tree :: node where
  "sample_tree = (case createSibling sample_env (replicate 16 8) (snd (node_add (sample_peer 2 1) sample_node)) of
      Some (i, t) \<Rightarrow> t | None \<Rightarrow> sample_node)"

lemma sample_tree_Node: "\<exists>c. sample_tree = Node ((info sample_node)\<lparr>ct_sps := [sample_peer 2 1]\<rparr>) [Some c, None]
    \<and> c = new_child sample_env (replicate 16 8) 0 (info sample_node)"
proof -
  have "snd (node_add (sample_peer 2 1) sample_node) = Node ((info sample_node)\<lparr>ct_sps := [sample_peer 2 1]\<rparr>) [None, None]"
  proof -
    have "replicate 2 None = [None, None :: node option]" by (simp add: numeral_2_eq_2)
    then show ?thesis
      by (simp add: node_add_def sample_node_def CellTreeNode_ctor_def slot_of_def SUPERPEER_def
          SUPERPEER_COORD_def list_full_def)
  qed
  then show ?thesis by (simp add: sample_tree_def createSibling_def hasAllSiblings_def new_child_def)
qed

lemma sample_tree_ok: "node_ok sample_tree" "height sample_tree = 2"
proof -
  obtain c where c: "sample_tree = Node ((info sample_node)\<lparr>ct_sps := [sample_peer 2 1]\<rparr>) [Some c, None]"
    "c = new_child sample_env (replicate 16 8) 0 (info sample_node)" using sample_tree_Node by blast
  have two: "(max 0 ^^ 2) (0 :: nat) = 0" by (simp add: numeral_2_eq_2)
  show "node_ok sample_tree" "height sample_tree = 2" unfolding c
    by (simp_all add: new_child_def Let_def lookupValue_def sample_env_def CellTreeNode_ctor_def sample_node_def
        info_ok_def peers_ok_def uuid_ok_def list_all_iff two)
qed

text \<open>C39: reading a subtree terminates. Whatever bytes arrive, the recursion of \<^verbatim>\<open>deserialize\<close> is no deeper
  than the input is long: a bound above the input's length is never reached, a node is returned and
  the input has not grown.\<close>

theorem node_deserialize_terminates:
  assumes "bis_length s < fuel"
  shows "\<exists>t s'. node_deserialize fuel pos raw s = Some (t, s') \<and> bis_length s' \<le> bis_length s"
  using assms by (rule node_deserialize_total)

theorem node_deserialize_terminates_witness:
  "\<exists>t s'. node_deserialize 4 (\<lambda>_ _. 0) sample_raw (input [255, 255, 255]) = Some (t, s') \<and> bis_length s' \<le> 3"
  using node_deserialize_terminates [of "input [255, 255, 255]" 4 "\<lambda>_ _. 0" sample_raw]
  by (simp add: bis_length_def numeral_3_eq_3)

end
