(* ===== verification/CellTrees.thy ===== *)
theory CellTrees
  imports CellTreeNodes
begin

text \<open>
  The cell tree of the P3 overlay, \<^verbatim>\<open>p3/superpeer/cell/CellTree.cpp\<close>. A \<^verbatim>\<open>CellTreeNode*\<close> is a path from
  the root (the indices of the child slots); null is None. The root pointer of the tree may be
  null, point to a node, or dangle after its node was deleted; an access through a null or
  dangling pointer is an error value. The mutex every operation takes is recursive and held for
  the whole operation, so the operations are modelled as atomic.
\<close>

section \<open>Pointers into the tree\<close>

type_synonym path = "nat list"

fun node_at :: "path \<Rightarrow> node \<Rightarrow> node option" where
  "node_at [] n = Some n"
| "node_at (k # p) n =
     (if k < length (siblings n)
      then (case siblings n ! k of None \<Rightarrow> None | Some c \<Rightarrow> node_at p c) else None)"

fun update_at :: "path \<Rightarrow> (node \<Rightarrow> node) \<Rightarrow> node \<Rightarrow> node" where
  "update_at [] f n = f n"
| "update_at (k # p) f n =
     (case (if k < length (siblings n) then siblings n ! k else None) of
        None \<Rightarrow> n
      | Some c \<Rightarrow> Node (info n) ((siblings n)[k := Some (update_at p f c)]))"

text \<open>The loop over the non-null children that stops at the first result.\<close>

fun scan :: "nat \<Rightarrow> (nat \<Rightarrow> node \<Rightarrow> 'a option) \<Rightarrow> node option list \<Rightarrow> 'a option" where
  "scan k f [] = None"
| "scan k f (None # cs) = scan (Suc k) f cs"
| "scan k f (Some n # cs) = (case f k n of Some r \<Rightarrow> Some r | None \<Rightarrow> scan (Suc k) f cs)"

lemma scan_cong [fundef_cong]:
  "xs = ys \<Longrightarrow> k = k' \<Longrightarrow> (\<And>i n. Some n \<in> set ys \<Longrightarrow> f i n = g i n) \<Longrightarrow> scan k f xs = scan k' g ys"
proof -
  have "(\<And>i n. Some n \<in> set ys \<Longrightarrow> f i n = g i n) \<Longrightarrow> scan k f ys = scan k g ys" for k
    by (induction k f ys rule: scan.induct) (auto split: option.splits)
  then show "xs = ys \<Longrightarrow> k = k' \<Longrightarrow> (\<And>i n. Some n \<in> set ys \<Longrightarrow> f i n = g i n) \<Longrightarrow> ?thesis" by simp
qed

text \<open>The nodes of a tree in the order of the recursive traversals.\<close>

fun nodes :: "node \<Rightarrow> node list" where
  "nodes (Node i cs) = Node i cs # concat (map (\<lambda>c. case c of None \<Rightarrow> [] | Some n \<Rightarrow> nodes n) cs)"

section \<open>Searches\<close>

text \<open>Preorder search: the node itself, then its children from slot 0.\<close>

fun tree_find :: "(node \<Rightarrow> bool) \<Rightarrow> node \<Rightarrow> path option" where
  "tree_find P (Node i cs) =
     (if P (Node i cs) then Some []
      else scan 0 (\<lambda>k n. map_option ((#) k) (tree_find P n)) cs)"

definition getCellTreeNode_i :: "uuid \<Rightarrow> node \<Rightarrow> path option" where
  "getCellTreeNode_i fid root = tree_find (\<lambda>n. isEqual (ct_cellID (info n)) fid) root"

definition getTreeNode_i :: "uuid \<Rightarrow> node \<Rightarrow> path option" where
  "getTreeNode_i cellID root = tree_find (\<lambda>n. isEqual (ct_cellID (info n)) cellID) root"

definition getAvailableNodeForSP_i :: "byte \<Rightarrow> node \<Rightarrow> path option" where
  "getAvailableNodeForSP_i ty root = tree_find (hasAvailableSlotsForPeer ty) root"

text \<open>The deepest candidate among the children wins, the first of equals; the node itself only when no
  child has one. Depths are compared as signed numbers, starting from -1.\<close>

fun getAvailableNodeForSensor_i :: "byte \<Rightarrow> node \<Rightarrow> (path \<times> u32) option" where
  "getAvailableNodeForSensor_i ty (Node i cs) =
     (let best = fold (\<lambda>(k, c) cur. case c of None \<Rightarrow> cur
          | Some n \<Rightarrow> (case getAvailableNodeForSensor_i ty n of
              None \<Rightarrow> cur
            | Some (p, d) \<Rightarrow>
                if (case cur of None \<Rightarrow> -1 | Some (q, e) \<Rightarrow> sint e) < sint d
                then Some (k # p, d) else cur)) (enumerate 0 cs) None
      in case best of
        None \<Rightarrow> if hasAvailableSlotsForPeer ty (Node i cs) then Some ([], ct_depth i) else None
      | Some r \<Rightarrow> Some r)"

definition getAvailableNode :: "byte \<Rightarrow> node \<Rightarrow> path option" where
  "getAvailableNode ty root =
     (if ty = ucast SUPERPEER \<or> ty = ucast SUPERPEER_COORD then getAvailableNodeForSP_i ty root
      else if ty = ucast SENSOR then map_option fst (getAvailableNodeForSensor_i ty root)
      else if ty = ucast MONITOR then Some []
      else None)"

text \<open>A node with a free slot: the node itself, else the shallowest found below the children, the first
  of equals.\<close>

fun createCell_i :: "node \<Rightarrow> (path \<times> u32) option" where
  "createCell_i (Node i cs) =
     (if \<not> hasAllSiblings (Node i cs) then Some ([], ct_depth i)
      else fold (\<lambda>(k, c) cur. case c of None \<Rightarrow> cur
          | Some n \<Rightarrow> (case createCell_i n of
              None \<Rightarrow> cur
            | Some (p, d) \<Rightarrow> (case cur of
                None \<Rightarrow> Some (k # p, d)
              | Some (q, e) \<Rightarrow> if sint d < sint e then Some (k # p, d) else cur)))
          (enumerate 0 cs) None)"

fun getParentTreeNode_i :: "uuid \<Rightarrow> node \<Rightarrow> path option" where
  "getParentTreeNode_i cellID (Node i cs) =
     scan 0 (\<lambda>k n. if isEqual (ct_cellID (info n)) cellID then Some []
                   else map_option ((#) k) (getParentTreeNode_i cellID n)) cs"

fun getNodesPerDepth_i :: "u32 \<Rightarrow> node \<Rightarrow> node list" where
  "getNodesPerDepth_i depth (Node i cs) =
     (if ct_depth i = depth then [Node i cs]
      else concat (map (\<lambda>c. case c of None \<Rightarrow> [] | Some n \<Rightarrow> getNodesPerDepth_i depth n) cs))"

text \<open>A cell without superpeers contributes a null pointer.\<close>

fun getCoordinators_i :: "node \<Rightarrow> p3_peer_info option list" where
  "getCoordinators_i (Node i cs) = getCoordinator (Node i cs)
     # concat (map (\<lambda>c. case c of None \<Rightarrow> [] | Some n \<Rightarrow> getCoordinators_i n) cs)"

fun getSensors_i :: "node \<Rightarrow> p3_peer_info list" where
  "getSensors_i (Node i cs) = getPeersByType SENSOR (Node i cs)
     @ concat (map (\<lambda>c. case c of None \<Rightarrow> [] | Some n \<Rightarrow> getSensors_i n) cs)"

fun getRandomPeer_i :: "node \<Rightarrow> p3_peer_info list" where
  "getRandomPeer_i (Node i cs) = getPeersByType SUPERPEER (Node i cs)
     @ concat (map (\<lambda>c. case c of None \<Rightarrow> [] | Some n \<Rightarrow> getRandomPeer_i n) cs)"

fun getPeer_i :: "uuid \<Rightarrow> node \<Rightarrow> p3_peer_info option" where
  "getPeer_i pid (Node i cs) = (case node_getPeer pid (Node i cs) of
      Some p \<Rightarrow> Some p
    | None \<Rightarrow> scan 0 (\<lambda>k n. getPeer_i pid n) cs)"

fun getPeerByIID_i :: "uuid \<Rightarrow> uuid \<Rightarrow> node \<Rightarrow> sap_info option option" where
  "getPeerByIID_i sid iid (Node i cs) = (case node_getPeerByIID sid iid (Node i cs) of
      Some p \<Rightarrow> Some p
    | None \<Rightarrow> scan 0 (\<lambda>k n. getPeerByIID_i sid iid n) cs)"

section \<open>The peer of least load\<close>

definition isUUIDInList :: "uuid \<Rightarrow> uuid list \<Rightarrow> bool" where
  "isUUIDInList u flt = list_ex (\<lambda>f. isEqual f u) flt"

text \<open>The evaluation of one cell: \<open>min\<close> and the peer found so far.\<close>

definition pol_load :: "p3_peer_info \<Rightarrow> int" where
  "pol_load p = sint (PeerInfo_getTotalServicesRunning (pp_info p))"

definition pol_visit :: "uuid list \<Rightarrow> node \<Rightarrow> int \<times> p3_peer_info option \<Rightarrow> int \<times> p3_peer_info option" where
  "pol_visit flt n acc = fold (\<lambda>p (mn, peer).
     if \<not> isUUIDInList (getPID p) flt then
       let load = pol_load p in if load \<noteq> -1 \<and> load \<le> mn then (load, Some p) else (mn, peer)
     else (mn, peer)) (getPeersByType SUPERPEER_COORD n) acc"

definition next_sibling :: "node \<Rightarrow> nat \<Rightarrow> nat option" where
  "next_sibling n index = map_option ((+) index) (first_index (\<lambda>c. c \<noteq> None) (drop index (siblings n)))"

text \<open>The loop of \<^verbatim>\<open>getPoL\<close>: the current node by its path, the index of the next child, the explicit
  stack of child indices (its top is the last element).\<close>

partial_function (option) getPoL_loop ::
    "uuid list \<Rightarrow> node \<Rightarrow> path \<Rightarrow> nat \<Rightarrow> nat list \<Rightarrow> int \<times> p3_peer_info option \<Rightarrow> (int \<times> p3_peer_info option) option"
  where [code]: "getPoL_loop flt root p index stack acc =
    (case node_at p root of
       None \<Rightarrow> Some acc
     | Some n \<Rightarrow>
         (let acc' = (if index = 0 then pol_visit flt n acc else acc) in
          case next_sibling n index of
            Some i \<Rightarrow> getPoL_loop flt root (p @ [i]) 0 (stack @ [i]) acc'
          | None \<Rightarrow>
              if p = [] then Some acc'
              else getPoL_loop flt root (butlast p) (Suc (last stack)) (butlast stack) acc'))"

definition INT_MAX :: int where
  "INT_MAX = 2147483647"

definition getPoL :: "uuid list \<Rightarrow> node \<Rightarrow> p3_peer_info option option" where
  "getPoL flt root = map_option snd (getPoL_loop flt root [] 0 [] (INT_MAX, None))"

section \<open>The tree object\<close>

datatype root_ptr = NullRoot | Root node | Dangling

datatype tree_error = NULL_DEREF | USE_AFTER_FREE

definition with_root :: "root_ptr \<Rightarrow> (node \<Rightarrow> tree_error + 'a) \<Rightarrow> tree_error + 'a" where
  "with_root t f = (case t of NullRoot \<Rightarrow> Inl NULL_DEREF | Root n \<Rightarrow> f n | Dangling \<Rightarrow> Inl USE_AFTER_FREE)"

definition CellTree_ctor :: "node_env \<Rightarrow> uuid \<Rightarrow> root_ptr" where
  "CellTree_ctor env rootCellID = Root (CellTreeNode_ctor env rootCellID 0 0
     (lookupValue env ''TREE_SPAN_0'' 2) (lookupValue env ''CELL_SPS_0'' 2)
     (lookupValue env ''CELL_SENSORS_0'' 80) (lookupValue env ''CELL_MONITORS_0'' 2))"

text \<open>Adding a peer to the cell named by its own cell identifier.\<close>

definition add_at :: "path \<Rightarrow> p3_peer_info \<Rightarrow> node \<Rightarrow> int \<times> node" where
  "add_at p peer root = (case node_at p root of
      None \<Rightarrow> (-1, root)
    | Some n \<Rightarrow> (fst (node_add peer n), update_at p (\<lambda>n. snd (node_add peer n)) root))"

definition addPeer :: "p3_peer_info \<Rightarrow> root_ptr \<Rightarrow> tree_error + (int \<times> root_ptr)" where
  "addPeer peer t = with_root t (\<lambda>root.
     case getCellTreeNode_i (getFID peer) root of
       None \<Rightarrow> Inr (-1, t)
     | Some p \<Rightarrow> (let (r, root') = add_at p peer root in Inr (r, Root root')))"

text \<open>Creating a child cell under the node at a path: the path of the child and the new tree.\<close>

definition create_at :: "node_env \<Rightarrow> uuid \<Rightarrow> path \<Rightarrow> node \<Rightarrow> (path \<times> node) option" where
  "create_at env cellID p root = (case node_at p root of
      None \<Rightarrow> None
    | Some n \<Rightarrow> (case createSibling env cellID n of
        None \<Rightarrow> None
      | Some (i, n') \<Rightarrow> Some (p @ [i], update_at p (\<lambda>_. n') root)))"

definition addPeer_parent ::
    "node_env \<Rightarrow> p3_peer_info \<Rightarrow> uuid \<Rightarrow> root_ptr \<Rightarrow> tree_error + (int \<times> root_ptr)" where
  "addPeer_parent env peer parentCellID t = with_root t (\<lambda>root.
     case getCellTreeNode_i (getFID peer) root of
       Some p \<Rightarrow> (let (r, root') = add_at p peer root in Inr (r, Root root'))
     | None \<Rightarrow> (case getCellTreeNode_i parentCellID root of
         None \<Rightarrow> Inr (-1, t)
       | Some p \<Rightarrow> (case create_at env (getFID peer) p root of
           None \<Rightarrow> Inr (-1, t)
         | Some (q, root1) \<Rightarrow> (let (r, root') = add_at q peer root1 in Inr (r, Root root')))))"

definition createCell :: "node_env \<Rightarrow> uuid \<Rightarrow> root_ptr \<Rightarrow> tree_error + (path option \<times> root_ptr)" where
  "createCell env cellID t = with_root t (\<lambda>root.
     case createCell_i root of
       None \<Rightarrow> Inl NULL_DEREF
     | Some (p, d) \<Rightarrow> (case create_at env cellID p root of
         None \<Rightarrow> Inr (None, t)
       | Some (q, root') \<Rightarrow> Inr (Some q, Root root')))"

text \<open>Deleting a subtree: the parent's slot is cleared and the nodes are freed. The root has no parent
  and its own pointer is not reset.\<close>

definition clear_at :: "path \<Rightarrow> node \<Rightarrow> node" where
  "clear_at p root = update_at (butlast p) (setSibbling (last p) None) root"

definition removeSubtree :: "uuid \<Rightarrow> root_ptr \<Rightarrow> tree_error + (int \<times> root_ptr)" where
  "removeSubtree fid t = with_root t (\<lambda>root.
     case getCellTreeNode_i fid root of
       None \<Rightarrow> Inr (-1, t)
     | Some p \<Rightarrow> if p = [] then Inr (0, Dangling) else Inr (0, Root (clear_at p root)))"

fun removeSubtree_loop :: "nat list \<Rightarrow> root_ptr \<Rightarrow> tree_error + root_ptr" where
  "removeSubtree_loop [] t = Inr t"
| "removeSubtree_loop (i # is) t = (case with_root t (\<lambda>root.
      case (if i < length (siblings root) then siblings root ! i else None) of
        None \<Rightarrow> Inr t
      | Some c \<Rightarrow> (case removeSubtree (ct_cellID (info c)) t of Inl e \<Rightarrow> Inl e | Inr (r, t') \<Rightarrow> Inr t')) of
      Inl e \<Rightarrow> Inl e
    | Inr t' \<Rightarrow> removeSubtree_loop is t')"

definition removeSubtree_all :: "root_ptr \<Rightarrow> tree_error + (int \<times> root_ptr)" where
  "removeSubtree_all t = (case t of
      NullRoot \<Rightarrow> Inr (-1, t)
    | Dangling \<Rightarrow> Inl USE_AFTER_FREE
    | Root root \<Rightarrow> (case removeSubtree_loop [0..<length (siblings root)] t of
        Inl e \<Rightarrow> Inl e
      | Inr t' \<Rightarrow> Inr (0, t')))"

text \<open>Children of the root whose coordinator is not listed are deleted; the coordinator of an empty
  child is a null pointer.\<close>

fun prune_children :: "uuid list \<Rightarrow> node option list \<Rightarrow> tree_error + node option list" where
  "prune_children l [] = Inr []"
| "prune_children l (c # cs) = (case c of
      None \<Rightarrow> (case prune_children l cs of Inl e \<Rightarrow> Inl e | Inr ds \<Rightarrow> Inr (None # ds))
    | Some n \<Rightarrow> (case getCoordinator n of
        None \<Rightarrow> Inl NULL_DEREF
      | Some coord \<Rightarrow> (case prune_children l cs of
          Inl e \<Rightarrow> Inl e
        | Inr ds \<Rightarrow> Inr ((if list_ex (\<lambda>u. isEqual u (getPID coord)) l then Some n else None) # ds))))"

definition pruneSubtrees :: "uuid list \<Rightarrow> root_ptr \<Rightarrow> tree_error + root_ptr" where
  "pruneSubtrees l t = with_root t (\<lambda>root. case prune_children l (siblings root) of
      Inl e \<Rightarrow> Inl e
    | Inr cs \<Rightarrow> Inr (Root (Node (info root) cs)))"

definition attach :: "path \<Rightarrow> node \<Rightarrow> node \<Rightarrow> int \<times> node" where
  "attach p sub root = (case node_at p root of
      None \<Rightarrow> (-1, root)
    | Some n \<Rightarrow> (case first_index (\<lambda>c. c = None) (siblings n) of
        None \<Rightarrow> (-1, root)
      | Some i \<Rightarrow> (0, update_at p
          (setSibbling i (Some (setLocation (ct_depth (info n) + 1) (word_of_nat i) sub))) root)))"

definition addSubtree :: "root_ptr \<Rightarrow> uuid option \<Rightarrow> root_ptr \<Rightarrow> tree_error + (int \<times> root_ptr)" where
  "addSubtree sub parentCellID t = with_root sub (\<lambda>s. with_root t (\<lambda>root.
     if getCellTreeNode_i (ct_cellID (info s)) root \<noteq> None then Inr (0, t)
     else case (case parentCellID of None \<Rightarrow> Some [] | Some u \<Rightarrow> getCellTreeNode_i u root) of
       None \<Rightarrow> Inr (-1, t)
     | Some p \<Rightarrow> (let (r, root') = attach p s root in Inr (r, Root root'))))"

text \<open>\<open>rnd\<close> is the value of \<^verbatim>\<open>ACE_OS::rand()\<close>.\<close>

definition getRandomPeer :: "nat \<Rightarrow> root_ptr \<Rightarrow> tree_error + (int \<times> p3_peer_info option)" where
  "getRandomPeer rnd t = (case t of
      Root root \<Rightarrow> (let l = getRandomPeer_i root in
        if l = [] then Inr (-1, None) else Inr (0, Some (l ! (rnd mod length l))))
    | NullRoot \<Rightarrow> Inr (-1, None)
    | Dangling \<Rightarrow> Inl USE_AFTER_FREE)"

definition CellTree_serialize :: "root_ptr \<Rightarrow> tree_error + wop list" where
  "CellTree_serialize t = with_root t (\<lambda>root. Inr (node_serialize root))"

definition CellTree_deserialize :: "nat \<Rightarrow> hpos \<Rightarrow> raw_node \<Rightarrow> bis \<Rightarrow> (root_ptr \<times> bis) option" where
  "CellTree_deserialize fuel pos raw s = map_option (\<lambda>(n, s'). (Root n, s')) (node_deserialize fuel pos raw s)"

definition dettach :: "root_ptr \<Rightarrow> root_ptr \<times> root_ptr" where
  "dettach t = (t, NullRoot)"

section \<open>Lemmas on paths and searches\<close>

lemma scan_None_iff:
  "scan k f cs = None \<longleftrightarrow> (\<forall>i<length cs. \<forall>n. cs ! i = Some n \<longrightarrow> f (k + i) n = None)"
proof (induction k f cs rule: scan.induct)
  case (2 k f cs)
  then show ?case by (auto simp: less_Suc_eq_0_disj)
next
  case (3 k f n cs)
  then show ?case by (auto simp: less_Suc_eq_0_disj split: option.splits)
qed simp

lemma scan_SomeD:
  "scan k f cs = Some r \<Longrightarrow> \<exists>i n. i < length cs \<and> cs ! i = Some n \<and> f (k + i) n = Some r
    \<and> (\<forall>j<i. \<forall>m. cs ! j = Some m \<longrightarrow> f (k + j) m = None)"
proof (induction k f cs rule: scan.induct)
  case (2 k f cs)
  then obtain i n where i: "i < length cs" "cs ! i = Some n" "f (Suc k + i) n = Some r"
    "\<forall>j<i. \<forall>m. cs ! j = Some m \<longrightarrow> f (Suc k + j) m = None" by auto
  then show ?case by (intro exI [of _ "Suc i"] exI [of _ n]) (auto simp: less_Suc_eq_0_disj)
next
  case (3 k f n cs)
  show ?case
  proof (cases "f k n")
    case None
    with 3 obtain i m where "i < length cs" "cs ! i = Some m" "f (Suc k + i) m = Some r"
      "\<forall>j<i. \<forall>m. cs ! j = Some m \<longrightarrow> f (Suc k + j) m = None" by auto
    with None show ?thesis by (intro exI [of _ "Suc i"] exI [of _ m]) (auto simp: less_Suc_eq_0_disj)
  next
    case (Some r')
    with 3 show ?thesis by (intro exI [of _ 0] exI [of _ n]) simp
  qed
qed simp

lemma node_at_Cons: "node_at (k # p) (Node i cs) = Some m \<longleftrightarrow> (\<exists>n. k < length cs \<and> cs ! k = Some n \<and> node_at p n = Some m)"
  by (auto split: option.splits if_splits)

lemma node_at_append: "node_at (p @ q) t = Option.bind (node_at p t) (node_at q)"
  by (induction p arbitrary: t) (auto split: option.splits)

lemma nodes_iff: "m \<in> set (nodes t) \<longleftrightarrow> (\<exists>p. node_at p t = Some m)"
proof (induction t rule: node_induct)
  case (Node i cs)
  have "m \<in> set (nodes (Node i cs)) \<longleftrightarrow> m = Node i cs \<or> (\<exists>n. Some n \<in> set cs \<and> m \<in> set (nodes n))"
    by (auto split: option.splits)
  also have "\<dots> \<longleftrightarrow> m = Node i cs \<or> (\<exists>n p. Some n \<in> set cs \<and> node_at p n = Some m)" using Node.IH by blast
  also have "\<dots> \<longleftrightarrow> (\<exists>p. node_at p (Node i cs) = Some m)"
  proof
    assume "m = Node i cs \<or> (\<exists>n p. Some n \<in> set cs \<and> node_at p n = Some m)"
    then show "\<exists>p. node_at p (Node i cs) = Some m"
    proof
      assume "\<exists>n p. Some n \<in> set cs \<and> node_at p n = Some m"
      then obtain n p k where "k < length cs" "cs ! k = Some n" "node_at p n = Some m" by (auto simp: in_set_conv_nth)
      then show ?thesis by (intro exI [of _ "k # p"]) (simp add: node_at_Cons)
    qed (auto intro: exI [of _ "[]"])
  next
    assume "\<exists>p. node_at p (Node i cs) = Some m"
    then obtain p where p: "node_at p (Node i cs) = Some m" by blast
    then show "m = Node i cs \<or> (\<exists>n p. Some n \<in> set cs \<and> node_at p n = Some m)"
      by (cases p) (auto simp: node_at_Cons simp del: node_at.simps(2), metis nth_mem)
  qed
  finally show ?case .
qed

lemma tree_find_SomeD: "tree_find P t = Some p \<Longrightarrow> \<exists>n. node_at p t = Some n \<and> P n"
proof (induction t arbitrary: p rule: node_induct)
  case (Node i cs)
  show ?case
  proof (cases "P (Node i cs)")
    case True
    with Node.prems show ?thesis by simp
  next
    case False
    with Node.prems have "scan 0 (\<lambda>k n. map_option ((#) k) (tree_find P n)) cs = Some p" by simp
    from scan_SomeD [OF this] obtain k n q where k: "k < length cs" "cs ! k = Some n" "tree_find P n = Some q" "p = k # q"
      by auto
    from Node.IH [of n q] k obtain m where "node_at q n = Some m" "P m" by (metis nth_mem)
    with k show ?thesis by (auto simp: node_at_Cons simp del: node_at.simps(2))
  qed
qed

lemma tree_find_None_iff: "tree_find P t = None \<longleftrightarrow> (\<forall>n\<in>set (nodes t). \<not> P n)"
proof (induction t rule: node_induct)
  case (Node i cs)
  have "(\<forall>k<length cs. \<forall>n. cs ! k = Some n \<longrightarrow> tree_find P n = None) \<longleftrightarrow>
      (\<forall>n. Some n \<in> set cs \<longrightarrow> (\<forall>m\<in>set (nodes n). \<not> P m))"
    using Node.IH by (metis in_set_conv_nth)
  moreover have "(\<forall>m\<in>set (nodes (Node i cs)). \<not> P m) \<longleftrightarrow> \<not> P (Node i cs) \<and> (\<forall>n. Some n \<in> set cs \<longrightarrow> (\<forall>m\<in>set (nodes n). \<not> P m))"
    by (auto split: option.splits)
  ultimately show ?case by (simp add: scan_None_iff del: nodes.simps)
qed

text \<open>The search finds the first match in preorder.\<close>

lemma find_append: "List.find P (xs @ ys) = (case List.find P xs of Some x \<Rightarrow> Some x | None \<Rightarrow> List.find P ys)"
  by (induction xs) auto

lemma tree_find_first: "tree_find P t = Some p \<Longrightarrow> node_at p t = List.find P (nodes t)"
proof (induction t arbitrary: p rule: node_induct)
  case (Node i cs)
  let ?H = "\<lambda>c. case c of None \<Rightarrow> [] | Some n \<Rightarrow> nodes n"
  show ?case
  proof (cases "P (Node i cs)")
    case True
    with Node.prems show ?thesis by simp
  next
    case False
    with Node.prems have "scan 0 (\<lambda>k n. map_option ((#) k) (tree_find P n)) cs = Some p" by simp
    from scan_SomeD [OF this] obtain k n q where k: "k < length cs" "cs ! k = Some n" "tree_find P n = Some q" "p = k # q"
      "\<forall>j<k. \<forall>m. cs ! j = Some m \<longrightarrow> tree_find P m = None" by auto
    have "\<forall>m\<in>set (concat (map ?H (take k cs))). \<not> P m"
    proof -
      have "\<forall>m. Some m \<in> set (take k cs) \<longrightarrow> tree_find P m = None" using k(1,5) by (auto simp: in_set_conv_nth)
      then show ?thesis by (auto simp: tree_find_None_iff split: option.splits)
    qed
    then have "List.find P (concat (map ?H (take k cs))) = None" by (metis find_None_iff)
    moreover have "concat (map ?H cs) = concat (map ?H (take k cs)) @ nodes n @ concat (map ?H (drop (Suc k) cs))"
      by (subst id_take_nth_drop [OF k(1)]) (simp add: k(2))
    moreover have "node_at q n = List.find P (nodes n)" using Node.IH [of n q] k by (metis nth_mem)
    moreover have "node_at q n \<noteq> None" using tree_find_SomeD [OF k(3)] by auto
    ultimately show ?thesis using False k by (auto simp: find_append)
  qed
qed

lemma node_at_update_same: "node_at p t = Some n \<Longrightarrow> node_at p (update_at p f t) = Some (f n)"
  by (induction p arbitrary: t) (auto split: option.splits if_splits)

lemma node_at_update_other:
  "node_at p t \<noteq> None \<Longrightarrow> (\<forall>r. q \<noteq> p @ r) \<Longrightarrow> (\<forall>r. p \<noteq> q @ r) \<Longrightarrow> node_at q (update_at p f t) = node_at q t"
proof (induction p arbitrary: q t)
  case (Cons k p)
  then obtain k' q' where q: "q = k' # q'" by (cases q) auto
  from Cons.prems(1) obtain c where c: "k < length (siblings t)" "siblings t ! k = Some c" "node_at p c \<noteq> None"
    by (auto split: if_splits option.splits)
  show ?case
  proof (cases "k' = k")
    case True
    with Cons.IH [of c q'] Cons.prems c q show ?thesis by auto
  next
    case False
    with c q show ?thesis by simp
  qed
qed simp

lemma tree_inv_update:
  assumes "tree_inv t" "node_at p t = Some n" "tree_inv (f n)"
    "ct_depth (info (f n)) = ct_depth (info n)" "ct_spanNo (info (f n)) = ct_spanNo (info n)"
  shows "tree_inv (update_at p f t) \<and> ct_depth (info (update_at p f t)) = ct_depth (info t)
    \<and> ct_spanNo (info (update_at p f t)) = ct_spanNo (info t)"
  using assms(1,2)
proof (induction p arbitrary: t)
  case Nil
  then show ?case using assms(3-5) by simp
next
  case (Cons k p)
  obtain i cs where t: "t = Node i cs" by (cases t)
  from Cons.prems(2) t obtain c where c: "k < length cs" "cs ! k = Some c" "node_at p c = Some n"
    by (auto split: if_splits option.splits)
  then have "tree_inv c" using Cons.prems(1) t by (auto simp: tree_inv_iff)
  with Cons.IH [OF this c(3)] c Cons.prems(1) t show ?case
    by (auto simp: tree_inv_iff nth_list_update)
qed

lemma tree_inv_at:
  "tree_inv t \<Longrightarrow> node_at p t = Some n \<Longrightarrow> tree_inv n \<and> ct_depth (info n) = ct_depth (info t) + word_of_nat (length p)"
proof (induction p arbitrary: t)
  case (Cons k p)
  obtain i cs where t: "t = Node i cs" by (cases t)
  from Cons.prems(2) t obtain c where c: "k < length cs" "cs ! k = Some c" "node_at p c = Some n"
    by (auto split: if_splits option.splits)
  then have "tree_inv c" "ct_depth (info c) = ct_depth i + 1" using Cons.prems(1) t by (auto simp: tree_inv_iff)
  with Cons.IH [OF this(1) c(3)] t show ?case by (simp add: algebra_simps)
qed simp

lemma node_at_height: "node_at p t = Some n \<Longrightarrow> length p < height t"
proof (induction p arbitrary: t)
  case Nil
  have "0 < height t" by (cases t) simp
  then show ?case by simp
next
  case (Cons k p)
  obtain i cs where t: "t = Node i cs" by (cases t)
  from Cons.prems t obtain c where c: "k < length cs" "cs ! k = Some c" "node_at p c = Some n"
    by (auto split: if_splits option.splits)
  then have "Some c \<in> set cs" by (metis nth_mem)
  from height_child [OF this, of i] Cons.IH [OF c(3)] t show ?case by simp
qed

text \<open>Depths as numbers, when they do not overflow.\<close>

definition shallow :: "node \<Rightarrow> bool" where
  "shallow t = (0 \<le> sint (ct_depth (info t)) \<and> sint (ct_depth (info t)) + int (height t) < 2 ^ 31)"

lemma sint_add_small:
  assumes "0 \<le> sint (x :: u32)" "sint x + int n < 2 ^ 31"
  shows "sint (x + word_of_nat n) = sint x + int n"
proof -
  have "x + word_of_nat n = word_of_int (sint x + int n)" by simp
  moreover have "sint (word_of_int (sint x + int n) :: u32) = signed_take_bit 31 (sint x + int n)"
    by (simp only: signed_of_int) simp
  ultimately show ?thesis using assms by (simp add: signed_take_bit_int_eq_self)
qed

lemma depth_at:
  assumes "tree_inv t" "shallow t" "node_at p t = Some n"
  shows "sint (ct_depth (info n)) = sint (ct_depth (info t)) + int (length p)"
  using tree_inv_at [OF assms(1,3)] node_at_height [OF assms(3)] assms(2)
    sint_add_small [of "ct_depth (info t)" "length p"] by (simp add: shallow_def)

end
