(* ===== verification/CellPlacement.thy ===== *)
theory CellPlacement
  imports CellTrees
begin

text \<open>
  Where the cell tree places a new cell and a new peer: the searches of \<^verbatim>\<open>CellTree.cpp\<close> that compare the
  depths of candidates, and what they find.
\<close>

section \<open>Best candidates\<close>

text \<open>The selection loops over the children: \<open>better d cur\<close> says when a candidate of depth \<open>d\<close> replaces
  the current one.\<close>

definition best_step ::
    "(u32 \<Rightarrow> (path \<times> u32) option \<Rightarrow> bool) \<Rightarrow> (node \<Rightarrow> (path \<times> u32) option) \<Rightarrow> nat \<times> node option \<Rightarrow>
      (path \<times> u32) option \<Rightarrow> (path \<times> u32) option" where
  "best_step better g kc cur = (case snd kc of None \<Rightarrow> cur
     | Some n \<Rightarrow> (case g n of None \<Rightarrow> cur
       | Some (p, d) \<Rightarrow> if better d cur then Some (fst kc # p, d) else cur))"

definition cands :: "(node \<Rightarrow> (path \<times> u32) option) \<Rightarrow> nat \<Rightarrow> node option list \<Rightarrow> (path \<times> u32) list" where
  "cands g k cs = concat (map (\<lambda>(k, c). case c of None \<Rightarrow> []
     | Some n \<Rightarrow> (case g n of None \<Rightarrow> [] | Some (p, d) \<Rightarrow> [(k # p, d)])) (enumerate k cs))"

definition select :: "(u32 \<Rightarrow> (path \<times> u32) option \<Rightarrow> bool) \<Rightarrow> path \<times> u32 \<Rightarrow> (path \<times> u32) option \<Rightarrow> (path \<times> u32) option" where
  "select better x cur = (if better (snd x) cur then Some x else cur)"

lemma fold_best_step: "fold (best_step better g) (enumerate k cs) cur = fold (select better) (cands g k cs) cur"
  by (induction cs arbitrary: k cur) (auto simp: cands_def best_step_def select_def split: option.splits)

lemma set_enumerate: "(j, x) \<in> set (enumerate k xs) \<longleftrightarrow> (\<exists>i. i < length xs \<and> xs ! i = x \<and> j = k + i)"
  by (auto simp: in_set_conv_nth nth_enumerate_eq)

lemma cands_iff:
  "(r, d) \<in> set (cands g k cs) \<longleftrightarrow> (\<exists>i n p. i < length cs \<and> cs ! i = Some n \<and> g n = Some (p, d) \<and> r = (k + i) # p)"
proof
  assume "\<exists>i n p. i < length cs \<and> cs ! i = Some n \<and> g n = Some (p, d) \<and> r = (k + i) # p"
  then obtain i n p where i: "i < length cs" "cs ! i = Some n" "g n = Some (p, d)" "r = (k + i) # p" by blast
  then have "(k + i, Some n) \<in> set (enumerate k cs)" by (auto simp: set_enumerate)
  with i show "(r, d) \<in> set (cands g k cs)" by (auto simp: cands_def intro!: bexI [of _ "(k + i, Some n)"])
next
  assume "(r, d) \<in> set (cands g k cs)"
  then obtain j n p where "(j, Some n) \<in> set (enumerate k cs)" "g n = Some (p, d)" "r = j # p"
    by (auto simp: cands_def split: option.splits)
  then show "\<exists>i n p. i < length cs \<and> cs ! i = Some n \<and> g n = Some (p, d) \<and> r = (k + i) # p"
    by (auto simp: set_enumerate)
qed

lemma cands_Nil: "cands g k cs = [] \<longleftrightarrow> (\<forall>n. Some n \<in> set cs \<longrightarrow> g n = None)"
  by (induction cs arbitrary: k) (auto simp: cands_def split: option.splits)

lemma fold_select:
  fixes m :: "u32 \<Rightarrow> int"
  assumes "\<And>x. x \<in> set xs \<Longrightarrow> better (snd x) None" "\<And>d q e. better d (Some (q, e)) \<longleftrightarrow> m e < m d"
  shows "fold (select better) xs cur = None \<longleftrightarrow> cur = None \<and> xs = []"
    "fold (select better) xs cur = Some x \<Longrightarrow> (cur = Some x \<or> x \<in> set xs)
      \<and> (\<forall>y\<in>set xs. m (snd y) \<le> m (snd x)) \<and> (\<forall>y. cur = Some y \<longrightarrow> m (snd y) \<le> m (snd x))"
  using assms(1)
proof (induction xs arbitrary: cur)
  case (Cons a xs)
  {
    case 1
    from 1 [of a] have "select better a cur \<noteq> None" by (cases cur) (auto simp: select_def)
    then show ?case using Cons.IH(1) [of "select better a cur"] 1 by simp
  next
    case 2
    from Cons.IH(2) [of "select better a cur"] 2
    have IH: "(select better a cur = Some x \<or> x \<in> set xs) \<and> (\<forall>y\<in>set xs. m (snd y) \<le> m (snd x))
      \<and> (\<forall>y. select better a cur = Some y \<longrightarrow> m (snd y) \<le> m (snd x))" by auto
    show ?case
    proof (cases cur)
      case None
      then have a: "select better a cur = Some a" using 2(2) [of a] by (simp add: select_def)
      then have "m (snd a) \<le> m (snd x)" using IH by blast
      with IH None a show ?thesis by auto
    next
      case (Some c)
      with IH assms(2) [of "snd a" "fst c" "snd c"] show ?thesis
        by (cases c) (auto simp: select_def simp del: split_paired_All split: if_splits)
    qed
  }
qed auto

section \<open>The cell with a free slot nearest the root\<close>

lemma createCell_i_fold:
  "createCell_i (Node i cs) = (if \<not> hasAllSiblings (Node i cs) then Some ([], ct_depth i)
     else fold (select (\<lambda>d cur. case cur of None \<Rightarrow> True | Some (q, e) \<Rightarrow> sint d < sint e)) (cands createCell_i 0 cs) None)"
proof -
  have "(\<lambda>(k, c) cur. case c of None \<Rightarrow> cur | Some n \<Rightarrow> (case createCell_i n of None \<Rightarrow> cur
      | Some (p, d) \<Rightarrow> (case cur of None \<Rightarrow> Some (k # p, d)
        | Some (q, e) \<Rightarrow> if sint d < sint e then Some (k # p, d) else cur)))
    = best_step (\<lambda>d cur. case cur of None \<Rightarrow> True | Some (q, e) \<Rightarrow> sint d < sint e) createCell_i"
    by (auto simp: fun_eq_iff best_step_def split: option.splits)
  then show ?thesis by (simp add: fold_best_step)
qed

declare createCell_i.simps [simp del]

lemma createCell_i_None: "createCell_i t = None \<longleftrightarrow> (\<forall>n\<in>set (nodes t). hasAllSiblings n)"
proof (induction t rule: node_induct)
  case (Node i cs)
  let ?better = "\<lambda>d cur. case cur of None \<Rightarrow> True | Some (q :: path, e :: u32) \<Rightarrow> sint d < sint e"
  have "fold (select ?better) (cands createCell_i 0 cs) None = None \<longleftrightarrow> cands createCell_i 0 cs = []"
    by (subst fold_select(1) [where m = "\<lambda>d. - sint d"]) auto
  also have "\<dots> \<longleftrightarrow> (\<forall>n. Some n \<in> set cs \<longrightarrow> createCell_i n = None)" by (rule cands_Nil)
  finally show ?case using Node.IH
    by (auto simp: createCell_i_fold split: option.splits)
qed

lemma createCell_i_SomeD:
  "createCell_i t = Some (p, d) \<Longrightarrow> \<exists>n. node_at p t = Some n \<and> \<not> hasAllSiblings n \<and> d = ct_depth (info n)"
proof (induction t arbitrary: p rule: node_induct)
  case (Node i cs)
  show ?case
  proof (cases "hasAllSiblings (Node i cs)")
    case True
    with Node.prems have "fold (select (\<lambda>d cur. case cur of None \<Rightarrow> True | Some (q, e) \<Rightarrow> sint d < sint e))
        (cands createCell_i 0 cs) None = Some (p, d)" by (simp add: createCell_i_fold)
    from fold_select(2) [where m = "\<lambda>d. - sint d", OF _ _ this] have "(p, d) \<in> set (cands createCell_i 0 cs)" by auto
    then obtain k n q where k: "k < length cs" "cs ! k = Some n" "createCell_i n = Some (q, d)" "p = k # q"
      by (auto simp: cands_iff)
    then have "Some n \<in> set cs" by (metis nth_mem)
    from Node.IH [OF this k(3)] k show ?thesis by (auto simp: node_at_Cons simp del: node_at.simps(2))
  next
    case False
    with Node.prems show ?thesis by (simp add: createCell_i_fold)
  qed
qed

lemma tree_inv_child:
  assumes "tree_inv (Node i cs)" "shallow (Node i cs)" "Some n \<in> set cs"
  shows "tree_inv n" "shallow n"
proof -
  from assms(3) obtain k where k: "k < length cs" "cs ! k = Some n" by (auto simp: in_set_conv_nth)
  with assms(1) show "tree_inv n" by (auto simp: tree_inv_iff)
  have "node_at [k] (Node i cs) = Some n" using k by simp
  from depth_at [OF assms(1,2) this] assms(2) height_child [OF assms(3), of i] show "shallow n"
    by (simp add: shallow_def)
qed

lemma createCell_i_min:
  assumes "tree_inv t" "shallow t" "createCell_i t = Some (p, d)" "node_at q t = Some m" "\<not> hasAllSiblings m"
  shows "sint d \<le> sint (ct_depth (info m))"
  using assms
proof (induction t arbitrary: p d q rule: node_induct)
  case (Node i cs)
  show ?case
  proof (cases "hasAllSiblings (Node i cs)")
    case True
    with Node.prems(4,5) obtain k n q' where k: "k < length cs" "cs ! k = Some n" "node_at q' n = Some m"
      by (cases q) (auto simp: node_at_Cons simp del: node_at.simps(2))
    then have n: "Some n \<in> set cs" by (metis nth_mem)
    have "createCell_i n \<noteq> None" using k(3) Node.prems(5) createCell_i_None nodes_iff by blast
    then obtain p' d' where p': "createCell_i n = Some (p', d')" by auto
    then have c: "(k # p', d') \<in> set (cands createCell_i 0 cs)" using k by (auto simp: cands_iff)
    from True Node.prems(3) have "fold (select (\<lambda>d cur. case cur of None \<Rightarrow> True | Some (q, e) \<Rightarrow> sint d < sint e))
        (cands createCell_i 0 cs) None = Some (p, d)" by (simp add: createCell_i_fold)
    from fold_select(2) [where m = "\<lambda>d. - sint d", OF _ _ this] c have "sint d \<le> sint d'" by fastforce
    also have "\<dots> \<le> sint (ct_depth (info m))"
      using Node.IH [OF n tree_inv_child [OF Node.prems(1,2) n] p' k(3) Node.prems(5)] .
    finally show ?thesis .
  next
    case False
    with Node.prems(3) have "d = ct_depth i" by (simp add: createCell_i_fold)
    with depth_at [OF Node.prems(1,2,4)] show ?thesis by simp
  qed
qed

text \<open>A tree whose cells all have a positive span has a free slot somewhere.\<close>

lemma free_slot_exists: "\<forall>n\<in>set (nodes t). siblings n \<noteq> [] \<Longrightarrow> \<exists>n\<in>set (nodes t). \<not> hasAllSiblings n"
proof (induction t rule: node_induct)
  case (Node i cs)
  show ?case
  proof (cases "hasAllSiblings (Node i cs)")
    case True
    from Node.prems have "cs \<noteq> []" by simp
    with True obtain n where n: "Some n \<in> set cs" by (cases cs) (auto simp: hasAllSiblings_def)
    then have sub: "set (nodes n) \<subseteq> set (nodes (Node i cs))" by force
    with Node.prems have "\<forall>m\<in>set (nodes n). siblings m \<noteq> []" by blast
    from Node.IH [OF n this] sub show ?thesis by blast
  qed auto
qed

section \<open>The deepest cell with room\<close>

definition deeper :: "u32 \<Rightarrow> (path \<times> u32) option \<Rightarrow> bool" where
  "deeper d cur = ((case cur of None \<Rightarrow> -1 | Some (q, e) \<Rightarrow> sint e) < sint d)"

lemma sensor_fold:
  "getAvailableNodeForSensor_i ty (Node i cs) =
     (case fold (select deeper) (cands (getAvailableNodeForSensor_i ty) 0 cs) None of
        None \<Rightarrow> if hasAvailableSlotsForPeer ty (Node i cs) then Some ([], ct_depth i) else None
      | Some r \<Rightarrow> Some r)"
proof -
  have "(\<lambda>(k, c) cur. case c of None \<Rightarrow> cur | Some n \<Rightarrow> (case getAvailableNodeForSensor_i ty n of None \<Rightarrow> cur
      | Some (p, d) \<Rightarrow> if (case cur of None \<Rightarrow> -1 | Some (q, e) \<Rightarrow> sint e) < sint d then Some (k # p, d) else cur))
    = best_step deeper (getAvailableNodeForSensor_i ty)"
    by (auto simp: fun_eq_iff best_step_def deeper_def split: option.splits)
  then show ?thesis by (simp add: fold_best_step Let_def)
qed

declare getAvailableNodeForSensor_i.simps [simp del]

lemma sensor_SomeD:
  assumes "getAvailableNodeForSensor_i ty t = Some (p, d)"
  shows "\<exists>n. node_at p t = Some n \<and> hasAvailableSlotsForPeer ty n \<and> d = ct_depth (info n)"
  using assms
proof (induction t arbitrary: p rule: node_induct)
  case (Node i cs)
  let ?C = "cands (getAvailableNodeForSensor_i ty) 0 cs"
  have from_cands: "fold (select deeper) xs cur = Some x \<Longrightarrow> cur = Some x \<or> x \<in> set xs" for xs cur x
    by (induction xs arbitrary: cur) (fastforce simp: select_def split: if_splits)+
  show ?case
  proof (cases "fold (select deeper) ?C None")
    case None
    with Node.prems show ?thesis by (auto simp: sensor_fold split: if_splits)
  next
    case (Some r)
    with Node.prems have "(p, d) \<in> set ?C" using from_cands by (fastforce simp: sensor_fold)
    then obtain k n q where k: "k < length cs" "cs ! k = Some n" "getAvailableNodeForSensor_i ty n = Some (q, d)" "p = k # q"
      by (auto simp: cands_iff)
    then have "Some n \<in> set cs" by (metis nth_mem)
    from Node.IH [OF this k(3)] k show ?thesis by (auto simp: node_at_Cons simp del: node_at.simps(2))
  qed
qed

lemma sensor_cands_deeper:
  assumes "tree_inv (Node i cs)" "shallow (Node i cs)" "x \<in> set (cands (getAvailableNodeForSensor_i ty) 0 cs)"
  shows "deeper (snd x) None"
proof -
  obtain r d where x: "x = (r, d)" by (cases x)
  from assms(3) obtain k n q where k: "k < length cs" "cs ! k = Some n"
    "getAvailableNodeForSensor_i ty n = Some (q, snd x)" unfolding x cands_iff by auto
  from sensor_SomeD [OF k(3)] k obtain m where m: "node_at (k # q) (Node i cs) = Some m" "snd x = ct_depth (info m)" by auto
  from depth_at [OF assms(1,2) m(1)] m(2) assms(2) show ?thesis by (simp add: deeper_def shallow_def)
qed

lemma sensor_max:
  assumes "tree_inv t" "shallow t" "node_at q t = Some m" "hasAvailableSlotsForPeer ty m"
  shows "\<exists>p d. getAvailableNodeForSensor_i ty t = Some (p, d) \<and> sint (ct_depth (info m)) \<le> sint d"
  using assms
proof (induction t arbitrary: q rule: node_induct)
  case (Node i cs)
  let ?C = "cands (getAvailableNodeForSensor_i ty) 0 cs"
  have better: "deeper d (Some (q, e)) \<longleftrightarrow> sint e < sint d" for d q e by (simp add: deeper_def)
  note sel = fold_select [where m = sint and better = deeper and xs = ?C and cur = None,
      OF sensor_cands_deeper [OF Node.prems(1,2)] better]
  show ?case
  proof (cases q)
    case Nil
    show ?thesis
    proof (cases "getAvailableNodeForSensor_i ty (Node i cs)")
      case None
      then show ?thesis using Node.prems Nil by (auto simp: sensor_fold split: option.splits if_splits)
    next
      case (Some r)
      obtain p d where r: "r = (p, d)" by (cases r)
      from sensor_SomeD [OF Some [unfolded r]] obtain n where "node_at p (Node i cs) = Some n" "d = ct_depth (info n)" by blast
      with depth_at [OF Node.prems(1,2)] Nil Node.prems(3) Some r show ?thesis by fastforce
    qed
  next
    case (Cons k q')
    with Node.prems(3) obtain n where k: "k < length cs" "cs ! k = Some n" "node_at q' n = Some m"
      by (auto simp: node_at_Cons simp del: node_at.simps(2))
    then have n: "Some n \<in> set cs" by (metis nth_mem)
    from Node.IH [OF n tree_inv_child [OF Node.prems(1,2) n] k(3) Node.prems(4)]
    obtain p d where p: "getAvailableNodeForSensor_i ty n = Some (p, d)" "sint (ct_depth (info m)) \<le> sint d" by blast
    then have c: "(k # p, d) \<in> set ?C" using k by (auto simp: cands_iff)
    then have "fold (select deeper) ?C None \<noteq> None" using sel(1) by fastforce
    then obtain r e where r: "fold (select deeper) ?C None = Some (r, e)" by auto
    with sel(2) c have "sint d \<le> sint e" by fastforce
    with r p(2) show ?thesis by (auto simp: sensor_fold)
  qed
qed

section \<open>Properties of placement\<close>

text \<open>The cell offered to a new peer. In a tree within its invariant whose depths do not overflow,
  \<^verbatim>\<open>getAvailableNode\<close> offers a superpeer the first cell with room in preorder and a sensor a deepest
  cell with room; for both it answers null exactly when no cell of the tree has room. A monitor is
  always sent to the root, and any other type gets null.\<close>

lemma available_node_choice:
  assumes "tree_inv t" "shallow t"
  shows "(ty = ucast SUPERPEER \<or> ty = ucast SUPERPEER_COORD \<longrightarrow> (case getAvailableNode ty t of
        None \<Rightarrow> \<forall>n\<in>set (nodes t). \<not> hasAvailableSlotsForPeer ty n
      | Some p \<Rightarrow> \<exists>n. node_at p t = Some n \<and> List.find (hasAvailableSlotsForPeer ty) (nodes t) = Some n))
    \<and> (ty = ucast SENSOR \<longrightarrow> (case getAvailableNode ty t of
        None \<Rightarrow> \<forall>n\<in>set (nodes t). \<not> hasAvailableSlotsForPeer ty n
      | Some p \<Rightarrow> (\<exists>n. node_at p t = Some n \<and> hasAvailableSlotsForPeer ty n)
          \<and> (\<forall>q m. node_at q t = Some m \<and> hasAvailableSlotsForPeer ty m \<longrightarrow> length q \<le> length p)))
    \<and> (ty = ucast MONITOR \<longrightarrow> getAvailableNode ty t = Some [])
    \<and> (slot_of (ucast ty) = None \<longrightarrow> getAvailableNode ty t = None)"
proof (intro conjI impI)
  assume "ty = ucast SUPERPEER \<or> ty = ucast SUPERPEER_COORD"
  then have g: "getAvailableNode ty t = tree_find (hasAvailableSlotsForPeer ty) t"
    by (simp add: getAvailableNode_def getAvailableNodeForSP_i_def)
  show "case getAvailableNode ty t of None \<Rightarrow> \<forall>n\<in>set (nodes t). \<not> hasAvailableSlotsForPeer ty n
      | Some p \<Rightarrow> \<exists>n. node_at p t = Some n \<and> List.find (hasAvailableSlotsForPeer ty) (nodes t) = Some n"
  proof (cases "tree_find (hasAvailableSlotsForPeer ty) t")
    case None
    with tree_find_None_iff [of "hasAvailableSlotsForPeer ty" t] show ?thesis unfolding g None by simp
  next
    case (Some p)
    from tree_find_SomeD [OF Some] tree_find_first [OF Some] Some show ?thesis unfolding g by auto
  qed
next
  assume "ty = ucast SENSOR"
  then have g: "getAvailableNode ty t = map_option fst (getAvailableNodeForSensor_i ty t)"
    by (simp add: getAvailableNode_def SENSOR_def SUPERPEER_def SUPERPEER_COORD_def)
  show "case getAvailableNode ty t of None \<Rightarrow> \<forall>n\<in>set (nodes t). \<not> hasAvailableSlotsForPeer ty n
      | Some p \<Rightarrow> (\<exists>n. node_at p t = Some n \<and> hasAvailableSlotsForPeer ty n)
          \<and> (\<forall>q m. node_at q t = Some m \<and> hasAvailableSlotsForPeer ty m \<longrightarrow> length q \<le> length p)"
  proof (cases "getAvailableNodeForSensor_i ty t")
    case None
    then show ?thesis using sensor_max [OF assms] by (fastforce simp: g nodes_iff)
  next
    case (Some r)
    obtain p d where r: "getAvailableNodeForSensor_i ty t = Some (p, d)" using Some by (cases r) simp
    from sensor_SomeD [OF r] obtain n where n: "node_at p t = Some n" "hasAvailableSlotsForPeer ty n" "d = ct_depth (info n)" by blast
    have "length q \<le> length p" if "node_at q t = Some m" "hasAvailableSlotsForPeer ty m" for q m
      using sensor_max [OF assms that] r n(3) depth_at [OF assms n(1)] depth_at [OF assms that(1)] by auto
    with n r show ?thesis by (auto simp: g)
  qed
next
  assume "ty = ucast MONITOR"
  then show "getAvailableNode ty t = Some []"
    by (simp add: getAvailableNode_def MONITOR_def SENSOR_def SUPERPEER_def SUPERPEER_COORD_def)
next
  assume "slot_of (ucast ty) = None"
  then show "getAvailableNode ty t = None"
    by (auto simp: getAvailableNode_def slot_of_def MONITOR_def SENSOR_def SUPERPEER_def SUPERPEER_COORD_def split: if_splits)
qed

lemma sample_tree_inv: "tree_inv sample_tree" "shallow sample_tree"
proof -
  obtain c where c: "sample_tree = Node ((info sample_node)\<lparr>ct_sps := [sample_peer 2 1]\<rparr>) [Some c, None]"
    "c = new_child sample_env (replicate 16 8) 0 (info sample_node)" using sample_tree_Node by blast
  have h: "height sample_tree = 2" by (rule sample_tree_ok(2))
  show "shallow sample_tree" using h by (simp add: shallow_def c sample_node_def CellTreeNode_ctor_def)
  show "tree_inv sample_tree" unfolding c
    by (simp add: tree_inv_iff new_child_def Let_def lookupValue_def sample_env_def CellTreeNode_ctor_def sample_node_def
        cell_inv_def slot_inv_def within_def less_Suc_eq_0_disj nth_Cons' slot_of_def SUPERPEER_def SUPERPEER_COORD_def)
qed

lemma sample_tree_child: "node_at [0] sample_tree = Some (new_child sample_env (replicate 16 8) 0 (info sample_node))"
proof -
  obtain c where c: "sample_tree = Node ((info sample_node)\<lparr>ct_sps := [sample_peer 2 1]\<rparr>) [Some c, None]"
    "c = new_child sample_env (replicate 16 8) 0 (info sample_node)" using sample_tree_Node by blast
  show ?thesis unfolding c(1) by (simp add: c(2))
qed

lemma sample_child_room: "hasAvailableSlotsForPeer (ucast SENSOR) (new_child sample_env (replicate 16 8) 0 (info sample_node))"
  by (simp add: hasAvailableSlotsForPeer_def slot_of_def SENSOR_def SUPERPEER_def SUPERPEER_COORD_def MONITOR_def
      new_child_def CellTreeNode_ctor_def lookupValue_def sample_env_def list_full_def)

lemma available_node_choice_witness:
  "\<exists>p. getAvailableNode (ucast SENSOR) sample_tree = Some p \<and> 1 \<le> length p"
proof -
  have "\<exists>p. getAvailableNode (ucast SENSOR) sample_tree = Some p
      \<and> (\<forall>q m. node_at q sample_tree = Some m \<and> hasAvailableSlotsForPeer (ucast SENSOR) m \<longrightarrow> length q \<le> length p)"
  proof (cases "getAvailableNode (ucast SENSOR) sample_tree")
    case None
    then have "\<forall>n\<in>set (nodes sample_tree). \<not> hasAvailableSlotsForPeer (ucast SENSOR) n"
      using available_node_choice [OF sample_tree_inv, of "ucast SENSOR"] by simp
    then show ?thesis using sample_tree_child sample_child_room nodes_iff by blast
  next
    case (Some p)
    then show ?thesis using available_node_choice [OF sample_tree_inv, of "ucast SENSOR"] by simp
  qed
  then show ?thesis using sample_tree_child sample_child_room by fastforce
qed

end
