(* ===== verification/LeastLoad.thy ===== *)
theory LeastLoad
  imports CellPlacement
begin

text \<open>
  The search for the peer of least load, \<^verbatim>\<open>CellTree::getPoL\<close>: a depth-first walk with an explicit stack
  that climbs back over the parent pointers. The loop is shown to end and to visit every cell of the
  tree once in preorder, and its result is characterised.
\<close>

section \<open>The walk\<close>

text \<open>The cells below a node from slot \<open>k\<close> on.\<close>

definition below :: "nat \<Rightarrow> node \<Rightarrow> node list" where
  "below k n = concat (map (\<lambda>c. case c of None \<Rightarrow> [] | Some m \<Rightarrow> nodes m) (drop k (siblings n)))"

lemma nodes_below: "nodes n = n # below 0 n"
  by (cases n) (simp add: below_def)

lemma next_sibling_None: "next_sibling n k = None \<Longrightarrow> below k n = []"
  by (auto simp: next_sibling_def below_def first_index_None_iff)

lemma next_sibling_Some:
  assumes "next_sibling n k = Some i"
  shows "k \<le> i \<and> i < length (siblings n) \<and> (\<exists>c. siblings n ! i = Some c \<and> below k n = nodes c @ below (Suc i) n)"
proof -
  from assms obtain j where j: "first_index (\<lambda>c. c \<noteq> None) (drop k (siblings n)) = Some j" "i = k + j"
    by (auto simp: next_sibling_def)
  from first_index_SomeD [OF j(1)] have s: "j < length (drop k (siblings n))" "drop k (siblings n) ! j \<noteq> None"
    "\<forall>l<j. drop k (siblings n) ! l = None" by auto
  then obtain c where c: "siblings n ! i = Some c" "i < length (siblings n)" using j(2) by auto
  have "drop k (siblings n) = take j (drop k (siblings n)) @ Some c # drop (Suc i) (siblings n)"
    using id_take_nth_drop [OF s(1)] c j(2) s(1) by (simp add: add.commute)
  moreover have "concat (map (\<lambda>c. case c of None \<Rightarrow> [] | Some m \<Rightarrow> nodes m) (take j (drop k (siblings n)))) = []"
    using s(1,3) by (auto simp: in_set_conv_nth)
  ultimately have "below k n = nodes c @ below (Suc i) n" unfolding below_def by (metis (no_types, lifting)
        append_Nil concat.simps(2) concat_append list.simps(9) map_append option.simps(5))
  with c j show ?thesis by auto
qed

text \<open>What the loop does once a subtree has been visited: it stops at the root or goes on in the parent.\<close>

definition climb :: "uuid list \<Rightarrow> node \<Rightarrow> path \<Rightarrow> int \<times> p3_peer_info option \<Rightarrow> (int \<times> p3_peer_info option) option" where
  "climb flt root p acc = (if p = [] then Some acc
     else getPoL_loop flt root (butlast p) (Suc (last p)) (butlast p) acc)"

lemma getPoL_loop_step:
  assumes "node_at p root = Some n"
  shows "getPoL_loop flt root p k p acc =
    (let acc' = (if k = 0 then pol_visit flt n acc else acc) in
     case next_sibling n k of
       Some i \<Rightarrow> getPoL_loop flt root (p @ [i]) 0 (p @ [i]) acc'
     | None \<Rightarrow> climb flt root p acc')"
  using assms by (subst getPoL_loop.simps) (auto simp: climb_def Let_def split: option.splits)

lemma getPoL_children:
  assumes n: "node_at p root = Some n"
    and sub: "\<And>i c acc. siblings n ! i = Some c \<Longrightarrow> i < length (siblings n) \<Longrightarrow>
      getPoL_loop flt root (p @ [i]) 0 (p @ [i]) acc = climb flt root (p @ [i]) (fold (pol_visit flt) (nodes c) acc)"
    and "0 < k"
  shows "getPoL_loop flt root p k p acc = climb flt root p (fold (pol_visit flt) (below k n) acc)"
  using assms(3)
proof (induction "length (siblings n) - k" arbitrary: k acc rule: less_induct)
  case less
  show ?case
  proof (cases "next_sibling n k")
    case None
    then show ?thesis using less.prems by (simp add: getPoL_loop_step [OF n] next_sibling_None)
  next
    case (Some i)
    from next_sibling_Some [OF Some] obtain c where c: "k \<le> i" "i < length (siblings n)" "siblings n ! i = Some c"
      "below k n = nodes c @ below (Suc i) n" by blast
    let ?acc = "fold (pol_visit flt) (nodes c) acc"
    have "getPoL_loop flt root p k p acc = getPoL_loop flt root p (Suc i) p ?acc"
      using less.prems Some sub [OF c(3,2)] by (simp add: getPoL_loop_step [OF n, of _ k] climb_def)
    also have "\<dots> = climb flt root p (fold (pol_visit flt) (below (Suc i) n) ?acc)"
      using c by (intro less.hyps) auto
    finally show ?thesis using c(4) by simp
  qed
qed

lemma getPoL_subtree:
  "node_at p root = Some n \<Longrightarrow>
    getPoL_loop flt root p 0 p acc = climb flt root p (fold (pol_visit flt) (nodes n) acc)"
proof (induction n arbitrary: p acc rule: node_induct)
  case (Node i cs)
  let ?n = "Node i cs"
  have sub: "getPoL_loop flt root (p @ [j]) 0 (p @ [j]) acc = climb flt root (p @ [j]) (fold (pol_visit flt) (nodes c) acc)"
    if "siblings ?n ! j = Some c" "j < length (siblings ?n)" for j c acc
    using Node.IH [of c "p @ [j]"] that Node.prems by (simp add: node_at_append) (metis nth_mem)
  show ?case
  proof (cases "next_sibling ?n 0")
    case None
    then show ?thesis
      by (simp add: getPoL_loop_step [OF Node.prems] nodes_below next_sibling_None del: nodes.simps)
  next
    case (Some j)
    from next_sibling_Some [OF Some] obtain c where c: "j < length (siblings ?n)" "siblings ?n ! j = Some c"
      "below 0 ?n = nodes c @ below (Suc j) ?n" by blast
    have "getPoL_loop flt root p 0 p acc
      = getPoL_loop flt root p (Suc j) p (fold (pol_visit flt) (nodes c) (pol_visit flt ?n acc))"
      using Some sub [OF c(2,1)] by (simp add: getPoL_loop_step [OF Node.prems, of _ 0] climb_def)
    also have "\<dots> = climb flt root p (fold (pol_visit flt) (below (Suc j) ?n)
        (fold (pol_visit flt) (nodes c) (pol_visit flt ?n acc)))"
      by (rule getPoL_children [OF Node.prems sub]) auto
    finally show ?thesis using c(3) by (simp add: nodes_below [of ?n] del: nodes.simps)
  qed
qed

lemma getPoL_fold: "getPoL flt root = Some (snd (fold (pol_visit flt) (nodes root) (INT_MAX, None)))"
  by (simp add: getPoL_def getPoL_subtree [of "[]"] climb_def)

section \<open>The peer chosen\<close>

definition pol_step :: "uuid list \<Rightarrow> p3_peer_info \<Rightarrow> int \<times> p3_peer_info option \<Rightarrow> int \<times> p3_peer_info option" where
  "pol_step flt p acc = (if \<not> isUUIDInList (getPID p) flt \<and> pol_load p \<noteq> -1 \<and> pol_load p \<le> fst acc
     then (pol_load p, Some p) else acc)"

definition superpeers :: "node \<Rightarrow> p3_peer_info list" where
  "superpeers t = concat (map (\<lambda>n. ct_sps (info n)) (nodes t))"

definition pol_candidates :: "uuid list \<Rightarrow> node \<Rightarrow> p3_peer_info list" where
  "pol_candidates flt t = filter (\<lambda>p. \<not> isUUIDInList (getPID p) flt \<and> pol_load p \<noteq> -1) (superpeers t)"

lemma pol_visit_step: "pol_visit flt n acc = fold (pol_step flt) (ct_sps (info n)) acc"
proof -
  have "getPeersByType SUPERPEER_COORD n = ct_sps (info n)"
    by (simp add: getPeersByType_def slot_of_def)
  moreover have "(\<lambda>p (mn, peer). if \<not> isUUIDInList (getPID p) flt then
      let load = pol_load p in if load \<noteq> -1 \<and> load \<le> mn then (load, Some p) else (mn, peer) else (mn, peer)) = pol_step flt"
    by (auto simp: fun_eq_iff pol_step_def Let_def)
  ultimately show ?thesis by (simp add: pol_visit_def)
qed

lemma fold_pol_visit: "fold (pol_visit flt) ns acc = fold (pol_step flt) (concat (map (\<lambda>n. ct_sps (info n)) ns)) acc"
  by (induction ns arbitrary: acc) (simp_all add: pol_visit_step)

lemma fold_pol_filter:
  "fold (pol_step flt) ps acc = fold (\<lambda>p acc. if pol_load p \<le> fst acc then (pol_load p, Some p) else acc)
     (filter (\<lambda>p. \<not> isUUIDInList (getPID p) flt \<and> pol_load p \<noteq> -1) ps) acc"
  by (induction ps arbitrary: acc) (simp_all add: pol_step_def)

text \<open>Keeping the last element of least load.\<close>

lemma fold_last_min:
  fixes load :: "'a \<Rightarrow> int"
  assumes "\<forall>p\<in>set ps. load p \<le> mx"
  shows "case fold (\<lambda>p acc. if load p \<le> fst acc then (load p, Some p) else acc) ps (mx, None) of
      (m, None) \<Rightarrow> ps = [] \<and> m = mx
    | (m, Some p) \<Rightarrow> m = load p \<and> (\<exists>us vs. ps = us @ p # vs \<and> (\<forall>q\<in>set us. load p \<le> load q) \<and> (\<forall>q\<in>set vs. load p < load q))"
  using assms
proof (induction ps rule: rev_induct)
  case (snoc x ps)
  let ?f = "\<lambda>p acc. if load p \<le> fst acc then (load p, Some p) else acc"
  obtain m r where m: "fold ?f ps (mx, None) = (m, r)" by (cases "fold ?f ps (mx, None)")
  show ?case
  proof (cases r)
    case None
    with snoc m have "ps = []" "m = mx" by auto
    with snoc.prems show ?thesis by (auto intro!: exI [of _ "[]"])
  next
    case (Some p)
    with snoc m obtain us vs where ps: "m = load p" "ps = us @ p # vs" "\<forall>q\<in>set us. load p \<le> load q" "\<forall>q\<in>set vs. load p < load q"
      by auto
    show ?thesis
    proof (cases "load x \<le> m")
      case True
      then have "\<forall>q\<in>set ps. load x \<le> load q" using ps by force
      moreover have "ps @ [x] = ps @ x # []" by simp
      ultimately show ?thesis using True m Some by fastforce
    next
      case False
      then have "\<forall>q\<in>set (vs @ [x]). load p < load q" "ps @ [x] = us @ p # (vs @ [x])" using ps by auto
      moreover have "fold ?f (ps @ [x]) (mx, None) = (m, Some p)" using False m Some by simp
      ultimately show ?thesis using ps(1,3) by (simp only: prod.case option.case) blast
    qed
  qed
qed simp

lemma pol_load_le: "pol_load p \<le> INT_MAX"
  using sint_lt [of "PeerInfo_getTotalServicesRunning (pp_info p)"] by (simp add: pol_load_def INT_MAX_def)

section \<open>Properties of the search\<close>

lemma getPoL_spec:
  "\<exists>r. getPoL flt root = Some r \<and> (case r of
      None \<Rightarrow> pol_candidates flt root = []
    | Some p \<Rightarrow> \<exists>us vs. pol_candidates flt root = us @ p # vs
        \<and> (\<forall>q\<in>set us. pol_load p \<le> pol_load q) \<and> (\<forall>q\<in>set vs. pol_load p < pol_load q))"
proof -
  let ?c = "pol_candidates flt root"
  have "getPoL flt root = Some (snd (fold (\<lambda>p acc. if pol_load p \<le> fst acc then (pol_load p, Some p) else acc) ?c (INT_MAX, None)))"
    by (simp add: getPoL_fold fold_pol_visit fold_pol_filter pol_candidates_def superpeers_def)
  moreover have "\<forall>p\<in>set ?c. pol_load p \<le> INT_MAX" by (simp add: pol_load_le)
  ultimately show ?thesis using fold_last_min [of ?c pol_load INT_MAX] by (auto split: prod.splits option.splits)
qed

text \<open>C16: \<^verbatim>\<open>getPoL\<close> returns, on every tree and every filter, and visits every cell. It leaves the peer null
  exactly when no superpeer of the tree is outside the filter; otherwise the peer it returns has the
  least load of all of them, and of those with that load it is the last one in preorder.\<close>

theorem getPoL_least_load:
  "\<exists>r. getPoL flt root = Some r \<and> (case r of
      None \<Rightarrow> pol_candidates flt root = []
    | Some p \<Rightarrow> \<exists>us vs. pol_candidates flt root = us @ p # vs
        \<and> (\<forall>q\<in>set us. pol_load p \<le> pol_load q) \<and> (\<forall>q\<in>set vs. pol_load p < pol_load q))"
  by (rule getPoL_spec)

lemma sample_superpeers: "superpeers sample_tree = [sample_peer 2 1]"
proof -
  obtain c where c: "sample_tree = Node ((info sample_node)\<lparr>ct_sps := [sample_peer 2 1]\<rparr>) [Some c, None]"
    "c = new_child sample_env (replicate 16 8) 0 (info sample_node)" using sample_tree_Node by blast
  show ?thesis unfolding c
    by (simp add: superpeers_def new_child_def CellTreeNode_ctor_def lookupValue_def sample_env_def)
qed

theorem getPoL_least_load_witness:
  "getPoL [] sample_tree = Some (Some (sample_peer 2 1))"
proof -
  have "pol_candidates [] sample_tree = [sample_peer 2 1]"
    by (simp add: pol_candidates_def sample_superpeers isUUIDInList_def pol_load_def sample_peer_def
        P3PeerInfo_ctor_def PeerInfo_getTotalServicesRunning_def)
  with getPoL_least_load [of "[]" sample_tree] show ?thesis
    by (auto simp: Cons_eq_append_conv split: option.splits)
qed

end
