(* ===== verification/CellTreeUpdates.thy ===== *)
theory CellTreeUpdates
  imports LeastLoad "HOL-Library.Sublist"
begin

text \<open>
  The operations of \<^verbatim>\<open>CellTree.cpp\<close> that change the tree: creating a cell, adding a peer, grafting and
  removing subtrees. Each is an edit of one child slot or one node; the lemmas say exactly which cells
  an edit touches, and the properties that every operation keeps the invariant of the tree.
\<close>

section \<open>Edits of one child slot\<close>

lemma graft_new:
  assumes "node_at p t = Some n" "i < length (siblings n)"
  shows "node_at (p @ i # r) (update_at p (setSibbling i c) t) = (case c of None \<Rightarrow> None | Some m \<Rightarrow> node_at r m)"
  using assms
  by (simp add: node_at_append node_at_update_same setSibbling_def)

lemma graft_old:
  assumes "node_at p t = Some n" "\<not> prefix (p @ [i]) q"
  shows "map_option info (node_at q (update_at p (setSibbling i c) t)) = map_option info (node_at q t)"
  using assms
proof (induction p arbitrary: q t)
  case Nil
  then show ?case by (cases q) (auto simp: setSibbling_def nth_list_update_neq)
next
  case (Cons k p)
  from Cons.prems(1) obtain m where m: "k < length (siblings t)" "siblings t ! k = Some m" "node_at p m = Some n"
    by (auto split: if_splits option.splits)
  show ?case
  proof (cases q)
    case Nil
    then show ?thesis using m by simp
  next
    case (Cons k' q')
    show ?thesis
    proof (cases "k' = k")
      case True
      then have "\<not> prefix (p @ [i]) q'" using Cons Cons.prems(2) by simp
      from Cons.IH [OF m(3) this] show ?thesis using m Cons True by simp
    next
      case False
      then show ?thesis using m Cons by simp
    qed
  qed
qed

lemma graft_tree_inv:
  assumes "tree_inv t" "node_at p t = Some n" "i < length (siblings n)"
    "\<And>m. c = Some m \<Longrightarrow> tree_inv m \<and> ct_depth (info m) = ct_depth (info n) + 1 \<and> ct_spanNo (info m) = word_of_nat i"
  shows "tree_inv (update_at p (setSibbling i c) t)"
proof -
  have n: "tree_inv n" using tree_inv_at [OF assms(1,2)] by simp
  then have "tree_inv (setSibbling i c n)" using assms(3,4)
    by (cases n) (auto simp: setSibbling_def tree_inv_iff nth_list_update)
  then show ?thesis using tree_inv_update [OF assms(1,2), of "setSibbling i c"] by (simp add: setSibbling_def)
qed

lemma update_at_cong: "node_at p t = Some n \<Longrightarrow> f n = g n \<Longrightarrow> update_at p f t = update_at p g t"
  by (induction p arbitrary: t) (auto split: option.splits if_splits)

lemma free_slot_iff: "\<not> hasAllSiblings n \<longleftrightarrow> (\<exists>i. first_index (\<lambda>c. c = None) (siblings n) = Some i)"
proof -
  have "\<not> hasAllSiblings n \<longleftrightarrow> first_index (\<lambda>c. c = None) (siblings n) \<noteq> None"
    unfolding hasAllSiblings_def first_index_None_iff list_all_iff by blast
  then show ?thesis by simp
qed

lemma createSibling_iff:
  "createSibling env u n = (case first_index (\<lambda>c. c = None) (siblings n) of
     None \<Rightarrow> None | Some i \<Rightarrow> Some (i, setSibbling i (Some (new_child env u i (info n))) n))"
  using free_slot_iff [of n] by (auto simp: createSibling_def setSibbling_def split: option.splits)

lemma create_at_iff:
  assumes "node_at p t = Some n"
  shows "create_at env u p t = (case first_index (\<lambda>c. c = None) (siblings n) of
     None \<Rightarrow> None | Some i \<Rightarrow> Some (p @ [i], update_at p (setSibbling i (Some (new_child env u i (info n)))) t))"
proof -
  have "update_at p (\<lambda>_. f n) t = update_at p f t" for f by (rule update_at_cong [OF assms]) simp
  then show ?thesis by (simp add: create_at_def assms createSibling_iff split: option.splits)
qed

text \<open>A configuration whose spans are not negative.\<close>

definition env_ok :: "node_env \<Rightarrow> bool" where
  "env_ok env = (\<forall>key v. env_lookup env key = Some v \<longrightarrow> 0 \<le> sint v)"

lemma lookupValue_ok: "env_ok env \<Longrightarrow> 0 \<le> sint d \<Longrightarrow> 0 \<le> sint (lookupValue env key d)"
  by (auto simp: env_ok_def lookupValue_def split: option.splits)

lemma ctor_inv: "0 \<le> sint treeSpan \<Longrightarrow> tree_inv (CellTreeNode_ctor env u spanNo depth treeSpan a b c)"
  by (simp add: CellTreeNode_ctor_def tree_inv_iff cell_inv_def slot_inv_def within_def)

lemma new_child_inv:
  assumes "env_ok env"
  shows "tree_inv (new_child env u i ci)" "ct_depth (info (new_child env u i ci)) = ct_depth ci + 1"
    "ct_spanNo (info (new_child env u i ci)) = word_of_nat i" "ct_cellID (info (new_child env u i ci)) = u"
  using lookupValue_ok [OF assms]
  by (auto simp: new_child_def Let_def intro!: ctor_inv) (simp_all add: CellTreeNode_ctor_def)

lemma create_at_SomeD:
  assumes "create_at env u p t = Some (q, t')" "tree_inv t" "env_ok env"
  shows "\<exists>n i. node_at p t = Some n \<and> first_index (\<lambda>c. c = None) (siblings n) = Some i \<and> q = p @ [i]
    \<and> node_at q t' = Some (new_child env u i (info n)) \<and> tree_inv t' \<and> info t' = info t \<and> node_at q t = None
    \<and> (\<forall>r. r \<noteq> q \<longrightarrow> map_option info (node_at r t') = map_option info (node_at r t))"
proof -
  from assms(1) obtain n where n: "node_at p t = Some n" by (auto simp: create_at_def split: option.splits)
  with assms(1) obtain i where i: "first_index (\<lambda>c. c = None) (siblings n) = Some i" "q = p @ [i]"
    "t' = update_at p (setSibbling i (Some (new_child env u i (info n)))) t"
    by (auto simp: create_at_iff split: option.splits)
  from first_index_SomeD [OF i(1)] have l: "i < length (siblings n)" "siblings n ! i = None" by auto
  have new: "node_at (p @ i # r) t' = node_at r (new_child env u i (info n))" for r
    using graft_new [OF n l(1), of r "Some (new_child env u i (info n))"] i(3) by simp
  have leaf: "node_at r (new_child env u i (info n)) = None" if "r \<noteq> []" for r
    using that by (cases r) (auto simp: new_child_def Let_def CellTreeNode_ctor_def)
  have inv: "tree_inv t'" unfolding i(3) using new_child_inv [OF assms(3)]
    by (intro graft_tree_inv [OF assms(2) n l(1)]) auto
  have gone: "node_at (p @ i # r) t = None" for r using n l by (simp add: node_at_append)
  have root: "info t' = info t" unfolding i(3) by (cases p) (auto simp: setSibbling_def split: option.splits)
  have "map_option info (node_at r t') = map_option info (node_at r t)" if "r \<noteq> q" for r
  proof (cases "prefix (p @ [i]) r")
    case True
    then obtain s where "r = p @ i # s" by (auto elim: prefixE)
    then show ?thesis using new [of s] leaf [of s] gone [of s] that i(2) by auto
  next
    case False
    then show ?thesis unfolding i(3) by (rule graft_old [OF n])
  qed
  then show ?thesis using n i(1,2) new [of "[]"] gone [of "[]"] inv root by auto
qed

text \<open>An edit of one node that keeps its children.\<close>

lemma update_info:
  assumes "node_at p t = Some n" "siblings (f n) = siblings n" "q \<noteq> p"
  shows "map_option info (node_at q (update_at p f t)) = map_option info (node_at q t)"
  using assms
proof (induction p arbitrary: q t)
  case Nil
  then show ?case by (cases q) auto
next
  case (Cons k p)
  from Cons.prems(1) obtain m where m: "k < length (siblings t)" "siblings t ! k = Some m" "node_at p m = Some n"
    by (auto split: if_splits option.splits)
  show ?case
  proof (cases q)
    case (Cons k' q')
    then show ?thesis using m Cons.IH [OF m(3) Cons.prems(2), of q'] Cons.prems(3) by (cases "k' = k") auto
  qed (use m in simp)
qed

text \<open>Moving a subtree keeps everything but depths and slot numbers.\<close>

lemma cell_inv_moved [simp]: "cell_inv (i\<lparr>ct_depth := d, ct_spanNo := k\<rparr>) \<longleftrightarrow> cell_inv i"
proof -
  have "slot_peers s (i\<lparr>ct_depth := d, ct_spanNo := k\<rparr>) = slot_peers s i"
    "slot_max s (i\<lparr>ct_depth := d, ct_spanNo := k\<rparr>) = slot_max s i" for s by (cases s; simp)+
  then show ?thesis by (simp add: cell_inv_def slot_inv_def)
qed

lemma setLocation_inv:
  "tree_inv s \<Longrightarrow> tree_inv (setLocation d k s) \<and> ct_depth (info (setLocation d k s)) = d
    \<and> ct_spanNo (info (setLocation d k s)) = k"
proof (induction s arbitrary: d k rule: node_induct)
  case (Node i cs)
  have "tree_inv (setLocation (d + 1) (word_of_nat j) n) \<and> ct_depth (info (setLocation (d + 1) (word_of_nat j) n)) = d + 1
      \<and> ct_spanNo (info (setLocation (d + 1) (word_of_nat j) n)) = word_of_nat j"
    if "j < length cs" "cs ! j = Some n" for j n
  proof (rule Node.IH)
    show "Some n \<in> set cs" using that by (metis nth_mem)
    show "tree_inv n" using Node.prems that by (simp add: tree_inv_iff)
  qed
  moreover have "cell_inv i" "0 \<le> sint (ct_treeSpan i)" "length cs = nat (sint (ct_treeSpan i))"
    using Node.prems by (simp_all add: tree_inv_iff)
  ultimately show ?case by (simp add: tree_inv_iff nth_enumerate_eq split: option.splits)
qed

section \<open>Operations keep the invariant\<close>

definition root_inv :: "root_ptr \<Rightarrow> bool" where
  "root_inv t = (case t of Root n \<Rightarrow> tree_inv n \<and> ct_depth (info n) = 0 | _ \<Rightarrow> True)"

lemma root_depth_update [simp]:
  "(\<And>n. ct_depth (info (f n)) = ct_depth (info n)) \<Longrightarrow> ct_depth (info (update_at p f t)) = ct_depth (info t)"
  by (cases p) (auto split: option.splits)

lemma add_at_depth [simp]: "ct_depth (info (snd (add_at p peer t))) = ct_depth (info t)"
  by (simp add: add_at_def split: option.splits)

lemma clear_at_depth [simp]: "ct_depth (info (clear_at p t)) = ct_depth (info t)"
  by (simp add: clear_at_def setSibbling_def)

lemma attach_depth [simp]: "ct_depth (info (snd (attach p s t))) = ct_depth (info t)"
  by (simp add: attach_def setSibbling_def split: option.splits)

lemma add_at_inv:
  assumes "tree_inv t" "pid_ok peer"
  shows "tree_inv (snd (add_at p peer t))"
proof (cases "node_at p t")
  case (Some n)
  then have "tree_inv (snd (node_add peer n))" using tree_inv_at [OF assms(1) Some] node_add_tree_inv assms(2) by blast
  with tree_inv_update [OF assms(1) Some, of "\<lambda>n. snd (node_add peer n)"] Some show ?thesis by (simp add: add_at_def)
qed (simp add: add_at_def assms)

lemma addPeer_inv: "root_inv t \<Longrightarrow> pid_ok peer \<Longrightarrow> addPeer peer t = Inr (r, t') \<Longrightarrow> root_inv t'"
  by (auto simp: addPeer_def with_root_def root_inv_def case_prod_unfold Let_def add_at_inv
      split: root_ptr.splits option.splits)

lemma create_at_inv:
  assumes "create_at env u p t = Some (q, t')" "tree_inv t" "env_ok env"
  shows "tree_inv t'" "ct_depth (info t') = ct_depth (info t)"
  using create_at_SomeD [OF assms] by auto

lemma addPeer_parent_inv:
  assumes "root_inv t" "pid_ok peer" "env_ok env" "addPeer_parent env peer u t = Inr (r, t')"
  shows "root_inv t'"
proof -
  from assms(4) obtain root where root: "t = Root root" by (cases t) (simp_all add: addPeer_parent_def with_root_def)
  then have inv: "tree_inv root" "ct_depth (info root) = 0" using assms(1) by (simp_all add: root_inv_def)
  have *: "root_inv (Root (snd (add_at p peer root)))" for p using inv assms(2) by (simp add: root_inv_def add_at_inv)
  have **: "root_inv (Root (snd (add_at q peer root1)))" if "create_at env v p root = Some (q, root1)" for v p q root1
    using create_at_inv [OF that inv(1) assms(3)] inv assms(2) by (simp add: root_inv_def add_at_inv)
  show ?thesis using assms(1,4) * **
    by (auto simp: addPeer_parent_def with_root_def root case_prod_unfold Let_def split: option.splits)
qed

lemma createCell_inv: "root_inv t \<Longrightarrow> env_ok env \<Longrightarrow> createCell env u t = Inr (r, t') \<Longrightarrow> root_inv t'"
  by (auto simp: createCell_def with_root_def root_inv_def
      split: root_ptr.splits option.splits intro: create_at_inv(1) trans [OF create_at_inv(2)])

lemma clear_at_inv:
  assumes "tree_inv t" "node_at p t \<noteq> None" "p \<noteq> []"
  shows "tree_inv (clear_at p t)"
proof -
  have "node_at (butlast p @ [last p]) t \<noteq> None" using assms by simp
  then obtain n where n: "node_at (butlast p) t = Some n" "last p < length (siblings n)"
    by (auto simp: node_at_append split: if_splits bind_splits)
  show ?thesis unfolding clear_at_def using graft_tree_inv [OF assms(1) n, of None] by simp
qed

lemma removeSubtree_inv: "root_inv t \<Longrightarrow> removeSubtree u t = Inr (r, t') \<Longrightarrow> root_inv t'"
  by (auto simp: removeSubtree_def with_root_def root_inv_def getCellTreeNode_i_def intro!: clear_at_inv
      split: root_ptr.splits option.splits if_splits dest!: tree_find_SomeD)

lemma attach_cases:
  "attach p s t = (case node_at p t of
     None \<Rightarrow> (-1, t)
   | Some n \<Rightarrow> (case first_index (\<lambda>c. c = None) (siblings n) of
       None \<Rightarrow> (-1, t)
     | Some i \<Rightarrow> (0, update_at p (setSibbling i (Some (setLocation (ct_depth (info n) + 1) (word_of_nat i) s))) t)))"
  by (simp add: attach_def split: option.splits)

lemma attach_inv:
  assumes "tree_inv t" "tree_inv s"
  shows "tree_inv (snd (attach p s t))"
proof -
  have "tree_inv (update_at p (setSibbling i (Some (setLocation (ct_depth (info n) + 1) (word_of_nat i) s))) t)"
    if "node_at p t = Some n" "first_index (\<lambda>c. c = None) (siblings n) = Some i" for n i
    using first_index_SomeD [OF that(2)] setLocation_inv [OF assms(2)]
    by (intro graft_tree_inv [OF assms(1) that(1)]) auto
  with assms(1) show ?thesis by (auto simp: attach_cases split: option.splits)
qed

lemma addSubtree_inv:
  "root_inv s \<Longrightarrow> root_inv t \<Longrightarrow> addSubtree s u t = Inr (r, t') \<Longrightarrow> root_inv t'"
  by (auto simp: addSubtree_def with_root_def root_inv_def case_prod_unfold Let_def attach_inv
      split: root_ptr.splits option.splits if_splits)

lemma removeSubtree_loop_inv: "removeSubtree_loop is t = Inr t' \<Longrightarrow> root_inv t \<Longrightarrow> root_inv t'"
proof (induction "is" t rule: removeSubtree_loop.induct)
  case (2 i js t)
  then show ?case
    by (auto simp: with_root_def split: root_ptr.splits option.splits sum.splits if_splits dest: removeSubtree_inv)
qed simp

lemma removeSubtree_all_inv: "root_inv t \<Longrightarrow> removeSubtree_all t = Inr (r, t') \<Longrightarrow> root_inv t'"
  by (auto simp: removeSubtree_all_def split: root_ptr.splits sum.splits dest: removeSubtree_loop_inv)

text \<open>What pruning makes of one slot: a child stays when its coordinator is listed.\<close>

definition prune_slot :: "uuid list \<Rightarrow> node option \<Rightarrow> node option" where
  "prune_slot l c = (case c of None \<Rightarrow> None
     | Some n \<Rightarrow> (case getCoordinator n of None \<Rightarrow> None
       | Some p \<Rightarrow> if list_ex (\<lambda>u. isEqual u (getPID p)) l then Some n else None))"

lemma prune_children_map:
  "prune_children l cs = (if \<exists>n. Some n \<in> set cs \<and> getCoordinator n = None then Inl NULL_DEREF else Inr (map (prune_slot l) cs))"
  by (induction l cs rule: prune_children.induct) (auto simp: prune_slot_def split: option.splits sum.splits)

lemma prune_slot_Some: "prune_slot l c = Some n \<Longrightarrow> c = Some n"
  by (auto simp: prune_slot_def split: option.splits if_splits)

lemma prune_tree_inv: "tree_inv (Node i cs) \<Longrightarrow> tree_inv (Node i (map (prune_slot l) cs))"
  by (auto simp: tree_inv_iff dest!: prune_slot_Some)

lemma pruneSubtrees_inv: "root_inv t \<Longrightarrow> pruneSubtrees l t = Inr t' \<Longrightarrow> root_inv t'"
  using prune_tree_inv by (auto simp: pruneSubtrees_def with_root_def root_inv_def prune_children_map
      split: root_ptr.splits if_splits)

section \<open>Reachable trees\<close>

text \<open>The trees a superpeer can hold: the one it starts with, and what the operations make of it. A peer
  record has a 16-byte identifier; the grafted subtrees are trees of other superpeers.\<close>

inductive reachable_tree :: "node_env \<Rightarrow> root_ptr \<Rightarrow> bool" for env where
  start: "reachable_tree env (CellTree_ctor env u)"
| addPeer: "reachable_tree env t \<Longrightarrow> pid_ok peer \<Longrightarrow> addPeer peer t = Inr (r, t') \<Longrightarrow> reachable_tree env t'"
| addPeer_parent: "reachable_tree env t \<Longrightarrow> pid_ok peer \<Longrightarrow> addPeer_parent env peer u t = Inr (r, t') \<Longrightarrow> reachable_tree env t'"
| createCell: "reachable_tree env t \<Longrightarrow> createCell env u t = Inr (c, t') \<Longrightarrow> reachable_tree env t'"
| addSubtree: "reachable_tree env s \<Longrightarrow> reachable_tree env t \<Longrightarrow> addSubtree s v t = Inr (r, t') \<Longrightarrow> reachable_tree env t'"
| removeSubtree: "reachable_tree env t \<Longrightarrow> removeSubtree u t = Inr (r, t') \<Longrightarrow> reachable_tree env t'"
| removeSubtree_all: "reachable_tree env t \<Longrightarrow> removeSubtree_all t = Inr (r, t') \<Longrightarrow> reachable_tree env t'"
| pruneSubtrees: "reachable_tree env t \<Longrightarrow> pruneSubtrees l t = Inr t' \<Longrightarrow> reachable_tree env t'"

lemmas operation_invs = addPeer_inv addPeer_parent_inv createCell_inv addSubtree_inv removeSubtree_inv
  removeSubtree_all_inv pruneSubtrees_inv

lemma ctor_root_inv: "env_ok env \<Longrightarrow> root_inv (CellTree_ctor env u)"
  using lookupValue_ok [of env 2 "''TREE_SPAN_0''"]
  by (simp add: CellTree_ctor_def root_inv_def ctor_inv) (simp add: CellTreeNode_ctor_def)

lemma reachable_root_inv:
  assumes "reachable_tree env t" "env_ok env"
  shows "root_inv t"
  using assms(1)
proof (induction rule: reachable_tree.induct)
  case (start u)
  show ?case using assms(2) by (rule ctor_root_inv)
qed (erule operation_invs; (assumption | rule assms(2)))+


section \<open>Creating a cell\<close>

text \<open>C19: creating a cell. On a tree within its invariant in which every cell has at least one child
  slot, \<^verbatim>\<open>createCell\<close> never follows a null pointer: it puts a new empty cell with the given identifier
  into the first free slot of a cell nearest the root among those with a free slot. Depth and
  slot number of the new cell are right, every other cell is unchanged, and the invariant is kept.\<close>

theorem create_cell_nearest_root:
  assumes "tree_inv t" "shallow t" "\<forall>n\<in>set (nodes t). siblings n \<noteq> []" "env_ok env"
  shows "\<exists>p n i t'. createCell env u (Root t) = Inr (Some (p @ [i]), Root t') \<and> node_at p t = Some n
    \<and> first_index (\<lambda>c. c = None) (siblings n) = Some i
    \<and> (\<forall>q m. node_at q t = Some m \<and> \<not> hasAllSiblings m \<longrightarrow> length p \<le> length q)
    \<and> node_at (p @ [i]) t' = Some (new_child env u i (info n))
    \<and> (\<forall>r. r \<noteq> p @ [i] \<longrightarrow> map_option info (node_at r t') = map_option info (node_at r t))
    \<and> tree_inv t'"
proof -
  have "createCell_i t \<noteq> None" using free_slot_exists [OF assms(3)] createCell_i_None by blast
  then obtain p d where p: "createCell_i t = Some (p, d)" by auto
  from createCell_i_SomeD [OF p] obtain n where n: "node_at p t = Some n" "\<not> hasAllSiblings n" "d = ct_depth (info n)" by blast
  from n(2) obtain i where i: "first_index (\<lambda>c. c = None) (siblings n) = Some i" by (auto simp: free_slot_iff)
  from i obtain t' where t': "create_at env u p t = Some (p @ [i], t')" by (simp add: create_at_iff [OF n(1)])
  have "length p \<le> length q" if "node_at q t = Some m" "\<not> hasAllSiblings m" for q m
    using createCell_i_min [OF assms(1,2) p that] depth_at [OF assms(1,2) n(1)] depth_at [OF assms(1,2) that(1)] n(3) by simp
  with create_at_SomeD [OF t' assms(1,4)] n i p t' show ?thesis
    by (intro exI [of _ p] exI [of _ n] exI [of _ i] exI [of _ t']) (auto simp: createCell_def with_root_def)
qed

lemma sample_env_ok: "env_ok sample_env"
  by (simp add: env_ok_def sample_env_def)

lemma sample_tree_spans: "\<forall>n\<in>set (nodes sample_tree). siblings n \<noteq> []"
proof -
  obtain c where c: "sample_tree = Node ((info sample_node)\<lparr>ct_sps := [sample_peer 2 1]\<rparr>) [Some c, None]"
    "c = new_child sample_env (replicate 16 8) 0 (info sample_node)" using sample_tree_Node by blast
  show ?thesis unfolding c
    by (simp add: new_child_def CellTreeNode_ctor_def lookupValue_def sample_env_def)
qed

lemma sample_tree_free: "first_index (\<lambda>c. c = None) (siblings sample_tree) = Some 1"
proof -
  obtain c where "sample_tree = Node ((info sample_node)\<lparr>ct_sps := [sample_peer 2 1]\<rparr>) [Some c, None]"
    using sample_tree_Node by blast
  from arg_cong [OF this, of siblings] show ?thesis by simp
qed

theorem create_cell_nearest_root_witness:
  "\<exists>t'. createCell sample_env (replicate 16 9) (Root sample_tree) = Inr (Some [1], Root t') \<and> tree_inv t'"
proof -
  from create_cell_nearest_root [OF sample_tree_inv sample_tree_spans sample_env_ok, of "replicate 16 9"]
  obtain p n i t' where c: "createCell sample_env (replicate 16 9) (Root sample_tree) = Inr (Some (p @ [i]), Root t')"
    "node_at p sample_tree = Some n" "first_index (\<lambda>c. c = None) (siblings n) = Some i"
    "\<forall>q m. node_at q sample_tree = Some m \<and> \<not> hasAllSiblings m \<longrightarrow> length p \<le> length q" "tree_inv t'" by blast
  have "\<not> hasAllSiblings sample_tree" using sample_tree_free by (auto simp: free_slot_iff)
  with c(4) have "p = []" by (metis le_zero_eq length_0_conv list.size(3) node_at.simps(1))
  with c sample_tree_free show ?thesis by simp
qed

lemma sample_reachable: "reachable_tree sample_env (Root sample_node)"
  using reachable_tree.start [of sample_env "replicate 16 7"]
  by (simp add: CellTree_ctor_def lookupValue_def sample_env_def sample_node_def)


section \<open>Adding a peer\<close>

text \<open>Adding a peer to the tree. \<^verbatim>\<open>addPeer\<close> refuses with -1 and changes nothing when no cell has the
  peer's cell identifier. Otherwise it is the admission of the first such cell in preorder: that
  cell becomes what its \<^verbatim>\<open>add\<close> makes of it, the result is that of \<^verbatim>\<open>add\<close>, and no other cell of the tree
  changes.\<close>

lemma add_peer_effect:
  assumes "tree_inv t" "pid_ok peer"
  shows "case List.find (\<lambda>n. isEqual (ct_cellID (info n)) (getFID peer)) (nodes t) of
      None \<Rightarrow> addPeer peer (Root t) = Inr (-1, Root t)
    | Some n \<Rightarrow> \<exists>p t'. addPeer peer (Root t) = Inr (fst (node_add peer n), Root t')
        \<and> node_at p t = Some n \<and> node_at p t' = Some (snd (node_add peer n))
        \<and> (\<forall>q. q \<noteq> p \<longrightarrow> map_option info (node_at q t') = map_option info (node_at q t)) \<and> tree_inv t'"
proof (cases "tree_find (\<lambda>n. isEqual (ct_cellID (info n)) (getFID peer)) t")
  case None
  then have "List.find (\<lambda>n. isEqual (ct_cellID (info n)) (getFID peer)) (nodes t) = None"
    by (simp add: tree_find_None_iff find_None_iff)
  with None show ?thesis by (simp add: addPeer_def with_root_def getCellTreeNode_i_def)
next
  case (Some p)
  from tree_find_SomeD [OF Some] obtain n where n: "node_at p t = Some n" by blast
  have add: "add_at p peer t = (fst (node_add peer n), update_at p (\<lambda>n. snd (node_add peer n)) t)"
    by (simp add: add_at_def n)
  have "tree_inv (snd (add_at p peer t))" using assms by (rule add_at_inv)
  with add n tree_find_first [OF Some] Some update_info [OF n, of "\<lambda>n. snd (node_add peer n)"]
    node_at_update_same [OF n, of "\<lambda>n. snd (node_add peer n)"]
  show ?thesis by (auto simp: addPeer_def with_root_def getCellTreeNode_i_def intro!: exI [of _ p])
qed

lemma sample_tree_split:
  obtains c where "sample_tree = Node ((info sample_node)\<lparr>ct_sps := [sample_peer 2 1]\<rparr>) [Some c, None]"
    "info c = info (new_child sample_env (replicate 16 8) 0 (info sample_node))" "siblings c = [None, None]"
proof -
  have two: "replicate 2 None = [None, None :: node option]" by (simp add: numeral_2_eq_2)
  obtain c where c: "sample_tree = Node ((info sample_node)\<lparr>ct_sps := [sample_peer 2 1]\<rparr>) [Some c, None]"
    "c = new_child sample_env (replicate 16 8) 0 (info sample_node)" using sample_tree_Node by blast
  moreover have "siblings c = [None, None]"
    by (simp add: c(2) new_child_def CellTreeNode_ctor_def lookupValue_def sample_env_def two)
  ultimately show ?thesis using that by blast
qed

lemma sample_ids: "ct_cellID (info sample_node) = replicate 16 7"
  "ct_cellID (info (new_child env u i ci)) = u"
  by (simp_all add: sample_node_def new_child_def CellTreeNode_ctor_def Let_def)

lemma sample_find:
  "tree_find (\<lambda>n. isEqual (ct_cellID (info n)) u) sample_tree =
     (if isEqual (replicate 16 7) u then Some [] else if isEqual (replicate 16 8) u then Some [0] else None)"
proof -
  obtain c where c: "sample_tree = Node ((info sample_node)\<lparr>ct_sps := [sample_peer 2 1]\<rparr>) [Some c, None]"
    "info c = info (new_child sample_env (replicate 16 8) 0 (info sample_node))" "siblings c = [None, None]"
    by (rule sample_tree_split)
  have "tree_find P c = (if P c then Some [] else None)" for P using c(3) by (cases c) simp
  then show ?thesis unfolding c(1) by (simp add: c(2) sample_ids)
qed

lemma add_peer_effect_witness:
  "\<exists>t'. addPeer (sample_peer 1 5) (Root sample_tree) = Inr (0, Root t') \<and> tree_inv t'"
proof -
  obtain c where c: "sample_tree = Node ((info sample_node)\<lparr>ct_sps := [sample_peer 2 1]\<rparr>) [Some c, None]"
    using sample_tree_split by blast
  have fid: "getFID (sample_peer 1 5) = replicate 16 7"
    by (simp add: sample_peer_def P3PeerInfo_ctor_def getFID_def)
  have "List.find (\<lambda>n. isEqual (ct_cellID (info n)) (getFID (sample_peer 1 5))) (nodes sample_tree) = Some sample_tree"
    unfolding c by (simp add: fid sample_ids isEqual_def)
  moreover have "fst (node_add (sample_peer 1 5) sample_tree) = 0" unfolding c
    by (simp add: node_add_def slot_of_def SUPERPEER_def isEqual_def list_full_def sample_node_def CellTreeNode_ctor_def)
  ultimately show ?thesis using add_peer_effect [OF sample_tree_inv(1) sample_peer_pid(1), of 1 5] by auto
qed

section \<open>Grafting a subtree\<close>

text \<open>grafting a subtree. When the identifier of the subtree's root is already in the tree the result
  is 0 and nothing changes; when the parent is missing or has no free slot the result is -1 and
  nothing changes. Otherwise the subtree hangs in the first free slot of the parent, renumbered to
  its new depth, every cell outside that slot is unchanged, and the invariant is kept.\<close>

theorem add_subtree_effect:
  assumes "tree_inv t" "tree_inv s"
    "getCellTreeNode_i (ct_cellID (info s)) t = None"
    "(case parent of None \<Rightarrow> Some [] | Some u \<Rightarrow> getCellTreeNode_i u t) = Some p" "node_at p t = Some n"
  shows "case first_index (\<lambda>c. c = None) (siblings n) of
      None \<Rightarrow> addSubtree (Root s) parent (Root t) = Inr (-1, Root t)
    | Some i \<Rightarrow> \<exists>t'. addSubtree (Root s) parent (Root t) = Inr (0, Root t')
        \<and> (\<forall>r. node_at (p @ i # r) t' = node_at r (setLocation (ct_depth (info n) + 1) (word_of_nat i) s))
        \<and> (\<forall>q. \<not> prefix (p @ [i]) q \<longrightarrow> map_option info (node_at q t') = map_option info (node_at q t))
        \<and> tree_inv t'"
proof (cases "first_index (\<lambda>c. c = None) (siblings n)")
  case None
  with assms(3-) show ?thesis by (simp add: addSubtree_def with_root_def attach_def)
next
  case (Some i)
  let ?s = "setLocation (ct_depth (info n) + 1) (word_of_nat i) s"
  have i: "i < length (siblings n)" using first_index_SomeD [OF Some] by simp
  have at: "attach p s t = (0, update_at p (setSibbling i (Some ?s)) t)" using Some assms(5) by (simp add: attach_def)
  with attach_inv [OF assms(1,2), of p] graft_new [OF assms(5) i, of _ "Some ?s"] graft_old [OF assms(5), of i _ "Some ?s"]
    Some assms(3,4) show ?thesis by (auto simp: addSubtree_def with_root_def)
qed

section \<open>Removing subtrees\<close>

text \<open>Removing a subtree. An unknown identifier gives -1 and no change. A cell below the root is removed
  with everything below it, and nothing else changes. For the identifier of the root itself every
  node is deleted while the tree keeps the pointer to it: the next operation on the tree uses freed
  memory.\<close>

lemma remove_subtree_effect:
  assumes "tree_inv t"
  shows "case getCellTreeNode_i u t of
      None \<Rightarrow> removeSubtree u (Root t) = Inr (-1, Root t)
    | Some p \<Rightarrow> if p = []
        then removeSubtree u (Root t) = Inr (0, Dangling) \<and> (\<forall>v. removeSubtree v Dangling = Inl USE_AFTER_FREE)
          \<and> (\<forall>peer. addPeer peer Dangling = Inl USE_AFTER_FREE)
        else \<exists>t'. removeSubtree u (Root t) = Inr (0, Root t') \<and> (\<forall>r. node_at (p @ r) t' = None)
          \<and> (\<forall>q. \<not> prefix p q \<longrightarrow> map_option info (node_at q t') = map_option info (node_at q t)) \<and> tree_inv t'"
proof (cases "getCellTreeNode_i u t")
  case None
  then show ?thesis by (simp add: removeSubtree_def with_root_def)
next
  case (Some p)
  from Some obtain m where m: "node_at p t = Some m" unfolding getCellTreeNode_i_def by (blast dest: tree_find_SomeD)
  show ?thesis
  proof (cases "p = []")
    case True
    with Some show ?thesis by (simp add: removeSubtree_def with_root_def addPeer_def)
  next
    case False
    then obtain b k where p: "p = b @ [k]" by (metis append_butlast_last_id)
    from m p obtain n where n: "node_at b t = Some n" "k < length (siblings n)"
      by (auto simp: node_at_append split: if_splits bind_splits)
    have "clear_at p t = update_at b (setSibbling k None) t" by (simp add: clear_at_def p)
    with graft_new [OF n, of _ None] graft_old [OF n(1), of k _ None] clear_at_inv [OF assms, of p] m False p Some
    show ?thesis by (auto simp: removeSubtree_def with_root_def)
  qed
qed

lemma remove_subtree_effect_witness:
  "\<exists>t'. removeSubtree (replicate 16 8) (Root sample_tree) = Inr (0, Root t') \<and> node_at [0] t' = None"
proof -
  have "getCellTreeNode_i (replicate 16 8) sample_tree = Some [0]"
    by (simp add: getCellTreeNode_i_def sample_find isEqual_pid)
  with remove_subtree_effect [OF sample_tree_inv(1), of "replicate 16 8"] obtain t' where
    "removeSubtree (replicate 16 8) (Root sample_tree) = Inr (0, Root t')" "\<forall>r. node_at ([0] @ r) t' = None" by auto
  then show ?thesis by (metis append_Nil2)
qed

text \<open>Clearing the slots of the root one by one.\<close>

definition unique_ids :: "node \<Rightarrow> bool" where
  "unique_ids t = (\<forall>p q n m. node_at p t = Some n \<and> node_at q t = Some m
     \<and> isEqual (ct_cellID (info n)) (ct_cellID (info m)) \<longrightarrow> p = q)"

definition cleared :: "nat \<Rightarrow> node \<Rightarrow> node" where
  "cleared k t = Node (info t) (replicate (min k (length (siblings t))) None @ drop k (siblings t))"

lemma node_at_cleared: "node_at q (cleared k t) = Some m \<Longrightarrow> \<exists>n. node_at q t = Some n \<and> info n = info m"
  by (cases q) (auto simp: cleared_def nth_append split: if_splits option.splits)

lemma unique_ids_cleared: "unique_ids t \<Longrightarrow> unique_ids (cleared k t)"
  unfolding unique_ids_def by (metis node_at_cleared)

lemma find_unique:
  assumes "unique_ids t" "node_at p t = Some n"
  shows "getCellTreeNode_i (ct_cellID (info n)) t = Some p"
proof -
  have "isEqual (ct_cellID (info n)) (ct_cellID (info n))" by (simp add: isEqual_def)
  with assms(2) have "tree_find (\<lambda>m. isEqual (ct_cellID (info m)) (ct_cellID (info n))) t \<noteq> None"
    by (auto simp: tree_find_None_iff intro!: bexI [of _ n] nodes_iff [THEN iffD2])
  then obtain q where q: "tree_find (\<lambda>m. isEqual (ct_cellID (info m)) (ct_cellID (info n))) t = Some q" by blast
  from tree_find_SomeD [OF this] assms have "q = p" by (auto simp: unique_ids_def)
  with q show ?thesis by (simp add: getCellTreeNode_i_def)
qed

lemma cleared_step:
  assumes "k < length (siblings t)"
  shows "cleared (Suc k) t = setSibbling k None (cleared k t)"
  using assms by (simp add: cleared_def setSibbling_def list_update_append replicate_append_same flip: Cons_nth_drop_Suc)

lemma removeSubtree_loop_cleared:
  "unique_ids t \<Longrightarrow> k \<le> length (siblings t) \<Longrightarrow>
    removeSubtree_loop [k..<length (siblings t)] (Root (cleared k t)) = Inr (Root (cleared (length (siblings t)) t))"
proof (induction "length (siblings t) - k" arbitrary: k)
  case 0
  then show ?case by simp
next
  case (Suc d)
  then have k: "k < length (siblings t)" by simp
  then have l: "k < length (siblings (cleared k t))" "siblings (cleared k t) ! k = siblings t ! k"
    by (simp_all add: cleared_def nth_append)
  have IH: "removeSubtree_loop [Suc k..<length (siblings t)] (Root (cleared (Suc k) t)) = Inr (Root (cleared (length (siblings t)) t))"
    using Suc k by auto
  show ?case
  proof (cases "siblings t ! k")
    case None
    have "cleared (Suc k) t = cleared k t" using None l
      by (metis cleared_step [OF k] list_update_id node.collapse setSibbling_def)
    with IH None l show ?thesis by (simp add: upt_conv_Cons [OF k] with_root_def)
  next
    case (Some c)
    then have "node_at [k] (cleared k t) = Some c" using l by simp
    from find_unique [OF unique_ids_cleared [OF Suc.prems(1)] this]
    have "removeSubtree (ct_cellID (info c)) (Root (cleared k t)) = Inr (0, Root (cleared (Suc k) t))"
      by (simp add: removeSubtree_def with_root_def clear_at_def cleared_step [OF k])
    with IH Some l show ?thesis by (simp add: upt_conv_Cons [OF k] with_root_def)
  qed
qed

text \<open>Removing all subtrees. When no two cells of the tree have the same identifier, \<^verbatim>\<open>removeSubtree()\<close>
  leaves the root cell, with its peers, and no children, and reports 0.\<close>

lemma remove_all_subtrees:
  assumes "unique_ids t"
  shows "removeSubtree_all (Root t) = Inr (0, Root (Node (info t) (replicate (length (siblings t)) None)))"
proof -
  have "cleared 0 t = t" by (simp add: cleared_def)
  with removeSubtree_loop_cleared [OF assms, of 0] show ?thesis by (simp add: removeSubtree_all_def cleared_def)
qed

text \<open>Pruning. When every child of the root has a coordinator, \<^verbatim>\<open>pruneSubtrees\<close> removes exactly the
  children whose coordinator is not in the list and keeps the others in their slots; a child without
  superpeers makes it follow a null pointer, whatever the list.\<close>

lemma prune_subtrees_effect:
  assumes "tree_inv t"
  shows "if \<exists>n. Some n \<in> set (siblings t) \<and> ct_sps (info n) = []
    then pruneSubtrees l (Root t) = Inl NULL_DEREF
    else \<exists>t'. pruneSubtrees l (Root t) = Inr (Root t') \<and> info t' = info t \<and> length (siblings t') = length (siblings t)
      \<and> (\<forall>k<length (siblings t). siblings t' ! k = (case siblings t ! k of None \<Rightarrow> None
          | Some n \<Rightarrow> if \<exists>u\<in>set l. isEqual u (getPID (hd (ct_sps (info n)))) then Some n else None))
      \<and> tree_inv t'"
proof -
  have co: "getCoordinator n = None \<longleftrightarrow> ct_sps (info n) = []" for n by (simp add: getCoordinator_def split: list.splits)
  have slot: "prune_slot l (siblings t ! k) = (case siblings t ! k of None \<Rightarrow> None
      | Some n \<Rightarrow> if \<exists>u\<in>set l. isEqual u (getPID (hd (ct_sps (info n)))) then Some n else None)"
    if "\<not> (\<exists>n. Some n \<in> set (siblings t) \<and> ct_sps (info n) = [])" "k < length (siblings t)" for k
  proof (cases "siblings t ! k")
    case (Some n)
    then have "ct_sps (info n) \<noteq> []" using that by (metis nth_mem)
    with Some show ?thesis by (cases "ct_sps (info n)") (auto simp: prune_slot_def getCoordinator_def list_ex_iff)
  qed (simp add: prune_slot_def)
  have "tree_inv (Node (info t) (map (prune_slot l) (siblings t)))" using prune_tree_inv [of "info t" "siblings t"] assms by simp
  with slot show ?thesis by (simp add: pruneSubtrees_def with_root_def prune_children_map co)
qed

end
