(* ===== verification/CellPackets.thy ===== *)
theory CellPackets
  imports Endpoints CellIDs
begin

text \<open>
  The packets of the cell protocol: the common header of \<^verbatim>\<open>stheno/core/p2p/net/packet/SthenoPacket.cpp\<close>,
  \<^verbatim>\<open>euryale/net/packet/Packet.h\<close>, and the packet classes and the factory under
  \<^verbatim>\<open>p3/superpeer/cell/net/packet\<close>. A packet is its header and its body; the body is one constructor per
  packet class, with the members of the class in the order of the wire. The state some packets
  carry is a chain of message blocks when sent and one block when received.
\<close>

section \<open>The header\<close>

record stheno_header =
  sh_magic :: u32
  sh_protocol :: u16
  sh_major :: byte
  sh_minor :: byte
  sh_srcPID :: uuid
  sh_srcFID :: uuid
  sh_dstPID :: uuid
  sh_dstFID :: uuid
  sh_messageType :: u16
  sh_requestID :: u32
  sh_messageSize :: u32

definition STHENO_MAGIC :: u32 where "STHENO_MAGIC = 1381264720"

text \<open>The constructor the packets use ignores its last argument, the size of the body.\<close>

definition SthenoHeader_ctor :: "uuid \<Rightarrow> uuid \<Rightarrow> uuid \<Rightarrow> uuid \<Rightarrow> u16 \<Rightarrow> u32 \<Rightarrow> u32 \<Rightarrow> stheno_header" where
  "SthenoHeader_ctor srcPID srcFID dstPID dstFID messageType requestID messageSize =
     \<lparr>sh_magic = STHENO_MAGIC, sh_protocol = 0, sh_major = 0, sh_minor = 1, sh_srcPID = srcPID,
      sh_srcFID = srcFID, sh_dstPID = dstPID, sh_dstFID = dstFID, sh_messageType = messageType,
      sh_requestID = requestID, sh_messageSize = 0\<rparr>"

text \<open>The constructor with all fields initialises the destination with the source.\<close>

definition SthenoHeader_full :: "u32 \<Rightarrow> u16 \<Rightarrow> byte \<Rightarrow> byte \<Rightarrow> uuid \<Rightarrow> uuid \<Rightarrow> uuid \<Rightarrow> uuid \<Rightarrow> u16 \<Rightarrow> u32 \<Rightarrow> u32
    \<Rightarrow> stheno_header" where
  "SthenoHeader_full magic protocol major minor srcPID srcFID dstPID dstFID messageType requestID messageSize =
     \<lparr>sh_magic = magic, sh_protocol = protocol, sh_major = major, sh_minor = minor, sh_srcPID = srcPID,
      sh_srcFID = srcFID, sh_dstPID = srcPID, sh_dstFID = dstFID, sh_messageType = messageType,
      sh_requestID = requestID, sh_messageSize = messageSize\<rparr>"

definition SthenoHeader_serialize :: "stheno_header \<Rightarrow> wop list" where
  "SthenoHeader_serialize h =
     [WULong (sh_magic h), WUShort (sh_protocol h), WOctet (sh_major h), WOctet (sh_minor h)]
     @ uuid_serialize (sh_srcPID h) @ uuid_serialize (sh_srcFID h)
     @ uuid_serialize (sh_dstPID h) @ uuid_serialize (sh_dstFID h)
     @ [WUShort (sh_messageType h), WULong (sh_requestID h), WULong (sh_messageSize h)]"

text \<open>What the members of an object under construction hold before they are read, and what a fresh
  block of a given size holds.\<close>

record raw_packet =
  raw_ulong :: u32
  raw_ushort :: u16
  raw_octet :: byte
  raw_block :: "nat \<Rightarrow> byte list"

definition SthenoHeader_deserialize :: "raw_packet \<Rightarrow> bis \<Rightarrow> stheno_header \<times> bis" where
  "SthenoHeader_deserialize raw s =
     (let (ok1, magic, s1) = read_ulong (raw_ulong raw) s;
          (ok2, protocol, s2) = read_ushort (raw_ushort raw) s1;
          (ok3, major, s3) = read_octet (raw_octet raw) s2;
          (ok4, minor, s4) = read_octet (raw_octet raw) s3;
          (srcPID, s5) = uuid_deserialize s4; (srcFID, s6) = uuid_deserialize s5;
          (dstPID, s7) = uuid_deserialize s6; (dstFID, s8) = uuid_deserialize s7;
          (ok5, messageType, s9) = read_ushort (raw_ushort raw) s8;
          (ok6, requestID, s10) = read_ulong (raw_ulong raw) s9;
          (ok7, messageSize, s11) = read_ulong (raw_ulong raw) s10
      in (\<lparr>sh_magic = magic, sh_protocol = protocol, sh_major = major, sh_minor = minor,
            sh_srcPID = srcPID, sh_srcFID = srcFID, sh_dstPID = dstPID, sh_dstFID = dstFID,
            sh_messageType = messageType, sh_requestID = requestID, sh_messageSize = messageSize\<rparr>, s11))"

definition SthenoHeader_getSize :: u32 where
  "SthenoHeader_getSize = 98"

section \<open>Bodies\<close>

datatype 'st cell_packet =
    CellInitSession
  | JoinCellPacket endpoint endpoint "sap_info option" "sap_info option" "sap_info option"
  | JoinCellReplyPacket u32 "'st option"
  | JoinMeshPacket u32 uuid uuid "uuid option" "endpoint option" "sap_info option" "sap_info option" "sap_info option"
  | JoinMeshReplyPacket u32 bool
  | LeaveMeshPacket uuid uuid
  | LeaveMeshReplyPacket u32 bool
  | RebindMeshPacket u32 uuid uuid uuid "endpoint option" "endpoint option"
      "sap_info option" "sap_info option" "sap_info option" "'st option"
  | RebindMeshReplyPacket u32 bool
  | UpdateInfoPacket "'st option"
  | UpdateInfoReplyPacket u32 bool

type_synonym mb_chain = "mblock list"

text \<open>\<^verbatim>\<open>ACE_Message_Block::total_length\<close> and the bytes of a chain.\<close>

definition chain_length :: "mb_chain \<Rightarrow> nat" where
  "chain_length mbs = sum_list (map (blk_length \<circ> fst) mbs)"

definition chain_data :: "mb_chain \<Rightarrow> byte list" where
  "chain_data mbs = concat (map (blk_data \<circ> fst) mbs)"

definition state_serialize :: "mb_chain \<Rightarrow> wop list" where
  "state_serialize mbs = [WULong (word_of_nat (chain_length mbs)), WOctetArrayMb mbs]"

definition state_deserialize :: "raw_packet \<Rightarrow> bis \<Rightarrow> mb_chain \<times> bis" where
  "state_deserialize raw s =
     (let (ok, count, s1) = read_ulong 0 s;
          (ok2, bytes, s2) = read_octet_array count (raw_block raw (unat count)) s1
      in ([(\<lparr>blk_base = bytes, blk_rd = 0, blk_wr = unat count\<rparr>, False)], s2))"

text \<open>The bodies, class by class.\<close>

definition JoinCell_serialize ::
    "endpoint \<Rightarrow> endpoint \<Rightarrow> sap_info option \<Rightarrow> sap_info option \<Rightarrow> sap_info option \<Rightarrow> wop list" where
  "JoinCell_serialize e f disc mesh ft =
     Endpoint_serialize e @ Endpoint_serialize f @ write_opt SAPInfo_serialize disc
     @ write_opt SAPInfo_serialize mesh @ write_opt SAPInfo_serialize ft"

definition JoinCell_deserialize :: "bis \<Rightarrow> mb_chain cell_packet \<times> bis" where
  "JoinCell_deserialize s =
     (let (e, s1) = Endpoint_deserialize s; (f, s2) = Endpoint_deserialize s1;
          (disc, s3) = read_opt SAPInfo_deserialize s2; (mesh, s4) = read_opt SAPInfo_deserialize s3;
          (ft, s5) = read_opt SAPInfo_deserialize s4
      in (JoinCellPacket e f disc mesh ft, s5))"

definition JoinCellReply_serialize :: "u32 \<Rightarrow> mb_chain option \<Rightarrow> wop list" where
  "JoinCellReply_serialize req st = WULong req # write_opt state_serialize st"

definition JoinCellReply_deserialize :: "raw_packet \<Rightarrow> bis \<Rightarrow> mb_chain cell_packet \<times> bis" where
  "JoinCellReply_deserialize raw s =
     (let (ok, req, s1) = read_ulong (raw_ulong raw) s; (st, s2) = read_opt (state_deserialize raw) s1
      in (JoinCellReplyPacket req st, s2))"

definition JoinMesh_serialize :: "u32 \<Rightarrow> uuid \<Rightarrow> uuid \<Rightarrow> uuid option \<Rightarrow> endpoint option \<Rightarrow>
    sap_info option \<Rightarrow> sap_info option \<Rightarrow> sap_info option \<Rightarrow> wop list" where
  "JoinMesh_serialize ty u cell parent e disc mesh ft =
     [WLong ty] @ uuid_serialize u @ uuid_serialize cell @ write_opt uuid_serialize parent
     @ write_opt Endpoint_serialize e @ write_opt SAPInfo_serialize disc
     @ write_opt SAPInfo_serialize mesh @ write_opt SAPInfo_serialize ft"

definition JoinMesh_deserialize :: "bis \<Rightarrow> mb_chain cell_packet \<times> bis" where
  "JoinMesh_deserialize s =
     (let (ok, ty, s1) = read_long 0 s; (u, s2) = uuid_deserialize s1; (cell, s3) = uuid_deserialize s2;
          (parent, s4) = read_opt uuid_deserialize s3; (e, s5) = read_opt Endpoint_deserialize s4;
          (disc, s6) = read_opt SAPInfo_deserialize s5; (mesh, s7) = read_opt SAPInfo_deserialize s6;
          (ft, s8) = read_opt SAPInfo_deserialize s7
      in (JoinMeshPacket ty u cell parent e disc mesh ft, s8))"

text \<open>The replies that carry a request number and a verdict share their layout; the verdict of the first
  three starts as false, and so do both members of the last.\<close>

definition reply_serialize :: "u32 \<Rightarrow> bool \<Rightarrow> wop list" where
  "reply_serialize req res = [WULong req, WBoolean res]"

definition reply_deserialize :: "u32 \<Rightarrow> bis \<Rightarrow> u32 \<times> bool \<times> bis" where
  "reply_deserialize req0 s =
     (let (ok, req, s1) = read_ulong req0 s; (ok2, res, s2) = read_boolean s1 in (req, res, s2))"

definition LeaveMesh_serialize :: "uuid \<Rightarrow> uuid \<Rightarrow> wop list" where
  "LeaveMesh_serialize u cell = uuid_serialize u @ uuid_serialize cell"

definition LeaveMesh_deserialize :: "bis \<Rightarrow> mb_chain cell_packet \<times> bis" where
  "LeaveMesh_deserialize s =
     (let (u, s1) = uuid_deserialize s; (cell, s2) = uuid_deserialize s1 in (LeaveMeshPacket u cell, s2))"

text \<open>The constructor of a rebind takes the follower's endpoint and does not store it.\<close>

definition RebindMesh_ctor :: "u32 \<Rightarrow> uuid \<Rightarrow> uuid \<Rightarrow> uuid \<Rightarrow> endpoint option \<Rightarrow> endpoint option \<Rightarrow>
    sap_info option \<Rightarrow> sap_info option \<Rightarrow> sap_info option \<Rightarrow> mb_chain option \<Rightarrow> mb_chain cell_packet" where
  "RebindMesh_ctor ty u cell parent e follower disc mesh ft st =
     RebindMeshPacket ty u cell parent e None disc mesh ft st"

definition RebindMesh_serialize :: "u32 \<Rightarrow> uuid \<Rightarrow> uuid \<Rightarrow> uuid \<Rightarrow> endpoint option \<Rightarrow> endpoint option \<Rightarrow>
    sap_info option \<Rightarrow> sap_info option \<Rightarrow> sap_info option \<Rightarrow> mb_chain option \<Rightarrow> wop list" where
  "RebindMesh_serialize ty u cell parent e f disc mesh ft st =
     [WLong ty] @ uuid_serialize u @ uuid_serialize cell @ uuid_serialize parent
     @ write_opt Endpoint_serialize e @ write_opt Endpoint_serialize f
     @ write_opt SAPInfo_serialize disc @ write_opt SAPInfo_serialize mesh
     @ write_opt SAPInfo_serialize ft @ write_opt state_serialize st"

definition RebindMesh_deserialize :: "raw_packet \<Rightarrow> bis \<Rightarrow> mb_chain cell_packet \<times> bis" where
  "RebindMesh_deserialize raw s =
     (let (ok, ty, s1) = read_long (raw_ulong raw) s; (u, s2) = uuid_deserialize s1;
          (cell, s3) = uuid_deserialize s2; (parent, s4) = uuid_deserialize s3;
          (e, s5) = read_opt Endpoint_deserialize s4; (f, s6) = read_opt Endpoint_deserialize s5;
          (disc, s7) = read_opt SAPInfo_deserialize s6; (mesh, s8) = read_opt SAPInfo_deserialize s7;
          (ft, s9) = read_opt SAPInfo_deserialize s8; (st, s10) = read_opt (state_deserialize raw) s9
      in (RebindMeshPacket ty u cell parent e f disc mesh ft st, s10))"

definition UpdateInfo_serialize :: "mb_chain option \<Rightarrow> wop list" where
  "UpdateInfo_serialize st = write_opt state_serialize st"

definition UpdateInfo_deserialize :: "raw_packet \<Rightarrow> bis \<Rightarrow> mb_chain cell_packet \<times> bis" where
  "UpdateInfo_deserialize raw s = (let (st, s1) = read_opt (state_deserialize raw) s in (UpdateInfoPacket st, s1))"

fun serializeBody :: "mb_chain cell_packet \<Rightarrow> wop list" where
  "serializeBody CellInitSession = []"
| "serializeBody (JoinCellPacket e f disc mesh ft) = JoinCell_serialize e f disc mesh ft"
| "serializeBody (JoinCellReplyPacket req st) = JoinCellReply_serialize req st"
| "serializeBody (JoinMeshPacket ty u cell parent e disc mesh ft) = JoinMesh_serialize ty u cell parent e disc mesh ft"
| "serializeBody (JoinMeshReplyPacket req res) = reply_serialize req res"
| "serializeBody (LeaveMeshPacket u cell) = LeaveMesh_serialize u cell"
| "serializeBody (LeaveMeshReplyPacket req res) = reply_serialize req res"
| "serializeBody (RebindMeshPacket ty u cell parent e f disc mesh ft st) =
     RebindMesh_serialize ty u cell parent e f disc mesh ft st"
| "serializeBody (RebindMeshReplyPacket req res) = reply_serialize req res"
| "serializeBody (UpdateInfoPacket st) = UpdateInfo_serialize st"
| "serializeBody (UpdateInfoReplyPacket req res) = reply_serialize req res"

section \<open>Packets\<close>

fun packet_type :: "'st cell_packet \<Rightarrow> u16" where
  "packet_type CellInitSession = 0x288"
| "packet_type (JoinCellPacket _ _ _ _ _) = 0x11"
| "packet_type (JoinCellReplyPacket _ _) = 0x12"
| "packet_type (JoinMeshPacket _ _ _ _ _ _ _ _) = 0x13"
| "packet_type (JoinMeshReplyPacket _ _) = 0x14"
| "packet_type (LeaveMeshPacket _ _) = 0x15"
| "packet_type (LeaveMeshReplyPacket _ _) = 0x16"
| "packet_type (RebindMeshPacket _ _ _ _ _ _ _ _ _ _) = 0x17"
| "packet_type (RebindMeshReplyPacket _ _) = 0x18"
| "packet_type (UpdateInfoPacket _) = 0x19"
| "packet_type (UpdateInfoReplyPacket _ _) = 0x20"

text \<open>\<^verbatim>\<open>serialize\<close>, the same in every packet class: the body is run on a size counter, its size goes into
  the header, then header and body are written.\<close>

definition serialize_packet :: "stheno_header \<Rightarrow> wop list \<Rightarrow> wop list option" where
  "serialize_packet h body = (case serialization_size body of
      None \<Rightarrow> None
    | Some n \<Rightarrow> Some (SthenoHeader_serialize (h\<lparr>sh_messageSize := word_of_nat n\<rparr>) @ body))"

definition packet_serialize :: "stheno_header \<Rightarrow> mb_chain cell_packet \<Rightarrow> wop list option" where
  "packet_serialize h b = serialize_packet h (serializeBody b)"

text \<open>The factory: the type in the header selects the class; null for an unknown type.\<close>

definition createPacket :: "raw_packet \<Rightarrow> stheno_header \<Rightarrow> bis \<Rightarrow> (mb_chain cell_packet \<times> bis) option" where
  "createPacket raw h s =
     (let t = sh_messageType h;
          reply = (\<lambda>C req0. let (req, res, s1) = reply_deserialize req0 s in Some (C req res, s1)) in
      if t = 0x288 then Some (CellInitSession, s)
      else if t = 0x11 then Some (JoinCell_deserialize s)
      else if t = 0x12 then Some (JoinCellReply_deserialize raw s)
      else if t = 0x13 then Some (JoinMesh_deserialize s)
      else if t = 0x14 then reply JoinMeshReplyPacket (raw_ulong raw)
      else if t = 0x15 then Some (LeaveMesh_deserialize s)
      else if t = 0x16 then reply LeaveMeshReplyPacket (raw_ulong raw)
      else if t = 0x17 then Some (RebindMesh_deserialize raw s)
      else if t = 0x18 then reply RebindMeshReplyPacket (raw_ulong raw)
      else if t = 0x19 then Some (UpdateInfo_deserialize raw s)
      else if t = 0x20 then reply UpdateInfoReplyPacket 0
      else None)"

section \<open>Round trips\<close>

lemma blk_data_length [simp]: "blk_ok b \<Longrightarrow> length (blk_data b) = blk_length b"
  by (auto simp: blk_ok_def blk_data_def blk_length_def blk_size_def)

lemma chain_data_length: "list_all (\<lambda>m. blk_ok (fst m)) mbs \<Longrightarrow> length (chain_data mbs) = chain_length mbs"
  by (induction mbs) (auto simp: chain_data_def chain_length_def)

text \<open>A chain that can be sent: pointers inside the blocks, blocks of equal length (the size counter
  is wrong otherwise), a total below \<open>2 ^ 32\<close>.\<close>

definition chain_ok :: "mb_chain \<Rightarrow> bool" where
  "chain_ok mbs = (list_all (\<lambda>m. blk_ok (fst m)) mbs \<and> mb_uniform (WOctetArrayMb mbs) \<and> chain_length mbs < 2 ^ 32)"

definition raw_ok :: "raw_packet \<Rightarrow> bool" where
  "raw_ok raw = (\<forall>n. length (raw_block raw n) = n)"

definition same_bytes :: "mb_chain \<Rightarrow> mb_chain \<Rightarrow> bool" where
  "same_bytes st st' = (chain_data st = chain_data st')"

lemma state_back:
  assumes "chain_ok st" "raw_ok raw"
  shows "\<exists>st'. state_deserialize raw (input (encode (state_serialize st) @ r)) = (st', input r) \<and> same_bytes st st'"
proof -
  have l: "length (chain_data st) = chain_length st" "chain_length st < 2 ^ 32"
    using assms(1) chain_data_length by (auto simp: chain_ok_def)
  then have n: "unat (word_of_nat (chain_length st) :: u32) = chain_length st" by (simp add: unat_of_nat)
  have e: "encode (state_serialize st) = le32 (word_of_nat (chain_length st)) @ chain_data st"
    by (simp add: state_serialize_def chain_data_def comp_def)
  have "read_octet_array (word_of_nat (chain_length st)) (raw_block raw (chain_length st)) (input (chain_data st @ r))
      = (True, chain_data st, input r)"
    using read_octet_array_back [of "chain_data st" "raw_block raw (chain_length st)" r] l assms(2)
    by (simp add: raw_ok_def)
  then show ?thesis using l n
    by (simp add: e state_deserialize_def read_ulong_back same_bytes_def) (simp add: chain_data_def blk_data_def blk_length_def)
qed

lemma state_calls: "chain_ok st \<Longrightarrow> wire_ok (state_serialize st)"
  by (simp add: state_serialize_def chain_ok_def)

lemma state_opt_back:
  assumes "pred_option chain_ok st" "raw_ok raw"
  shows "\<exists>st'. read_opt (state_deserialize raw) (input (encode (write_opt state_serialize st) @ r)) = (st', input r)
    \<and> rel_option same_bytes st st'"
proof (cases st)
  case (Some a)
  with assms obtain st' where "state_deserialize raw (input (encode (state_serialize a) @ r)) = (st', input r)" "same_bytes a st'"
    using state_back [of a raw r] by auto
  with Some show ?thesis by (auto simp: write_opt_def read_opt_def read_boolean_back)
qed (simp add: write_opt_def read_opt_def read_boolean_back)

lemma state_opt_calls: "pred_option chain_ok st \<Longrightarrow> wire_ok (write_opt state_serialize st)"
  by (cases st) (auto simp: write_opt_def state_calls)

fun body_ok :: "mb_chain cell_packet \<Rightarrow> bool" where
  "body_ok (JoinCellPacket e f disc mesh ft) =
     (endpoint_ok e \<and> endpoint_ok f \<and> pred_option sap_ok disc \<and> pred_option sap_ok mesh \<and> pred_option sap_ok ft)"
| "body_ok (JoinCellReplyPacket req st) = pred_option chain_ok st"
| "body_ok (JoinMeshPacket ty u cell parent e disc mesh ft) =
     (uuid_ok u \<and> uuid_ok cell \<and> pred_option uuid_ok parent \<and> pred_option endpoint_ok e
      \<and> pred_option sap_ok disc \<and> pred_option sap_ok mesh \<and> pred_option sap_ok ft)"
| "body_ok (LeaveMeshPacket u cell) = (uuid_ok u \<and> uuid_ok cell)"
| "body_ok (RebindMeshPacket ty u cell parent e f disc mesh ft st) =
     (uuid_ok u \<and> uuid_ok cell \<and> uuid_ok parent \<and> pred_option endpoint_ok e \<and> pred_option endpoint_ok f
      \<and> pred_option sap_ok disc \<and> pred_option sap_ok mesh \<and> pred_option sap_ok ft \<and> pred_option chain_ok st)"
| "body_ok (UpdateInfoPacket st) = pred_option chain_ok st"
| "body_ok _ = True"

lemmas body_defs = JoinCell_serialize_def JoinCell_deserialize_def JoinCellReply_serialize_def
  JoinCellReply_deserialize_def JoinMesh_serialize_def JoinMesh_deserialize_def LeaveMesh_serialize_def
  LeaveMesh_deserialize_def RebindMesh_serialize_def RebindMesh_deserialize_def UpdateInfo_serialize_def
  UpdateInfo_deserialize_def reply_serialize_def reply_deserialize_def

lemmas member_back = endpoint.des_ser endpoint.opt_back sap.opt_back uuid.opt_back uuid_roundtrip
  read_ulong_back read_long_back read_boolean_back

lemmas member_calls = endpoint.calls endpoint.opt_calls sap.opt_calls uuid.opt_calls state_opt_calls

lemma body_calls: "body_ok b \<Longrightarrow> wire_ok (serializeBody b)"
  by (cases b) (simp_all add: body_defs member_calls)

lemma body_back:
  assumes "body_ok b" "raw_ok raw" "sh_messageType h = packet_type b"
  shows "\<exists>b'. createPacket raw h (input (encode (serializeBody b) @ r)) = Some (b', input r)
    \<and> rel_cell_packet same_bytes b b'"
proof (cases b)
  case (JoinCellReplyPacket req st)
  then obtain st' where "read_opt (state_deserialize raw) (input (encode (write_opt state_serialize st) @ r)) = (st', input r)"
    "rel_option same_bytes st st'" using state_opt_back assms by fastforce
  with JoinCellReplyPacket assms(3) show ?thesis by (simp add: createPacket_def body_defs member_back)
next
  case (RebindMeshPacket ty u cell parent e f disc mesh ft st)
  then obtain st' where "read_opt (state_deserialize raw) (input (encode (write_opt state_serialize st) @ r)) = (st', input r)"
    "rel_option same_bytes st st'" using state_opt_back assms by fastforce
  with RebindMeshPacket assms show ?thesis by (simp add: createPacket_def body_defs member_back)
next
  case (UpdateInfoPacket st)
  then obtain st' where "read_opt (state_deserialize raw) (input (encode (write_opt state_serialize st) @ r)) = (st', input r)"
    "rel_option same_bytes st st'" using state_opt_back assms by fastforce
  with UpdateInfoPacket assms(3) show ?thesis by (simp add: createPacket_def body_defs)
qed (use assms in \<open>simp_all add: createPacket_def body_defs member_back Let_def\<close>)

definition header_ok :: "stheno_header \<Rightarrow> bool" where
  "header_ok h = (length (sh_srcPID h) = 16 \<and> length (sh_srcFID h) = 16 \<and> length (sh_dstPID h) = 16
     \<and> length (sh_dstFID h) = 16)"

interpretation header: codec SthenoHeader_serialize "SthenoHeader_deserialize raw" header_ok for raw
  by unfold_locales
     (simp_all add: SthenoHeader_serialize_def SthenoHeader_deserialize_def header_ok_def uuid_ok_def uuid_roundtrip
       read_ulong_back read_ushort_back read_octet_back)

lemma header_length: "header_ok h \<Longrightarrow> length (encode (SthenoHeader_serialize h)) = unat SthenoHeader_getSize"
  by (simp add: SthenoHeader_serialize_def header_ok_def SthenoHeader_getSize_def)

lemma header_ok_size [simp]: "header_ok (h\<lparr>sh_messageSize := n\<rparr>) = header_ok h"
  by (simp add: header_ok_def)

section \<open>Families of packets\<close>

text \<open>What a family of packet classes with a factory of its own owes its users: bodies whose calls are in
  range, and a factory that rebuilds a body from its bytes and the type in the header.\<close>

locale packet_family =
  fixes body :: "'b \<Rightarrow> wop list"
    and ptype :: "'b \<Rightarrow> u16"
    and factory :: "raw_packet \<Rightarrow> stheno_header \<Rightarrow> bis \<Rightarrow> ('b \<times> bis) option"
    and ok :: "'b \<Rightarrow> bool"
    and sim :: "'b \<Rightarrow> 'b \<Rightarrow> bool"
  assumes body_in_range: "ok b \<Longrightarrow> wire_ok (body b)"
    and factory_back: "ok b \<Longrightarrow> raw_ok raw \<Longrightarrow> sh_messageType h = ptype b \<Longrightarrow>
      \<exists>b'. factory raw h (input (encode (body b) @ r)) = Some (b', input r) \<and> sim b b'"
begin

lemma family_roundtrip:
  assumes "header_ok h" "ok b" "raw_ok raw" "sh_messageType h = ptype b" "length (encode (body b)) < 2 ^ 32"
  shows "\<exists>ops h'. serialize_packet h (body b) = Some ops \<and> length (encode ops) = 98 + unat (sh_messageSize h')
    \<and> unat (sh_messageSize h') = length (encode (body b))
    \<and> h' = h\<lparr>sh_messageSize := sh_messageSize h'\<rparr>
    \<and> SthenoHeader_deserialize raw (input (encode ops @ r)) = (h', input (encode (body b) @ r))
    \<and> (\<exists>b'. factory raw h' (input (encode (body b) @ r)) = Some (b', input r) \<and> sim b b')"
proof -
  let ?n = "length (encode (body b))"
  let ?h = "h\<lparr>sh_messageSize := word_of_nat ?n\<rparr>"
  have "serialization_size (body b) = Some ?n"
    using wire_run [OF body_in_range [OF assms(2)] sample_stream_ok] by blast
  then have ops: "serialize_packet h (body b) = Some (SthenoHeader_serialize ?h @ body b)"
    by (simp add: serialize_packet_def)
  have n: "unat (sh_messageSize ?h) = ?n" using assms(5) by (simp add: unat_of_nat)
  have "SthenoHeader_deserialize raw (input (encode (SthenoHeader_serialize ?h) @ encode (body b) @ r))
      = (?h, input (encode (body b) @ r))"
    using assms(1) by (intro header.des_ser) simp
  moreover have "length (encode (SthenoHeader_serialize ?h)) = 98"
    using header_length [of ?h] assms(1) by (simp add: SthenoHeader_getSize_def)
  moreover have "\<exists>b'. factory raw ?h (input (encode (body b) @ r)) = Some (b', input r) \<and> sim b b'"
    using assms(4) by (intro factory_back [OF assms(2,3)]) simp
  ultimately show ?thesis using ops n
    by (intro exI [of _ "SthenoHeader_serialize ?h @ body b"] exI [of _ ?h]) simp
qed

end

interpretation cell_packets: packet_family serializeBody packet_type createPacket body_ok "rel_cell_packet same_bytes"
  by unfold_locales (simp_all add: body_calls body_back)

section \<open>Properties of packets\<close>

text \<open>C21: packets of the cell protocol. A packet of any of the eleven classes, with 16-byte identifiers in
  its header, its own type in the header and arguments in range, is written as 98 bytes of header
  followed by the body; the header announces exactly the number of bytes of the body; a reader of
  that header gets every field back, and the factory, given the header, builds a packet of the same
  class with the same members and the same state bytes and stops exactly at the end of the body.\<close>

theorem packet_roundtrip:
  assumes "header_ok h" "body_ok b" "raw_ok raw" "sh_messageType h = packet_type b"
    "length (encode (serializeBody b)) < 2 ^ 32"
  shows "\<exists>ops h'. packet_serialize h b = Some ops \<and> length (encode ops) = 98 + unat (sh_messageSize h')
    \<and> unat (sh_messageSize h') = length (encode (serializeBody b))
    \<and> h' = h\<lparr>sh_messageSize := sh_messageSize h'\<rparr>
    \<and> SthenoHeader_deserialize raw (input (encode ops @ r)) = (h', input (encode (serializeBody b) @ r))
    \<and> (\<exists>b'. createPacket raw h' (input (encode (serializeBody b) @ r)) = Some (b', input r)
        \<and> rel_cell_packet same_bytes b b')"
  unfolding packet_serialize_def using assms by (rule cell_packets.family_roundtrip)

definition sample_header :: "u16 \<Rightarrow> stheno_header" where
  "sample_header t = SthenoHeader_ctor (replicate 16 1) (replicate 16 2) (replicate 16 3) (replicate 16 4) t 7 0"

definition sample_raw_packet :: raw_packet where
  "sample_raw_packet = \<lparr>raw_ulong = 0, raw_ushort = 0, raw_octet = 0, raw_block = (\<lambda>n. replicate n 0)\<rparr>"

theorem packet_roundtrip_witness:
  "\<exists>ops h'. packet_serialize (sample_header 0x15) (LeaveMeshPacket (replicate 16 1) (replicate 16 2)) = Some ops
    \<and> length (encode ops) = 138
    \<and> createPacket sample_raw_packet h' (input (encode (serializeBody (LeaveMeshPacket (replicate 16 1) (replicate 16 2)))))
        = Some (LeaveMeshPacket (replicate 16 1) (replicate 16 2), input [])"
proof -
  let ?b = "LeaveMeshPacket (replicate 16 1) (replicate 16 2) :: mb_chain cell_packet"
  have ok: "header_ok (sample_header 0x15)" "body_ok ?b" "raw_ok sample_raw_packet"
    "sh_messageType (sample_header 0x15) = packet_type ?b" "length (encode (serializeBody ?b)) = 40"
    by (simp_all add: header_ok_def sample_header_def SthenoHeader_ctor_def uuid_ok_def raw_ok_def sample_raw_packet_def
        LeaveMesh_serialize_def)
  from packet_roundtrip [OF ok(1-4), of "[]"] ok(5) obtain ops h' b' where
    "packet_serialize (sample_header 0x15) ?b = Some ops" "length (encode ops) = 98 + unat (sh_messageSize h')"
    "unat (sh_messageSize h') = 40"
    "createPacket sample_raw_packet h' (input (encode (serializeBody ?b))) = Some (b', input [])"
    "rel_cell_packet same_bytes ?b b'" by auto
  then show ?thesis by (cases b') auto
qed

text \<open>The announced size of a packet with a state. For an \<^verbatim>\<open>UpdateInfoPacket\<close> the header announces five
  bytes plus the length of the head block once for every block of the state, while the body has five
  bytes plus the lengths of the blocks: with blocks of different lengths the receiver is told the
  wrong size.\<close>

lemma update_info_announced_size:
  "serialization_size (serializeBody (UpdateInfoPacket (Some ((b, f) # mbs)))) = Some (5 + blk_length b * Suc (length mbs))
   \<and> length (encode (serializeBody (UpdateInfoPacket (Some ((b, f) # mbs)))))
       = 5 + sum_list (map (length \<circ> blk_data \<circ> fst) ((b, f) # mbs))"
proof
  show "serialization_size (serializeBody (UpdateInfoPacket (Some ((b, f) # mbs)))) = Some (5 + blk_length b * Suc (length mbs))"
    by (simp add: UpdateInfo_serialize_def write_opt_def state_serialize_def serialization_size_def ss_ctor_def ss_mb_size)
  show "length (encode (serializeBody (UpdateInfoPacket (Some ((b, f) # mbs)))))
      = 5 + sum_list (map (length \<circ> blk_data \<circ> fst) ((b, f) # mbs))"
    by (simp add: UpdateInfo_serialize_def write_opt_def state_serialize_def length_concat comp_def)
qed

end
