(* ===== verification/InfoUpdates.thy ===== *)
theory InfoUpdates
  imports CellTreeUpdates CellPackets
begin

text \<open>
  The updates superpeers spread over the mesh: \<^verbatim>\<open>p3/mesh/InfoUpdate.cpp\<close> and its subclasses,
  \<^verbatim>\<open>p3/leaf/mesh/SensorInfoUpdate.cpp\<close>, the factory \<^verbatim>\<open>p3/mesh/InfoUpdateFactory.cpp\<close>, and the part of
  \<^verbatim>\<open>Cell::processUpdateInfo\<close> that changes the services of a peer in the cell tree. Each class of update is
  one constructor; type and operation are the two numbers every update starts with.
\<close>

section \<open>Updates and their wire form\<close>

datatype info_update =
    AddServiceUpdateInfo uuid uuid service_instance_info
  | RemoveServiceUpdateInfo uuid uuid uuid uuid
  | ChangegIIDServiceUpdateInfo uuid uuid uuid uuid uuid
  | SensorInfoUpdate u32 uuid endpoint

definition MESH_UPDATEINFO_TYPE :: u32 where "MESH_UPDATEINFO_TYPE = 0x902322"
definition SENSOR_UPDATE_TYPE :: u32 where "SENSOR_UPDATE_TYPE = 0x1324821"
definition ADD_SERVICE_UPDATEINFO :: u32 where "ADD_SERVICE_UPDATEINFO = 0x21389021"
definition REMOVE_SERVICE_UPDATEINFO :: u32 where "REMOVE_SERVICE_UPDATEINFO = 0x34899812"
definition UPDATE_IID_SERVICE_UPDATEINFO :: u32 where "UPDATE_IID_SERVICE_UPDATEINFO = 0x34899810"

lemmas update_codes = MESH_UPDATEINFO_TYPE_def SENSOR_UPDATE_TYPE_def ADD_SERVICE_UPDATEINFO_def
  REMOVE_SERVICE_UPDATEINFO_def UPDATE_IID_SERVICE_UPDATEINFO_def

fun updateType :: "info_update \<Rightarrow> u32" where
  "updateType (SensorInfoUpdate op u e) = SENSOR_UPDATE_TYPE"
| "updateType _ = MESH_UPDATEINFO_TYPE"

fun updateOperation :: "info_update \<Rightarrow> u32" where
  "updateOperation (AddServiceUpdateInfo pid fid i) = ADD_SERVICE_UPDATEINFO"
| "updateOperation (RemoveServiceUpdateInfo pid fid sid iid) = REMOVE_SERVICE_UPDATEINFO"
| "updateOperation (ChangegIIDServiceUpdateInfo pid fid sid old new) = UPDATE_IID_SERVICE_UPDATEINFO"
| "updateOperation (SensorInfoUpdate op u e) = op"

fun update_body :: "info_update \<Rightarrow> wop list" where
  "update_body (AddServiceUpdateInfo pid fid i) =
     uuid_serialize pid @ uuid_serialize fid @ ServiceInstanceInfo_serialize i"
| "update_body (RemoveServiceUpdateInfo pid fid sid iid) =
     uuid_serialize pid @ uuid_serialize fid @ uuid_serialize sid @ uuid_serialize iid"
| "update_body (ChangegIIDServiceUpdateInfo pid fid sid old new) =
     uuid_serialize pid @ uuid_serialize fid @ uuid_serialize sid @ uuid_serialize old @ uuid_serialize new"
| "update_body (SensorInfoUpdate op u e) = uuid_serialize u @ Endpoint_serialize e"

definition InfoUpdate_serialize :: "info_update \<Rightarrow> wop list" where
  "InfoUpdate_serialize u = [WULong (updateType u), WULong (updateOperation u)] @ update_body u"

definition AddService_deserialize :: "bis \<Rightarrow> info_update \<times> bis" where
  "AddService_deserialize s =
     (let (pid, s1) = uuid_deserialize s; (fid, s2) = uuid_deserialize s1;
          (i, s3) = ServiceInstanceInfo_deserialize s2
      in (AddServiceUpdateInfo pid fid i, s3))"

definition RemoveService_deserialize :: "bis \<Rightarrow> info_update \<times> bis" where
  "RemoveService_deserialize s =
     (let (pid, s1) = uuid_deserialize s; (fid, s2) = uuid_deserialize s1;
          (sid, s3) = uuid_deserialize s2; (iid, s4) = uuid_deserialize s3
      in (RemoveServiceUpdateInfo pid fid sid iid, s4))"

definition ChangegIID_deserialize :: "bis \<Rightarrow> info_update \<times> bis" where
  "ChangegIID_deserialize s =
     (let (pid, s1) = uuid_deserialize s; (fid, s2) = uuid_deserialize s1; (sid, s3) = uuid_deserialize s2;
          (old, s4) = uuid_deserialize s3; (new, s5) = uuid_deserialize s4
      in (ChangegIIDServiceUpdateInfo pid fid sid old new, s5))"

definition SensorInfoUpdate_deserialize :: "u32 \<Rightarrow> bis \<Rightarrow> info_update \<times> bis" where
  "SensorInfoUpdate_deserialize op s =
     (let (u, s1) = uuid_deserialize s; (e, s2) = Endpoint_deserialize s1 in (SensorInfoUpdate op u e, s2))"

text \<open>The factory: null for a type or an operation it does not know.\<close>

definition createInfoUpdate :: "bis \<Rightarrow> (info_update \<times> bis) option" where
  "createInfoUpdate s =
     (let (ok1, ty, s1) = read_ulong 0 s; (ok2, op, s2) = read_ulong 0 s1 in
      if ty = MESH_UPDATEINFO_TYPE then
        (if op = ADD_SERVICE_UPDATEINFO then Some (AddService_deserialize s2)
         else if op = REMOVE_SERVICE_UPDATEINFO then Some (RemoveService_deserialize s2)
         else if op = UPDATE_IID_SERVICE_UPDATEINFO then Some (ChangegIID_deserialize s2)
         else None)
      else if ty = SENSOR_UPDATE_TYPE then Some (SensorInfoUpdate_deserialize op s2)
      else None)"

fun update_ok :: "info_update \<Rightarrow> bool" where
  "update_ok (AddServiceUpdateInfo pid fid i) = (uuid_ok pid \<and> uuid_ok fid \<and> sii_ok i)"
| "update_ok (RemoveServiceUpdateInfo pid fid sid iid) = (uuid_ok pid \<and> uuid_ok fid \<and> uuid_ok sid \<and> uuid_ok iid)"
| "update_ok (ChangegIIDServiceUpdateInfo pid fid sid old new) =
     (uuid_ok pid \<and> uuid_ok fid \<and> uuid_ok sid \<and> uuid_ok old \<and> uuid_ok new)"
| "update_ok (SensorInfoUpdate op u e) = (uuid_ok u \<and> endpoint_ok e)"

lemma update_back:
  "update_ok u \<Longrightarrow> createInfoUpdate (input (encode (InfoUpdate_serialize u) @ r)) = Some (u, input r)"
  by (cases u) (simp_all add: createInfoUpdate_def InfoUpdate_serialize_def read_ulong_back update_codes
      AddService_deserialize_def RemoveService_deserialize_def ChangegIID_deserialize_def
      SensorInfoUpdate_deserialize_def uuid_roundtrip sii.des_ser endpoint.des_ser)

lemma update_calls: "update_ok u \<Longrightarrow> wire_ok (InfoUpdate_serialize u)"
  by (cases u) (simp_all add: InfoUpdate_serialize_def uuid.calls sii.calls endpoint.calls)

section \<open>Changing a peer of the tree\<close>

text \<open>A \<^verbatim>\<open>P3PeerInfoPtr\<close> obtained from \<^verbatim>\<open>CellTreeNode::getPeer\<close> is shared with the list it was found in: what
  the caller does to the peer happens to the first matching entry.\<close>

definition modify_peer :: "uuid \<Rightarrow> (p3_peer_info \<Rightarrow> p3_peer_info) \<Rightarrow> node \<Rightarrow> node" where
  "modify_peer pid f n =
     (let P = (\<lambda>t. isEqual (getPID t) pid); i = info n in
      case first_index P (ct_sps i) of
        Some k \<Rightarrow> Node (i\<lparr>ct_sps := (ct_sps i)[k := f (ct_sps i ! k)]\<rparr>) (siblings n)
      | None \<Rightarrow> (case first_index P (ct_sensors i) of
          Some k \<Rightarrow> Node (i\<lparr>ct_sensors := (ct_sensors i)[k := f (ct_sensors i ! k)]\<rparr>) (siblings n)
        | None \<Rightarrow> (case first_index P (ct_monitors i) of
            Some k \<Rightarrow> Node (i\<lparr>ct_monitors := (ct_monitors i)[k := f (ct_monitors i ! k)]\<rparr>) (siblings n)
          | None \<Rightarrow> n)))"

definition with_info :: "(peer_info \<Rightarrow> peer_info) \<Rightarrow> p3_peer_info \<Rightarrow> p3_peer_info" where
  "with_info f p = p\<lparr>pp_info := f (pp_info p)\<rparr>"

text \<open>Looking up the cell and the peer an update names and running an operation on it: None when the
  cell or the peer is not known or the operation fails, each of which breaks out of the inner
  \<^verbatim>\<open>switch\<close>.\<close>

definition on_peer :: "uuid \<Rightarrow> uuid \<Rightarrow> (peer_info \<Rightarrow> bool \<times> peer_info) \<Rightarrow> root_ptr \<Rightarrow> tree_error + root_ptr option" where
  "on_peer fid pid f t = with_root t (\<lambda>root.
     case getCellTreeNode_i fid root of
       None \<Rightarrow> Inr None
     | Some p \<Rightarrow> (case node_at p root of
         None \<Rightarrow> Inr None
       | Some n \<Rightarrow> (case node_getPeer pid n of
           None \<Rightarrow> Inr None
         | Some peer \<Rightarrow>
             if fst (f (pp_info peer))
             then Inr (Some (Root (update_at p (modify_peer pid (with_info (\<lambda>i. snd (f i)))) root)))
             else Inr None)))"

text \<open>The mesh branch of \<^verbatim>\<open>processUpdateInfo\<close>. The result of \<^verbatim>\<open>changeServiceIID\<close> is not looked at.\<close>

fun mesh_update :: "hpos \<Rightarrow> info_update \<Rightarrow> root_ptr \<Rightarrow> tree_error + root_ptr option" where
  "mesh_update pos (AddServiceUpdateInfo pid fid i) t =
     on_peer fid pid (PeerInfo_addServiceInstance pos (sii_sid i) (sii_iid i) (sii_sapInfo i)) t"
| "mesh_update pos (RemoveServiceUpdateInfo pid fid sid iid) t =
     on_peer fid pid (PeerInfo_removeServiceInstance sid iid) t"
| "mesh_update pos (ChangegIIDServiceUpdateInfo pid fid sid old new) t =
     on_peer fid pid (\<lambda>i. (True, snd (PeerInfo_changeServiceIID pos sid old new i))) t"
| "mesh_update pos (SensorInfoUpdate op u e) t = Inr None"

end
