(* ===== verification/DiscoveryPackets.thy ===== *)
theory DiscoveryPackets
  imports CellPackets
begin

text \<open>
  Cell discovery: the address of a cell (\<^verbatim>\<open>p3/superpeer/cell/net/CellAddr.h\<close>), the packets multicast to
  find a cell or a coordinator with their factory (\<^verbatim>\<open>p3/superpeer/cell/discovery/net/packet\<close>), and the
  answer handed to the caller of \<^verbatim>\<open>CellDiscovery::requestCell\<close> (\<^verbatim>\<open>p3/superpeer/cell/CellReply.cpp\<close>).
\<close>

section \<open>Cell addresses\<close>

record cell_addr =
  ca_cellID :: uuid
  ca_itf :: string
  ca_ip :: string
  ca_port :: u16

definition CellAddr_serialize :: "cell_addr \<Rightarrow> wop list" where
  "CellAddr_serialize a = uuid_serialize (ca_cellID a) @ [WString (ca_itf a), WString (ca_ip a), WShort (ca_port a)]"

text \<open>The constructor that reads leaves the port uninitialised until it is read.\<close>

definition CellAddr_deserialize :: "u16 \<Rightarrow> bis \<Rightarrow> cell_addr \<times> bis" where
  "CellAddr_deserialize port0 s =
     (let (cell, s1) = uuid_deserialize s; (ok1, itf, s2) = read_string s1; (ok2, ip, s3) = read_string s2;
          (ok3, port, s4) = read_short port0 s3
      in (\<lparr>ca_cellID = cell, ca_itf = itf, ca_ip = ip, ca_port = port\<rparr>, s4))"

definition cell_addr_ok :: "cell_addr \<Rightarrow> bool" where
  "cell_addr_ok a = (uuid_ok (ca_cellID a) \<and> text_ok (ca_itf a) \<and> text_ok (ca_ip a))"

interpretation cell_addr: codec CellAddr_serialize "CellAddr_deserialize port0" cell_addr_ok for port0
  by unfold_locales
     (simp_all add: CellAddr_serialize_def CellAddr_deserialize_def cell_addr_ok_def uuid_roundtrip roundtrip
       text_ok_def del: of_nat_Suc)

section \<open>Discovery packets\<close>

datatype discovery_packet =
    RequestCellPacket
  | RequestCellReplyPacket cell_addr "uuid option" "endpoint option" "cell_addr option" "uuid option"
      "endpoint option" "sap_info option" "sap_info option" "sap_info option"
  | CellNotifyPacket u32
  | FindCoordinatorPacket
  | CoordinatorReplyPacket endpoint
  | RequestCoordinatorPacket
  | RequestCoordinatorReplyPacket uuid uuid "sap_info option" "sap_info option" "sap_info option" "endpoint option"

fun discovery_body :: "discovery_packet \<Rightarrow> wop list" where
  "discovery_body (RequestCellReplyPacket cell coord ep pcell pcoord pep disc mesh ft) =
     CellAddr_serialize cell @ write_opt uuid_serialize coord @ write_opt Endpoint_serialize ep
     @ write_opt CellAddr_serialize pcell @ write_opt uuid_serialize pcoord @ write_opt Endpoint_serialize pep
     @ write_opt SAPInfo_serialize disc @ write_opt SAPInfo_serialize mesh @ write_opt SAPInfo_serialize ft"
| "discovery_body (CoordinatorReplyPacket ep) = Endpoint_serialize ep"
| "discovery_body (RequestCoordinatorReplyPacket u cell mesh disc ft ep) =
     uuid_serialize u @ uuid_serialize cell @ write_opt SAPInfo_serialize mesh @ write_opt SAPInfo_serialize disc
     @ write_opt SAPInfo_serialize ft @ write_opt Endpoint_serialize ep"
| "discovery_body _ = []"

fun discovery_type :: "discovery_packet \<Rightarrow> u16" where
  "discovery_type RequestCellPacket = 1"
| "discovery_type (RequestCellReplyPacket _ _ _ _ _ _ _ _ _) = 2"
| "discovery_type (CellNotifyPacket _) = 3"
| "discovery_type FindCoordinatorPacket = 4"
| "discovery_type (CoordinatorReplyPacket _) = 5"
| "discovery_type RequestCoordinatorPacket = 6"
| "discovery_type (RequestCoordinatorReplyPacket _ _ _ _ _ _) = 7"

definition RequestCellReply_deserialize :: "raw_packet \<Rightarrow> bis \<Rightarrow> discovery_packet \<times> bis" where
  "RequestCellReply_deserialize raw s =
     (let (cell, s1) = CellAddr_deserialize (raw_ushort raw) s; (coord, s2) = read_opt uuid_deserialize s1;
          (ep, s3) = read_opt Endpoint_deserialize s2;
          (pcell, s4) = read_opt (CellAddr_deserialize (raw_ushort raw)) s3;
          (pcoord, s5) = read_opt uuid_deserialize s4; (pep, s6) = read_opt Endpoint_deserialize s5;
          (disc, s7) = read_opt SAPInfo_deserialize s6; (mesh, s8) = read_opt SAPInfo_deserialize s7;
          (ft, s9) = read_opt SAPInfo_deserialize s8
      in (RequestCellReplyPacket cell coord ep pcell pcoord pep disc mesh ft, s9))"

definition RequestCoordinatorReply_deserialize :: "bis \<Rightarrow> discovery_packet \<times> bis" where
  "RequestCoordinatorReply_deserialize s =
     (let (u, s1) = uuid_deserialize s; (cell, s2) = uuid_deserialize s1;
          (mesh, s3) = read_opt SAPInfo_deserialize s2; (disc, s4) = read_opt SAPInfo_deserialize s3;
          (ft, s5) = read_opt SAPInfo_deserialize s4; (ep, s6) = read_opt Endpoint_deserialize s5
      in (RequestCoordinatorReplyPacket u cell mesh disc ft ep, s6))"

text \<open>The factory. A \<^verbatim>\<open>CellNotifyPacket\<close> is sent without its mesh size: the receiver's member is never
  written.\<close>

definition discovery_createPacket :: "raw_packet \<Rightarrow> stheno_header \<Rightarrow> bis \<Rightarrow> (discovery_packet \<times> bis) option" where
  "discovery_createPacket raw h s =
     (let t = sh_messageType h in
      if t = 1 then Some (RequestCellPacket, s)
      else if t = 2 then Some (RequestCellReply_deserialize raw s)
      else if t = 3 then Some (CellNotifyPacket (raw_ulong raw), s)
      else if t = 4 then Some (FindCoordinatorPacket, s)
      else if t = 5 then (let (ep, s1) = Endpoint_deserialize s in Some (CoordinatorReplyPacket ep, s1))
      else if t = 6 then Some (RequestCoordinatorPacket, s)
      else if t = 7 then Some (RequestCoordinatorReply_deserialize s)
      else None)"

fun discovery_ok :: "discovery_packet \<Rightarrow> bool" where
  "discovery_ok (RequestCellReplyPacket cell coord ep pcell pcoord pep disc mesh ft) =
     (cell_addr_ok cell \<and> pred_option uuid_ok coord \<and> pred_option endpoint_ok ep \<and> pred_option cell_addr_ok pcell
      \<and> pred_option uuid_ok pcoord \<and> pred_option endpoint_ok pep \<and> pred_option sap_ok disc
      \<and> pred_option sap_ok mesh \<and> pred_option sap_ok ft)"
| "discovery_ok (CoordinatorReplyPacket ep) = endpoint_ok ep"
| "discovery_ok (RequestCoordinatorReplyPacket u cell mesh disc ft ep) =
     (uuid_ok u \<and> uuid_ok cell \<and> pred_option sap_ok mesh \<and> pred_option sap_ok disc \<and> pred_option sap_ok ft
      \<and> pred_option endpoint_ok ep)"
| "discovery_ok _ = True"

text \<open>What the receiver has of a packet: everything but the mesh size.\<close>

definition discovery_sim :: "discovery_packet \<Rightarrow> discovery_packet \<Rightarrow> bool" where
  "discovery_sim b b' = (b = b' \<or> (\<exists>m m'. b = CellNotifyPacket m \<and> b' = CellNotifyPacket m'))"

lemmas discovery_back = cell_addr.des_ser cell_addr.opt_back member_back
lemmas discovery_calls = cell_addr.calls cell_addr.opt_calls member_calls

section \<open>Answers to a request for a cell\<close>

record cell_reply =
  cr_cell :: cell_addr
  cr_uuid :: "uuid option"
  cr_addr :: "endpoint option"
  cr_parentCell :: "cell_addr option"
  cr_parentUUID :: "uuid option"
  cr_parentAddr :: "endpoint option"
  cr_discoverySAP :: "sap_info option"
  cr_meshSAP :: "sap_info option"
  cr_ftSAP :: "sap_info option"

definition hasCoordinator :: "cell_reply \<Rightarrow> bool" where
  "hasCoordinator r = (cr_addr r \<noteq> None)"

definition hasParentCoordinator :: "cell_reply \<Rightarrow> bool" where
  "hasParentCoordinator r = (cr_parentAddr r \<noteq> None)"

definition hasParentCellID :: "cell_reply \<Rightarrow> bool" where
  "hasParentCellID r = (cr_parentCell r \<noteq> None)"

text \<open>What \<^verbatim>\<open>requestCell\<close> makes of a reply packet.\<close>

fun reply_of_packet :: "discovery_packet \<Rightarrow> cell_reply option" where
  "reply_of_packet (RequestCellReplyPacket cell coord ep pcell pcoord pep disc mesh ft) =
     Some \<lparr>cr_cell = cell, cr_uuid = coord, cr_addr = ep, cr_parentCell = pcell, cr_parentUUID = pcoord,
       cr_parentAddr = pep, cr_discoverySAP = disc, cr_meshSAP = mesh, cr_ftSAP = ft\<rparr>"
| "reply_of_packet _ = None"

section \<open>Round trip\<close>

interpretation discovery_packets:
  packet_family discovery_body discovery_type discovery_createPacket discovery_ok discovery_sim
proof
  show "wire_ok (discovery_body b)" if "discovery_ok b" for b
    using that by (cases b) (simp_all add: discovery_calls)
  show "\<exists>b'. discovery_createPacket raw h (input (encode (discovery_body b) @ r)) = Some (b', input r) \<and> discovery_sim b b'"
    if "discovery_ok b" "raw_ok raw" "sh_messageType h = discovery_type b" for b raw h r
    using that
    by (cases b) (simp_all add: discovery_createPacket_def discovery_sim_def RequestCellReply_deserialize_def
        RequestCoordinatorReply_deserialize_def discovery_back)
qed

end
