(* ===== verification/Cells.thy ===== *)
theory Cells
  imports InfoUpdates DiscoveryPackets
begin

text \<open>
  The cell of a superpeer, \<^verbatim>\<open>p3/superpeer/cell/Cell.cpp\<close>, with the group of followers it informs
  (\<^verbatim>\<open>net/CellGroup.cpp\<close>) and the requests it makes of its parent's coordinator
  (\<^verbatim>\<open>net/ParentCellClientHandler.h\<close>) and of its own (\<^verbatim>\<open>net/CellClientHandler.h\<close>). A handler is a function of
  the cell to its result, the packets it sends in order, and the cell it leaves. Everything a handler
  changes it changes before it releases the lock of the cell, so one call is one step. Logging is
  not modelled and the debug switches are off, except where a log line follows a null pointer.
\<close>

section \<open>State\<close>

record sensor_info =
  si_type :: u32
  si_uuid :: uuid
  si_endpoint :: endpoint

datatype sensor_kind = Audio | Video | Event | Actuator

text \<open>A null \<^verbatim>\<open>m_cellTree\<close> is \<open>NullRoot\<close>. The identifiers of the members of a group stand for the group; a
  channel is the identifiers of the peer and the cell it leads to. \<open>cl_sensors\<close> is the four lists of
  sensors.\<close>

record cell =
  cl_pid :: uuid
  cl_cellID :: uuid
  cl_fid :: uuid
  cl_parentCellID :: "uuid option"
  cl_parentUUID :: "uuid option"
  cl_parentDiscoverySAP :: "sap_info option"
  cl_parentMeshSAP :: "sap_info option"
  cl_parentFTSAP :: "sap_info option"
  cl_coordinator :: bool
  cl_started :: bool
  cl_rebinding :: bool
  cl_closed :: bool
  cl_startAllocationPort :: u16
  cl_tree :: root_ptr
  cl_parentChannel :: "(uuid \<times> uuid) option"
  cl_client :: "uuid option"
  cl_acceptor :: "endpoint option"
  cl_followerAcceptor :: "endpoint option"
  cl_followers :: "uuid list"
  cl_children :: "uuid list"
  cl_sensors :: "sensor_kind \<Rightarrow> sensor_info list"
  cl_discovery :: bool
  cl_rootDiscovery :: bool
  cl_notify :: bool

text \<open>Connecting a channel: whether the connection is made, the channel goes asynchronous, and the close
  listener can be set.\<close>

record connect_result =
  co_connect :: bool
  co_async :: bool
  co_listener :: bool

text \<open>What the cell does not decide: the run-time configuration, the order of hash tables and the content of
  uninitialised members, fresh identifiers and random numbers, the access points of the peer's own
  services (\<open>w_ftSAP\<close> is None when the overlay has no fault tolerance), the verdict of the parent on a
  request (no answer is a refusal), the state a coordinator answers a join with, the outcome of
  sending a reply, the answers of \<^verbatim>\<open>CellDiscovery::requestCell\<close> and the outcomes of connecting, in the
  order they are asked for.\<close>

record cell_world =
  w_env :: node_env
  w_pos :: hpos
  w_raw :: raw_node
  w_string :: "string \<Rightarrow> string option"
  w_short :: "string \<Rightarrow> u16 option"
  w_newID :: uuid
  w_rand :: int
  w_discoverySAP :: "sap_info option"
  w_meshSAP :: "sap_info option"
  w_ftSAP :: "sap_info option option"
  w_parent :: "stheno_header \<Rightarrow> mb_chain cell_packet \<Rightarrow> bool"
  w_joined :: "stheno_header \<Rightarrow> mb_chain cell_packet \<Rightarrow> mb_chain option"
  w_sent :: int
  w_reply :: "nat \<Rightarrow> cell_reply option"
  w_connect :: "nat \<Rightarrow> connect_result"

datatype cell_error =
    Fault tree_error
  | MISSING_VALUE_FROM_PPROPERTIES
  | INVALID_PEER
  | LOW_LVL_P2P_UNAVAILABLE
  | DIVISION_BY_ZERO
  | CONNECT_FAILED
  | ALREADY_ATTACHED
  | REGISTRATION_ERROR

datatype cell_msg =
    ToParent stheno_header "mb_chain cell_packet"
  | ToFollower uuid stheno_header "mb_chain cell_packet"
  | ToCoordinator stheno_header "mb_chain cell_packet"
  | Reply stheno_header "mb_chain cell_packet"
  | Multicast stheno_header discovery_packet

definition fault :: "tree_error + 'a \<Rightarrow> cell_error + 'a" where
  "fault m = (case m of Inl e \<Rightarrow> Inl (Fault e) | Inr x \<Rightarrow> Inr x)"

lemma fault_simps [simp]: "fault (Inl e) = Inl (Fault e)" "fault (Inr x) = Inr x"
  by (simp_all add: fault_def)

lemma fault_Inr_iff [simp]: "fault m = Inr x \<longleftrightarrow> m = Inr x"
  by (cases m) simp_all

section \<open>Packets a cell sends\<close>

text \<open>One block with the given bytes: what consolidating an output stream gives.\<close>

definition one_block :: "byte list \<Rightarrow> mb_chain" where
  "one_block bs = [(\<lparr>blk_base = bs, blk_rd = 0, blk_wr = length bs\<rparr>, False)]"

text \<open>The header of an answer to a packet, and of a packet of a given type to a peer.\<close>

definition packet_to :: "cell \<Rightarrow> uuid \<Rightarrow> uuid \<Rightarrow> mb_chain cell_packet \<Rightarrow> stheno_header" where
  "packet_to c dstPID dstFID b = SthenoHeader_ctor (cl_pid c) (cl_cellID c) dstPID dstFID (packet_type b) 0 0"

definition reply_to :: "cell \<Rightarrow> stheno_header \<Rightarrow> mb_chain cell_packet \<Rightarrow> cell_msg" where
  "reply_to c h b = Reply (packet_to c (sh_srcPID h) (sh_srcFID h) b) b"

text \<open>A group informs every member but the peer the news is about.\<close>

definition group_send :: "cell \<Rightarrow> uuid \<Rightarrow> mb_chain cell_packet \<Rightarrow> cell_msg list" where
  "group_send c u b = map (\<lambda>m. ToFollower m (packet_to c m (cl_cellID c) b) b)
     (filter (\<lambda>m. \<not> isEqual m u) (cl_followers c))"

definition joinPeer :: "cell \<Rightarrow> u32 \<Rightarrow> uuid \<Rightarrow> uuid \<Rightarrow> uuid option \<Rightarrow> endpoint option \<Rightarrow>
    sap_info option \<Rightarrow> sap_info option \<Rightarrow> sap_info option \<Rightarrow> cell_msg list" where
  "joinPeer c ty u cell parent e disc mesh ft = group_send c u (JoinMeshPacket ty u cell parent e disc mesh ft)"

definition leftPeer :: "cell \<Rightarrow> uuid \<Rightarrow> uuid \<Rightarrow> cell_msg list" where
  "leftPeer c u cell = group_send c u (LeaveMeshPacket u cell)"

definition group_updateInfo :: "cell \<Rightarrow> uuid \<Rightarrow> info_update \<Rightarrow> cell_msg list" where
  "group_updateInfo c u upd =
     group_send c u (UpdateInfoPacket (Some (one_block (encode (InfoUpdate_serialize upd)))))"

text \<open>\<^verbatim>\<open>rebindPeer\<close> puts one and the same state into the packet of every member, and deleting a packet
  releases its state: the packet of the second member has a state that is gone.\<close>

definition rebindPeer :: "cell \<Rightarrow> u32 \<Rightarrow> uuid \<Rightarrow> uuid \<Rightarrow> uuid \<Rightarrow> endpoint option \<Rightarrow> sap_info option \<Rightarrow>
    sap_info option \<Rightarrow> sap_info option \<Rightarrow> mb_chain option \<Rightarrow> tree_error + cell_msg list" where
  "rebindPeer c ty u cell parent e disc mesh ft st =
     (let ms = group_send c u (RebindMesh_ctor ty u cell parent e None disc mesh ft st)
      in if st \<noteq> None \<and> 1 < length ms then Inl USE_AFTER_FREE else Inr ms)"

text \<open>Requests to the parent's coordinator.\<close>

definition ask_parent :: "cell_world \<Rightarrow> cell \<Rightarrow> uuid \<Rightarrow> uuid \<Rightarrow> mb_chain cell_packet \<Rightarrow> bool \<times> cell_msg list" where
  "ask_parent w c pid dstFID b = (let h = packet_to c pid dstFID b in (w_parent w h b, [ToParent h b]))"

definition joinSiblingPeer :: "cell_world \<Rightarrow> cell \<Rightarrow> uuid \<times> uuid \<Rightarrow> u32 \<Rightarrow> uuid \<Rightarrow> uuid \<Rightarrow> uuid option \<Rightarrow>
    endpoint option \<Rightarrow> sap_info option \<Rightarrow> sap_info option \<Rightarrow> sap_info option \<Rightarrow> bool \<times> cell_msg list" where
  "joinSiblingPeer w c ch ty u cell parent e disc mesh ft =
     ask_parent w c (fst ch) cell (JoinMeshPacket ty u cell parent e disc mesh ft)"

definition leftSiblingPeer :: "cell_world \<Rightarrow> cell \<Rightarrow> uuid \<times> uuid \<Rightarrow> uuid \<Rightarrow> uuid \<Rightarrow> bool \<times> cell_msg list" where
  "leftSiblingPeer w c ch u cell = ask_parent w c (fst ch) (snd ch) (LeaveMeshPacket u cell)"

definition rebindSiblingPeer :: "cell_world \<Rightarrow> cell \<Rightarrow> uuid \<times> uuid \<Rightarrow> u32 \<Rightarrow> uuid \<Rightarrow> uuid \<Rightarrow> uuid \<Rightarrow>
    endpoint option \<Rightarrow> sap_info option \<Rightarrow> sap_info option \<Rightarrow> sap_info option \<Rightarrow> mb_chain option \<Rightarrow>
    bool \<times> cell_msg list" where
  "rebindSiblingPeer w c ch ty u cell parent e disc mesh ft st =
     ask_parent w c (fst ch) (snd ch) (RebindMesh_ctor ty u cell parent e None disc mesh ft st)"

definition parent_updateInfo :: "cell_world \<Rightarrow> cell \<Rightarrow> uuid \<times> uuid \<Rightarrow> info_update \<Rightarrow> bool \<times> cell_msg list" where
  "parent_updateInfo w c ch upd = ask_parent w c (fst ch) (snd ch)
     (UpdateInfoPacket (Some (one_block (encode (InfoUpdate_serialize upd)))))"

text \<open>The requests are made only when there is a parent; without one the verdict stands.\<close>

definition if_parent :: "cell \<Rightarrow> bool \<Rightarrow> (uuid \<times> uuid \<Rightarrow> bool \<times> cell_msg list) \<Rightarrow> bool \<times> cell_msg list" where
  "if_parent c verdict f = (case cl_parentChannel c of None \<Rightarrow> (verdict, []) | Some ch \<Rightarrow> f ch)"

section \<open>Joining\<close>

text \<open>\<^verbatim>\<open>addPeer(pi, parentCellID)\<close> with a pointer that may be null: the parent is looked at only when the cell of
  the peer is not in the tree.\<close>

definition addPeer_ptr :: "node_env \<Rightarrow> p3_peer_info \<Rightarrow> uuid option \<Rightarrow> root_ptr \<Rightarrow> tree_error + (int \<times> root_ptr)" where
  "addPeer_ptr env peer parent t = (case parent of
      Some u \<Rightarrow> addPeer_parent env peer u t
    | None \<Rightarrow> with_root t (\<lambda>root. if getCellTreeNode_i (getFID peer) root = None then Inl NULL_DEREF
        else addPeer peer t))"

definition handleJoinMesh :: "cell_world \<Rightarrow> stheno_header \<Rightarrow> u32 \<Rightarrow> uuid \<Rightarrow> uuid \<Rightarrow> uuid option \<Rightarrow> endpoint option \<Rightarrow>
    sap_info option \<Rightarrow> sap_info option \<Rightarrow> sap_info option \<Rightarrow> cell \<Rightarrow> cell_error + (int \<times> cell_msg list \<times> cell)" where
  "handleJoinMesh w h ty u cell parent e disc mesh ft c =
     (let peer = P3PeerInfo_ctor ty u cell e mesh disc ft;
          parentCellID = (if ty = SENSOR \<or> ty = MONITOR then Some (cl_cellID c) else parent) in
      res_bind (fault (case parentCellID of
          None \<Rightarrow> addPeer peer (cl_tree c)
        | Some p \<Rightarrow> addPeer_parent (w_env w) peer p (cl_tree c)))
      (\<lambda>(ret, t).
        let c' = c\<lparr>cl_tree := t\<rparr>;
            (accepted, up) = (if ret = 0
              then if_parent c' True (\<lambda>ch. joinSiblingPeer w c' ch ty u cell parentCellID e disc mesh ft)
              else (False, []))
        in Inr (0, up @ joinPeer c' ty u cell parent e disc mesh ft
             @ [reply_to c' h (JoinMeshReplyPacket (sh_requestID h) accepted)], c')))"

text \<open>A follower: the result of adding the peer is overwritten with success.\<close>

definition handleCoordinatorJoinMesh :: "cell_world \<Rightarrow> stheno_header \<Rightarrow> u32 \<Rightarrow> uuid \<Rightarrow> uuid \<Rightarrow> uuid option \<Rightarrow>
    endpoint option \<Rightarrow> sap_info option \<Rightarrow> sap_info option \<Rightarrow> sap_info option \<Rightarrow> cell \<Rightarrow>
    cell_error + (int \<times> cell_msg list \<times> cell)" where
  "handleCoordinatorJoinMesh w h ty u cell parent e disc mesh ft c =
     (let peer = P3PeerInfo_ctor ty u cell e mesh disc ft in
      res_bind (fault (if isEqual (cl_cellID c) cell then addPeer peer (cl_tree c)
        else addPeer_ptr (w_env w) peer parent (cl_tree c)))
      (\<lambda>(ret, t). let c' = c\<lparr>cl_tree := t\<rparr>
        in Inr (0, [reply_to c' h (JoinMeshReplyPacket (sh_requestID h) True)], c')))"

text \<open>The result of adding the joining superpeer to the root cell is not looked at; the state of the reply is
  the tree after the attempt.\<close>

definition handleJoinCell :: "cell_world \<Rightarrow> stheno_header \<Rightarrow> endpoint \<Rightarrow> endpoint \<Rightarrow> sap_info option \<Rightarrow>
    sap_info option \<Rightarrow> sap_info option \<Rightarrow> cell \<Rightarrow> cell_error + (int \<times> cell_msg list \<times> cell)" where
  "handleJoinCell w h e follower disc mesh ft c = fault (with_root (cl_tree c) (\<lambda>root.
     let status = hasAvailableSlotsForPeer (ucast SUPERPEER) root;
         peer = P3PeerInfo_ctor SUPERPEER (sh_srcPID h) (ct_cellID (info root)) (Some e) mesh disc ft;
         root' = (if status then snd (node_add peer root) else root);
         c' = c\<lparr>cl_tree := Root root'\<rparr>;
         state = (if status then Some (one_block (encode (node_serialize root'))) else None);
         (answer, up) = if_parent c' False (\<lambda>ch. joinSiblingPeer w c' ch SUPERPEER (sh_srcPID h) (cl_cellID c)
            (Some (snd ch)) (Some e) disc mesh ft)
     in Inr (w_sent w, joinPeer c' SUPERPEER (sh_srcPID h) (sh_srcFID h) None (Some e) disc mesh ft
          @ [reply_to c' h (JoinCellReplyPacket (sh_requestID h) state)] @ up, c')))"

section \<open>Leaving\<close>

definition getPeerCount :: "node \<Rightarrow> nat" where
  "getPeerCount n = length (ct_sps (info n))"

text \<open>The part three handlers share: remove the peer from its cell; a cell without superpeers goes with
  its subtree.\<close>

definition leave_tree :: "uuid \<Rightarrow> uuid \<Rightarrow> root_ptr \<Rightarrow> tree_error + (bool \<times> root_ptr)" where
  "leave_tree u cell t = with_root t (\<lambda>root.
     case getCellTreeNode_i cell root of
       None \<Rightarrow> Inr (False, t)
     | Some p \<Rightarrow> (case node_at p root of
         None \<Rightarrow> Inr (False, t)
       | Some n \<Rightarrow>
           let (r, n') = node_remove u n; t' = Root (update_at p (\<lambda>_. n') root) in
           if r \<noteq> 0 then Inr (False, t)
           else if getPeerCount n' = 0 then res_bind (removeSubtree cell t') (\<lambda>(r', t''). Inr (True, t''))
           else Inr (True, t')))"

definition leaveMesh :: "cell_world \<Rightarrow> uuid \<Rightarrow> uuid \<Rightarrow> cell \<Rightarrow> cell_error + (int \<times> cell_msg list \<times> cell)" where
  "leaveMesh w u cell c = res_bind (fault (leave_tree u cell (cl_tree c))) (\<lambda>(status, t).
     let c' = c\<lparr>cl_tree := t\<rparr>;
         (ok, up) = if_parent c' True (\<lambda>ch. leftSiblingPeer w c' ch u cell)
     in Inr (if ok then 0 else -1, leftPeer c' u cell @ up, c'))"

text \<open>The parent is told that the sender of the packet left this cell, whoever the packet is about.\<close>

definition handleLeaveMesh :: "cell_world \<Rightarrow> stheno_header \<Rightarrow> uuid \<Rightarrow> uuid \<Rightarrow> cell \<Rightarrow>
    cell_error + (int \<times> cell_msg list \<times> cell)" where
  "handleLeaveMesh w h u cell c = res_bind (fault (leave_tree u cell (cl_tree c))) (\<lambda>(status, t).
     let c' = c\<lparr>cl_tree := t\<rparr>;
         (ok, up) = if_parent c' True (\<lambda>ch. leftSiblingPeer w c' ch (sh_srcPID h) (cl_cellID c))
     in Inr (w_sent w, up @ leftPeer c' u cell @ [reply_to c' h (LeaveMeshReplyPacket (sh_requestID h) status)], c'))"

definition handleCoordinatorLeaveMesh :: "cell_world \<Rightarrow> stheno_header \<Rightarrow> uuid \<Rightarrow> uuid \<Rightarrow> cell \<Rightarrow>
    cell_error + (int \<times> cell_msg list \<times> cell)" where
  "handleCoordinatorLeaveMesh w h u cell c = res_bind (fault (leave_tree u cell (cl_tree c))) (\<lambda>(status, t).
     let c' = c\<lparr>cl_tree := t\<rparr>
     in Inr (w_sent w, [reply_to c' h (LeaveMeshReplyPacket (sh_requestID h) status)], c'))"

section \<open>Rebinding a child\<close>

text \<open>The tree read from the state of a packet; a null state is an empty stream. The bound on the nesting is
  never reached.\<close>

definition state_bytes :: "mb_chain option \<Rightarrow> byte list" where
  "state_bytes st = (case st of None \<Rightarrow> [] | Some mbs \<Rightarrow> chain_data mbs)"

definition read_tree :: "cell_world \<Rightarrow> mb_chain option \<Rightarrow> root_ptr" where
  "read_tree w st = (case CellTree_deserialize (Suc (length (state_bytes st))) (w_pos w) (w_raw w) (input (state_bytes st)) of
      None \<Rightarrow> NullRoot
    | Some (t, s) \<Rightarrow> t)"

definition handleRebindMesh :: "cell_world \<Rightarrow> stheno_header \<Rightarrow> u32 \<Rightarrow> uuid \<Rightarrow> uuid \<Rightarrow> uuid \<Rightarrow> endpoint option \<Rightarrow>
    sap_info option \<Rightarrow> sap_info option \<Rightarrow> sap_info option \<Rightarrow> mb_chain option \<Rightarrow> cell \<Rightarrow>
    cell_error + (int \<times> cell_msg list \<times> cell)" where
  "handleRebindMesh w h ty u cell parent e disc mesh ft st c =
     res_bind (fault (addSubtree (read_tree w st) (Some parent) (cl_tree c))) (\<lambda>(ret, t).
       let c' = c\<lparr>cl_tree := t\<rparr>;
           (accepted, up) = (if ret = 0
             then if_parent c' True (\<lambda>ch. rebindSiblingPeer w c' ch SUPERPEER u cell parent e disc mesh ft st)
             else (False, []))
       in res_bind (fault (rebindPeer c' ty u cell parent e disc mesh ft st)) (\<lambda>down.
         Inr (0, up @ down @ [reply_to c' h (RebindMeshReplyPacket (sh_requestID h) accepted)], c')))"

text \<open>A follower adds the peer that rebinds and not the subtree it brings.\<close>

definition handleCoordinatorRebindMesh :: "cell_world \<Rightarrow> stheno_header \<Rightarrow> u32 \<Rightarrow> uuid \<Rightarrow> uuid \<Rightarrow> uuid \<Rightarrow>
    endpoint option \<Rightarrow> sap_info option \<Rightarrow> sap_info option \<Rightarrow> sap_info option \<Rightarrow> cell \<Rightarrow>
    cell_error + (int \<times> cell_msg list \<times> cell)" where
  "handleCoordinatorRebindMesh w h ty u cell parent e disc mesh ft c =
     (let peer = P3PeerInfo_ctor ty u cell e mesh disc ft in
      res_bind (fault (if isEqual (cl_cellID c) cell then addPeer peer (cl_tree c)
        else addPeer_parent (w_env w) peer parent (cl_tree c)))
      (\<lambda>(ret, t). let c' = c\<lparr>cl_tree := t\<rparr>
        in Inr (0, [reply_to c' h (RebindMeshReplyPacket (sh_requestID h) True)], c')))"

section \<open>Updates\<close>

text \<open>The \<^verbatim>\<open>switch\<close> on the operation of a sensor update; None is the null pointer it leaves otherwise.\<close>

definition sensor_kind_of :: "u32 \<Rightarrow> sensor_kind option" where
  "sensor_kind_of op = (if op = 1 then Some Audio else if op = 2 then Some Video else if op = 3 then Some Event
     else if op = 4 then Some Actuator else None)"

definition add_sensor :: "sensor_kind \<Rightarrow> u32 \<Rightarrow> uuid \<Rightarrow> endpoint \<Rightarrow> cell \<Rightarrow> cell" where
  "add_sensor k op u e c =
     (let l = cl_sensors c k in
      if list_ex (\<lambda>s. isEqual (si_uuid s) u) l then c
      else c\<lparr>cl_sensors := (cl_sensors c)(k := l @ [\<lparr>si_type = op, si_uuid = u, si_endpoint = e\<rparr>])\<rparr>)"

text \<open>\<^verbatim>\<open>processUpdateInfo\<close>. The mesh branch has no \<^verbatim>\<open>break\<close> of its own: an update of the mesh that fails is taken for
  a sensor update. Its operation is none of the four, so the list that is then searched is null.\<close>

definition processUpdateInfo :: "cell_world \<Rightarrow> info_update \<Rightarrow> cell \<Rightarrow> tree_error + (int \<times> cell)" where
  "processUpdateInfo w upd c = (case upd of
      SensorInfoUpdate op u e \<Rightarrow> (case sensor_kind_of op of
        None \<Rightarrow> Inl NULL_DEREF
      | Some k \<Rightarrow> Inr (0, add_sensor k op u e c))
    | _ \<Rightarrow> res_bind (mesh_update (w_pos w) upd (cl_tree c)) (\<lambda>done. case done of
        Some t \<Rightarrow> Inr (0, c\<lparr>cl_tree := t\<rparr>)
      | None \<Rightarrow> Inl NULL_DEREF))"

text \<open>The update in a packet; a null pointer from the factory is followed at once.\<close>

definition packet_update :: "mb_chain option \<Rightarrow> tree_error + info_update" where
  "packet_update st = (case createInfoUpdate (input (state_bytes st)) of
      None \<Rightarrow> Inl NULL_DEREF
    | Some (upd, s) \<Rightarrow> Inr upd)"

definition handleUpdateInfo :: "cell_world \<Rightarrow> stheno_header \<Rightarrow> mb_chain option \<Rightarrow> cell \<Rightarrow>
    cell_error + (int \<times> cell_msg list \<times> cell)" where
  "handleUpdateInfo w h st c =
     res_bind (fault (packet_update st)) (\<lambda>upd.
     res_bind (fault (processUpdateInfo w upd c)) (\<lambda>(ret, c').
       let news = (if cl_coordinator c'
             then snd (if_parent c' True (\<lambda>ch. parent_updateInfo w c' ch upd)) @ group_updateInfo c' (sh_srcPID h) upd
             else [])
       in Inr (w_sent w, news @ [reply_to c' h (UpdateInfoReplyPacket (sh_requestID h) (ret = 0))], c')))"

definition handleCoordinatorUpdateInfo :: "cell_world \<Rightarrow> stheno_header \<Rightarrow> mb_chain option \<Rightarrow> cell \<Rightarrow>
    cell_error + (int \<times> cell_msg list \<times> cell)" where
  "handleCoordinatorUpdateInfo w h st c =
     res_bind (fault (packet_update st)) (\<lambda>upd.
     res_bind (fault (processUpdateInfo w upd c)) (\<lambda>(ret, c').
       Inr (w_sent w, [reply_to c' h (UpdateInfoReplyPacket (sh_requestID h) (ret = 0))], c')))"

text \<open>An update of the peer's own: a coordinator tells parent and followers, a follower its coordinator.\<close>

definition updateState :: "cell_world \<Rightarrow> info_update \<Rightarrow> cell \<Rightarrow> cell_error + (cell_msg list \<times> cell)" where
  "updateState w upd c = res_bind (fault (processUpdateInfo w upd c)) (\<lambda>(ret, c').
     if cl_coordinator c'
     then Inr (snd (if_parent c' True (\<lambda>ch. parent_updateInfo w c' ch upd)) @ group_updateInfo c' (cl_pid c') upd, c')
     else (case cl_client c' of
         None \<Rightarrow> Inl (Fault NULL_DEREF)
       | Some coord \<Rightarrow>
           let b = UpdateInfoPacket (Some (one_block (encode (InfoUpdate_serialize upd))))
           in Inr ([ToCoordinator (packet_to c' coord (cl_cellID c') b) b], c')))"

section \<open>Access points\<close>

definition cell_isRoot :: "cell \<Rightarrow> bool" where
  "cell_isRoot c = (case cl_parentCellID c of None \<Rightarrow> True | Some p \<Rightarrow> isEqual p INVALID_ID)"

definition cell_getPeer :: "uuid \<Rightarrow> cell \<Rightarrow> tree_error + p3_peer_info option" where
  "cell_getPeer u c = with_root (cl_tree c) (\<lambda>root. Inr (getPeer_i u root))"

text \<open>Own access point, the parent's (whose identifier may be a null pointer), or that of a peer of the tree.\<close>

definition peer_sap :: "(peer_info \<Rightarrow> sap_info option) \<Rightarrow> uuid \<Rightarrow> cell \<Rightarrow> cell_error + sap_info option" where
  "peer_sap f u c = res_bind (fault (cell_getPeer u c)) (\<lambda>p. case p of
      None \<Rightarrow> Inl INVALID_PEER
    | Some peer \<Rightarrow> Inr (f (pp_info peer)))"

definition getDiscoverySAPInfo :: "cell_world \<Rightarrow> uuid \<Rightarrow> cell \<Rightarrow> cell_error + sap_info option" where
  "getDiscoverySAPInfo w u c =
     (if isEqual u (cl_pid c) then Inr (w_discoverySAP w)
      else case cl_parentUUID c of
        None \<Rightarrow> Inl (Fault NULL_DEREF)
      | Some p \<Rightarrow> if isEqual u p then Inr (cl_parentDiscoverySAP c) else peer_sap pi_discoverySAP u c)"

definition getMeshSAPInfo :: "cell_world \<Rightarrow> uuid \<Rightarrow> cell \<Rightarrow> cell_error + sap_info option" where
  "getMeshSAPInfo w u c =
     (if isEqual u (cl_pid c) then Inr (w_meshSAP w)
      else case cl_parentUUID c of
        None \<Rightarrow> Inl (Fault NULL_DEREF)
      | Some p \<Rightarrow> if isEqual u p then Inr (cl_parentMeshSAP c) else peer_sap pi_meshSAP u c)"

text \<open>The branch for the parent tests for the peer's own identifier a second time.\<close>

definition getFTSAPInfo :: "cell_world \<Rightarrow> uuid \<Rightarrow> cell \<Rightarrow> cell_error + sap_info option" where
  "getFTSAPInfo w u c =
     (if isEqual u (cl_pid c) then (case w_ftSAP w of None \<Rightarrow> Inl LOW_LVL_P2P_UNAVAILABLE | Some sap \<Rightarrow> Inr sap)
      else if isEqual u (cl_pid c) then Inr (cl_parentFTSAP c)
      else peer_sap pi_ftSAP u c)"

definition getNeighbors :: "cell \<Rightarrow> tree_error + (uuid \<times> uuid) list" where
  "getNeighbors c =
     (if cl_started c \<and> cl_tree c \<noteq> NullRoot
      then with_root (cl_tree c) (\<lambda>root. Inr ((case cl_parentChannel c of None \<Rightarrow> [] | Some ch \<Rightarrow> [ch]) @ getPeers root))
      else Inr [])"

end
