(* ===== verification/CellBinding.thy ===== *)
theory CellBinding
  imports Cells
begin

text \<open>
  How a cell finds its place: the answers it gives to discovery packets, binding to a coordinator or to a
  parent's coordinator, and what it does when a channel closes (\<^verbatim>\<open>Cell::handleCellRequest\<close>,
  \<^verbatim>\<open>handleCoordinatorRequest\<close>, \<^verbatim>\<open>open\<close>, \<^verbatim>\<open>joinCoordinator\<close>, \<^verbatim>\<open>joinNonCoordinator\<close>, \<^verbatim>\<open>rebind\<close>, \<^verbatim>\<open>fireRebind\<close>,
  \<^verbatim>\<open>handleCoordinatorFailure\<close>, \<^verbatim>\<open>onClose\<close> of \<^verbatim>\<open>p3/superpeer/cell/Cell.cpp\<close>).
\<close>

section \<open>Answering discovery packets\<close>

definition discovery_reply :: "cell \<Rightarrow> uuid \<Rightarrow> stheno_header \<Rightarrow> discovery_packet \<Rightarrow> cell_msg" where
  "discovery_reply c srcFID h b = Multicast (SthenoHeader_ctor (cl_pid c) srcFID (sh_srcPID h) (sh_srcFID h)
     (discovery_type b) (sh_requestID h) 0) b"

definition coord_pid :: "p3_peer_info option \<Rightarrow> uuid option" where
  "coord_pid p = map_option getPID p"

definition coord_endpoint :: "p3_peer_info option \<Rightarrow> endpoint option" where
  "coord_endpoint p = Option.bind p pp_cellEndpoint"

text \<open>\<^verbatim>\<open>setPort\<close> on the node at a path.\<close>

definition setPort :: "path \<Rightarrow> u16 \<Rightarrow> node \<Rightarrow> node" where
  "setPort p port root = update_at p (\<lambda>n. Node ((info n)\<lparr>ct_port := port\<rparr>) (siblings n)) root"

text \<open>A superpeer without a cell is offered the first cell with room, or a new cell with the next free port.
  The result is the path of the cell, the port, and the cell with its tree.\<close>

definition offer_cell :: "cell_world \<Rightarrow> cell \<Rightarrow> tree_error + (path \<times> u16 \<times> cell)" where
  "offer_cell w c = with_root (cl_tree c) (\<lambda>root.
     case getAvailableNode (ucast SUPERPEER) root of
       Some p \<Rightarrow> Inr (p, - 1, c)
     | None \<Rightarrow> res_bind (createCell (w_env w) (w_newID w) (cl_tree c)) (\<lambda>(q, t). case q of
         None \<Rightarrow> Inl NULL_DEREF
       | Some p \<Rightarrow> with_root t (\<lambda>root'.
           let port = cl_startAllocationPort c
           in Inr (p, port, c\<lparr>cl_tree := Root (setPort p port root'), cl_startAllocationPort := port + 1\<rparr>))))"

text \<open>The access points of the reply: those of the cell's coordinator, else of the parent's; a parent cell without
  a coordinator is a null pointer.\<close>

definition offer_reply :: "string \<Rightarrow> string \<Rightarrow> u16 \<Rightarrow> path \<Rightarrow> node \<Rightarrow> tree_error + discovery_packet" where
  "offer_reply itf ip port p root = (case node_at p root of
      None \<Rightarrow> Inl NULL_DEREF
    | Some n \<Rightarrow>
        let addr = (\<lambda>m. \<lparr>ca_cellID = ct_cellID (info m), ca_itf = itf, ca_ip = ip, ca_port = port\<rparr>);
            coord = getCoordinator n in
        if p = [] then
          Inr (RequestCellReplyPacket (addr n) (coord_pid coord) (coord_endpoint coord) None None None
            (Option.bind coord (pi_discoverySAP \<circ> pp_info)) (Option.bind coord (pi_meshSAP \<circ> pp_info))
            (Option.bind coord (pi_ftSAP \<circ> pp_info)))
        else (case node_at (butlast p) root of
            None \<Rightarrow> Inl NULL_DEREF
          | Some m \<Rightarrow> (case getCoordinator m of
              None \<Rightarrow> Inl NULL_DEREF
            | Some pcoord \<Rightarrow>
                let i = pp_info (case coord of Some x \<Rightarrow> x | None \<Rightarrow> pcoord)
                in Inr (RequestCellReplyPacket (addr n) (coord_pid coord) (coord_endpoint coord) (Some (addr m))
                     (Some (getPID pcoord)) (pp_cellEndpoint pcoord) (pi_discoverySAP i) (pi_meshSAP i) (pi_ftSAP i)))))"

text \<open>A superpeer that lost its parent names its cell: it is referred to the parent of that cell, or to a cell
  with a free slot when its cell is not in the tree. Interface and address are left empty.\<close>

definition rebind_location :: "uuid \<Rightarrow> node \<Rightarrow> path option" where
  "rebind_location fid root = (case getCellTreeNode_i fid root of
      None \<Rightarrow> map_option fst (createCell_i root)
    | Some p \<Rightarrow> if p = [] then None else Some (butlast p))"

definition rebind_reply :: "path option \<Rightarrow> node \<Rightarrow> tree_error + discovery_packet" where
  "rebind_reply loc root = (case Option.bind loc (\<lambda>p. node_at p root) of
      None \<Rightarrow> Inl NULL_DEREF
    | Some n \<Rightarrow> (case getCoordinator n of
        None \<Rightarrow> Inl NULL_DEREF
      | Some coord \<Rightarrow>
          let addr = \<lparr>ca_cellID = ct_cellID (info n), ca_itf = [], ca_ip = [], ca_port = - 1\<rparr>; i = pp_info coord
          in Inr (RequestCellReplyPacket addr (Some (getPID coord)) (pp_cellEndpoint coord) (Some addr)
               (Some (getPID coord)) (pp_cellEndpoint coord) (pi_discoverySAP i) (pi_meshSAP i) (pi_ftSAP i))))"

fun reply_cell :: "discovery_packet \<Rightarrow> uuid" where
  "reply_cell (RequestCellReplyPacket cell _ _ _ _ _ _ _ _) = ca_cellID cell"
| "reply_cell _ = []"

definition required :: "'a option \<Rightarrow> cell_error + 'a" where
  "required v = (case v of None \<Rightarrow> Inl MISSING_VALUE_FROM_PPROPERTIES | Some x \<Rightarrow> Inr x)"

definition handleCellRequest :: "cell_world \<Rightarrow> stheno_header \<Rightarrow> cell \<Rightarrow> cell_error + (cell_msg list \<times> cell)" where
  "handleCellRequest w h c =
     (if \<not> cl_coordinator c then Inr ([], c)
      else if isEqual (sh_srcFID h) INVALID_ID then
        res_bind (fault (offer_cell w c)) (\<lambda>(p, port, c').
        res_bind (required (w_string w ''CELL_MULTICAST_INTERFACE'')) (\<lambda>itf.
        res_bind (required (w_string w ''CELL_ROOT_DISCOVERY_IP'')) (\<lambda>ip.
        res_bind (if cell_isRoot c' \<and> p = [] then required (w_short w ''CELL_ROOT_DISCOVERY_PORT'') else Inr port) (\<lambda>port'.
        res_bind (fault (with_root (cl_tree c') (offer_reply itf ip port' p))) (\<lambda>b.
          Inr ([discovery_reply c' (reply_cell b) h b], c'))))))
      else res_bind (fault (with_root (cl_tree c) (\<lambda>root. rebind_reply (rebind_location (sh_srcFID h) root) root))) (\<lambda>b.
          Inr ([discovery_reply c (reply_cell b) h b], c)))"

text \<open>\<^verbatim>\<open>handleCoordinatorRequest\<close> takes the remainder of the number of coordinators by the random number.\<close>

definition handleCoordinatorRequest :: "cell_world \<Rightarrow> stheno_header \<Rightarrow> cell \<Rightarrow> cell_error + (cell_msg list \<times> cell)" where
  "handleCoordinatorRequest w h c = res_bind (fault (with_root (cl_tree c) (\<lambda>root. Inr (getCoordinators_i root)))) (\<lambda>l.
     if l = [] then Inr ([], c)
     else if w_rand w = 0 then Inl DIVISION_BY_ZERO
     else (case l ! nat ((int (length l) - 1) mod w_rand w) of
         None \<Rightarrow> Inr ([], c)
       | Some coord \<Rightarrow>
           let i = pp_info coord;
               b = RequestCoordinatorReplyPacket (getPID coord) (getFID coord) (pi_meshSAP i) (pi_discoverySAP i)
                 (pi_ftSAP i) (pp_cellEndpoint coord)
           in Inr ([discovery_reply c (cl_cellID c) h b], c)))"

section \<open>Binding to a parent\<close>

text \<open>The packets with which a coordinator introduces itself, or its whole tree, to the parent.\<close>

definition own_type :: "cell \<Rightarrow> u32" where
  "own_type c = (if cl_coordinator c then SUPERPEER_COORD else SUPERPEER)"

definition parent_joinMesh :: "cell_world \<Rightarrow> cell \<Rightarrow> uuid \<times> uuid \<Rightarrow> cell_error + (bool \<times> cell_msg list)" where
  "parent_joinMesh w c ch = (case w_ftSAP w of
      None \<Rightarrow> Inl LOW_LVL_P2P_UNAVAILABLE
    | Some ft \<Rightarrow> Inr (ask_parent w c (fst ch) (snd ch) (JoinMeshPacket (own_type c) (cl_pid c) (cl_cellID c)
        (cl_parentCellID c) (cl_acceptor c) (w_discoverySAP w) (w_meshSAP w) ft)))"

definition rebindMesh :: "cell_world \<Rightarrow> cell \<Rightarrow> uuid \<times> uuid \<Rightarrow> cell_error + (bool \<times> cell_msg list)" where
  "rebindMesh w c ch = (case w_ftSAP w of
      None \<Rightarrow> Inl LOW_LVL_P2P_UNAVAILABLE
    | Some ft \<Rightarrow> res_bind (fault (CellTree_serialize (cl_tree c))) (\<lambda>ops. case cl_parentCellID c of
        None \<Rightarrow> Inl (Fault NULL_DEREF)
      | Some parent \<Rightarrow> Inr (ask_parent w c (fst ch) (snd ch) (RebindMesh_ctor (own_type c) (cl_pid c) (cl_cellID c)
          parent (cl_acceptor c) None (w_discoverySAP w) (w_meshSAP w) ft (Some (one_block (encode ops)))))))"

text \<open>One attempt to connect to the parent's coordinator and introduce oneself with \<open>hello\<close>. A connection that
  cannot be made is an exception that leaves the cell without a channel; a channel that cannot be
  made asynchronous, a refusal, or a close listener that cannot be set return false. An exception
  from the introduction leaves the channel in place. A null identifier of the parent's coordinator is
  followed when the header of the introduction is written.\<close>

definition bind_parent :: "connect_result \<Rightarrow> (cell \<Rightarrow> uuid \<times> uuid \<Rightarrow> cell_error + (bool \<times> cell_msg list)) \<Rightarrow>
    uuid option \<Rightarrow> uuid \<Rightarrow> cell \<Rightarrow> tree_error + ((cell_error + bool) \<times> cell_msg list \<times> cell)" where
  "bind_parent co hello parentUUID parentCell c =
     (if \<not> co_connect co then Inr (Inl CONNECT_FAILED, [], c\<lparr>cl_parentChannel := None\<rparr>)
      else if \<not> co_async co then Inr (Inr False, [], c\<lparr>cl_parentChannel := None\<rparr>)
      else case parentUUID of
        None \<Rightarrow> Inl NULL_DEREF
      | Some pid \<Rightarrow>
          let c' = c\<lparr>cl_parentChannel := Some (pid, parentCell)\<rparr> in
          (case hello c' (pid, parentCell) of
             Inl (Fault e) \<Rightarrow> Inl e
           | Inl x \<Rightarrow> Inr (Inl x, [], c')
           | Inr (ok, ms) \<Rightarrow> if ok \<and> co_listener co then Inr (Inr True, ms, c')
               else Inr (Inr False, ms, c'\<lparr>cl_parentChannel := None\<rparr>)))"

definition connecToParentCoordinator :: "cell_world \<Rightarrow> connect_result \<Rightarrow> cell_reply \<Rightarrow> cell_addr \<Rightarrow> cell \<Rightarrow>
    tree_error + ((cell_error + bool) \<times> cell_msg list \<times> cell)" where
  "connecToParentCoordinator w co r parent c = bind_parent co (parent_joinMesh w) (cr_parentUUID r) (ca_cellID parent)
     (c\<lparr>cl_parentUUID := cr_parentUUID r, cl_parentDiscoverySAP := cr_discoverySAP r,
        cl_parentMeshSAP := cr_meshSAP r, cl_parentFTSAP := cr_ftSAP r\<rparr>)"

definition rebindToParentCoordinator :: "cell_world \<Rightarrow> connect_result \<Rightarrow> cell_reply \<Rightarrow> cell \<Rightarrow>
    tree_error + ((cell_error + bool) \<times> cell_msg list \<times> cell)" where
  "rebindToParentCoordinator w co r c = (case cr_parentCell r of
      None \<Rightarrow> Inl NULL_DEREF
    | Some a \<Rightarrow> bind_parent co (rebindMesh w) (cr_parentUUID r) (ca_cellID a)
        (c\<lparr>cl_parentCellID := Some (ca_cellID a)\<rparr>))"

text \<open>\<^verbatim>\<open>rebind\<close>: the old channel is closed first; an exception counts as a failure.\<close>

definition rebind :: "cell_world \<Rightarrow> connect_result \<Rightarrow> cell_reply \<Rightarrow> cell \<Rightarrow> tree_error + (bool \<times> cell_msg list \<times> cell)" where
  "rebind w co r c =
     (let c1 = (if cl_parentChannel c = None then c
        else c\<lparr>cl_parentCellID := Some INVALID_ID, cl_parentChannel := None\<rparr>) in
      if cr_parentAddr r = None then Inr (False, [], c1)
      else res_bind (rebindToParentCoordinator w co r c1) (\<lambda>(res, ms, c2). Inr (res = Inr True, ms, c2)))"

text \<open>\<^verbatim>\<open>fireRebind\<close> asks for a cell again and again until it binds or nobody answers; then it is a new root.\<close>

definition discovery_opens :: "cell_world \<Rightarrow> bool" where
  "discovery_opens w = (w_string w ''CELL_MULTICAST_INTERFACE'' \<noteq> None
     \<and> w_string w ''CELL_ROOT_DISCOVERY_IP'' \<noteq> None \<and> w_short w ''CELL_ROOT_DISCOVERY_PORT'' \<noteq> None)"

definition new_root :: "cell \<Rightarrow> cell" where
  "new_root c = c\<lparr>cl_parentCellID := Some INVALID_ID, cl_parentChannel := None, cl_rebinding := False,
     cl_rootDiscovery := True, cl_notify := True\<rparr>"

partial_function (option) fireRebind_loop ::
    "cell_world \<Rightarrow> nat \<Rightarrow> cell_msg list \<Rightarrow> cell \<Rightarrow> (cell_error + (cell_msg list \<times> cell)) option"
  where [code]: "fireRebind_loop w k ms c = (case w_reply w k of
      None \<Rightarrow> Some (Inr (ms, new_root c))
    | Some r \<Rightarrow> (case rebind w (w_connect w k) r c of
        Inl e \<Rightarrow> Some (Inl (Fault e))
      | Inr (ok, ms', c') \<Rightarrow>
          if ok then Some (Inr (ms @ ms', c'\<lparr>cl_rebinding := False, cl_notify := True\<rparr>))
          else fireRebind_loop w (Suc k) (ms @ ms') c'))"

definition fireRebind :: "cell_world \<Rightarrow> cell \<Rightarrow> (cell_error + (cell_msg list \<times> cell)) option" where
  "fireRebind w c =
     (if discovery_opens w then fireRebind_loop w 0 [] (c\<lparr>cl_rebinding := True\<rparr>)
      else Some (Inl MISSING_VALUE_FROM_PPROPERTIES))"

definition handleNetworkPartition :: "cell_world \<Rightarrow> stheno_header \<Rightarrow> cell \<Rightarrow>
    (cell_error + (cell_msg list \<times> cell)) option" where
  "handleNetworkPartition w h c = (if \<not> isEqual (cl_cellID c) (sh_srcFID h) then fireRebind w c else Some (Inr ([], c)))"

text \<open>Dispatch of discovery packets; everything else, and everything before the cell is started, is dropped.\<close>

definition handleDiscoveryPacket :: "cell_world \<Rightarrow> stheno_header \<Rightarrow> cell \<Rightarrow>
    (cell_error + (cell_msg list \<times> cell)) option" where
  "handleDiscoveryPacket w h c =
     (if \<not> cl_started c then Some (Inr ([], c))
      else if sh_messageType h = 1 then Some (handleCellRequest w h c)
      else if sh_messageType h = 3 then handleNetworkPartition w h c
      else if sh_messageType h = 6 then Some (handleCoordinatorRequest w h c)
      else Some (Inr ([], c)))"

section \<open>Binding to a coordinator\<close>

text \<open>\<^verbatim>\<open>CellClientHandler::joinMesh\<close>: the state in the coordinator's answer is its tree; a refusal and a missing
  answer carry none. Both callers replace the tree of the cell by the one received.\<close>

definition client_joinMesh :: "cell_world \<Rightarrow> cell \<Rightarrow> uuid \<Rightarrow> cell_error + (mb_chain option \<times> cell_msg list)" where
  "client_joinMesh w c coord = (case (cl_acceptor c, cl_followerAcceptor c, w_ftSAP w) of
      (_, _, None) \<Rightarrow> Inl LOW_LVL_P2P_UNAVAILABLE
    | (Some e, Some f, Some ft) \<Rightarrow>
        let b = JoinCellPacket e f (w_discoverySAP w) (w_meshSAP w) ft; h = packet_to c coord (cl_cellID c) b
        in Inr (w_joined w h b, [ToCoordinator h b])
    | _ \<Rightarrow> Inl (Fault NULL_DEREF))"

text \<open>Connecting to a coordinator as a follower, in \<^verbatim>\<open>joinNonCoordinator\<close> and \<^verbatim>\<open>rebindToNewCoordinator\<close>: every failure
  ends in an exception that leaves the cell without a client.\<close>

definition bind_coordinator :: "cell_world \<Rightarrow> connect_result \<Rightarrow> uuid \<Rightarrow> endpoint option \<Rightarrow> cell \<Rightarrow>
    tree_error + ((cell_error + unit) \<times> cell_msg list \<times> cell)" where
  "bind_coordinator w co coord e c =
     (if e = None then Inl NULL_DEREF
      else if \<not> co_connect co \<or> \<not> co_async co then Inr (Inl CONNECT_FAILED, [], c\<lparr>cl_client := None\<rparr>)
      else let c' = c\<lparr>cl_client := Some coord\<rparr> in
        (case client_joinMesh w c' coord of
           Inl (Fault x) \<Rightarrow> Inl x
         | Inl x \<Rightarrow> Inr (Inl x, [], c')
         | Inr (None, ms) \<Rightarrow> Inr (Inl CONNECT_FAILED, ms, c'\<lparr>cl_client := None\<rparr>)
         | Inr (Some st, ms) \<Rightarrow>
             let c2 = c'\<lparr>cl_tree := read_tree w (Some st)\<rparr>
             in if co_listener co then Inr (Inr (), ms, c2) else Inr (Inl CONNECT_FAILED, ms, c2\<lparr>cl_client := None\<rparr>)))"

section \<open>Losing a channel\<close>

text \<open>When the coordinator fails, the next superpeer of the root cell takes over: it is this peer, which then binds
  to the parent unless the cell is the root and drops the children that are not connected to it, or
  another one, which this peer joins. An exception from joining ends the handler. A coordinator
  that is not the one that failed is only logged, following its pointer.\<close>

definition handleCoordinatorFailure :: "cell_world \<Rightarrow> uuid \<Rightarrow> cell \<Rightarrow> (cell_error + (cell_msg list \<times> cell)) option" where
  "handleCoordinatorFailure w u c = (case fault (with_root (cl_tree c) Inr) of
      Inl e \<Rightarrow> Some (Inl e)
    | Inr root \<Rightarrow> (case getCoordinator root of
        None \<Rightarrow> Some (Inl (Fault NULL_DEREF))
      | Some old \<Rightarrow>
          if \<not> isEqual (getPID old) u then Some (Inr ([], c))
          else
            let root' = snd (node_remove u root); c1 = c\<lparr>cl_tree := Root root'\<rparr> in
            (case getCoordinator root' of
               None \<Rightarrow> Some (Inl (Fault NULL_DEREF))
             | Some new \<Rightarrow>
                 if isEqual (cl_pid c) (getPID new) then
                   (case (if cell_isRoot c1 then Some (Inr ([], c1\<lparr>cl_coordinator := True\<rparr>))
                          else fireRebind w (c1\<lparr>cl_coordinator := True\<rparr>)) of
                      None \<Rightarrow> None
                    | Some res \<Rightarrow> Some (res_bind res (\<lambda>(ms, c2).
                        res_bind (fault (pruneSubtrees (cl_children c2) (cl_tree c2))) (\<lambda>t. Inr (ms, c2\<lparr>cl_tree := t\<rparr>)))))
                 else (case bind_coordinator w (w_connect w 0) (getPID new) (pp_cellEndpoint new) c1 of
                     Inl e \<Rightarrow> Some (Inl (Fault e))
                   | Inr (Inl x, ms, c2) \<Rightarrow> Some (Inl x)
                   | Inr (Inr _, ms, c2) \<Rightarrow> Some (Inr (ms, c2))))))"

text \<open>The three channels \<^verbatim>\<open>onClose\<close> tells apart: to the coordinator, to the parent, from a child or a leaf.\<close>

datatype closed_channel = ClientChannel uuid | ParentChannel | SvcChannel uuid uuid

fun onClose :: "cell_world \<Rightarrow> closed_channel \<Rightarrow> cell \<Rightarrow> (cell_error + (cell_msg list \<times> cell)) option" where
  "onClose w (ClientChannel u) c = handleCoordinatorFailure w u (c\<lparr>cl_client := None\<rparr>)"
| "onClose w ParentChannel c = fireRebind w (c\<lparr>cl_parentChannel := None, cl_parentUUID := None,
     cl_parentCellID := None, cl_parentDiscoverySAP := None, cl_parentMeshSAP := None, cl_parentFTSAP := None\<rparr>)"
| "onClose w (SvcChannel u cell) c = Some (res_bind (leaveMesh w u cell c) (\<lambda>(ret, ms, c'). Inr (ms, c')))"

section \<open>Opening a cell\<close>

text \<open>The constructor. \<open>raw\<close> holds the members it leaves uninitialised; the identifier of the cell is a null
  pointer until the cell is opened.\<close>

definition Cell_ctor :: "cell_world \<Rightarrow> uuid \<Rightarrow> cell \<Rightarrow> cell_error + cell" where
  "Cell_ctor w pid raw = res_bind (required (w_short w ''CELL_ROOT_DISCOVERY_PORT'')) (\<lambda>port.
     Inr (raw\<lparr>cl_pid := pid, cl_parentCellID := None, cl_parentUUID := None, cl_parentDiscoverySAP := None,
       cl_parentMeshSAP := None, cl_parentFTSAP := None, cl_started := False, cl_closed := False,
       cl_startAllocationPort := port + 1, cl_tree := NullRoot, cl_parentChannel := None, cl_client := None,
       cl_followers := [], cl_children := [], cl_sensors := (\<lambda>_. []), cl_discovery := False,
       cl_rootDiscovery := False, cl_notify := False\<rparr>))"

text \<open>\<^verbatim>\<open>createSAP\<close>: random ports are tried until one can be bound, \<open>maxBinds + 1000\<close> times for the acceptor and a thousand
  times for the followers'; \<open>binds\<close> says which endpoint, if any, each attempt binds.\<close>

fun bind_port :: "nat \<Rightarrow> nat \<Rightarrow> (nat \<Rightarrow> endpoint option) \<Rightarrow> endpoint option" where
  "bind_port k 0 binds = None"
| "bind_port k (Suc n) binds = (case binds k of Some e \<Rightarrow> Some e | None \<Rightarrow> bind_port (Suc k) n binds)"

definition createSAP :: "nat option \<Rightarrow> (nat \<Rightarrow> endpoint option) \<Rightarrow> (nat \<Rightarrow> endpoint option) \<Rightarrow> cell \<Rightarrow> cell_error + cell" where
  "createSAP maxBinds binds fbinds c = (case maxBinds of
      None \<Rightarrow> Inl REGISTRATION_ERROR
    | Some n \<Rightarrow> (case (bind_port 0 (n + 1000) binds, bind_port 0 1000 fbinds) of
        (Some e, Some f) \<Rightarrow> Inr (c\<lparr>cl_acceptor := Some e, cl_followerAcceptor := Some f\<rparr>)
      | _ \<Rightarrow> Inl REGISTRATION_ERROR))"

text \<open>What \<^verbatim>\<open>joinCoordinator\<close> and \<^verbatim>\<open>joinNonCoordinator\<close> start with: empty groups and bound acceptors.\<close>

record bind_world =
  bw_maxBinds :: "nat option"
  bw_binds :: "nat \<Rightarrow> endpoint option"
  bw_fbinds :: "nat \<Rightarrow> endpoint option"

definition start_groups :: "bind_world \<Rightarrow> cell \<Rightarrow> cell_error + cell" where
  "start_groups b c = createSAP (bw_maxBinds b) (bw_binds b) (bw_fbinds b) (c\<lparr>cl_followers := [], cl_children := []\<rparr>)"

text \<open>A new tree with the coordinator in its root cell, then, below a parent, the introduction to the parent's
  coordinator. Whether the parent accepted is not looked at.\<close>

definition joinCoordinator :: "cell_world \<Rightarrow> bind_world \<Rightarrow> cell_reply option \<Rightarrow> cell \<Rightarrow> cell_error + (cell_msg list \<times> cell)" where
  "joinCoordinator w b r c = res_bind (start_groups b c) (\<lambda>c1.
     case w_ftSAP w of
       None \<Rightarrow> Inl LOW_LVL_P2P_UNAVAILABLE
     | Some ft \<Rightarrow>
         let peer = P3PeerInfo_ctor SUPERPEER_COORD (cl_pid c1) (cl_cellID c1) (cl_acceptor c1) (w_meshSAP w)
               (w_discoverySAP w) ft in
         res_bind (fault (addPeer peer (CellTree_ctor (w_env w) (cl_cellID c1)))) (\<lambda>(ret, t).
           let c2 = c1\<lparr>cl_tree := t\<rparr> in
           (case r of
              None \<Rightarrow> Inr ([], c2\<lparr>cl_notify := True\<rparr>)
            | Some reply \<Rightarrow>
                if cr_parentAddr reply = None then Inr ([], c2\<lparr>cl_notify := True\<rparr>)
                else (case cr_parentCell reply of
                    None \<Rightarrow> Inl (Fault NULL_DEREF)
                  | Some a \<Rightarrow> res_bind (fault (connecToParentCoordinator w (w_connect w 0) reply a c2)) (\<lambda>(res, ms, c3).
                      case res of Inl x \<Rightarrow> Inl x | Inr _ \<Rightarrow> Inr (ms, c3\<lparr>cl_notify := True\<rparr>))))))"

definition joinNonCoordinator :: "cell_world \<Rightarrow> bind_world \<Rightarrow> cell_reply \<Rightarrow> cell \<Rightarrow> cell_error + (cell_msg list \<times> cell)" where
  "joinNonCoordinator w b r c = res_bind (start_groups b (c\<lparr>cl_parentUUID := cr_uuid r\<rparr>)) (\<lambda>c1.
     case cr_uuid r of
       None \<Rightarrow> Inl (Fault NULL_DEREF)
     | Some coord \<Rightarrow> res_bind (fault (bind_coordinator w (w_connect w 0) coord (cr_addr r) c1)) (\<lambda>(res, ms, c2).
         case res of Inl x \<Rightarrow> Inl x | Inr _ \<Rightarrow> Inr (ms, c2)))"

text \<open>\<^verbatim>\<open>open\<close>: the first superpeer generates the identifier of the root cell; the others take the cell of the reply.\<close>

definition cell_open :: "cell_world \<Rightarrow> bind_world \<Rightarrow> cell_reply option \<Rightarrow> cell \<Rightarrow> cell_error + (cell_msg list \<times> cell)" where
  "cell_open w b r c =
     (let started = (\<lambda>(ms, c'). Inr (ms, c'\<lparr>cl_started := True, cl_rebinding := False, cl_discovery := True\<rparr>));
          follow = (\<lambda>reply c1. res_bind (joinNonCoordinator w b reply c1) (\<lambda>(ms, c').
            started (ms, c'\<lparr>cl_parentDiscoverySAP := cr_discoverySAP reply\<rparr>)));
          cellID = (case r of None \<Rightarrow> w_newID w | Some reply \<Rightarrow> ca_cellID (cr_cell reply));
          parent = (case r of None \<Rightarrow> None | Some reply \<Rightarrow> cr_parentCell reply);
          c1 = c\<lparr>cl_cellID := cellID, cl_fid := cellID,
                 cl_parentCellID := Some (case parent of None \<Rightarrow> INVALID_ID | Some a \<Rightarrow> ca_cellID a)\<rparr> in
      case r of
        None \<Rightarrow> res_bind (joinCoordinator w b None (c1\<lparr>cl_coordinator := True\<rparr>)) started
      | Some reply \<Rightarrow>
          if \<not> hasCoordinator reply
          then res_bind (joinCoordinator w b (if parent = None then None else r) (c1\<lparr>cl_coordinator := True\<rparr>)) started
          else follow reply (c1\<lparr>cl_coordinator := False\<rparr>))"

text \<open>\<^verbatim>\<open>close\<close> is done once.\<close>

definition cell_close :: "cell \<Rightarrow> cell" where
  "cell_close c = (if cl_closed c then c else c\<lparr>cl_closed := True, cl_started := False, cl_rebinding := False\<rparr>)"

definition cell_attach :: "cell \<Rightarrow> cell_error + cell" where
  "cell_attach c = (if cl_discovery c then Inl ALREADY_ATTACHED else Inr (c\<lparr>cl_discovery := True\<rparr>))"

end
