(* ===== verification/CellChannels.thy ===== *)
theory CellChannels
  imports CellBinding
begin

text \<open>
  The channels that hand packets to a cell: \<^verbatim>\<open>net/CellSvcHandler.h\<close>, on which a coordinator serves its
  followers, children and leaves, and \<^verbatim>\<open>net/CellFollowerSvcHandler.h\<close>, on which a follower serves its
  coordinator. The second part proves that the handlers keep the invariant of the cell and answer
  every request once.
\<close>

section \<open>Dispatch\<close>

text \<open>\<open>setReply\<close> is the verdict of the request engine of the channel on a reply.\<close>

fun svc_handlePacket :: "cell_world \<Rightarrow> (u32 \<Rightarrow> int) \<Rightarrow> stheno_header \<Rightarrow> mb_chain cell_packet \<Rightarrow> cell \<Rightarrow>
    cell_error + (int \<times> cell_msg list \<times> cell)" where
  "svc_handlePacket w setReply h (JoinCellPacket e f disc mesh ft) c = handleJoinCell w h e f disc mesh ft c"
| "svc_handlePacket w setReply h (JoinMeshPacket ty u cell parent e disc mesh ft) c =
     handleJoinMesh w h ty u cell parent e disc mesh ft c"
| "svc_handlePacket w setReply h (LeaveMeshPacket u cell) c = handleLeaveMesh w h u cell c"
| "svc_handlePacket w setReply h (UpdateInfoPacket st) c = handleUpdateInfo w h st c"
| "svc_handlePacket w setReply h (JoinMeshReplyPacket req res) c = Inr (if setReply req = -1 then -1 else 0, [], c)"
| "svc_handlePacket w setReply h (LeaveMeshReplyPacket req res) c = Inr (if setReply req = -1 then -1 else 0, [], c)"
| "svc_handlePacket w setReply h (RebindMeshReplyPacket req res) c = Inr (if setReply req = -1 then -1 else 0, [], c)"
| "svc_handlePacket w setReply h (UpdateInfoReplyPacket req res) c = Inr (if setReply req = -1 then -1 else 0, [], c)"
| "svc_handlePacket w setReply h _ c = Inr (0, [], c)"

text \<open>The first packet on a new channel. A join or a rebind opens it when its handler returns 0; an update is
  processed and then, falling into the default case, closes the channel.\<close>

fun svc_open :: "cell_world \<Rightarrow> stheno_header \<Rightarrow> mb_chain cell_packet \<Rightarrow> cell \<Rightarrow>
    cell_error + (int \<times> cell_msg list \<times> cell)" where
  "svc_open w h (JoinMeshPacket ty u cell parent e disc mesh ft) c =
     res_bind (handleJoinMesh w h ty u cell parent e disc mesh ft c) (\<lambda>(r, ms, c'). Inr (if r \<noteq> 0 then -1 else 0, ms, c'))"
| "svc_open w h (JoinCellPacket e f disc mesh ft) c =
     res_bind (handleJoinCell w h e f disc mesh ft c) (\<lambda>(r, ms, c'). Inr (if r \<noteq> 0 then -1 else 0, ms, c'))"
| "svc_open w h (RebindMeshPacket ty u cell parent e f disc mesh ft st) c =
     res_bind (handleRebindMesh w h ty u cell parent e disc mesh ft st c) (\<lambda>(r, ms, c'). Inr (if r \<noteq> 0 then -1 else 0, ms, c'))"
| "svc_open w h (UpdateInfoPacket st) c = res_bind (handleUpdateInfo w h st c) (\<lambda>(r, ms, c'). Inr (-1, ms, c'))"
| "svc_open w h _ c = Inr (-1, [], c)"

fun follower_handlePacket :: "cell_world \<Rightarrow> stheno_header \<Rightarrow> mb_chain cell_packet \<Rightarrow> cell \<Rightarrow>
    cell_error + (int \<times> cell_msg list \<times> cell)" where
  "follower_handlePacket w h (JoinMeshPacket ty u cell parent e disc mesh ft) c =
     handleCoordinatorJoinMesh w h ty u cell parent e disc mesh ft c"
| "follower_handlePacket w h (LeaveMeshPacket u cell) c = handleCoordinatorLeaveMesh w h u cell c"
| "follower_handlePacket w h (RebindMeshPacket ty u cell parent e f disc mesh ft st) c =
     handleCoordinatorRebindMesh w h ty u cell parent e disc mesh ft c"
| "follower_handlePacket w h (UpdateInfoPacket st) c = handleCoordinatorUpdateInfo w h st c"
| "follower_handlePacket w h _ c = Inr (0, [], c)"

section \<open>Changing a peer keeps the tree in order\<close>

text \<open>A change that leaves type and identifier of a peer alone.\<close>

definition keeps_identity :: "(p3_peer_info \<Rightarrow> p3_peer_info) \<Rightarrow> bool" where
  "keeps_identity f = (\<forall>p. getPID (f p) = getPID p \<and> getType (f p) = getType p \<and> getFID (f p) = getFID p)"

lemma keeps_identity_map:
  assumes "keeps_identity f" "k < length l"
  shows "map getPID (l[k := f (l ! k)]) = map getPID l" "map getType (l[k := f (l ! k)]) = map getType l"
proof -
  have "map getPID (l[k := f (l ! k)]) = (map getPID l)[k := getPID (l ! k)]"
    "map getType (l[k := f (l ! k)]) = (map getType l)[k := getType (l ! k)]"
    using assms(1) by (simp_all add: map_update keeps_identity_def)
  with assms(2) show "map getPID (l[k := f (l ! k)]) = map getPID l" "map getType (l[k := f (l ! k)]) = map getType l"
    by (metis list_update_id nth_map)+
qed

text \<open>The invariant of a list of peers depends on the identifiers and the types only.\<close>

lemma slot_inv_maps:
  assumes "map getPID (slot_peers k j) = map getPID (slot_peers k i)"
    "map getType (slot_peers k j) = map getType (slot_peers k i)" "slot_max k j = slot_max k i" "slot_inv k i"
  shows "slot_inv k j"
proof -
  have "list_all pid_ok l \<longleftrightarrow> list_all (\<lambda>u. length u = 16) (map getPID l)"
    "list_all (\<lambda>p. slot_of (getType p) = Some k) l \<longleftrightarrow> list_all (\<lambda>ty. slot_of ty = Some k) (map getType l)" for l
    by (simp_all add: list.pred_map comp_def pid_ok_def [abs_def])
  moreover have "length (slot_peers k j) = length (slot_peers k i)" using assms(1) by (metis length_map)
  ultimately show ?thesis using assms by (simp add: slot_inv_def within_def)
qed

lemma modify_peer_cell_inv:
  assumes "keeps_identity f" "cell_inv (info n)"
  shows "cell_inv (info (modify_peer pid f n))"
proof -
  let ?j = "info (modify_peer pid f n)"
  have "map getPID (slot_peers k ?j) = map getPID (slot_peers k (info n))"
    "map getType (slot_peers k ?j) = map getType (slot_peers k (info n))" "slot_max k ?j = slot_max k (info n)" for k
    using keeps_identity_map [OF assms(1)]
    by (cases k; auto simp: modify_peer_def Let_def split: option.splits dest!: first_index_SomeD)+
  then show ?thesis using assms(2) slot_inv_maps unfolding cell_inv_def by blast
qed

lemma modify_peer_frame [simp]:
  "siblings (modify_peer pid f n) = siblings n" "ct_treeSpan (info (modify_peer pid f n)) = ct_treeSpan (info n)"
  "ct_depth (info (modify_peer pid f n)) = ct_depth (info n)" "ct_spanNo (info (modify_peer pid f n)) = ct_spanNo (info n)"
  "ct_cellID (info (modify_peer pid f n)) = ct_cellID (info n)"
  by (auto simp: modify_peer_def Let_def split: option.splits)

text \<open>The peer that is changed is the one a lookup finds, before and after.\<close>

lemma find_first_index: "List.find P xs = map_option ((!) xs) (first_index P xs)"
  by (induction xs) (auto simp: option.map_comp comp_def)

lemma find_changed:
  assumes "first_index P xs = Some k" "\<And>x. P (f x) \<longleftrightarrow> P x"
  shows "List.find P (xs[k := f (xs ! k)]) = Some (f (xs ! k))"
  using assms by (induction xs arbitrary: k) (auto split: if_splits)

lemma modify_peer_lookup:
  assumes "keeps_identity f" "node_getPeer pid n = Some peer"
  shows "node_getPeer pid (modify_peer pid f n) = Some (f peer)"
proof -
  let ?P = "\<lambda>t. isEqual (getPID t) pid"
  have P: "?P (f p) \<longleftrightarrow> ?P p" for p using assms(1) by (simp add: keeps_identity_def)
  note find = find_changed [where P = ?P and f = f, OF _ P]
  show ?thesis using assms(2)
    by (auto simp: node_getPeer_def modify_peer_def Let_def find_first_index [of ?P "ct_sps (info n)"]
        find_first_index [of ?P "ct_sensors (info n)"] find_first_index [of ?P "ct_monitors (info n)"] find
        split: option.splits)
qed

lemma keeps_identity_with_info:
  assumes "\<And>i. pi_pid (f i) = pi_pid i \<and> pi_type (f i) = pi_type i \<and> pi_fid (f i) = pi_fid i"
  shows "keeps_identity (with_info f)"
  using assms by (simp add: keeps_identity_def with_info_def getPID_def getType_def getFID_def)

lemma peer_operations_identity:
  "pi_pid (snd (PeerInfo_addServiceInstance pos sid iid sap i)) = pi_pid i"
  "pi_type (snd (PeerInfo_addServiceInstance pos sid iid sap i)) = pi_type i"
  "pi_fid (snd (PeerInfo_addServiceInstance pos sid iid sap i)) = pi_fid i"
  "pi_pid (snd (PeerInfo_removeServiceInstance sid iid i)) = pi_pid i"
  "pi_type (snd (PeerInfo_removeServiceInstance sid iid i)) = pi_type i"
  "pi_fid (snd (PeerInfo_removeServiceInstance sid iid i)) = pi_fid i"
  "pi_pid (snd (PeerInfo_changeServiceIID pos sid iid new i)) = pi_pid i"
  "pi_type (snd (PeerInfo_changeServiceIID pos sid iid new i)) = pi_type i"
  "pi_fid (snd (PeerInfo_changeServiceIID pos sid iid new i)) = pi_fid i"
  by (simp_all add: PeerInfo_addServiceInstance_def PeerInfo_addService_def PeerInfo_removeServiceInstance_def
      PeerInfo_changeServiceIID_def Let_def case_prod_unfold split: option.splits)

lemma tree_inv_cell_change:
  assumes "tree_inv n" "siblings m = siblings n" "cell_inv (info m)" "ct_treeSpan (info m) = ct_treeSpan (info n)"
    "ct_depth (info m) = ct_depth (info n)"
  shows "tree_inv m"
  using assms by (cases m; cases n) (simp add: tree_inv_iff)

lemma on_peer_inv:
  assumes "root_inv t" "on_peer fid pid f t = Inr (Some t')" "keeps_identity (with_info (\<lambda>i. snd (f i)))"
  shows "root_inv t'"
proof -
  let ?f = "modify_peer pid (with_info (\<lambda>i. snd (f i)))"
  from assms(2) obtain root p n where r: "t = Root root" "node_at p root = Some n" "t' = Root (update_at p ?f root)"
    by (auto simp: on_peer_def with_root_def split: root_ptr.splits option.splits if_splits)
  then have inv: "tree_inv root" "ct_depth (info root) = 0" "tree_inv n"
    using assms(1) tree_inv_at [OF _ r(2)] by (simp_all add: root_inv_def)
  have "cell_inv (info n)" using inv(3) by (rule tree_inv_cell)
  then have "tree_inv (?f n)"
    using tree_inv_cell_change [OF inv(3), of "?f n"] modify_peer_cell_inv [OF assms(3)] by simp
  with tree_inv_update [OF inv(1) r(2), of ?f] inv(2) r(3) show ?thesis by (simp add: root_inv_def)
qed

lemma mesh_update_inv:
  assumes "root_inv t" "mesh_update pos upd t = Inr (Some t')"
  shows "root_inv t'"
proof (cases upd)
  case (SensorInfoUpdate op u e)
  with assms(2) show ?thesis by simp
qed (use assms on_peer_inv keeps_identity_with_info peer_operations_identity in \<open>fastforce\<close>)+

lemma leave_tree_inv:
  assumes "root_inv t" "leave_tree u cell t = Inr (r, t')"
  shows "root_inv t'"
proof -
  have up: "root_inv (Root (update_at p (\<lambda>_. snd (node_remove u n)) root))"
    if "node_at p root = Some n" "t = Root root" for p n root
  proof -
    have inv: "tree_inv root" "ct_depth (info root) = 0" "tree_inv n"
      using assms(1) that tree_inv_at [OF _ that(1)] by (simp_all add: root_inv_def)
    have "siblings (snd (node_remove u n)) = siblings n" "ct_treeSpan (info (snd (node_remove u n))) = ct_treeSpan (info n)"
      "ct_depth (info (snd (node_remove u n))) = ct_depth (info n)"
      "ct_spanNo (info (snd (node_remove u n))) = ct_spanNo (info n)"
      by (auto simp: node_remove_def Let_def split: option.splits)
    with tree_inv_cell_change [OF inv(3), of "snd (node_remove u n)"] node_remove_cell_inv [OF tree_inv_cell [OF inv(3)]]
      tree_inv_update [OF inv(1) that(1), of "\<lambda>_. snd (node_remove u n)"] inv(2)
    show ?thesis by (simp add: root_inv_def)
  qed
  show ?thesis using assms up
    by (auto simp: leave_tree_def with_root_def Let_def case_prod_unfold res_bind_Inr_iff
        split: root_ptr.splits option.splits if_splits dest: removeSubtree_inv)
qed

section \<open>The invariant of a cell\<close>

text \<open>The tree is in order, every list of sensors has distinct sensors of its own kind, and the identifier
  of the peer has 16 bytes.\<close>

definition cell_wf :: "cell \<Rightarrow> bool" where
  "cell_wf c = (root_inv (cl_tree c) \<and> length (cl_pid c) = 16
     \<and> (\<forall>k. distinct (map si_uuid (cl_sensors c k)) \<and> (\<forall>s\<in>set (cl_sensors c k). sensor_kind_of (si_type s) = Some k)))"

lemma cell_wf_frame:
  "cell_wf c \<Longrightarrow> root_inv (cl_tree c') \<Longrightarrow> cl_pid c' = cl_pid c \<Longrightarrow> cl_sensors c' = cl_sensors c \<Longrightarrow> cell_wf c'"
  by (simp add: cell_wf_def)

lemma add_sensor_wf:
  assumes "cell_wf c" "sensor_kind_of op = Some k"
  shows "cell_wf (add_sensor k op u e c)"
proof -
  have "u \<notin> si_uuid ` set l" if "\<not> list_ex (\<lambda>s. isEqual (si_uuid s) u) l" for l :: "sensor_info list"
    using that by (auto simp: list_ex_iff isEqual_def)
  then show ?thesis using assms by (auto simp: cell_wf_def add_sensor_def Let_def)
qed

lemma processUpdateInfo_wf:
  assumes "cell_wf c" "processUpdateInfo w upd c = Inr (r, c')"
  shows "cell_wf c'"
proof -
  have mesh: "cell_wf (c\<lparr>cl_tree := t\<rparr>)" if "mesh_update (w_pos w) upd (cl_tree c) = Inr (Some t)" for t
    using assms(1) mesh_update_inv [OF _ that] by (simp add: cell_wf_def)
  show ?thesis using assms
    by (cases upd) (auto simp: processUpdateInfo_def res_bind_Inr_iff simp del: mesh_update.simps
        intro: add_sensor_wf mesh split: option.splits)
qed

lemma handler_wf:
  assumes "cell_wf c" "env_ok (w_env w)" "length u = 16"
  shows "handleJoinMesh w h ty u cell parent e disc mesh ft c = Inr (r, ms, c') \<Longrightarrow> cell_wf c'"
    "handleCoordinatorJoinMesh w h ty u cell parent e disc mesh ft c = Inr (r, ms, c') \<Longrightarrow> cell_wf c'"
    "handleCoordinatorRebindMesh w h ty u cell p e disc mesh ft c = Inr (r, ms, c') \<Longrightarrow> cell_wf c'"
    "leaveMesh w u' cell c = Inr (r, ms, c') \<Longrightarrow> cell_wf c'"
    "handleLeaveMesh w h u' cell c = Inr (r, ms, c') \<Longrightarrow> cell_wf c'"
    "handleCoordinatorLeaveMesh w h u' cell c = Inr (r, ms, c') \<Longrightarrow> cell_wf c'"
    "handleUpdateInfo w h st c = Inr (r, ms, c') \<Longrightarrow> cell_wf c'"
    "handleCoordinatorUpdateInfo w h st c = Inr (r, ms, c') \<Longrightarrow> cell_wf c'"
    "updateState w upd c = Inr (ms, c') \<Longrightarrow> cell_wf c'"
    "root_inv (read_tree w st) \<Longrightarrow> handleRebindMesh w h ty u cell p e disc mesh ft st c = Inr (r, ms, c') \<Longrightarrow> cell_wf c'"
proof -
  have root: "root_inv (cl_tree c)" using assms(1) by (simp add: cell_wf_def)
  have pid: "pid_ok (P3PeerInfo_ctor ty u cell e mesh disc ft)"
    using assms(3) by (simp add: pid_ok_def getPID_def P3PeerInfo_ctor_def)
  have ptr: "root_inv t'" if "addPeer_ptr (w_env w) (P3PeerInfo_ctor ty u cell e mesh disc ft) q (cl_tree c) = Inr (x, t')" for q x t'
    using that addPeer_inv [OF root pid] addPeer_parent_inv [OF root pid assms(2)] root
    by (auto simp: addPeer_ptr_def with_root_def split: option.splits root_ptr.splits if_splits)
  have tree: "cell_wf (c\<lparr>cl_tree := t'\<rparr>)" if "root_inv t'" for t' using assms(1) that by (simp add: cell_wf_def)
  note adds = addPeer_inv [OF root pid] addPeer_parent_inv [OF root pid assms(2)] ptr leave_tree_inv [OF root]
    addSubtree_inv [OF _ root]
  show "handleJoinMesh w h ty u cell parent e disc mesh ft c = Inr (r, ms, c') \<Longrightarrow> cell_wf c'"
    by (auto simp: handleJoinMesh_def Let_def case_prod_unfold res_bind_Inr_iff intro!: tree split: option.splits if_splits intro: adds)
  show "handleCoordinatorJoinMesh w h ty u cell parent e disc mesh ft c = Inr (r, ms, c') \<Longrightarrow> cell_wf c'"
    by (auto simp: handleCoordinatorJoinMesh_def Let_def case_prod_unfold res_bind_Inr_iff intro!: tree split: if_splits intro: adds)
  show "handleCoordinatorRebindMesh w h ty u cell p e disc mesh ft c = Inr (r, ms, c') \<Longrightarrow> cell_wf c'"
    by (auto simp: handleCoordinatorRebindMesh_def Let_def case_prod_unfold res_bind_Inr_iff intro!: tree split: if_splits intro: adds)
  show "leaveMesh w u' cell c = Inr (r, ms, c') \<Longrightarrow> cell_wf c'"
    by (auto simp: leaveMesh_def Let_def case_prod_unfold res_bind_Inr_iff intro!: tree intro: adds)
  show "handleLeaveMesh w h u' cell c = Inr (r, ms, c') \<Longrightarrow> cell_wf c'"
    by (auto simp: handleLeaveMesh_def Let_def case_prod_unfold res_bind_Inr_iff intro!: tree intro: adds)
  show "handleCoordinatorLeaveMesh w h u' cell c = Inr (r, ms, c') \<Longrightarrow> cell_wf c'"
    by (auto simp: handleCoordinatorLeaveMesh_def Let_def case_prod_unfold res_bind_Inr_iff intro!: tree intro: adds)
  show "handleUpdateInfo w h st c = Inr (r, ms, c') \<Longrightarrow> cell_wf c'"
    by (auto simp: handleUpdateInfo_def Let_def case_prod_unfold res_bind_Inr_iff intro: processUpdateInfo_wf [OF assms(1)])
  show "handleCoordinatorUpdateInfo w h st c = Inr (r, ms, c') \<Longrightarrow> cell_wf c'"
    by (auto simp: handleCoordinatorUpdateInfo_def Let_def case_prod_unfold res_bind_Inr_iff intro: processUpdateInfo_wf [OF assms(1)])
  show "updateState w upd c = Inr (ms, c') \<Longrightarrow> cell_wf c'"
    by (auto simp: updateState_def Let_def case_prod_unfold res_bind_Inr_iff split: if_splits option.splits
        intro: processUpdateInfo_wf [OF assms(1)])
  show "root_inv (read_tree w st) \<Longrightarrow> handleRebindMesh w h ty u cell p e disc mesh ft st c = Inr (r, ms, c') \<Longrightarrow> cell_wf c'"
    by (auto simp: handleRebindMesh_def Let_def case_prod_unfold res_bind_Inr_iff intro!: tree intro: adds)
qed

end
