(* ===== verification/CellRuns.thy ===== *)
theory CellRuns
  imports CellChannels
begin

text \<open>
  Cells as state machines: one step per packet, closed channel or update of the peer's own, and the states
  reachable from opening a cell. The invariant holds in all of them; binding to a parent returns
  when discovery runs out of answers, and says what the cell is afterwards.
\<close>

section \<open>Binding to a parent\<close>

text \<open>What binding leaves alone.\<close>

definition same_core :: "cell \<Rightarrow> cell \<Rightarrow> bool" where
  "same_core c c' = (cl_tree c' = cl_tree c \<and> cl_pid c' = cl_pid c \<and> cl_sensors c' = cl_sensors c
     \<and> cl_cellID c' = cl_cellID c \<and> cl_coordinator c' = cl_coordinator c \<and> cl_children c' = cl_children c
     \<and> cl_parentUUID c' = cl_parentUUID c)"

text \<open>A cell bound below a parent: the channel leads to the cell it takes for its parent.\<close>

definition bound_below :: "cell \<Rightarrow> bool" where
  "bound_below c = (\<exists>ch. cl_parentChannel c = Some ch \<and> cl_parentCellID c = Some (snd ch))"

lemma bind_parent_frame:
  assumes "bind_parent co hello pu pc c = Inr (res, ms, c')"
  shows "\<exists>ch. c' = c\<lparr>cl_parentChannel := ch\<rparr> \<and> (res = Inr True \<longrightarrow> (\<exists>pid. pu = Some pid \<and> ch = Some (pid, pc)))"
  using assms
  by (auto simp: bind_parent_def Let_def split: if_splits option.splits sum.splits cell_error.splits
      intro: exI [of _ None])

lemma rebind_frame:
  assumes "rebind w co r c = Inr (ok, ms, c')"
  shows "same_core c c' \<and> (ok \<longrightarrow> bound_below c')"
proof (cases "cr_parentAddr r = None")
  case True
  with assms show ?thesis by (cases "cl_parentChannel c = None") (auto simp: rebind_def Let_def same_core_def)
next
  case False
  define c0 where "c0 = (if cl_parentChannel c = None then c
        else c\<lparr>cl_parentCellID := Some INVALID_ID, cl_parentChannel := None\<rparr>)"
  have c0: "same_core c c0" by (simp add: c0_def same_core_def)
  from False assms obtain x where x: "rebindToParentCoordinator w co r c0 = Inr x"
    "(case x of (res, ms, c2) \<Rightarrow> (res = Inr True, ms, c2)) = (ok, ms, c')"
    by (auto simp: rebind_def Let_def c0_def [symmetric] res_bind_Inr_iff split: prod.splits)
  obtain res where res: "x = (res, ms, c')" "ok \<longleftrightarrow> res = Inr True" using x(2) by (cases x) auto
  from x(1) res(1) obtain a :: cell_addr where
    "bind_parent co (rebindMesh w) (cr_parentUUID r) (ca_cellID a) (c0\<lparr>cl_parentCellID := Some (ca_cellID a)\<rparr>)
      = Inr (res, ms, c')" by (auto simp: rebindToParentCoordinator_def split: option.splits)
  from bind_parent_frame [OF this] res(2) c0 show ?thesis by (auto simp: same_core_def bound_below_def)
qed

lemma same_core_trans: "same_core c d \<Longrightarrow> same_core d e \<Longrightarrow> same_core c e"
  by (simp add: same_core_def)

lemma fireRebind_loop_outcome:
  assumes "fireRebind_loop w k ms c = Some (Inr (ms', c'))"
  shows "same_core c c' \<and> \<not> cl_rebinding c' \<and> cl_notify c' \<and>
    (bound_below c' \<or> cell_isRoot c' \<and> cl_parentChannel c' = None \<and> cl_rootDiscovery c' \<and> (\<exists>j\<ge>k. w_reply w j = None))"
proof -
  define P where "P k c r = (case r of Inl e \<Rightarrow> True | Inr (ms', c') \<Rightarrow>
      same_core c c' \<and> \<not> cl_rebinding c' \<and> cl_notify c' \<and>
      (bound_below c' \<or> cell_isRoot c' \<and> cl_parentChannel c' = None \<and> cl_rootDiscovery c' \<and> (\<exists>j\<ge>k. w_reply w j = None)))"
    for k c and r :: "cell_error + cell_msg list \<times> cell"
  have "w = w \<longrightarrow> P k c (Inr (ms', c'))"
  proof (rule fireRebind_loop.raw_induct [where P = "\<lambda>w' k ms c r. w' = w \<longrightarrow> P k c r", OF _ assms], rule impI)
    fix loop w' k ms c r
    assume 1: "\<And>w' k ms c r. loop w' k ms c = Some r \<Longrightarrow> w' = w \<longrightarrow> P k c r"
      "(case w_reply w' k of None \<Rightarrow> Some (Inr (ms, new_root c))
        | Some r \<Rightarrow> (case rebind w' (w_connect w' k) r c of Inl e \<Rightarrow> Some (Inl (Fault e))
          | Inr (ok, ms', c') \<Rightarrow> if ok then Some (Inr (ms @ ms', c'\<lparr>cl_rebinding := False, cl_notify := True\<rparr>))
              else loop w' (Suc k) (ms @ ms') c')) = Some r" "w' = w"
    show "P k c r"
    proof (cases "w_reply w k")
      case None
      with 1 have "r = Inr (ms, new_root c)" by simp
      with None show ?thesis
        by (auto simp: P_def new_root_def same_core_def cell_isRoot_def isEqual_def INVALID_ID_def)
    next
      case (Some rep)
      show ?thesis
      proof (cases "rebind w (w_connect w k) rep c")
        case (Inl e)
        with Some 1 have "r = Inl (Fault e)" by simp
        then show ?thesis by (simp add: P_def)
      next
        case (Inr x)
        then obtain ok ms1 c1 where x: "rebind w (w_connect w k) rep c = Inr (ok, ms1, c1)" by (cases x) auto
        note fr = rebind_frame [OF x]
        show ?thesis
        proof (cases ok)
          case True
          with Some x 1 have "r = Inr (ms @ ms1, c1\<lparr>cl_rebinding := False, cl_notify := True\<rparr>)" by simp
          with fr True show ?thesis by (simp add: P_def same_core_def bound_below_def)
        next
          case False
          with Some x 1 have "loop w (Suc k) (ms @ ms1) c1 = Some r" by simp
          then have "P (Suc k) c1 r" using 1(1) by blast
          with fr same_core_trans show ?thesis by (fastforce simp: P_def split: sum.splits dest: Suc_leD)
        qed
      qed
    qed
  qed
  then show ?thesis by (simp add: P_def)
qed

lemma fireRebind_loop_returns: "w_reply w (k + n) = None \<Longrightarrow> \<exists>res. fireRebind_loop w k ms c = Some res"
proof (induction n arbitrary: k ms c)
  case 0
  then show ?case by (subst fireRebind_loop.simps) simp
next
  case (Suc n)
  have "w_reply w (Suc k + n) = None" using Suc.prems by simp
  note IH = Suc.IH [OF this]
  show ?case by (subst fireRebind_loop.simps) (auto simp: IH split: option.splits sum.splits)
qed

text \<open>As long as every answer is one that cannot be bound to, the loop goes on.\<close>

lemma fireRebind_loop_diverges:
  assumes "\<And>j. \<exists>r. w_reply w j = Some r \<and> cr_parentAddr r = None"
  shows "fireRebind_loop w k ms c = None"
proof (rule ccontr)
  assume "fireRebind_loop w k ms c \<noteq> None"
  then obtain res where res: "fireRebind_loop w k ms c = Some res" by blast
  have "w = w \<longrightarrow> False"
  proof (rule fireRebind_loop.raw_induct [where P = "\<lambda>w' k ms c r. w' = w \<longrightarrow> False", OF _ res], rule impI)
    fix loop w' k ms c r
    assume 1: "\<And>w' k ms c r. loop w' k ms c = Some r \<Longrightarrow> w' = w \<longrightarrow> False"
      "(case w_reply w' k of None \<Rightarrow> Some (Inr (ms, new_root c))
        | Some r \<Rightarrow> (case rebind w' (w_connect w' k) r c of Inl e \<Rightarrow> Some (Inl (Fault e))
          | Inr (ok, ms', c') \<Rightarrow> if ok then Some (Inr (ms @ ms', c'\<lparr>cl_rebinding := False, cl_notify := True\<rparr>))
              else loop w' (Suc k) (ms @ ms') c')) = Some r" "w' = w"
    from assms obtain rep where "w_reply w k = Some rep" "cr_parentAddr rep = None" by blast
    with 1(2,3) obtain c1 ms1 where "loop w (Suc k) ms1 c1 = Some r"
      by (auto simp: rebind_def Let_def)
    then show False using 1(1) by blast
  qed
  then show False by simp
qed

section \<open>Steps\<close>

datatype cell_event =
    OnChannel stheno_header "mb_chain cell_packet"
  | OnNewChannel stheno_header "mb_chain cell_packet"
  | FromCoordinator stheno_header "mb_chain cell_packet"
  | OnDiscovery stheno_header
  | OnClose closed_channel
  | OwnUpdate info_update

definition drop_code :: "cell_error + (int \<times> cell_msg list \<times> cell) \<Rightarrow> (cell_error + (cell_msg list \<times> cell)) option" where
  "drop_code m = Some (res_bind m (\<lambda>(r, ms, c). Inr (ms, c)))"

fun cell_step :: "cell_world \<Rightarrow> (u32 \<Rightarrow> int) \<Rightarrow> cell_event \<Rightarrow> cell \<Rightarrow> (cell_error + (cell_msg list \<times> cell)) option" where
  "cell_step w setReply (OnChannel h b) c = drop_code (svc_handlePacket w setReply h b c)"
| "cell_step w setReply (OnNewChannel h b) c = drop_code (svc_open w h b c)"
| "cell_step w setReply (FromCoordinator h b) c = drop_code (follower_handlePacket w h b c)"
| "cell_step w setReply (OnDiscovery h) c = handleDiscoveryPacket w h c"
| "cell_step w setReply (OnClose ch) c = onClose w ch c"
| "cell_step w setReply (OwnUpdate upd) c = Some (updateState w upd c)"

text \<open>What the senders owe: peers have identifiers of 16 bytes, trees received are in order.\<close>

fun packet_fair :: "cell_world \<Rightarrow> stheno_header \<Rightarrow> mb_chain cell_packet \<Rightarrow> bool" where
  "packet_fair w h (JoinCellPacket e f disc mesh ft) = (length (sh_srcPID h) = 16)"
| "packet_fair w h (JoinMeshPacket ty u cell parent e disc mesh ft) = (length u = 16)"
| "packet_fair w h (RebindMeshPacket ty u cell parent e f disc mesh ft st) = (length u = 16 \<and> root_inv (read_tree w st))"
| "packet_fair w h _ = True"

fun event_fair :: "cell_world \<Rightarrow> cell_event \<Rightarrow> bool" where
  "event_fair w (OnChannel h b) = packet_fair w h b"
| "event_fair w (OnNewChannel h b) = packet_fair w h b"
| "event_fair w (FromCoordinator h b) = packet_fair w h b"
| "event_fair w _ = True"

definition world_fair :: "cell_world \<Rightarrow> bool" where
  "world_fair w = (env_ok (w_env w) \<and> (\<forall>h b st. w_joined w h b = Some st \<longrightarrow> root_inv (read_tree w (Some st))))"

text \<open>The states of a cell that was opened and then went through any sequence of fair events. Nothing ties
  the worlds of different steps together.\<close>

inductive reachable_cell :: "cell \<Rightarrow> bool" where
  opened: "Cell_ctor v pid raw = Inr c \<Longrightarrow> length pid = 16 \<Longrightarrow> world_fair w \<Longrightarrow> cell_open w b r c = Inr (ms, c') \<Longrightarrow>
    reachable_cell c'"
| step: "reachable_cell c \<Longrightarrow> world_fair w \<Longrightarrow> event_fair w ev \<Longrightarrow> cell_step w setReply ev c = Some (Inr (ms, c')) \<Longrightarrow>
    reachable_cell c'"

section \<open>The invariant\<close>

lemma handleJoinCell_wf:
  assumes "cell_wf c" "length (sh_srcPID h) = 16" "handleJoinCell w h e f disc mesh ft c = Inr (r, ms, c')"
  shows "cell_wf c'"
proof -
  let ?p = "\<lambda>root. P3PeerInfo_ctor SUPERPEER (sh_srcPID h) (ct_cellID (info root)) (Some e) mesh disc ft"
  from assms(3) obtain root where root: "cl_tree c = Root root"
    by (auto simp: handleJoinCell_def with_root_def split: root_ptr.splits)
  then have inv: "tree_inv root" "ct_depth (info root) = 0" using assms(1) by (simp_all add: cell_wf_def root_inv_def)
  have "pid_ok (?p root)" using assms(2) by (simp add: pid_ok_def getPID_def P3PeerInfo_ctor_def)
  then have "tree_inv (snd (node_add (?p root) root))" "ct_depth (info (snd (node_add (?p root) root))) = 0"
    using add_at_inv [OF inv(1), of "?p root" "[]"] add_at_depth [of "[]" "?p root" root] inv(2) by (simp_all add: add_at_def)
  with inv have "root_inv (cl_tree c') \<and> cl_pid c' = cl_pid c \<and> cl_sensors c' = cl_sensors c"
    using assms(3) root by (auto simp: handleJoinCell_def with_root_def Let_def case_prod_unfold root_inv_def split: if_splits)
  with cell_wf_frame [OF assms(1)] show ?thesis by blast
qed

lemma fireRebind_wf: "cell_wf c \<Longrightarrow> fireRebind w c = Some (Inr (ms, c')) \<Longrightarrow> cell_wf c'"
  using fireRebind_loop_outcome [of w 0 "[]" "c\<lparr>cl_rebinding := True\<rparr>" ms c']
  by (auto simp: fireRebind_def cell_wf_def same_core_def split: if_splits)

lemma node_list_same: "siblings t ! a = Some x \<Longrightarrow> Node (info t) ((siblings t)[a := Some x]) = t"
  by (metis list_update_id node.collapse)

lemma setPort_inv:
  assumes "tree_inv t"
  shows "tree_inv (setPort p port t) \<and> ct_depth (info (setPort p port t)) = ct_depth (info t)"
proof (cases "node_at p t")
  case None
  have "update_at q f t = t" if "node_at q t = None" for q t and f :: "node \<Rightarrow> node"
    using that by (induction q arbitrary: t) (auto split: option.splits if_splits simp: node_list_same)
  with None assms show ?thesis by (simp add: setPort_def)
next
  case (Some n)
  let ?f = "\<lambda>n. Node ((info n)\<lparr>ct_port := port\<rparr>) (siblings n)"
  have n: "tree_inv n" using tree_inv_at [OF assms Some] by blast
  have "slot_peers k ((info n)\<lparr>ct_port := port\<rparr>) = slot_peers k (info n)"
    "slot_max k ((info n)\<lparr>ct_port := port\<rparr>) = slot_max k (info n)" for k by (cases k; simp)+
  then have "cell_inv ((info n)\<lparr>ct_port := port\<rparr>)" using tree_inv_cell [OF n] by (simp add: cell_inv_def slot_inv_def)
  then have "tree_inv (?f n)" using tree_inv_cell_change [OF n, of "?f n"] by simp
  with tree_inv_update [OF assms Some, of ?f] show ?thesis by (simp add: setPort_def)
qed

lemma offer_cell_wf:
  assumes "cell_wf c" "env_ok (w_env w)" "offer_cell w c = Inr (p, port, c')"
  shows "cell_wf c'"
proof -
  have root: "root_inv (cl_tree c)" using assms(1) by (simp add: cell_wf_def)
  obtain r where r: "cl_tree c = Root r" using assms(3) by (auto simp: offer_cell_def with_root_def split: root_ptr.splits)
  show ?thesis
  proof (cases "getAvailableNode (ucast SUPERPEER) r")
    case None
    with assms(3) r obtain q t where q: "createCell (w_env w) (w_newID w) (cl_tree c) = Inr (q, t)"
      by (auto simp: offer_cell_def with_root_def res_bind_Inr_iff)
    with None assms(3) r obtain r' where t: "q = Some p" "t = Root r'"
      "c' = c\<lparr>cl_tree := Root (setPort p port r'), cl_startAllocationPort := port + 1\<rparr>"
      by (cases q; cases t) (auto simp: offer_cell_def with_root_def Let_def)
    have "root_inv t" by (rule createCell_inv [OF root assms(2) q])
    then have "root_inv (cl_tree c')" using t(2,3) setPort_inv [of r' p port] by (simp add: root_inv_def)
    with t(3) show ?thesis by (intro cell_wf_frame [OF assms(1)]) simp_all
  next
    case (Some q)
    with assms r show ?thesis by (simp add: offer_cell_def with_root_def)
  qed
qed

lemma handleDiscoveryPacket_wf:
  assumes "cell_wf c" "env_ok (w_env w)" "handleDiscoveryPacket w h c = Some (Inr (ms, c'))"
  shows "cell_wf c'"
proof -
  have "cell_wf c'" if "handleCellRequest w h c = Inr (ms, c')"
    using that assms(1) offer_cell_wf [OF assms(1,2)]
    by (auto simp: handleCellRequest_def res_bind_Inr_iff split: if_splits)
  moreover have "cell_wf c'" if "handleCoordinatorRequest w h c = Inr (ms, c')"
    using that assms(1) by (auto simp: handleCoordinatorRequest_def res_bind_Inr_iff Let_def split: if_splits option.splits)
  ultimately show ?thesis using assms fireRebind_wf [OF assms(1)]
    by (auto simp: handleDiscoveryPacket_def handleNetworkPartition_def split: if_splits)
qed

lemma bind_coordinator_wf:
  assumes "cell_wf c" "world_fair w" "bind_coordinator w co u e c = Inr (res, ms, c')"
  shows "cell_wf c'"
proof -
  have "root_inv (read_tree w (Some st))" if "client_joinMesh w d u = Inr (Some st, ms')" for st ms' d
    using that assms(2) by (auto simp: client_joinMesh_def world_fair_def Let_def split: option.splits prod.splits)
  then show ?thesis using assms(1,3)
    by (auto simp: bind_coordinator_def Let_def cell_wf_def split: if_splits sum.splits option.splits cell_error.splits prod.splits)
qed

lemma root_remove_wf:
  assumes "cell_wf c" "cl_tree c = Root root"
  shows "cell_wf (c\<lparr>cl_tree := Root (snd (node_remove u root))\<rparr>)"
proof -
  have inv: "tree_inv root" "ct_depth (info root) = 0" using assms by (simp_all add: cell_wf_def root_inv_def)
  have "siblings (snd (node_remove u root)) = siblings root" "ct_treeSpan (info (snd (node_remove u root))) = ct_treeSpan (info root)"
      "ct_depth (info (snd (node_remove u root))) = ct_depth (info root)"
    by (auto simp: node_remove_def Let_def split: option.splits)
  with tree_inv_cell_change [OF inv(1), of "snd (node_remove u root)"] node_remove_cell_inv [OF tree_inv_cell [OF inv(1)]] inv(2)
    assms(1) show ?thesis by (simp add: cell_wf_def root_inv_def)
qed

lemma handleCoordinatorFailure_wf:
  assumes "cell_wf c" "world_fair w" "handleCoordinatorFailure w u c = Some (Inr (ms, c'))"
  shows "cell_wf c'"
proof -
  from assms(3) obtain root where root: "cl_tree c = Root root"
    by (auto simp: handleCoordinatorFailure_def with_root_def split: root_ptr.splits)
  let ?c1 = "c\<lparr>cl_tree := Root (snd (node_remove u root))\<rparr>"
  have c1: "cell_wf ?c1" by (rule root_remove_wf [OF assms(1) root])
  then have c2: "cell_wf (?c1\<lparr>cl_coordinator := True\<rparr>)" by (simp add: cell_wf_def)
  have prune: "cell_wf (d\<lparr>cl_tree := t\<rparr>)" if "cell_wf d" "pruneSubtrees l (cl_tree d) = Inr t" for d :: cell and l t
    using that pruneSubtrees_inv [of "cl_tree d" l t] by (simp add: cell_wf_def)
  show ?thesis using assms(1,3) root
    by (auto simp: handleCoordinatorFailure_def with_root_def Let_def res_bind_Inr_iff
        split: option.splits if_splits sum.splits intro: prune fireRebind_wf [OF c2] c2 bind_coordinator_wf [OF c1 assms(2)])
qed

lemma onClose_wf:
  assumes "cell_wf c" "world_fair w" "onClose w ch c = Some (Inr (ms, c'))"
  shows "cell_wf c'"
proof (cases ch)
  case (ClientChannel u)
  have "cell_wf (c\<lparr>cl_client := None\<rparr>)" using assms(1) by (simp add: cell_wf_def)
  then show ?thesis using ClientChannel assms handleCoordinatorFailure_wf by auto
next
  case ParentChannel
  let ?c = "c\<lparr>cl_parentChannel := None, cl_parentUUID := None, cl_parentCellID := None, cl_parentDiscoverySAP := None,
    cl_parentMeshSAP := None, cl_parentFTSAP := None\<rparr>"
  have "cell_wf ?c" using assms(1) by (simp add: cell_wf_def)
  then show ?thesis using ParentChannel assms(3) fireRebind_wf by simp
next
  case (SvcChannel u cell)
  have "env_ok (w_env w)" using assms(2) by (simp add: world_fair_def)
  then show ?thesis using SvcChannel assms handler_wf(4) [OF assms(1), of w "replicate 16 0" u cell]
    by (auto simp: res_bind_Inr_iff)
qed

lemma start_groups_frame:
  "start_groups b c = Inr c' \<Longrightarrow> cl_pid c' = cl_pid c \<and> cl_sensors c' = cl_sensors c"
  by (auto simp: start_groups_def createSAP_def split: option.splits prod.splits)

lemma fresh_wf: "root_inv (cl_tree c) \<Longrightarrow> length (cl_pid c) = 16 \<Longrightarrow> cl_sensors c = (\<lambda>_. []) \<Longrightarrow> cell_wf c"
  by (simp add: cell_wf_def)

lemma connecToParentCoordinator_frame:
  "connecToParentCoordinator w co r a c = Inr (res, ms, c') \<Longrightarrow>
    cl_tree c' = cl_tree c \<and> cl_pid c' = cl_pid c \<and> cl_sensors c' = cl_sensors c"
  unfolding connecToParentCoordinator_def by (drule bind_parent_frame) auto

lemma joinCoordinator_wf:
  assumes "joinCoordinator w b r c = Inr (ms, c')" "env_ok (w_env w)" "length (cl_pid c) = 16" "cl_sensors c = (\<lambda>_. [])"
  shows "cell_wf c'"
proof -
  from assms(1) obtain c1 ft x t where j: "start_groups b c = Inr c1" "w_ftSAP w = Some ft"
    "addPeer (P3PeerInfo_ctor SUPERPEER_COORD (cl_pid c1) (cl_cellID c1) (cl_acceptor c1) (w_meshSAP w) (w_discoverySAP w) ft)
       (CellTree_ctor (w_env w) (cl_cellID c1)) = Inr (x, t)"
    by (auto simp: joinCoordinator_def res_bind_Inr_iff Let_def split: option.splits)
  have c1: "length (cl_pid c1) = 16" "cl_sensors c1 = (\<lambda>_. [])" using start_groups_frame [OF j(1)] assms(3,4) by simp_all
  then have "pid_ok (P3PeerInfo_ctor ty (cl_pid c1) f e m d q)" for ty f e m d q
    by (simp add: pid_ok_def getPID_def P3PeerInfo_ctor_def)
  from addPeer_inv [OF ctor_root_inv [OF assms(2)] this j(3)] have t: "root_inv t" .
  have alone: "cell_wf (c1\<lparr>cl_tree := t, cl_notify := True\<rparr>)" using c1 t by (intro fresh_wf) simp_all
  show ?thesis
  proof (cases "\<exists>reply. r = Some reply \<and> cr_parentAddr reply \<noteq> None")
    case True
    then obtain reply where reply: "r = Some reply" "cr_parentAddr reply \<noteq> None" by blast
    from assms(1) j reply obtain a :: cell_addr where a: "cr_parentCell reply = Some a"
      by (cases "cr_parentCell reply") (simp_all add: joinCoordinator_def)
    obtain y where y: "connecToParentCoordinator w (w_connect w 0) reply a (c1\<lparr>cl_tree := t\<rparr>) = Inr y"
      using assms(1) j reply a by (auto simp: joinCoordinator_def res_bind_Inr_iff)
    with assms(1) j reply a obtain res c3 where c3: "y = (res, ms, c3)" "c' = c3\<lparr>cl_notify := True\<rparr>"
      by (cases y; cases "fst y") (auto simp: joinCoordinator_def)
    from connecToParentCoordinator_frame [OF y [unfolded c3(1)]] c1 t c3(2) show ?thesis by (intro fresh_wf) simp_all
  next
    case False
    with assms(1) j alone show ?thesis by (cases r) (simp_all add: joinCoordinator_def)
  qed
qed

lemma joinNonCoordinator_wf:
  assumes "joinNonCoordinator w b r c = Inr (ms, c')" "world_fair w" "length (cl_pid c) = 16" "cl_sensors c = (\<lambda>_. [])"
    "root_inv (cl_tree c)"
  shows "cell_wf c'"
proof -
  from assms(1) obtain c1 u x where c1: "start_groups b (c\<lparr>cl_parentUUID := cr_uuid r\<rparr>) = Inr c1"
    "bind_coordinator w (w_connect w 0) u (cr_addr r) c1 = Inr x"
    "(case x of (res, ms, c2) \<Rightarrow> (case res of Inl x \<Rightarrow> Inl x | Inr _ \<Rightarrow> Inr (ms, c2))) = Inr (ms, c')"
    by (cases "cr_uuid r") (auto simp: joinNonCoordinator_def res_bind_Inr_iff)
  obtain res where res: "x = (res, ms, c')" using c1(3) by (cases x) (auto split: sum.splits)
  have "cl_tree c1 = cl_tree c"
    using c1(1) by (auto simp: start_groups_def createSAP_def split: option.splits prod.splits)
  with start_groups_frame [OF c1(1)] assms(3-5) have "cell_wf c1" by (intro fresh_wf) simp_all
  then show ?thesis using bind_coordinator_wf [OF _ assms(2)] c1(2) res by blast
qed

lemma cell_open_wf:
  assumes "cell_open w b r c = Inr (ms, c')" "world_fair w" "length (cl_pid c) = 16" "cl_sensors c = (\<lambda>_. [])"
    "root_inv (cl_tree c)"
  shows "cell_wf c'"
proof -
  have flags: "cell_wf (d\<lparr>cl_started := True, cl_rebinding := False, cl_discovery := True\<rparr>)"
    "cell_wf (d\<lparr>cl_parentDiscoverySAP := s, cl_started := True, cl_rebinding := False, cl_discovery := True\<rparr>)"
    if "cell_wf d" for d s using that by (simp_all add: cell_wf_def)
  have env: "env_ok (w_env w)" using assms(2) by (simp add: world_fair_def)
  show ?thesis using assms(1) joinCoordinator_wf [OF _ env] joinNonCoordinator_wf [OF _ assms(2)] assms(3-5)
    by (auto simp: cell_open_def Let_def res_bind_Inr_iff split: option.splits if_splits intro!: flags)
qed

lemma svc_handlePacket_wf:
  assumes "cell_wf c" "env_ok (w_env w)" "packet_fair w h b" "svc_handlePacket w setReply h b c = Inr (r, ms, c')"
  shows "cell_wf c'"
  using assms handleJoinCell_wf [OF assms(1)] handler_wf(1) [OF assms(1,2)]
    handler_wf(5,7) [OF assms(1,2), where u = "replicate 16 0"]
  by (cases b) auto

lemma svc_open_wf:
  assumes "cell_wf c" "env_ok (w_env w)" "packet_fair w h b" "svc_open w h b c = Inr (r, ms, c')"
  shows "cell_wf c'"
  using assms handleJoinCell_wf [OF assms(1)] handler_wf(1,10) [OF assms(1,2)]
    handler_wf(7) [OF assms(1,2), where u = "replicate 16 0"]
  by (cases b) (auto simp: res_bind_Inr_iff)

lemma follower_handlePacket_wf:
  assumes "cell_wf c" "env_ok (w_env w)" "packet_fair w h b" "follower_handlePacket w h b c = Inr (r, ms, c')"
  shows "cell_wf c'"
  using assms handler_wf(2,3) [OF assms(1,2)] handler_wf(6,8) [OF assms(1,2), where u = "replicate 16 0"]
  by (cases b) auto

lemma step_wf:
  assumes "cell_wf c" "world_fair w" "event_fair w ev" "cell_step w setReply ev c = Some (Inr (ms, c'))"
  shows "cell_wf c'"
proof -
  have env: "env_ok (w_env w)" using assms(2) by (simp add: world_fair_def)
  show ?thesis
    using assms svc_handlePacket_wf [OF assms(1) env] svc_open_wf [OF assms(1) env]
      follower_handlePacket_wf [OF assms(1) env] handleDiscoveryPacket_wf [OF assms(1) env]
      onClose_wf [OF assms(1,2)] handler_wf(9) [OF assms(1) env, where u = "replicate 16 0"]
    by (cases ev) (auto simp: drop_code_def res_bind_Inr_iff)
qed

lemma ctor_fresh:
  "Cell_ctor w pid raw = Inr c \<Longrightarrow> cl_pid c = pid \<and> cl_sensors c = (\<lambda>_. []) \<and> cl_tree c = NullRoot"
  by (auto simp: Cell_ctor_def res_bind_Inr_iff)

section \<open>A cell that can be run\<close>

definition sample_world :: cell_world where
  "sample_world = \<lparr>w_env = sample_env, w_pos = (\<lambda>_ _. 0), w_raw = sample_raw, w_string = (\<lambda>_. Some ''eth0''),
     w_short = (\<lambda>_. Some 4000), w_newID = replicate 16 7, w_rand = 9, w_discoverySAP = None, w_meshSAP = None,
     w_ftSAP = Some None, w_parent = (\<lambda>_ _. False), w_joined = (\<lambda>_ _. None), w_sent = 0, w_reply = (\<lambda>_. None),
     w_connect = (\<lambda>_. \<lparr>co_connect = True, co_async = True, co_listener = True\<rparr>)\<rparr>"

definition sample_binds :: bind_world where
  "sample_binds = \<lparr>bw_maxBinds = Some 1, bw_binds = (\<lambda>k. if k = 2 then Some (sample_endpoint 10) else None),
     bw_fbinds = (\<lambda>_. Some (sample_endpoint 20))\<rparr>"

definition sample_blank :: cell where
  "sample_blank = \<lparr>cl_pid = [], cl_cellID = [], cl_fid = [], cl_parentCellID = None, cl_parentUUID = None,
     cl_parentDiscoverySAP = None, cl_parentMeshSAP = None, cl_parentFTSAP = None, cl_coordinator = False,
     cl_started = False, cl_rebinding = True, cl_closed = False, cl_startAllocationPort = 0, cl_tree = NullRoot,
     cl_parentChannel = None, cl_client = None, cl_acceptor = None, cl_followerAcceptor = None, cl_followers = [],
     cl_children = [], cl_sensors = (\<lambda>_. []), cl_discovery = False, cl_rootDiscovery = False, cl_notify = False\<rparr>"

text \<open>The first superpeer of an overlay: the coordinator of the root cell.\<close>

definition sample_opened :: "cell_error + (cell_msg list \<times> cell)" where
  "sample_opened = res_bind (Cell_ctor sample_world (replicate 16 1) sample_blank) (cell_open sample_world sample_binds None)"

definition sample_root :: cell where
  "sample_root = (case sample_opened of Inl e \<Rightarrow> sample_blank | Inr (ms, c) \<Rightarrow> c)"

lemma sample_world_fair: "world_fair sample_world"
  using sample_env_ok by (simp add: world_fair_def sample_world_def)

lemma sample_runs: "case sample_opened of Inl e \<Rightarrow> False | Inr (ms, c) \<Rightarrow> True"
  by code_simp

lemma sample_root_opened: "\<exists>c ms. Cell_ctor sample_world (replicate 16 1) sample_blank = Inr c
    \<and> cell_open sample_world sample_binds None c = Inr (ms, sample_root)"
  using sample_runs
  by (cases "Cell_ctor sample_world (replicate 16 1) sample_blank")
     (auto simp: sample_root_def sample_opened_def split: sum.splits)

text \<open>C1: every reachable cell is in order. Whatever packets, closed channels, discovery requests and updates of its
  own a cell goes through after it was opened, in worlds that differ from step to step, as long as
  peers have identifiers of 16 bytes and received trees are in order: no cell of its tree lists a peer
  twice or more peers than it has slots for, child cells are where their location says, and its lists of sensors have
  no sensor twice and none of another kind.\<close>

theorem reachable_cell_invariant: "reachable_cell c \<Longrightarrow> cell_wf c"
proof (induction rule: reachable_cell.induct)
  case (opened v pid raw c w b r ms c')
  then show ?case using ctor_fresh [OF opened.hyps(1)] by (intro cell_open_wf [OF opened.hyps(4,3)]) (simp_all add: root_inv_def)
next
  case (step c w ev setReply ms c')
  then show ?case using step_wf by blast
qed

definition sample_join :: cell_event where
  "sample_join = OnNewChannel (SthenoHeader_ctor (replicate 16 2) (replicate 16 7) (replicate 16 1) (replicate 16 7) 0x11 5 0)
     (JoinCellPacket (sample_endpoint 11) (sample_endpoint 21) None None None)"

definition sample_joined :: cell where
  "sample_joined = (case cell_step sample_world (\<lambda>_. 0) sample_join sample_root of
      Some (Inr (ms, c)) \<Rightarrow> c | _ \<Rightarrow> sample_blank)"

lemma sample_join_step: "\<exists>ms. cell_step sample_world (\<lambda>_. 0) sample_join sample_root = Some (Inr (ms, sample_joined))"
proof -
  have "case cell_step sample_world (\<lambda>_. 0) sample_join sample_root of Some (Inr (ms, c)) \<Rightarrow> True | _ \<Rightarrow> False" by code_simp
  then show ?thesis by (auto simp: sample_joined_def split: option.splits sum.splits)
qed

lemma sample_joined_wf: "cell_wf sample_joined"
proof -
  from sample_root_opened obtain c ms where c: "Cell_ctor sample_world (replicate 16 1) sample_blank = Inr c"
    "cell_open sample_world sample_binds None c = Inr (ms, sample_root)" by blast
  have root: "cell_wf sample_root"
    using ctor_fresh [OF c(1)] by (intro cell_open_wf [OF c(2) sample_world_fair]) (simp_all add: root_inv_def)
  obtain ms' where step: "cell_step sample_world (\<lambda>_. 0) sample_join sample_root = Some (Inr (ms', sample_joined))"
    using sample_join_step by blast
  show ?thesis by (rule step_wf [OF root sample_world_fair _ step]) (simp add: sample_join_def SthenoHeader_ctor_def)
qed

theorem reachable_cell_invariant_witness:
  "reachable_cell sample_joined \<and> cell_wf sample_joined
   \<and> (case cl_tree sample_joined of Root r \<Rightarrow> map getPID (ct_sps (info r)) = [replicate 16 1, replicate 16 2] | _ \<Rightarrow> False)"
proof -
  from sample_root_opened obtain c ms where "Cell_ctor sample_world (replicate 16 1) sample_blank = Inr c"
    "cell_open sample_world sample_binds None c = Inr (ms, sample_root)" by blast
  from reachable_cell.opened [OF this(1) _ sample_world_fair this(2)] have root: "reachable_cell sample_root" by simp
  obtain ms' where "cell_step sample_world (\<lambda>_. 0) sample_join sample_root = Some (Inr (ms', sample_joined))"
    using sample_join_step by blast
  from reachable_cell.step [OF root sample_world_fair _ this] have r: "reachable_cell sample_joined"
    by (simp add: sample_join_def SthenoHeader_ctor_def)
  have "case cl_tree sample_joined of Root r \<Rightarrow> map getPID (ct_sps (info r)) = [replicate 16 1, replicate 16 2] | _ \<Rightarrow> False"
    by code_simp
  with r reachable_cell_invariant [OF r] show ?thesis by blast
qed

end
