(* ===== verification/CellReplication.thy ===== *)
theory CellReplication
  imports CellRuns
begin

text \<open>
  A cell is replicated: the coordinator changes its tree and forwards what changed it, through
  \<^verbatim>\<open>CellGroup\<close>, to the followers, which repeat the change (\<^verbatim>\<open>handleCoordinatorJoinMesh\<close> and its siblings).
  This theory states the agreement of a primary with its backups as an interface, shows that coordinator and
  follower satisfy it, and says for which requests they do not.
\<close>

section \<open>A primary and its backups\<close>

text \<open>Runs of a primary that turns requests into messages, and of a backup that takes its messages in order;
  either stops at its first error.\<close>

fun run_out :: "('r \<Rightarrow> 's \<Rightarrow> 'e + ('m list \<times> 's)) \<Rightarrow> 'r list \<Rightarrow> 's \<Rightarrow> 'e + ('m list \<times> 's)" where
  "run_out f [] s = Inr ([], s)"
| "run_out f (r # rs) s = res_bind (f r s) (\<lambda>(ms, s'). res_bind (run_out f rs s') (\<lambda>(ms', s''). Inr (ms @ ms', s'')))"

fun run_in :: "('i \<Rightarrow> 's \<Rightarrow> 'e + 's) \<Rightarrow> 'i list \<Rightarrow> 's \<Rightarrow> 'e + 's" where
  "run_in f [] s = Inr s"
| "run_in f (i # is) s = res_bind (f i s) (run_in f is)"

lemma run_in_append: "run_in f (xs @ ys) s = res_bind (run_in f xs s) (run_in f ys)"
  by (induction xs arbitrary: s) (auto simp: res_bind_def split: sum.splits)

text \<open>A backup that follows every single request follows any sequence of them, however late it takes the
  messages.\<close>

locale primary_backup =
  fixes serve :: "'r \<Rightarrow> 'p \<Rightarrow> 'e + ('m list \<times> 'p)"
    and follow :: "'i \<Rightarrow> 'b \<Rightarrow> 'e + 'b"
    and inbox :: "'m list \<Rightarrow> 'i list"
    and agree :: "'p \<Rightarrow> 'b \<Rightarrow> bool"
    and ok :: "'r \<Rightarrow> bool"
  assumes inbox_nil: "inbox [] = []"
    and inbox_append: "inbox (ms @ ms') = inbox ms @ inbox ms'"
    and one_request: "agree p b \<Longrightarrow> ok r \<Longrightarrow> serve r p = Inr (ms, p') \<Longrightarrow>
      \<exists>b'. run_in follow (inbox ms) b = Inr b' \<and> agree p' b'"
begin

lemma requests_followed:
  "agree p b \<Longrightarrow> list_all ok rs \<Longrightarrow> run_out serve rs p = Inr (ms, p') \<Longrightarrow>
    \<exists>b'. run_in follow (inbox ms) b = Inr b' \<and> agree p' b'"
proof (induction rs arbitrary: p b ms)
  case Nil
  then show ?case by (simp add: inbox_nil)
next
  case (Cons r rs)
  then obtain ms1 p1 ms2 where run: "serve r p = Inr (ms1, p1)" "run_out serve rs p1 = Inr (ms2, p')" "ms = ms1 @ ms2"
    by (auto simp: res_bind_Inr_iff)
  from one_request [OF Cons.prems(1) _ run(1)] Cons.prems(2) obtain b1
    where b1: "run_in follow (inbox ms1) b = Inr b1" "agree p1 b1" by auto
  from Cons.IH [OF b1(2) _ run(2)] Cons.prems(2) b1(1) run(3) show ?case by (auto simp: run_in_append inbox_append)
qed

end

section \<open>The root cell keeps its identifier\<close>

definition home :: "uuid \<Rightarrow> root_ptr \<Rightarrow> bool" where
  "home u t = (case t of Root n \<Rightarrow> ct_cellID (info n) = u | _ \<Rightarrow> True)"

lemma home_simps [simp]: "home u (Root n) \<longleftrightarrow> ct_cellID (info n) = u" "home u NullRoot" "home u Dangling"
  by (simp_all add: home_def)

lemma root_id_update [simp]:
  "(\<And>n. ct_cellID (info (f n)) = ct_cellID (info n)) \<Longrightarrow> ct_cellID (info (update_at p f t)) = ct_cellID (info t)"
  by (cases p) (auto split: option.splits)

lemma root_id_replace: "node_at p t = Some n \<Longrightarrow> ct_cellID (info m) = ct_cellID (info n) \<Longrightarrow>
    ct_cellID (info (update_at p (\<lambda>_. m) t)) = ct_cellID (info t)"
  by (cases p) (auto split: option.splits)

lemma find_home: "ct_cellID (info r) = u \<Longrightarrow> getCellTreeNode_i u r = Some []"
  by (cases r) (simp add: getCellTreeNode_i_def isEqual_def)

lemma addPeer_home: "home u t \<Longrightarrow> addPeer peer t = Inr (r, t') \<Longrightarrow> home u t'"
  by (auto simp: addPeer_def with_root_def add_at_def Let_def split: root_ptr.splits option.splits)

lemma create_at_home: "create_at env v p t = Some (q, t') \<Longrightarrow> ct_cellID (info t') = ct_cellID (info t)"
  by (auto simp: create_at_def createSibling_iff setSibbling_def split: option.splits intro!: root_id_replace)

lemma addPeer_parent_home: "home u t \<Longrightarrow> addPeer_parent env peer v t = Inr (r, t') \<Longrightarrow> home u t'"
  by (auto simp: addPeer_parent_def with_root_def add_at_def Let_def create_at_home
      split: root_ptr.splits option.splits)

lemma leave_tree_home: "home u t \<Longrightarrow> leave_tree v cell t = Inr (r, t') \<Longrightarrow> home u t'"
proof -
  have "ct_cellID (info (snd (node_remove v n))) = ct_cellID (info n)" for n
    by (auto simp: node_remove_def Let_def split: option.splits)
  then show "home u t \<Longrightarrow> leave_tree v cell t = Inr (r, t') \<Longrightarrow> home u t'"
    by (auto simp: leave_tree_def with_root_def Let_def case_prod_unfold res_bind_Inr_iff removeSubtree_def clear_at_def
        setSibbling_def root_id_replace split: root_ptr.splits option.splits if_splits)
qed

lemma on_peer_home: "home u t \<Longrightarrow> on_peer fid pid f t = Inr (Some t') \<Longrightarrow> home u t'"
  by (auto simp: on_peer_def with_root_def split: root_ptr.splits option.splits if_splits)

lemma mesh_update_home: "home u t \<Longrightarrow> mesh_update pos upd t = Inr (Some t') \<Longrightarrow> home u t'"
  by (cases upd) (auto intro: on_peer_home)

section \<open>Coordinator and follower\<close>

text \<open>A follower agrees with its coordinator when tree, cell and sensors are the same. The coordinator lists
  it once, and the root of the tree is the cell itself.\<close>

definition in_step :: "uuid \<Rightarrow> cell \<Rightarrow> cell \<Rightarrow> bool" where
  "in_step m co fo = (cl_tree fo = cl_tree co \<and> cl_cellID fo = cl_cellID co \<and> cl_sensors fo = cl_sensors co
     \<and> cl_coordinator co \<and> m \<in> set (cl_followers co) \<and> distinct (cl_followers co)
     \<and> home (cl_cellID co) (cl_tree co))"

text \<open>The packets among the messages of a coordinator that go to one follower.\<close>

fun for_follower :: "uuid \<Rightarrow> cell_msg \<Rightarrow> (stheno_header \<times> mb_chain cell_packet) option" where
  "for_follower m (ToFollower u h b) = (if u = m then Some (h, b) else None)"
| "for_follower m _ = None"

definition inbox :: "uuid \<Rightarrow> cell_msg list \<Rightarrow> (stheno_header \<times> mb_chain cell_packet) list" where
  "inbox m ms = List.map_filter (for_follower m) ms"

lemma map_filter_append: "List.map_filter f (xs @ ys) = List.map_filter f xs @ List.map_filter f ys"
  by (simp add: List.map_filter_def)

lemma inbox_simps [simp]:
  "inbox m [] = []" "inbox m (ms @ ms') = inbox m ms @ inbox m ms'"
  "inbox m (ToParent h b # ms) = inbox m ms" "inbox m (ToCoordinator h b # ms) = inbox m ms"
  "inbox m (Reply h b # ms) = inbox m ms" "inbox m (Multicast h d # ms) = inbox m ms"
  "inbox m (ToFollower u h b # ms) = (if u = m then [(h, b)] else []) @ inbox m ms"
  by (simp_all add: inbox_def map_filter_append map_filter_simps)

lemma inbox_ask_parent [simp]: "inbox m (snd (ask_parent w c pid fid b)) = []"
  by (simp add: ask_parent_def Let_def)

lemma inbox_if_parent: "(\<And>ch. inbox m (snd (f ch)) = []) \<Longrightarrow> inbox m (snd (if_parent c v f)) = []"
  by (simp add: if_parent_def split: option.splits)

lemma inbox_group_send:
  assumes "m \<in> set (cl_followers c)" "distinct (cl_followers c)" "\<not> isEqual m u"
  shows "inbox m (group_send c u b) = [(packet_to c m (cl_cellID c) b, b)]"
proof -
  have "inbox m (map (\<lambda>m. ToFollower m (packet_to c m (cl_cellID c) b) b) l) = map (\<lambda>m. (packet_to c m (cl_cellID c) b, b)) (filter (\<lambda>x. x = m) l)" for l
    by (induction l) auto
  moreover have "filter (\<lambda>x. \<not> isEqual x u \<and> x = m) l = [m]" if "distinct l" "m \<in> set l" for l
    using that assms(3) by (induction l) (auto simp: filter_empty_conv)
  ultimately show ?thesis using assms by (simp add: group_send_def)
qed

text \<open>The requests a follower can repeat: not about the follower itself, and, for a join, into a cell of the tree
  or with a parent the follower is told of as well.\<close>

fun repeatable :: "uuid \<Rightarrow> uuid \<Rightarrow> stheno_header \<Rightarrow> mb_chain cell_packet \<Rightarrow> bool" where
  "repeatable cellID m h (JoinCellPacket e f disc mesh ft) = (sh_srcFID h = cellID \<and> \<not> isEqual m (sh_srcPID h))"
| "repeatable cellID m h (JoinMeshPacket ty u cell parent e disc mesh ft) =
     (\<not> isEqual m u \<and> (cell = cellID \<or> \<not> isEqual cellID cell \<and> ty \<noteq> SENSOR \<and> ty \<noteq> MONITOR \<and> parent \<noteq> None))"
| "repeatable cellID m h (LeaveMeshPacket u cell) = (\<not> isEqual m u)"
| "repeatable cellID m h (UpdateInfoPacket st) =
     (\<not> isEqual m (sh_srcPID h) \<and> (case packet_update st of Inl e \<Rightarrow> True | Inr upd \<Rightarrow> update_ok upd))"
| "repeatable cellID m h _ = True"

definition follow1 :: "cell_world \<Rightarrow> stheno_header \<times> mb_chain cell_packet \<Rightarrow> cell \<Rightarrow> cell_error + cell" where
  "follow1 w = (\<lambda>(h, b) c. res_bind (follower_handlePacket w h b c) (\<lambda>(r, ms, c'). Inr c'))"

definition serve1 :: "cell_world \<times> (u32 \<Rightarrow> int) \<times> stheno_header \<times> mb_chain cell_packet \<Rightarrow> cell \<Rightarrow>
    cell_error + (cell_msg list \<times> cell)" where
  "serve1 = (\<lambda>(w, setReply, h, b) c. res_bind (svc_handlePacket w setReply h b c) (\<lambda>(r, ms, c'). Inr (ms, c')))"

lemma addPeer_parent_known:
  "home (getFID peer) t \<Longrightarrow> addPeer_parent env peer u t = addPeer peer t"
  by (auto simp: addPeer_parent_def addPeer_def with_root_def find_home split: root_ptr.splits)

lemma isEqual_refl [simp]: "isEqual u u"
  by (simp add: isEqual_def)

lemma getFID_ctor [simp]: "getFID (P3PeerInfo_ctor ty u cell e mesh disc ft) = cell"
  by (simp add: getFID_def P3PeerInfo_ctor_def)

lemma join_mesh_step:
  assumes step: "in_step m co fo"
    and rep: "repeatable (cl_cellID co) m h (JoinMeshPacket ty u cell parent e disc mesh ft)"
    and env: "w_env v = w_env w"
    and handled: "handleJoinMesh w h ty u cell parent e disc mesh ft co = Inr (r, ms, co')"
  shows "\<exists>fo'. run_in (follow1 v) (inbox m ms) fo = Inr fo' \<and> in_step m co' fo'"
proof -
  let ?peer = "P3PeerInfo_ctor ty u cell e mesh disc ft"
  define par where "par = (if ty = SENSOR \<or> ty = MONITOR then Some (cl_cellID co) else parent)"
  define add where "add = (case par of None \<Rightarrow> addPeer ?peer (cl_tree co) | Some p \<Rightarrow> addPeer_parent (w_env w) ?peer p (cl_tree co))"
  note h = handled [unfolded handleJoinMesh_def Let_def par_def [symmetric], folded add_def]
  from h obtain ret t where t: "add = Inr (ret, t)" by (auto simp: res_bind_Inr_iff)
  have co': "co' = co\<lparr>cl_tree := t\<rparr>" using h unfolding t by (simp add: case_prod_unfold)
  define up where "up = (if ret = 0 then if_parent co' True (\<lambda>ch. joinSiblingPeer w co' ch ty u cell par e disc mesh ft) else (False, []))"
  have ms: "ms = snd up @ joinPeer co' ty u cell parent e disc mesh ft @ [reply_to co' h (JoinMeshReplyPacket (sh_requestID h) (fst up))]"
    using h unfolding t up_def co' by (cases "ret = 0") (simp_all add: case_prod_unfold)
  have "home (cl_cellID co) (cl_tree co)" using step by (simp add: in_step_def)
  then have home: "home (cl_cellID co) t"
    using t addPeer_home [of _ "cl_tree co" ?peer ret t] addPeer_parent_home [of _ "cl_tree co" "w_env w" ?peer _ ret t]
    by (cases par) (simp_all add: add_def)
  have "inbox m (snd up) = []" by (simp add: up_def inbox_if_parent joinSiblingPeer_def)
  then have box: "inbox m ms = [(packet_to co' m (cl_cellID co) b, b)]"
    if "b = JoinMeshPacket ty u cell parent e disc mesh ft" for b
    using that inbox_group_send [of m co' u b] co' step rep by (simp add: ms joinPeer_def reply_to_def in_step_def)
  have "(if isEqual (cl_cellID fo) cell then addPeer ?peer (cl_tree fo) else addPeer_ptr (w_env v) ?peer parent (cl_tree fo)) = add"
  proof (cases "cell = cl_cellID co")
    case True
    then show ?thesis using step by (auto simp: in_step_def add_def addPeer_parent_known split: option.splits)
  next
    case False
    then show ?thesis using step rep env by (auto simp: in_step_def addPeer_ptr_def add_def par_def)
  qed
  then have "handleCoordinatorJoinMesh v h' ty u cell parent e disc mesh ft fo
      = Inr (0, [reply_to (fo\<lparr>cl_tree := t\<rparr>) h' (JoinMeshReplyPacket (sh_requestID h') True)], fo\<lparr>cl_tree := t\<rparr>)" for h'
    using t by (simp add: handleCoordinatorJoinMesh_def Let_def)
  then show ?thesis using box co' step home by (simp add: follow1_def in_step_def)
qed

lemma node_add_full:
  "\<not> hasAvailableSlotsForPeer (ucast SUPERPEER) n \<Longrightarrow> getType peer = SUPERPEER \<Longrightarrow> node_add peer n = (-1, n)"
  by (auto simp: hasAvailableSlotsForPeer_def node_add_def slot_of_def SUPERPEER_def Let_def)

lemma join_cell_step:
  assumes step: "in_step m co fo"
    and rep: "repeatable (cl_cellID co) m h (JoinCellPacket e f disc mesh ft)"
    and handled: "handleJoinCell w h e f disc mesh ft co = Inr (r, ms, co')"
  shows "\<exists>fo'. run_in (follow1 v) (inbox m ms) fo = Inr fo' \<and> in_step m co' fo'"
proof -
  from handled obtain root where root: "cl_tree co = Root root"
    by (auto simp: handleJoinCell_def with_root_def split: root_ptr.splits)
  let ?peer = "P3PeerInfo_ctor SUPERPEER (sh_srcPID h) (cl_cellID co) (Some e) mesh disc ft"
  let ?t = "Root (snd (node_add ?peer root))"
  have id: "ct_cellID (info root) = cl_cellID co" using step root by (simp add: in_step_def)
  have "snd (node_add ?peer root) = (if hasAvailableSlotsForPeer (ucast SUPERPEER) root then snd (node_add ?peer root) else root)"
    using node_add_full [of root ?peer] by (simp add: getType_def P3PeerInfo_ctor_def)
  moreover from handled root id have "co' = co\<lparr>cl_tree := Root (if hasAvailableSlotsForPeer (ucast SUPERPEER) root then snd (node_add ?peer root) else root)\<rparr>"
    by (simp only: handleJoinCell_def with_root_def Let_def case_prod_unfold root_ptr.case fault_simps sum.inject prod.inject simp_thms)
  ultimately have co': "co' = co\<lparr>cl_tree := ?t\<rparr>" by simp
  have box: "inbox m ms = [(packet_to co' m (cl_cellID co) b, b)]"
    if "b = JoinMeshPacket SUPERPEER (sh_srcPID h) (cl_cellID co) None (Some e) disc mesh ft" for b
    using handled root co' rep step inbox_group_send [of m co' "sh_srcPID h"] id that
    by (auto simp: handleJoinCell_def with_root_def Let_def case_prod_unfold joinPeer_def reply_to_def in_step_def
        joinSiblingPeer_def intro!: inbox_if_parent)
  have "addPeer ?peer (cl_tree fo) = Inr (fst (node_add ?peer root), ?t)"
    using step root find_home [OF id] by (simp add: in_step_def addPeer_def with_root_def add_at_def case_prod_unfold Let_def)
  then have "handleCoordinatorJoinMesh v h' SUPERPEER (sh_srcPID h) (cl_cellID co) None (Some e) disc mesh ft fo
      = Inr (0, [reply_to (fo\<lparr>cl_tree := ?t\<rparr>) h' (JoinMeshReplyPacket (sh_requestID h') True)], fo\<lparr>cl_tree := ?t\<rparr>)" for h'
    using step by (simp add: handleCoordinatorJoinMesh_def Let_def in_step_def)
  then show ?thesis using box co' step id by (simp add: follow1_def in_step_def)
qed

lemma leave_step:
  assumes step: "in_step m co fo" and rep: "\<not> isEqual m u"
    and handled: "handleLeaveMesh w h u cell co = Inr (r, ms, co')"
  shows "\<exists>fo'. run_in (follow1 v) (inbox m ms) fo = Inr fo' \<and> in_step m co' fo'"
proof -
  from handled obtain st t where t: "leave_tree u cell (cl_tree co) = Inr (st, t)" "co' = co\<lparr>cl_tree := t\<rparr>"
    by (auto simp: handleLeaveMesh_def Let_def case_prod_unfold res_bind_Inr_iff)
  have home: "home (cl_cellID co) t" using t(1) step leave_tree_home by (auto simp: in_step_def)
  have box: "inbox m ms = [(packet_to co' m (cl_cellID co) b, b)]" if "b = LeaveMeshPacket u cell" for b
    using handled t rep step inbox_group_send [of m co' u] that
    by (auto simp: handleLeaveMesh_def Let_def case_prod_unfold leftPeer_def reply_to_def in_step_def
        leftSiblingPeer_def intro!: inbox_if_parent)
  have "handleCoordinatorLeaveMesh v h' u cell fo
      = Inr (w_sent v, [reply_to (fo\<lparr>cl_tree := t\<rparr>) h' (LeaveMeshReplyPacket (sh_requestID h') st)], fo\<lparr>cl_tree := t\<rparr>)" for h'
    using t step by (simp add: handleCoordinatorLeaveMesh_def Let_def in_step_def)
  then show ?thesis using box t(2) step home by (simp add: follow1_def in_step_def)
qed

lemma packet_update_back: "update_ok upd \<Longrightarrow> packet_update (Some (one_block (encode (InfoUpdate_serialize upd)))) = Inr upd"
  using update_back [of upd "[]"]
  by (simp add: packet_update_def state_bytes_def one_block_def chain_data_def blk_data_def blk_length_def)

lemma processUpdateInfo_iff:
  "processUpdateInfo w upd c = Inr (r, c') \<longleftrightarrow> r = 0 \<and>
     ((\<exists>op u e k. upd = SensorInfoUpdate op u e \<and> sensor_kind_of op = Some k \<and> c' = add_sensor k op u e c)
      \<or> (\<exists>t. mesh_update (w_pos w) upd (cl_tree c) = Inr (Some t) \<and> c' = c\<lparr>cl_tree := t\<rparr>))"
proof -
  have mesh: "res_bind m (\<lambda>done. case done of Some t \<Rightarrow> Inr (0, c\<lparr>cl_tree := t\<rparr>) | None \<Rightarrow> Inl NULL_DEREF) = Inr (r, c')
    \<longleftrightarrow> r = (0 :: int) \<and> (\<exists>t. m = Inr (Some t) \<and> c' = c\<lparr>cl_tree := t\<rparr>)" for m
    by (cases m) (auto split: option.splits)
  show ?thesis by (cases upd) (auto simp: processUpdateInfo_def mesh simp del: mesh_update.simps(1-3) split: option.splits)
qed

lemma processUpdateInfo_replica:
  assumes "processUpdateInfo w upd co = Inr (r, co')" "cl_tree fo = cl_tree co" "cl_sensors fo = cl_sensors co" "w_pos v = w_pos w"
  shows "\<exists>fo'. processUpdateInfo v upd fo = Inr (r, fo') \<and> cl_tree fo' = cl_tree co' \<and> cl_sensors fo' = cl_sensors co'
    \<and> cl_cellID fo' = cl_cellID fo \<and> cl_cellID co' = cl_cellID co \<and> cl_coordinator co' = cl_coordinator co
    \<and> cl_followers co' = cl_followers co"
  using assms unfolding processUpdateInfo_iff
  by (elim conjE disjE exE) (auto simp: add_sensor_def Let_def)

lemma processUpdateInfo_home: "home u (cl_tree c) \<Longrightarrow> processUpdateInfo w upd c = Inr (r, c') \<Longrightarrow> home u (cl_tree c')"
  unfolding processUpdateInfo_iff using mesh_update_home by (auto simp: add_sensor_def Let_def simp del: mesh_update.simps)

lemma update_step:
  assumes step: "in_step m co fo" and rep: "repeatable (cl_cellID co) m h (UpdateInfoPacket st)"
    and pos: "w_pos v = w_pos w" and handled: "handleUpdateInfo w h st co = Inr (r, ms, co')"
  shows "\<exists>fo'. run_in (follow1 v) (inbox m ms) fo = Inr fo' \<and> in_step m co' fo'"
proof -
  from handled obtain upd ret where upd: "packet_update st = Inr upd" "processUpdateInfo w upd co = Inr (ret, co')"
    by (auto simp: handleUpdateInfo_def Let_def case_prod_unfold res_bind_Inr_iff)
  from rep upd(1) have ok: "update_ok upd" by simp
  from processUpdateInfo_replica [OF upd(2) _ _ pos] step obtain fo' where
    fo': "processUpdateInfo v upd fo = Inr (ret, fo')" "in_step m co' fo'"
    using processUpdateInfo_home [OF _ upd(2)] by (fastforce simp: in_step_def)
  let ?b = "UpdateInfoPacket (Some (one_block (encode (InfoUpdate_serialize upd))))"
  have "inbox m (snd (if_parent co' True (\<lambda>ch. parent_updateInfo w co' ch upd))) = []"
    by (simp add: inbox_if_parent parent_updateInfo_def)
  moreover have "inbox m (group_updateInfo co' (sh_srcPID h) upd) = [(packet_to co' m (cl_cellID co') ?b, ?b)]"
    using inbox_group_send [of m co' "sh_srcPID h"] fo'(2) rep by (simp add: group_updateInfo_def in_step_def)
  ultimately have "inbox m ms = [(packet_to co' m (cl_cellID co') ?b, ?b)]"
    using handled upd fo'(2) by (auto simp: handleUpdateInfo_def Let_def reply_to_def in_step_def)
  then show ?thesis using fo' packet_update_back [OF ok] by (simp add: follow1_def handleCoordinatorUpdateInfo_def)
qed

lemma svc_frame:
  assumes "in_step m co fo" "repeatable (cl_cellID co) m h b" "w_env v = w_env w" "w_pos v = w_pos w"
    "svc_handlePacket w setReply h b co = Inr (r, ms, co')"
  shows "\<exists>fo'. run_in (follow1 v) (inbox m ms) fo = Inr fo' \<and> in_step m co' fo'"
  using assms join_mesh_step [OF assms(1)] join_cell_step [OF assms(1)] leave_step [OF assms(1)] update_step [OF assms(1)]
  by (cases b) auto

definition request_ok :: "cell_world \<Rightarrow> uuid \<Rightarrow> uuid \<Rightarrow> cell_world \<times> (u32 \<Rightarrow> int) \<times> stheno_header \<times> mb_chain cell_packet \<Rightarrow> bool" where
  "request_ok v cellID m = (\<lambda>(w, setReply, h, b). w_env v = w_env w \<and> w_pos v = w_pos w \<and> repeatable cellID m h b)"

lemma svc_cellID:
  assumes "svc_handlePacket w setReply h b c = Inr (r, ms, c')"
  shows "cl_cellID c' = cl_cellID c"
  using assms
  by (cases b) (auto simp: handleJoinMesh_def handleJoinCell_def handleLeaveMesh_def handleUpdateInfo_def with_root_def
      res_bind_Inr_iff Let_def case_prod_unfold processUpdateInfo_iff add_sensor_def split: root_ptr.splits)

interpretation replica: primary_backup serve1 "follow1 v" "inbox m"
    "\<lambda>co fo. cl_cellID co = cellID \<and> in_step m co fo" "request_ok v cellID m" for v m cellID
proof (unfold_locales, goal_cases)
  case (3 co fo r ms co')
  then show ?case using svc_frame [of m co fo] svc_cellID by (fastforce simp: serve1_def request_ok_def res_bind_Inr_iff)
qed simp_all

section \<open>The replicas agree\<close>

text \<open>C2: followers agree with their coordinator. A coordinator and a follower start with the same tree and sensors; the
  coordinator handles any sequence of requests to join the cell, join or leave the mesh and update
  information, none about the follower itself, joins being into the cell itself or, for superpeers, below a named
  parent, updates being ones that can be written. Then the follower can handle all the packets the coordinator
  sent it, at any later time and in order, and ends with the coordinator's tree and sensors.\<close>

theorem followers_agree:
  assumes "in_step m co fo" "list_all (request_ok v (cl_cellID co) m) rs" "run_out serve1 rs co = Inr (ms, co')"
  shows "\<exists>fo'. run_in (follow1 v) (inbox m ms) fo = Inr fo' \<and> cl_tree fo' = cl_tree co' \<and> cl_sensors fo' = cl_sensors co'"
  using replica.requests_followed [where cellID = "cl_cellID co" and m = m and v = v and p = co and b = fo, OF _ assms(2,3)] assms(1)
  by (auto simp: in_step_def)

definition sample_requests :: "(cell_world \<times> (u32 \<Rightarrow> int) \<times> stheno_header \<times> mb_chain cell_packet) list" where
  "sample_requests =
     (let h = (\<lambda>n. SthenoHeader_ctor (replicate 16 n) (replicate 16 7) (replicate 16 1) (replicate 16 7) 0 5 0) in
      map (\<lambda>(h, b). (sample_world, \<lambda>_. 0, h, b))
       [(h 4, JoinMeshPacket SENSOR (replicate 16 4) (replicate 16 7) None (Some (sample_endpoint 30)) None None None),
        (h 5, JoinMeshPacket SUPERPEER_COORD (replicate 16 5) (replicate 16 8) (Some (replicate 16 7)) (Some (sample_endpoint 31)) None None None),
        (h 5, LeaveMeshPacket (replicate 16 5) (replicate 16 8))])"

text \<open>The coordinator with one follower, and that follower.\<close>

definition sample_coordinator :: cell where
  "sample_coordinator = sample_joined\<lparr>cl_followers := [replicate 16 2]\<rparr>"

definition sample_follower :: cell where
  "sample_follower = sample_joined\<lparr>cl_pid := replicate 16 2, cl_coordinator := False\<rparr>"

lemma sample_in_step: "in_step (replicate 16 2) sample_coordinator sample_follower"
proof -
  have "cl_coordinator sample_joined" "home (cl_cellID sample_joined) (cl_tree sample_joined)" by code_simp+
  then show ?thesis by (simp add: in_step_def sample_coordinator_def sample_follower_def)
qed

theorem followers_agree_witness:
  "\<exists>ms co' fo'. run_out serve1 sample_requests sample_coordinator = Inr (ms, co') \<and> length (inbox (replicate 16 2) ms) = 3
     \<and> run_in (follow1 sample_world) (inbox (replicate 16 2) ms) sample_follower = Inr fo' \<and> cl_tree fo' = cl_tree co'"
proof -
  have "case run_out serve1 sample_requests sample_coordinator of Inl e \<Rightarrow> False
      | Inr (ms, co') \<Rightarrow> length (inbox (replicate 16 2) ms) = 3" by code_simp
  then obtain ms co' where run: "run_out serve1 sample_requests sample_coordinator = Inr (ms, co')"
      "length (inbox (replicate 16 2) ms) = 3"
    by (auto split: sum.splits)
  have "list_all (\<lambda>(w, setReply, h, b). repeatable (cl_cellID sample_coordinator) (replicate 16 2) h b) sample_requests" by code_simp
  moreover have "list_all (\<lambda>(w, setReply, h, b). w = sample_world) sample_requests"
    by (simp add: sample_requests_def Let_def)
  ultimately have "list_all (request_ok sample_world (cl_cellID sample_coordinator) (replicate 16 2)) sample_requests"
    by (auto simp: list_all_iff request_ok_def)
  from followers_agree [OF sample_in_step this run(1)] run show ?thesis by auto
qed

section \<open>Where replicas part\<close>

lemma addPeer_total: "\<exists>x n. addPeer peer (Root r) = Inr (x, Root n)"
  by (simp add: addPeer_def with_root_def case_prod_unfold Let_def split: option.splits)

lemma addPeer_parent_total: "\<exists>x n. addPeer_parent env peer u (Root r) = Inr (x, Root n)"
  by (simp add: addPeer_parent_def with_root_def case_prod_unfold Let_def split: option.splits)

lemma join_mesh_forwards:
  assumes "m \<in> set (cl_followers co)" "distinct (cl_followers co)" "\<not> isEqual m u" "cl_tree co = Root root"
  shows "\<exists>ms co'. handleJoinMesh w h ty u cell parent e disc mesh ft co = Inr (0, ms, co')
    \<and> inbox m ms = [(packet_to co' m (cl_cellID co) (JoinMeshPacket ty u cell parent e disc mesh ft),
        JoinMeshPacket ty u cell parent e disc mesh ft)]"
proof -
  let ?peer = "P3PeerInfo_ctor ty u cell e mesh disc ft"
  define par where "par = (if ty = SENSOR \<or> ty = MONITOR then Some (cl_cellID co) else parent)"
  define add where "add = (case par of None \<Rightarrow> addPeer ?peer (cl_tree co) | Some p \<Rightarrow> addPeer_parent (w_env w) ?peer p (cl_tree co))"
  have "\<exists>ret t. add = Inr (ret, t)"
    using addPeer_total addPeer_parent_total by (cases par) (fastforce simp: add_def assms(4))+
  then obtain ret t where t: "add = Inr (ret, t)" by blast
  define co' where "co' = co\<lparr>cl_tree := t\<rparr>"
  define up where "up = (if ret = 0 then if_parent co' True (\<lambda>ch. joinSiblingPeer w co' ch ty u cell par e disc mesh ft) else (False, []))"
  have "handleJoinMesh w h ty u cell parent e disc mesh ft co = Inr (0, snd up @ joinPeer co' ty u cell parent e disc mesh ft
      @ [reply_to co' h (JoinMeshReplyPacket (sh_requestID h) (fst up))], co')"
    unfolding handleJoinMesh_def Let_def par_def [symmetric] add_def [symmetric] t
    by (simp add: case_prod_unfold up_def co'_def)
  moreover have "inbox m (snd up) = []" by (simp add: up_def inbox_if_parent joinSiblingPeer_def)
  moreover have "inbox m (joinPeer co' ty u cell parent e disc mesh ft) = [(packet_to co' m (cl_cellID co)
      (JoinMeshPacket ty u cell parent e disc mesh ft), JoinMeshPacket ty u cell parent e disc mesh ft)]"
    using inbox_group_send [of m co' u] assms by (simp add: joinPeer_def co'_def)
  ultimately show ?thesis by (simp add: reply_to_def)
qed

text \<open>A join into an unknown cell without a parent crashes the followers. The coordinator answers it (a sensor or
  monitor even gets a new cell below the coordinator's, everyone else is refused), but forwards the packet as
  it came, and every follower follows the null pointer to the parent.\<close>

lemma join_unknown_cell_crashes:
  assumes "in_step m co fo" "cl_tree co = Root root" "getCellTreeNode_i cell root = None" "\<not> isEqual m u"
  shows "\<exists>ms co'. handleJoinMesh w h ty u cell None e disc mesh ft co = Inr (0, ms, co')
    \<and> run_in (follow1 v) (inbox m ms) fo = Inl (Fault NULL_DEREF)"
proof -
  have tree: "cl_tree fo = Root root" "cl_cellID fo = ct_cellID (info root)" using assms(1,2) by (simp_all add: in_step_def)
  have "\<not> isEqual (cl_cellID fo) cell" using assms(3) tree by (cases root) (auto simp: getCellTreeNode_i_def)
  then have "handleCoordinatorJoinMesh v h' ty u cell None e disc mesh ft fo = Inl (Fault NULL_DEREF)" for h'
    using tree assms(3) by (simp add: handleCoordinatorJoinMesh_def Let_def addPeer_ptr_def with_root_def)
  moreover obtain ms co' where "handleJoinMesh w h ty u cell None e disc mesh ft co = Inr (0, ms, co')"
    "inbox m ms = [(packet_to co' m (cl_cellID co) (JoinMeshPacket ty u cell None e disc mesh ft),
        JoinMeshPacket ty u cell None e disc mesh ft)]"
    using join_mesh_forwards [OF _ _ assms(4,2), of w h ty cell None e disc mesh ft] assms(1) by (auto simp: in_step_def)
  ultimately show ?thesis by (simp add: follow1_def)
qed

lemma sample_tree_root: "\<exists>r. cl_tree sample_coordinator = Root r \<and> getCellTreeNode_i (replicate 16 9) r = None"
proof -
  have "case cl_tree sample_coordinator of Root r \<Rightarrow> getCellTreeNode_i (replicate 16 9) r = None | _ \<Rightarrow> False" by code_simp
  then show ?thesis by (cases "cl_tree sample_coordinator") auto
qed

lemma join_unknown_cell_crashes_witness:
  "\<exists>ms co'. handleJoinMesh sample_world (sample_header 0x13) SENSOR (replicate 16 4) (replicate 16 9) None None None None None
      sample_coordinator = Inr (0, ms, co')
    \<and> run_in (follow1 sample_world) (inbox (replicate 16 2) ms) sample_follower = Inl (Fault NULL_DEREF)"
proof -
  obtain r where "cl_tree sample_coordinator = Root r" "getCellTreeNode_i (replicate 16 9) r = None" using sample_tree_root by blast
  moreover have "\<not> isEqual (replicate 16 2) (replicate 16 4)" by code_simp
  ultimately show ?thesis using join_unknown_cell_crashes [OF sample_in_step] by blast
qed

lemma setLocation_children: "(\<exists>c. Some c \<in> set (siblings (setLocation d k n))) \<longleftrightarrow> (\<exists>c. Some c \<in> set (siblings n))"
proof (cases n)
  case (Node i cs)
  have ex: "(\<exists>c. Some c \<in> set l) \<longleftrightarrow> list_ex (\<lambda>c. c \<noteq> None) l" for l :: "node option list"
    by (auto simp: list_ex_iff)
  have "list_ex (\<lambda>c. c \<noteq> None) (map (\<lambda>(k, c). map_option (f k) c) (enumerate j cs)) = list_ex (\<lambda>c. c \<noteq> None) cs"
    for f :: "nat \<Rightarrow> node \<Rightarrow> node" and j
    by (induction cs arbitrary: j) auto
  from this [of "\<lambda>k. setLocation (d + 1) (word_of_nat k)" 0] show ?thesis
    unfolding ex by (simp add: Node map_option_case case_prod_unfold)
qed

text \<open>Where a tree would be grafted, the follower creates an empty cell for the peer.\<close>

lemma addPeer_parent_new:
  assumes "getCellTreeNode_i (getFID peer) root = None" "getCellTreeNode_i parent root = Some p" "node_at p root = Some n"
    "first_index (\<lambda>c. c = None) (siblings n) = Some i"
  shows "\<exists>r rf x. addPeer_parent env peer parent (Root root) = Inr (r, Root rf) \<and> node_at (p @ [i]) rf = Some x
    \<and> (\<forall>c\<in>set (siblings x). c = None)"
proof -
  let ?new = "new_child env (getFID peer) i (info n)"
  let ?r1 = "update_at p (setSibbling i (Some ?new)) root"
  have i: "i < length (siblings n)" using first_index_SomeD [OF assms(4)] by blast
  have new: "node_at (p @ [i]) ?r1 = Some ?new" using graft_new [OF assms(3) i, of "[]"] by simp
  have "addPeer_parent env peer parent (Root root) = Inr (fst (node_add peer ?new), Root (update_at (p @ [i]) (\<lambda>n. snd (node_add peer n)) ?r1))"
    using assms new by (simp add: addPeer_parent_def with_root_def create_at_iff [OF assms(3)] add_at_def)
  moreover have "node_at (p @ [i]) (update_at (p @ [i]) (\<lambda>n. snd (node_add peer n)) ?r1) = Some (snd (node_add peer ?new))"
    by (rule node_at_update_same [OF new])
  moreover have "\<forall>c\<in>set (siblings ?new). c = None" by (simp add: new_child_def CellTreeNode_ctor_def Let_def)
  ultimately show ?thesis by simp
qed

lemma rebind_accepts:
  assumes "cl_tree co = Root root" "cl_followers co = [m]" "\<not> isEqual m u" "read_tree w st = Root s"
    "getCellTreeNode_i (ct_cellID (info s)) root = None" "getCellTreeNode_i parent root = Some p" "node_at p root = Some n"
    "first_index (\<lambda>c. c = None) (siblings n) = Some i"
    "b = RebindMeshPacket ty u cell parent e None disc mesh ft st"
  shows "\<exists>ms co' rc. handleRebindMesh w h ty u cell parent e disc mesh ft st co = Inr (0, ms, co')
    \<and> cl_tree co' = Root rc \<and> node_at (p @ [i]) rc = Some (setLocation (ct_depth (info n) + 1) (word_of_nat i) s)
    \<and> inbox m ms = [(packet_to co' m (cl_cellID co) b, b)]"
proof -
  let ?s = "setLocation (ct_depth (info n) + 1) (word_of_nat i) s"
  let ?rc = "update_at p (setSibbling i (Some ?s)) root"
  define co' where "co' = co\<lparr>cl_tree := Root ?rc\<rparr>"
  define up where "up = if_parent co' True (\<lambda>ch. rebindSiblingPeer w co' ch SUPERPEER u cell parent e disc mesh ft st)"
  have add: "addSubtree (read_tree w st) (Some parent) (cl_tree co) = Inr (0, Root ?rc)"
    using assms(1,4-8) by (simp add: addSubtree_def with_root_def attach_def)
  have group: "group_send co' u b = [ToFollower m (packet_to co' m (cl_cellID co) b) b]"
    using assms(2,3) by (simp add: group_send_def co'_def)
  have "handleRebindMesh w h ty u cell parent e disc mesh ft st co = Inr (0, snd up @ group_send co' u b
      @ [reply_to co' h (RebindMeshReplyPacket (sh_requestID h) (fst up))], co')"
    unfolding handleRebindMesh_def add using group
    by (simp add: case_prod_unfold Let_def up_def co'_def rebindPeer_def RebindMesh_ctor_def assms(9))
  moreover have "inbox m (snd up) = []" by (simp add: up_def inbox_if_parent rebindSiblingPeer_def)
  moreover have "node_at (p @ [i]) ?rc = Some ?s"
    using graft_new [OF assms(7), of i "[]"] first_index_SomeD [OF assms(8)] by simp
  ultimately show ?thesis using group by (simp add: reply_to_def co'_def)
qed

lemma child_height:
  assumes "\<And>n. Some n \<in> set cs \<Longrightarrow> height n \<le> length (encode (node_serialize n))"
  shows "foldr max (map (\<lambda>c. case c of None \<Rightarrow> 0 | Some n \<Rightarrow> height n) cs) 0 \<le> length (encode (child_ops k cs))"
  using assms
proof (induction cs arbitrary: k)
  case (Cons c cs)
  have "foldr max (map (\<lambda>c. case c of None \<Rightarrow> 0 | Some n \<Rightarrow> height n) cs) 0 \<le> length (encode (child_ops (Suc k) cs))"
    using Cons by simp
  then show ?case using Cons.prems [of "the c"] by (cases c) auto
qed simp

lemma height_encoded: "height n \<le> length (encode (node_serialize n))"
proof (induction n rule: node_induct)
  case (Node i cs)
  have "foldr max (map (\<lambda>c. case c of None \<Rightarrow> 0 | Some n \<Rightarrow> height n) cs) 0 \<le> length (encode (child_ops 0 cs))"
    using Node by (rule child_height)
  then show ?case by (simp add: child_ops_def)
qed

lemma read_tree_back:
  assumes "node_ok n"
  shows "\<exists>m. read_tree w (Some (one_block (encode (node_serialize n)))) = Root m \<and> node_sim n m"
proof -
  let ?e = "encode (node_serialize n)"
  have "state_bytes (Some (one_block ?e)) = ?e" by (simp add: state_bytes_def one_block_def chain_data_def blk_data_def blk_length_def)
  moreover obtain m where "node_deserialize (Suc (length ?e)) (w_pos w) (w_raw w) (input ?e) = Some (m, input [])" "node_sim n m"
    using node_back [OF assms, of "Suc (length ?e)" "w_pos w" "w_raw w" "[]"] height_encoded [of n] by auto
  ultimately show ?thesis by (simp add: read_tree_def CellTree_deserialize_def)
qed

text \<open>a child cell that rebinds. When the subtree it brings is new and its parent has a free slot, the coordinator
  grafts the whole subtree there, and its only follower puts a new cell with at most the rebinding
  peer and no cells below it at the same place: they disagree as soon as the subtree has a second cell.\<close>

theorem rebind_follower_misses:
  assumes "in_step m co fo" "cl_tree co = Root root" "cl_followers co = [m]" "\<not> isEqual m u"
    "read_tree w st = Root s" "ct_cellID (info s) = cell" "getCellTreeNode_i cell root = None"
    "getCellTreeNode_i parent root = Some p" "node_at p root = Some n" "first_index (\<lambda>c. c = None) (siblings n) = Some i"
  shows "\<exists>ms co' rc fo' rf x. handleRebindMesh w h ty u cell parent e disc mesh ft st co = Inr (0, ms, co')
    \<and> cl_tree co' = Root rc \<and> node_at (p @ [i]) rc = Some (setLocation (ct_depth (info n) + 1) (word_of_nat i) s)
    \<and> run_in (follow1 v) (inbox m ms) fo = Inr fo'
    \<and> cl_tree fo' = Root rf \<and> node_at (p @ [i]) rf = Some x \<and> (\<forall>c\<in>set (siblings x). c = None)
    \<and> ((\<exists>c. Some c \<in> set (siblings s)) \<longrightarrow> rf \<noteq> rc)"
proof -
  let ?peer = "P3PeerInfo_ctor ty u cell e mesh disc ft"
  obtain ms co' rc where c: "handleRebindMesh w h ty u cell parent e disc mesh ft st co = Inr (0, ms, co')" "cl_tree co' = Root rc"
    "node_at (p @ [i]) rc = Some (setLocation (ct_depth (info n) + 1) (word_of_nat i) s)"
    "inbox m ms = [(packet_to co' m (cl_cellID co) (RebindMeshPacket ty u cell parent e None disc mesh ft st),
      RebindMeshPacket ty u cell parent e None disc mesh ft st)]"
    using rebind_accepts [OF assms(2-5) _ assms(8-10) refl] assms(6,7) by blast
  obtain r rf x where f: "addPeer_parent (w_env v) ?peer parent (Root root) = Inr (r, Root rf)" "node_at (p @ [i]) rf = Some x"
    "\<forall>c\<in>set (siblings x). c = None"
    using addPeer_parent_new [of ?peer root parent p n i "w_env v"] assms(7-10) by auto
  have fo: "cl_tree fo = Root root" "cl_cellID fo = ct_cellID (info root)" using assms(1,2) by (simp_all add: in_step_def)
  have "\<not> isEqual (cl_cellID fo) cell" using assms(7) fo by (cases root) (auto simp: getCellTreeNode_i_def)
  then have "run_in (follow1 v) (inbox m ms) fo = Inr (fo\<lparr>cl_tree := Root rf\<rparr>)"
    using c(4) f(1) fo(1) by (simp add: follow1_def handleCoordinatorRebindMesh_def Let_def)
  moreover have "rf \<noteq> rc" if "\<exists>c. Some c \<in> set (siblings s)"
    using that c(3) f(2,3) setLocation_children by fastforce
  ultimately show ?thesis using c f by auto
qed

definition sample_subtree :: node where
  "sample_subtree = Node ((info sample_tree)\<lparr>ct_cellID := replicate 16 9\<rparr>) (siblings sample_tree)"

definition sample_state :: mb_chain where
  "sample_state = one_block (encode (node_serialize sample_subtree))"

lemma sample_subtree_read:
  "\<exists>s. read_tree sample_world (Some sample_state) = Root s \<and> ct_cellID (info s) = replicate 16 9 \<and> (\<exists>c. Some c \<in> set (siblings s))"
proof -
  obtain c where c: "sample_tree = Node ((info sample_node)\<lparr>ct_sps := [sample_peer 2 1]\<rparr>) [Some c, None]" using sample_tree_Node by blast
  have "node_ok sample_subtree" using sample_tree_ok(1) by (simp add: sample_subtree_def c info_ok_def uuid_ok_def)
  from read_tree_back [OF this] obtain s where s: "read_tree sample_world (Some sample_state) = Root s" "node_sim sample_subtree s"
    unfolding sample_state_def by blast
  from s(2) have "ct_cellID (info s) = replicate 16 9 \<and> (\<exists>c. Some c \<in> set (siblings s))"
    by cases (auto simp: sample_subtree_def c info_sim_def list_all2_Cons1 option_rel_Some1)
  with s(1) show ?thesis by blast
qed

lemma sample_coordinator_root:
  "\<exists>r. cl_tree sample_coordinator = Root r \<and> getCellTreeNode_i (replicate 16 9) r = None
    \<and> getCellTreeNode_i (replicate 16 7) r = Some [] \<and> siblings r = [None, None]"
proof -
  have "case cl_tree sample_coordinator of Root r \<Rightarrow> getCellTreeNode_i (replicate 16 9) r = None \<and> ct_cellID (info r) = replicate 16 7
      \<and> map Option.is_none (siblings r) = [True, True] | _ \<Rightarrow> False" by code_simp
  then show ?thesis by (cases "cl_tree sample_coordinator") (auto simp: find_home map_eq_Cons_conv Option.is_none_def)
qed

text \<open>With two followers a rebind ends in a crash. Whatever comes of grafting the subtree, as soon as there are two
  followers to tell, the packet of the second is written from the state that deleting the first one's released.\<close>

lemma rebind_two_followers:
  assumes "addSubtree (read_tree w (Some st)) (Some parent) (cl_tree c) = Inr (ret, t)"
    "1 < length (filter (\<lambda>m. \<not> isEqual m u) (cl_followers c))"
  shows "handleRebindMesh w h ty u cell parent e disc mesh ft (Some st) c = Inl (Fault USE_AFTER_FREE)"
  using assms by (simp add: handleRebindMesh_def Let_def case_prod_unfold rebindPeer_def group_send_def)

lemma rebind_two_followers_witness:
  "handleRebindMesh sample_world (sample_header 0x17) SUPERPEER_COORD (replicate 16 5) (replicate 16 9) (replicate 16 7)
     None None None None (Some sample_state) (sample_coordinator\<lparr>cl_followers := [replicate 16 2, replicate 16 3]\<rparr>)
   = Inl (Fault USE_AFTER_FREE)"
proof -
  let ?c = "sample_coordinator\<lparr>cl_followers := [replicate 16 2, replicate 16 3]\<rparr>"
  obtain s where s: "read_tree sample_world (Some sample_state) = Root s" using sample_subtree_read by blast
  obtain r where r: "cl_tree sample_coordinator = Root r" using sample_coordinator_root by blast
  have "\<exists>ret t. addSubtree (Root s) (Some (replicate 16 7)) (Root r) = Inr (ret, t)"
    by (simp add: addSubtree_def with_root_def case_prod_unfold Let_def split: option.splits)
  moreover have "1 < length (filter (\<lambda>m. \<not> isEqual m (replicate 16 5)) [replicate 16 2, replicate 16 3])" by code_simp
  ultimately show ?thesis using rebind_two_followers [of sample_world sample_state "replicate 16 7" ?c] s r by fastforce
qed

end
