(* ===== verification/CellFailover.thy ===== *)
theory CellFailover
  imports CellReplication
begin

text \<open>
  How a cell gets through losing its coordinator or its parent, and through a parent that turns it down:
  who takes over, what it is bound to afterwards, when rebinding ends, and which access points
  are lost on the way (\<^verbatim>\<open>handleCoordinatorFailure\<close>, \<^verbatim>\<open>fireRebind\<close>, \<^verbatim>\<open>onClose\<close> and \<^verbatim>\<open>open\<close> of \<^verbatim>\<open>Cell.cpp\<close>).
\<close>

section \<open>Failover\<close>

text \<open>The tree after the failed coordinator was removed, and the two ways the handler goes on.\<close>

definition without_first :: "node \<Rightarrow> node" where
  "without_first root = Node ((info root)\<lparr>ct_sps := tl (ct_sps (info root))\<rparr>) (siblings root)"

lemma without_first_simps:
  assumes "ct_sps (info root) = old # rest"
  shows "getCoordinator root = Some old" "snd (node_remove (getPID old) root) = without_first root"
    "getCoordinator (without_first root) = (case rest of [] \<Rightarrow> None | new # _ \<Rightarrow> Some new)"
  using assms by (simp_all add: getCoordinator_def node_remove_def without_first_def)

lemma failure_elected:
  assumes "cl_tree c = Root root" "ct_sps (info root) = old # new # rest" "isEqual (cl_pid c) (getPID new)"
  shows "handleCoordinatorFailure w (getPID old) c = map_option (\<lambda>res. res_bind res (\<lambda>(ms, c2).
      res_bind (fault (pruneSubtrees (cl_children c2) (cl_tree c2))) (\<lambda>t. Inr (ms, c2\<lparr>cl_tree := t\<rparr>))))
    (if cell_isRoot c then Some (Inr ([], c\<lparr>cl_tree := Root (without_first root), cl_coordinator := True\<rparr>))
     else fireRebind w (c\<lparr>cl_tree := Root (without_first root), cl_coordinator := True\<rparr>))"
proof -
  have "cell_isRoot (c\<lparr>cl_tree := t\<rparr>) = cell_isRoot c" for t by (simp add: cell_isRoot_def)
  then show ?thesis using assms(3)
    by (simp add: handleCoordinatorFailure_def assms(1) with_root_def without_first_simps [OF assms(2)] Let_def
        split: option.splits)
qed

lemma failure_other:
  assumes "cl_tree c = Root root" "ct_sps (info root) = old # new # rest" "\<not> isEqual (cl_pid c) (getPID new)"
    "handleCoordinatorFailure w (getPID old) c = Some (Inr (ms, c'))"
  shows "bind_coordinator w (w_connect w 0) (getPID new) (pp_cellEndpoint new) (c\<lparr>cl_tree := Root (without_first root)\<rparr>)
    = Inr (Inr (), ms, c')"
  using assms(3,4)
  by (simp add: handleCoordinatorFailure_def assms(1) with_root_def without_first_simps [OF assms(2)] Let_def
      split: sum.splits prod.splits)

lemma fireRebind_core: "fireRebind w c = Some (Inr (ms, c')) \<Longrightarrow> same_core c c'"
  using fireRebind_loop_outcome [of w 0 "[]" "c\<lparr>cl_rebinding := True\<rparr>" ms c']
  by (auto simp: fireRebind_def same_core_def split: if_splits)

lemma bind_coordinator_done:
  assumes "bind_coordinator w co coord e c = Inr (Inr (), ms, c')"
  shows "cl_client c' = Some coord \<and> cl_coordinator c' = cl_coordinator c \<and> cl_cellID c' = cl_cellID c \<and> cl_pid c' = cl_pid c"
  using assms by (auto simp: bind_coordinator_def Let_def split: if_splits sum.splits option.splits cell_error.splits prod.splits)

text \<open>C6: failover. When the coordinator of a cell with further superpeers fails, the second superpeer in
  the list of the tree is the next coordinator: a follower whose handler returns is coordinator
  afterwards exactly if it is that peer, and else has a channel to it. So followers with the same tree agree on the
  new coordinator, and at most one of them becomes it.\<close>

theorem failover_elects_second:
  assumes "cell_wf c" "cl_tree c = Root root" "ct_sps (info root) = old # new # rest" "\<not> cl_coordinator c"
    "handleCoordinatorFailure w (getPID old) c = Some (Inr (ms, c'))"
  shows "(cl_coordinator c' \<longleftrightarrow> cl_pid c = getPID new) \<and> (\<not> cl_coordinator c' \<longrightarrow> cl_client c' = Some (getPID new))"
proof -
  have "cell_inv (info root)" using assms(1,2) tree_inv_cell by (simp add: cell_wf_def root_inv_def)
  then have "length (getPID new) = 16" using assms(3) by (auto simp: cell_inv_def slot_inv_def pid_ok_def)
  then have me: "isEqual (cl_pid c) (getPID new) \<longleftrightarrow> cl_pid c = getPID new" using assms(1) by (simp add: isEqual_pid cell_wf_def)
  show ?thesis
  proof (cases "cl_pid c = getPID new")
    case True
    let ?c1 = "c\<lparr>cl_tree := Root (without_first root), cl_coordinator := True\<rparr>"
    from True obtain ms2 c2 t where c2: "(if cell_isRoot c then Some (Inr ([], ?c1)) else fireRebind w ?c1) = Some (Inr (ms2, c2))"
        "c' = c2\<lparr>cl_tree := t\<rparr>"
      using assms(5) failure_elected [OF assms(2,3)] me by (auto simp: res_bind_Inr_iff)
    have "cl_coordinator c2" using c2(1) fireRebind_core by (fastforce simp: same_core_def split: if_splits)
    then show ?thesis using True c2(2) by simp
  next
    case False
    with failure_other [OF assms(2,3) _ assms(5)] bind_coordinator_done me assms(4) show ?thesis by fastforce
  qed
qed

definition sample_failover :: cell where
  "sample_failover = sample_follower\<lparr>cl_client := Some (replicate 16 1)\<rparr>"

lemma sample_sps: "\<exists>r a b. cl_tree sample_follower = Root r \<and> ct_sps (info r) = [a, b] \<and> getPID a = replicate 16 1
    \<and> getPID b = replicate 16 2 \<and> siblings r = [None, None]"
proof -
  have "case cl_tree sample_follower of Root r \<Rightarrow> map getPID (ct_sps (info r)) = [replicate 16 1, replicate 16 2]
      \<and> map Option.is_none (siblings r) = [True, True] | _ \<Rightarrow> False" by code_simp
  then show ?thesis by (cases "cl_tree sample_follower") (auto simp: map_eq_Cons_conv Option.is_none_def)
qed

lemma sample_follower_wf: "cell_wf sample_follower"
  using sample_joined_wf by (simp add: sample_follower_def cell_wf_def)

theorem failover_elects_second_witness:
  "\<exists>ms c'. handleCoordinatorFailure sample_world (replicate 16 1) sample_follower = Some (Inr (ms, c')) \<and> cl_coordinator c'"
proof -
  obtain r a b where r: "cl_tree sample_follower = Root r" "ct_sps (info r) = [a, b]" "getPID a = replicate 16 1"
    "getPID b = replicate 16 2" "siblings r = [None, None]" using sample_sps by blast
  have "case handleCoordinatorFailure sample_world (replicate 16 1) sample_follower of Some (Inr (ms, c')) \<Rightarrow> True | _ \<Rightarrow> False" by code_simp
  then obtain ms c' where run: "handleCoordinatorFailure sample_world (getPID a) sample_follower = Some (Inr (ms, c'))"
    by (auto simp: r(3) split: option.splits sum.splits)
  have "\<not> cl_coordinator sample_follower" "cl_pid sample_follower = getPID b" by (simp_all add: sample_follower_def r(4))
  with failover_elects_second [OF sample_follower_wf r(1,2) _ run] run r(3) show ?thesis by auto
qed



section \<open>Binding to a parent\<close>


text \<open>A reply that refers to a cell without a parent.\<close>

definition sample_reply :: cell_reply where
  "sample_reply = \<lparr>cr_cell = \<lparr>ca_cellID = replicate 16 7, ca_itf = [], ca_ip = [], ca_port = 0\<rparr>, cr_uuid = None, cr_addr = None,
     cr_parentCell = None, cr_parentUUID = None, cr_parentAddr = None, cr_discoverySAP = None, cr_meshSAP = None, cr_ftSAP = None\<rparr>"


section \<open>Access points\<close>

text \<open>After the loss of a parent. However the cell binds again, the identifier of its parent stays a null
  pointer, so that from then on asking for the discovery or mesh access point of any peer but itself
  follows it. And the access point for fault tolerance of a parent is never the one the parent sent:
  the parent is looked up in the tree like any other peer.\<close>

lemma parent_loss_access_points:
  assumes "onClose w ParentChannel c = Some (Inr (ms, c'))" "\<not> isEqual u (cl_pid c)"
  shows "getDiscoverySAPInfo v u c' = Inl (Fault NULL_DEREF) \<and> getMeshSAPInfo v u c' = Inl (Fault NULL_DEREF)
    \<and> getFTSAPInfo v u c' = peer_sap pi_ftSAP u c'"
  using fireRebind_core [OF assms(1) [unfolded onClose.simps]] assms(2)
  by (simp add: same_core_def getDiscoverySAPInfo_def getMeshSAPInfo_def getFTSAPInfo_def)

lemma parent_loss_access_points_witness:
  "\<exists>ms c'. onClose sample_world ParentChannel sample_joined = Some (Inr (ms, c'))
    \<and> getDiscoverySAPInfo sample_world (replicate 16 2) c' = Inl (Fault NULL_DEREF)"
proof -
  have "case onClose sample_world ParentChannel sample_joined of Some (Inr (ms, c)) \<Rightarrow> True | _ \<Rightarrow> False"
    by (simp add: sample_world_def fireRebind_def discovery_opens_def fireRebind_loop.simps)
  then obtain ms c' where run: "onClose sample_world ParentChannel sample_joined = Some (Inr (ms, c'))"
    by (cases "onClose sample_world ParentChannel sample_joined") (auto split: sum.splits)
  have "\<not> isEqual (replicate 16 2) (cl_pid sample_joined)" by code_simp
  from parent_loss_access_points [OF run this] run show ?thesis by blast
qed

section \<open>Opening below a parent\<close>

lemma bind_parent_refused:
  assumes "bind_parent co (parent_joinMesh w) pu pc c = Inr (Inr ok, ms, c')" "\<And>h b. \<not> w_parent w h b"
  shows "cl_parentChannel c' = None"
  using assms by (auto simp: bind_parent_def parent_joinMesh_def ask_parent_def Let_def
      split: if_splits option.splits sum.splits cell_error.splits)

text \<open>A parent that refuses. A superpeer that opens a new cell below a parent starts as its coordinator even if the
  parent turned it down: the cell runs without a channel to the parent and still does not take itself for a
  root.\<close>

lemma refused_cell_starts:
  assumes "cell_open w b (Some r) c = Inr (ms, c')" "\<not> hasCoordinator r" "cr_parentCell r = Some a" "cr_parentAddr r \<noteq> None"
    "\<And>h p. \<not> w_parent w h p"
  shows "cl_started c' \<and> cl_coordinator c' \<and> cl_parentChannel c' = None \<and> cl_parentCellID c' = Some (ca_cellID a)"
proof -
  let ?c1 = "c\<lparr>cl_cellID := ca_cellID (cr_cell r), cl_fid := ca_cellID (cr_cell r), cl_parentCellID := Some (ca_cellID a), cl_coordinator := True\<rparr>"
  obtain c2 where c2: "joinCoordinator w b (Some r) ?c1 = Inr (ms, c2)"
    "c' = c2\<lparr>cl_started := True, cl_rebinding := False, cl_discovery := True\<rparr>"
    using assms(1-3) by (auto simp: cell_open_def Let_def res_bind_Inr_iff)
  obtain d ft x t where d: "start_groups b ?c1 = Inr d" "w_ftSAP w = Some ft"
    "addPeer (P3PeerInfo_ctor SUPERPEER_COORD (cl_pid d) (cl_cellID d) (cl_acceptor d) (w_meshSAP w) (w_discoverySAP w) ft)
       (CellTree_ctor (w_env w) (cl_cellID d)) = Inr (x, t)"
    using c2(1) by (auto simp: joinCoordinator_def res_bind_Inr_iff Let_def split: option.splits)
  obtain y where y: "connecToParentCoordinator w (w_connect w 0) r a (d\<lparr>cl_tree := t\<rparr>) = Inr y"
    using c2(1) d assms(3,4) by (auto simp: joinCoordinator_def res_bind_Inr_iff)
  with c2(1) d assms(3,4) obtain ok c3 where c3: "y = (Inr ok, ms, c3)" "c2 = c3\<lparr>cl_notify := True\<rparr>"
    by (cases y; cases "fst y") (auto simp: joinCoordinator_def)
  have frame: "cl_coordinator d" "cl_parentCellID d = Some (ca_cellID a)"
    using d(1) by (auto simp: start_groups_def createSAP_def split: option.splits prod.splits)
  note bp = y [unfolded c3(1) connecToParentCoordinator_def]
  have "cl_parentChannel c3 = None" using bind_parent_refused [OF bp assms(5)] .
  moreover have "cl_coordinator c3" "cl_parentCellID c3 = Some (ca_cellID a)"
    using bind_parent_frame [OF bp] frame by auto
  ultimately show ?thesis using c2(2) c3(2) by simp
qed

definition sample_offer :: cell_reply where
  "sample_offer = sample_reply\<lparr>cr_cell := \<lparr>ca_cellID = replicate 16 8, ca_itf = [], ca_ip = [], ca_port = 0\<rparr>,
     cr_parentCell := Some \<lparr>ca_cellID = replicate 16 7, ca_itf = [], ca_ip = [], ca_port = 0\<rparr>,
     cr_parentUUID := Some (replicate 16 1), cr_parentAddr := Some (sample_endpoint 10)\<rparr>"

lemma refused_cell_starts_witness:
  "\<exists>ms c'. cell_open sample_world sample_binds (Some sample_offer) sample_blank = Inr (ms, c')
    \<and> cl_started c' \<and> cl_parentChannel c' = None \<and> cl_parentCellID c' = Some (replicate 16 7)"
proof -
  have "case cell_open sample_world sample_binds (Some sample_offer) sample_blank of Inl e \<Rightarrow> False | Inr x \<Rightarrow> True" by code_simp
  then obtain ms c' where run: "cell_open sample_world sample_binds (Some sample_offer) sample_blank = Inr (ms, c')"
    by (auto split: sum.splits)
  have "\<not> hasCoordinator sample_offer" "cr_parentAddr sample_offer \<noteq> None"
      "cr_parentCell sample_offer = Some \<lparr>ca_cellID = replicate 16 7, ca_itf = [], ca_ip = [], ca_port = 0\<rparr>"
    by (simp_all add: hasCoordinator_def sample_offer_def sample_reply_def)
  moreover have "\<not> w_parent sample_world h p" for h p by (simp add: sample_world_def)
  ultimately show ?thesis using refused_cell_starts [OF run] run by fastforce
qed

end
