(* ===== verification/CellRequests.thy ===== *)
theory CellRequests
  imports CellReplication
begin

text \<open>
  What a cell does with single requests: answers, updates, offers of cells to new superpeers, superpeers
  that leave, and the packets this takes.
\<close>

section \<open>Answers\<close>

fun reply_of :: "cell_msg \<Rightarrow> (stheno_header \<times> mb_chain cell_packet) option" where
  "reply_of (Reply h b) = Some (h, b)"
| "reply_of _ = None"

definition replies :: "cell_msg list \<Rightarrow> (stheno_header \<times> mb_chain cell_packet) list" where
  "replies ms = List.map_filter reply_of ms"

text \<open>The answer that belongs to a request, with the request's number.\<close>

fun answers :: "u32 \<Rightarrow> mb_chain cell_packet \<Rightarrow> mb_chain cell_packet \<Rightarrow> bool" where
  "answers n (JoinCellPacket _ _ _ _ _) (JoinCellReplyPacket k _) = (k = n)"
| "answers n (JoinMeshPacket _ _ _ _ _ _ _ _) (JoinMeshReplyPacket k _) = (k = n)"
| "answers n (LeaveMeshPacket _ _) (LeaveMeshReplyPacket k _) = (k = n)"
| "answers n (RebindMeshPacket _ _ _ _ _ _ _ _ _ _) (RebindMeshReplyPacket k _) = (k = n)"
| "answers n (UpdateInfoPacket _) (UpdateInfoReplyPacket k _) = (k = n)"
| "answers n _ _ = False"

fun is_request :: "mb_chain cell_packet \<Rightarrow> bool" where
  "is_request (JoinCellPacket _ _ _ _ _) = True"
| "is_request (JoinMeshPacket _ _ _ _ _ _ _ _) = True"
| "is_request (LeaveMeshPacket _ _) = True"
| "is_request (RebindMeshPacket _ _ _ _ _ _ _ _ _ _) = True"
| "is_request (UpdateInfoPacket _) = True"
| "is_request _ = False"

lemma replies_simps [simp]:
  "replies [] = []" "replies (ms @ ms') = replies ms @ replies ms'" "replies (Reply h b # ms) = (h, b) # replies ms"
  "replies (ToParent h b # ms) = replies ms"
  by (simp_all add: replies_def map_filter_append map_filter_simps)

lemma replies_group [simp]: "replies (group_send c u b) = []"
  by (simp add: replies_def group_send_def List.map_filter_def filter_empty_conv)

lemma replies_if_parent [simp]: "replies (snd (if_parent c v (\<lambda>ch. ask_parent w d (f ch) (g ch) (k ch)))) = []"
  by (simp add: if_parent_def ask_parent_def Let_def split: option.splits)

lemmas asks = joinPeer_def leftPeer_def group_updateInfo_def joinSiblingPeer_def leftSiblingPeer_def rebindSiblingPeer_def
  parent_updateInfo_def

definition answered :: "cell \<Rightarrow> stheno_header \<Rightarrow> mb_chain cell_packet \<Rightarrow> cell_msg list \<Rightarrow> bool" where
  "answered c h b ms = (\<exists>b'. answers (sh_requestID h) b b' \<and> replies ms = [(packet_to c (sh_srcPID h) (sh_srcFID h) b', b')])"

lemma handlers_answer:
  "handleJoinMesh w h ty u cell parent e disc mesh ft c = Inr (r, ms, c') \<Longrightarrow> answered c' h (JoinMeshPacket ty u cell parent e disc mesh ft) ms"
  "handleJoinCell w h e' f disc mesh ft c = Inr (r, ms, c') \<Longrightarrow> answered c' h (JoinCellPacket e' f disc mesh ft) ms"
  "handleLeaveMesh w h u cell c = Inr (r, ms, c') \<Longrightarrow> answered c' h (LeaveMeshPacket u cell) ms"
  "handleUpdateInfo w h st c = Inr (r, ms, c') \<Longrightarrow> answered c' h (UpdateInfoPacket st) ms"
  "handleRebindMesh w h ty u cell p e disc mesh ft st c = Inr (r, ms, c') \<Longrightarrow> answered c' h (RebindMeshPacket ty u cell p e fo disc mesh ft st) ms"
  "handleCoordinatorJoinMesh w h ty u cell parent e disc mesh ft c = Inr (r, ms, c') \<Longrightarrow> answered c' h (JoinMeshPacket ty u cell parent e disc mesh ft) ms"
  "handleCoordinatorLeaveMesh w h u cell c = Inr (r, ms, c') \<Longrightarrow> answered c' h (LeaveMeshPacket u cell) ms"
  "handleCoordinatorUpdateInfo w h st c = Inr (r, ms, c') \<Longrightarrow> answered c' h (UpdateInfoPacket st) ms"
  "handleCoordinatorRebindMesh w h ty u cell p e disc mesh ft c = Inr (r, ms, c') \<Longrightarrow> answered c' h (RebindMeshPacket ty u cell p e fo disc mesh ft st) ms"
  by (auto simp: handleJoinMesh_def handleJoinCell_def handleLeaveMesh_def handleUpdateInfo_def handleRebindMesh_def
      handleCoordinatorJoinMesh_def handleCoordinatorLeaveMesh_def handleCoordinatorUpdateInfo_def handleCoordinatorRebindMesh_def
      answered_def with_root_def res_bind_Inr_iff Let_def case_prod_unfold asks reply_to_def rebindPeer_def
      split: root_ptr.splits if_splits)



section \<open>Updates\<close>

lemma processUpdateInfo_failed:
  "mesh_update (w_pos w) upd (cl_tree c) = Inr None \<Longrightarrow> sensor_kind_of (updateOperation upd) = None \<Longrightarrow>
    processUpdateInfo w upd c = Inl NULL_DEREF"
  by (cases upd) (simp_all add: processUpdateInfo_def del: mesh_update.simps)

text \<open>an update that fails is a crash. \<^verbatim>\<open>processUpdateInfo\<close> never returns the error code it declares: when the cell
  or the peer a mesh update names is unknown, or changing the peer fails, the branch for
  sensors is entered with a null list, on the coordinator, on the followers, and for a peer's own updates
  alike; every update that does return was done.\<close>

theorem update_failure_crashes:
  assumes "packet_update st = Inr upd" "mesh_update (w_pos w) upd (cl_tree c) = Inr None"
    "sensor_kind_of (updateOperation upd) = None"
  shows "handleUpdateInfo w h st c = Inl (Fault NULL_DEREF) \<and> handleCoordinatorUpdateInfo w h st c = Inl (Fault NULL_DEREF)
    \<and> updateState w upd c = Inl (Fault NULL_DEREF) \<and> (\<forall>v d ret d'. processUpdateInfo v upd d = Inr (ret, d') \<longrightarrow> ret = 0)"
  using assms processUpdateInfo_failed [OF assms(2,3)]
  by (simp add: handleUpdateInfo_def handleCoordinatorUpdateInfo_def updateState_def processUpdateInfo_iff)

text \<open>An update of a peer in a cell nobody knows.\<close>

definition sample_update :: info_update where
  "sample_update = RemoveServiceUpdateInfo (replicate 16 4) (replicate 16 9) (replicate 16 5) (replicate 16 6)"

text \<open>Updates survive the wire. Every update is written with 16-byte identifiers and read back from the
  block in a packet by the factory as it was.\<close>

lemma info_update_roundtrip:
  assumes "update_ok upd"
  shows "wire_ok (InfoUpdate_serialize upd) \<and> packet_update (Some (one_block (encode (InfoUpdate_serialize upd)))) = Inr upd"
  using update_calls [OF assms] packet_update_back [OF assms] by blast

lemma info_update_roundtrip_witness:
  "packet_update (Some (one_block (encode (InfoUpdate_serialize sample_update)))) = Inr sample_update"
  using info_update_roundtrip [of sample_update] by (simp add: sample_update_def uuid_ok_def)

section \<open>Discovery\<close>

text \<open>Which coordinator is named. \<^verbatim>\<open>handleCoordinatorRequest\<close> means to name a random coordinator, but takes the last
  index modulo the random number: any random number that is not smaller than the number of coordinators
  gives the last coordinator of the tree, and zero divides by zero.\<close>

lemma coordinator_request_last:
  assumes "cl_tree c = Root root" "getCoordinators_i root = l @ [Some coord]"
  shows "(int (length l) < w_rand w \<longrightarrow> handleCoordinatorRequest w h c = Inr ([discovery_reply c (cl_cellID c) h
        (RequestCoordinatorReplyPacket (getPID coord) (getFID coord) (pi_meshSAP (pp_info coord)) (pi_discoverySAP (pp_info coord))
          (pi_ftSAP (pp_info coord)) (pp_cellEndpoint coord))], c))
    \<and> (w_rand w = 0 \<longrightarrow> handleCoordinatorRequest w h c = Inl DIVISION_BY_ZERO)"
  using assms by (auto simp: handleCoordinatorRequest_def with_root_def Let_def nth_append)

lemma coordinator_request_last_witness:
  "\<exists>coord. getPID coord = replicate 16 1 \<and> handleCoordinatorRequest sample_world (sample_header 6) sample_joined
      = Inr ([discovery_reply sample_joined (cl_cellID sample_joined) (sample_header 6)
        (RequestCoordinatorReplyPacket (getPID coord) (getFID coord) (pi_meshSAP (pp_info coord)) (pi_discoverySAP (pp_info coord))
          (pi_ftSAP (pp_info coord)) (pp_cellEndpoint coord))], sample_joined)"
proof -
  have "case cl_tree sample_joined of Root r \<Rightarrow> map (map_option getPID) (getCoordinators_i r) = [Some (replicate 16 1)] | _ \<Rightarrow> False" by code_simp
  then obtain r coord where r: "cl_tree sample_joined = Root r" "getCoordinators_i r = [] @ [Some coord]" "getPID coord = replicate 16 1"
    by (cases "cl_tree sample_joined") (auto simp: map_eq_Cons_conv)
  have "int (length []) < w_rand sample_world" by (simp add: sample_world_def)
  with coordinator_request_last [OF r(1,2)] r(3) show ?thesis by blast
qed

section \<open>Offering a cell\<close>


lemma sample_full_cell:
  "case offer_cell sample_world sample_joined of Inl e \<Rightarrow> False | Inr (p, port, c') \<Rightarrow> p = [0] \<and> port = 4001"
  by code_simp


lemma offer_reply_below:
  assumes "offer_reply itf ip port p root = Inr b" "p \<noteq> []"
  shows "\<exists>a co ep pa pu pe d m f. b = RequestCellReplyPacket a co ep (Some pa) pu pe d m f \<and> ca_port a = port \<and> ca_port pa = port"
  using assms by (auto simp: offer_reply_def Let_def split: option.splits)

text \<open>A cell with room below the root is announced with port -1 (65535): the port that was recorded when it was
  created is not looked up, so the superpeer that is to join is given no usable port of the cell.\<close>

lemma existing_cell_port:
  assumes "cl_coordinator c" "isEqual (sh_srcFID h) INVALID_ID" "cl_tree c = Root root"
    "getAvailableNode (ucast SUPERPEER) root = Some p" "p \<noteq> []" "handleCellRequest w h c = Inr (ms, c')"
  shows "\<exists>a co ep pa pu pe d m f. ms = [discovery_reply c (ca_cellID a) h (RequestCellReplyPacket a co ep (Some pa) pu pe d m f)]
    \<and> ca_port a = -1 \<and> ca_port pa = -1"
proof -
  from assms obtain itf ip b where b: "offer_reply itf ip (-1) p root = Inr b" "ms = [discovery_reply c (reply_cell b) h b]"
    by (auto simp: handleCellRequest_def offer_cell_def with_root_def res_bind_Inr_iff)
  from offer_reply_below [OF b(1) assms(5)] b(2) show ?thesis by fastforce
qed

text \<open>A tree with a full root cell and one child cell with room, as two offers leave it.\<close>

definition sample_offered :: cell where
  "sample_offered = (case offer_cell sample_world sample_joined of Inr (p, port, c) \<Rightarrow> c | _ \<Rightarrow> sample_blank)"

definition sample_request :: stheno_header where
  "sample_request = SthenoHeader_ctor (replicate 16 3) INVALID_ID (replicate 16 1) (replicate 16 7) 1 5 0"

lemma existing_cell_port_witness:
  "\<exists>ms c' a co ep pa pu pe d m f. handleCellRequest sample_world sample_request sample_offered = Inr (ms, c')
    \<and> ms = [discovery_reply sample_offered (ca_cellID a) sample_request (RequestCellReplyPacket a co ep (Some pa) pu pe d m f)]
    \<and> ca_port a = -1"
proof -
  have "case cl_tree sample_offered of Root r \<Rightarrow> getAvailableNode (ucast SUPERPEER) r = Some [0] | _ \<Rightarrow> False" by code_simp
  then obtain r where r: "cl_tree sample_offered = Root r" "getAvailableNode (ucast SUPERPEER) r = Some [0]"
    by (cases "cl_tree sample_offered") auto
  have "case handleCellRequest sample_world sample_request sample_offered of Inl e \<Rightarrow> False | Inr x \<Rightarrow> True" by code_simp
  then obtain ms c' where run: "handleCellRequest sample_world sample_request sample_offered = Inr (ms, c')" by (auto split: sum.splits)
  have "cl_coordinator sample_offered" "isEqual (sh_srcFID sample_request) INVALID_ID" by code_simp+
  from existing_cell_port [OF this r _ run] run show ?thesis by fastforce
qed

section \<open>Leaving\<close>

lemma scan_update:
  assumes "i < length cs" "cs ! i = Some m" "f (k + i) m' = f (k + i) m"
  shows "scan k f (cs[i := Some m']) = scan k f cs"
  using assms
proof (induction cs arbitrary: k i)
  case (Cons c cs)
  show ?case
  proof (cases i)
    case 0
    with Cons.prems show ?thesis by simp
  next
    case (Suc j)
    with Cons.IH [of j "Suc k"] Cons.prems show ?thesis by (cases c) (simp_all split: option.splits)
  qed
qed simp

text \<open>A search that looks at something an edit of one node leaves alone finds what it found before.\<close>

lemma tree_find_update:
  assumes "node_at p t = Some n" "P (f n) \<longleftrightarrow> P n" "siblings (f n) = siblings n"
    "\<And>i cs ds. P (Node i cs) \<longleftrightarrow> P (Node i ds)"
  shows "tree_find P (update_at p f t) = tree_find P t"
  using assms(1)
proof (induction p arbitrary: t)
  case Nil
  then obtain i cs j where "t = Node i cs" "f t = Node j cs" using assms(3) by (cases t; cases "f t") auto
  moreover have "P (f t) \<longleftrightarrow> P t" using Nil assms(2) by simp
  ultimately show ?case by simp
next
  case (Cons k p)
  obtain i cs where t: "t = Node i cs" by (cases t)
  from Cons.prems t obtain m where m: "k < length cs" "cs ! k = Some m" "node_at p m = Some n"
    by (auto split: if_splits option.splits)
  have "scan 0 (\<lambda>k n. map_option ((#) k) (tree_find P n)) (cs[k := Some (update_at p f m)])
      = scan 0 (\<lambda>k n. map_option ((#) k) (tree_find P n)) cs"
    by (rule scan_update [OF m(1,2)]) (simp add: Cons.IH [OF m(3)])
  then show ?case using assms(4) m(1,2) by (simp add: t) blast
qed

text \<open>the last superpeer of a cell. When it leaves, the cell goes with everything below it and no other cell
  changes. When it is the last superpeer of the root cell, the tree keeps a pointer to the freed root: the next
  request of any kind that looks at the tree uses freed memory.\<close>

theorem last_superpeer_leaves:
  assumes "getCellTreeNode_i cell root = Some p" "node_at p root = Some n" "ct_sps (info n) = [peer]" "isEqual (getPID peer) u"
  shows "if p = []
    then leave_tree u cell (Root root) = Inr (True, Dangling)
      \<and> (\<forall>w h v cell' c. cl_tree c = Dangling \<longrightarrow> handleLeaveMesh w h v cell' c = Inl (Fault USE_AFTER_FREE)
           \<and> handleCoordinatorLeaveMesh w h v cell' c = Inl (Fault USE_AFTER_FREE))
    else \<exists>root'. leave_tree u cell (Root root) = Inr (True, Root root') \<and> (\<forall>r. node_at (p @ r) root' = None)
      \<and> (\<forall>q. \<not> prefix p q \<longrightarrow> map_option info (node_at q root') = map_option info (node_at q root))"
proof -
  let ?n = "Node ((info n)\<lparr>ct_sps := []\<rparr>) (siblings n)"
  let ?r = "update_at p (\<lambda>_. ?n) root"
  have rem: "node_remove u n = (0, ?n)" using assms(3,4) by (simp add: node_remove_def)
  have find: "getCellTreeNode_i cell ?r = Some p"
    using assms(1) unfolding getCellTreeNode_i_def
    by (subst tree_find_update [OF assms(2)]) simp_all
  have leave: "leave_tree u cell (Root root) = res_bind (removeSubtree cell (Root ?r)) (\<lambda>(r', t). Inr (True, t))"
    using assms(1,2) by (simp add: leave_tree_def with_root_def rem getPeerCount_def)
  show ?thesis
  proof (cases "p = []")
    case True
    then show ?thesis using leave find
      by (simp add: removeSubtree_def with_root_def handleLeaveMesh_def handleCoordinatorLeaveMesh_def leave_tree_def)
  next
    case False
    then obtain q i where p: "p = q @ [i]" by (cases p rule: rev_exhaust) auto
    have at: "node_at p ?r = Some ?n" by (rule node_at_update_same [OF assms(2)])
    then have "Option.bind (node_at q ?r) (node_at [i]) = Some ?n" using p by (simp add: node_at_append)
    then obtain m where m: "node_at q ?r = Some m" "i < length (siblings m)"
      by (cases "node_at q ?r") (auto split: if_splits)
    have "leave_tree u cell (Root root) = Inr (True, Root (clear_at p ?r))"
      using leave find False by (simp add: removeSubtree_def with_root_def)
    moreover have "node_at (p @ r) (clear_at p ?r) = None" for r
      using graft_new [OF m, of r None] by (simp add: clear_at_def p)
    moreover have "map_option info (node_at q' (clear_at p ?r)) = map_option info (node_at q' root)" if "\<not> prefix p q'" for q'
    proof -
      have "map_option info (node_at q' (clear_at p ?r)) = map_option info (node_at q' ?r)"
        using graft_old [OF m(1), of i q' None] that by (simp add: clear_at_def p)
      also have "\<dots> = map_option info (node_at q' root)" using that by (intro update_info [OF assms(2)]) auto
      finally show ?thesis .
    qed
    ultimately show ?thesis using False by auto
  qed
qed

section \<open>Packets\<close>

text \<open>packets of the discovery protocol. A packet of any of the seven classes, with its own type in the header and arguments
  in range, is written as 98 bytes of header and the body the header announces, and read back from
  there as the same packet, except that the mesh size of a notification is never sent; a cell reply
  gives the superpeer that asked the reply it is meant to have.\<close>

theorem discovery_packet_roundtrip:
  assumes "header_ok h" "discovery_ok b" "raw_ok raw" "sh_messageType h = discovery_type b" "length (encode (discovery_body b)) < 2 ^ 32"
  shows "\<exists>ops h'. serialize_packet h (discovery_body b) = Some ops \<and> length (encode ops) = 98 + unat (sh_messageSize h')
    \<and> unat (sh_messageSize h') = length (encode (discovery_body b))
    \<and> SthenoHeader_deserialize raw (input (encode ops @ r)) = (h', input (encode (discovery_body b) @ r))
    \<and> (\<exists>b'. discovery_createPacket raw h' (input (encode (discovery_body b) @ r)) = Some (b', input r) \<and> discovery_sim b b'
        \<and> reply_of_packet b' = reply_of_packet b)"
proof -
  have "reply_of_packet b' = reply_of_packet b" if "discovery_sim b b'" for b'
    using that by (auto simp: discovery_sim_def)
  with discovery_packets.family_roundtrip [OF assms, of r] show ?thesis by blast
qed

text \<open>Rebinding carries the tree. The introduction a coordinator sends when it binds to a new parent goes to that parent's coordinator
  only, names the coordinator, its cell and the parent, and carries the tree: whoever reads its state
  gets a tree with the same cells and the same peers in the same places.\<close>

lemma rebind_carries_tree:
  assumes "cl_tree c = Root root" "node_ok root" "rebindMesh w c ch = Inr (accepted, ms)"
  shows "\<exists>parent st ft. cl_parentCellID c = Some parent
    \<and> ms = [ToParent (packet_to c (fst ch) (snd ch) (RebindMeshPacket (own_type c) (cl_pid c) (cl_cellID c) parent
          (cl_acceptor c) None (w_discoverySAP w) (w_meshSAP w) ft (Some st)))
        (RebindMeshPacket (own_type c) (cl_pid c) (cl_cellID c) parent (cl_acceptor c) None (w_discoverySAP w) (w_meshSAP w) ft (Some st))]
    \<and> (\<forall>v. \<exists>m. read_tree v (Some st) = Root m \<and> node_sim root m)"
proof -
  let ?st = "one_block (encode (node_serialize root))"
  have "\<forall>v. \<exists>m. read_tree v (Some ?st) = Root m \<and> node_sim root m" using read_tree_back [OF assms(2)] by blast
  with assms(1,3) show ?thesis
    by (auto simp: rebindMesh_def CellTree_serialize_def with_root_def ask_parent_def Let_def RebindMesh_ctor_def
        split: option.splits intro!: exI [of _ ?st])
qed

lemma rebind_carries_tree_witness:
  "\<exists>accepted ms. rebindMesh sample_world (sample_joined\<lparr>cl_tree := Root sample_tree\<rparr>) (replicate 16 3, replicate 16 4) = Inr (accepted, ms)
    \<and> length ms = 1"
proof -
  let ?c = "sample_joined\<lparr>cl_tree := Root sample_tree\<rparr>"
  have "cl_parentCellID sample_joined = Some INVALID_ID" by code_simp
  then obtain accepted ms where run: "rebindMesh sample_world ?c (replicate 16 3, replicate 16 4) = Inr (accepted, ms)"
    by (auto simp: rebindMesh_def sample_world_def CellTree_serialize_def with_root_def ask_parent_def Let_def)
  from rebind_carries_tree [OF _ sample_tree_ok(1) run] run show ?thesis by auto
qed

end
