(* ===== verification/DiscoveryService.thy ===== *)
theory DiscoveryService
  imports LeastLoad CellRuns
begin

text \<open>
  The discovery service of P3: the table of providers (\<^verbatim>\<open>stheno/core/p2p/discovery/Discovery.cpp\<close>), the provider
  that answers from the cell tree (\<^verbatim>\<open>P3GeneralProvider.cpp\<close>, with the reading operations of \<^verbatim>\<open>P3Mesh.cpp\<close> and
  \<^verbatim>\<open>Cell.cpp\<close>), and the superpeers that pass a query to the superpeer above until it reaches the root
  (\<^verbatim>\<open>SuperPeerDiscovery.cpp\<close>). A query is the value its class holds; what the classes of replies lose between
  writing and reading is modelled. The superpeers of an overlay are numbered. Then the answers are
  traced from the superpeer that asks to the tree of the root.
\<close>

section \<open>Queries and replies\<close>

datatype general_query =
    GetSensorsQuery
  | LaunchServiceSiteQuery uuid uuid "uuid list"
  | FindPeerQuery uuid
  | P3FindPeerQuery u32
  | FindServiceInstanceQuery uuid uuid
  | OtherQuery u32

definition GENERALPROVIDER_TYPE :: u32 where
  "GENERALPROVIDER_TYPE = 0x2138AA"

fun query_type :: "general_query \<Rightarrow> u32" where
  "query_type GetSensorsQuery = 0x1213AA"
| "query_type (LaunchServiceSiteQuery _ _ _) = 0x00FF"
| "query_type (FindPeerQuery _) = 0x332134"
| "query_type (P3FindPeerQuery _) = 0x192134"
| "query_type (FindServiceInstanceQuery _ _) = 0x328300"
| "query_type (OtherQuery t) = t"

text \<open>\<^verbatim>\<open>serializeQuerySpecialization\<close> of the classes. A site query has the requester, the service and the filter.\<close>

fun query_serialize :: "general_query \<Rightarrow> wop list" where
  "query_serialize (LaunchServiceSiteQuery req sid flt) =
     uuid_serialize sid @ uuid_serialize req @ WLong (word_of_nat (length flt)) # concat (map uuid_serialize flt)"
| "query_serialize (FindPeerQuery u) = uuid_serialize u"
| "query_serialize (P3FindPeerQuery level) = [WLong level]"
| "query_serialize (FindServiceInstanceQuery sid iid) = uuid_serialize sid @ uuid_serialize iid"
| "query_serialize _ = []"

text \<open>\<^verbatim>\<open>deserializeQuerySpecialization\<close>: failed reads go unnoticed. \<open>raw\<close> is what the level holds before it is read.\<close>

definition query_deserialize :: "u32 \<Rightarrow> u32 \<Rightarrow> bis \<Rightarrow> general_query" where
  "query_deserialize raw t s =
     (if t = 0x1213AA then GetSensorsQuery
      else if t = 0x00FF then
        (let (sid, s1) = uuid_deserialize s; (req, s2) = uuid_deserialize s1;
             (ok, n, s3) = read_ulong 0 s2; (flt, s4) = read_n (unat n) uuid_deserialize s3
         in LaunchServiceSiteQuery req sid flt)
      else if t = 0x332134 then FindPeerQuery (fst (uuid_deserialize s))
      else if t = 0x192134 then (case read_long raw s of (ok, level, s1) \<Rightarrow> P3FindPeerQuery level)
      else if t = 0x328300 then
        (let (sid, s1) = uuid_deserialize s; (iid, s2) = uuid_deserialize s1 in FindServiceInstanceQuery sid iid)
      else OtherQuery t)"

text \<open>A query object: its blob, without bytes when it is null, and its own fields when it is of a derived class.\<close>

record discovery_query =
  dq_provider :: u32
  dq_type :: u32
  dq_blob :: "byte list"
  dq_own :: "general_query option"

definition new_query :: "general_query \<Rightarrow> discovery_query" where
  "new_query q = \<lparr>dq_provider = GENERALPROVIDER_TYPE, dq_type = query_type q, dq_blob = [], dq_own = Some q\<rparr>"

text \<open>The object that is read from what \<^verbatim>\<open>DiscoveryQuery::serialize\<close> wrote.\<close>

definition transmit :: "discovery_query \<Rightarrow> discovery_query" where
  "transmit q = q\<lparr>dq_blob := (if dq_blob q \<noteq> [] then dq_blob q
     else case dq_own q of None \<Rightarrow> [] | Some g \<Rightarrow> encode (query_serialize g)), dq_own := None\<rparr>"

text \<open>The converting constructors, such as \<^verbatim>\<open>LaunchServiceSiteQuery(DiscoveryQuery*)\<close>, read the blob and nothing else.\<close>

definition narrow_query :: "u32 \<Rightarrow> discovery_query \<Rightarrow> general_query" where
  "narrow_query raw q = query_deserialize raw (dq_type q) (input (dq_blob q))"

text \<open>The reply of an instance has the identifiers of the peer and of its cell. A reply object is \<open>Own\<close> where it was
  made, and has a blob or an exception, \<open>Received\<close>, behind a channel.\<close>

datatype query_reply =
    SensorsReply "sensor_info list" "sensor_info list" "sensor_info list" "sensor_info list"
  | LaunchSiteReply uuid uuid "sap_info option" "sap_info option"
  | FindPeerReply peer_info
  | P3FindPeerReply peer_info
  | InstanceReply uuid uuid "sap_info option"
  | ExceptionReply u32 u32 string

datatype reply_object = Own query_reply | Received query_reply

text \<open>A fault follows a wrong pointer; \<open>WRONG_CLASS\<close> is the use of an object as one of a class it does not
  have; the other outcomes are exceptions that leave the call.\<close>

datatype query_error = QueryFault tree_error | WRONG_CLASS | DiscoveryException string | ServiceExc cell_error | EndpointExc

definition query_fault :: "tree_error + 'a \<Rightarrow> query_error + 'a" where
  "query_fault m = (case m of Inl e \<Rightarrow> Inl (QueryFault e) | Inr x \<Rightarrow> Inr x)"

definition NO_REPLY_AVAILABLE :: string where
  "NO_REPLY_AVAILABLE = ''No reply was available!''"

section \<open>Providers\<close>

text \<open>Registering a provider for a number that is taken unregisters the provider that has it.\<close>

definition findProvider :: "u32 \<Rightarrow> (u32 \<rightharpoonup> 'p) \<Rightarrow> 'p option" where
  "findProvider n tbl = tbl n"

definition removeDiscoveryProvider :: "u32 \<Rightarrow> (u32 \<rightharpoonup> 'p) \<Rightarrow> bool \<times> (u32 \<rightharpoonup> 'p)" where
  "removeDiscoveryProvider n tbl = (True, tbl(n := None))"

definition addDiscoveryProvider :: "u32 \<Rightarrow> 'p \<Rightarrow> (u32 \<rightharpoonup> 'p) \<Rightarrow> bool \<times> (u32 \<rightharpoonup> 'p)" where
  "addDiscoveryProvider n p tbl = (case findProvider n tbl of
      None \<Rightarrow> (True, tbl(n \<mapsto> p))
    | Some _ \<Rightarrow> (False, snd (removeDiscoveryProvider n tbl)))"

definition providedEvents :: "u32 list" where
  "providedEvents = [0x1213AA, 0x00FF, 0x4A313AB, 0x328300, 0x192134, 0x332134]"

definition isEventProvided :: "u32 \<Rightarrow> bool" where
  "isEventProvided t = list_ex (\<lambda>e. e = t) providedEvents"

section \<open>Reading the cell\<close>

text \<open>A superpeer: its cell with what surrounds it, whether the overlay has a mesh, what the runtime knows of an
  instance (its access point can be null; no instance and an exception are None), the random numbers that
  \<^verbatim>\<open>rand()\<close> gives, what an uninitialised level holds, and the table of providers, which only has the general one.\<close>

record superpeer =
  sp_cell :: cell
  sp_world :: cell_world
  sp_mesh :: bool
  sp_instances :: "uuid \<Rightarrow> uuid \<Rightarrow> sap_info option option"
  sp_rand :: "path \<Rightarrow> nat"
  sp_rawLevel :: u32
  sp_providers :: "u32 \<rightharpoonup> unit"

definition cell_getSensors :: "sensor_kind \<Rightarrow> cell \<Rightarrow> sensor_info list" where
  "cell_getSensors k c = cl_sensors c k"

text \<open>\<^verbatim>\<open>getPeerByLevel_i\<close>. It reports success for a cell without superpeers and for a tree that has no such level, and
  leaves \<^verbatim>\<open>info\<close> null then; a null peer found below is passed on as a result.\<close>

fun getPeerByLevel_i :: "(path \<Rightarrow> nat) \<Rightarrow> u32 \<Rightarrow> node \<Rightarrow> int \<times> p3_peer_info option" where
  "getPeerByLevel_i rnd level (Node i cs) =
     (if ct_depth i = level then
        (let l = getPeersByType SUPERPEER (Node i cs)
         in if l = [] then (0, None) else (0, Some (l ! (rnd [] mod length l))))
      else
        (let l = concat (map (\<lambda>(k, c). case c of None \<Rightarrow> []
               | Some n \<Rightarrow> (case getPeerByLevel_i (\<lambda>q. rnd (k # q)) level n of
                     (ret, sub) \<Rightarrow> if ret = 0 then [sub] else []))
             (enumerate 0 cs))
         in if l = [] then (0, None) else (0, l ! (rnd [] mod length l))))"

definition getPeerByLevel :: "superpeer \<Rightarrow> u32 \<Rightarrow> tree_error + (int \<times> p3_peer_info option)" where
  "getPeerByLevel S level = with_root (cl_tree (sp_cell S)) (\<lambda>root. Inr (getPeerByLevel_i (sp_rand S) level root))"

definition mesh_getPoL :: "superpeer \<Rightarrow> uuid list \<Rightarrow> tree_error + p3_peer_info option" where
  "mesh_getPoL S flt = with_root (cl_tree (sp_cell S)) (\<lambda>root. Inr (the (getPoL flt root)))"

text \<open>An instance is looked for in the tree, then among those of the runtime.\<close>

definition getPeerInfoByIID :: "superpeer \<Rightarrow> uuid \<Rightarrow> uuid \<Rightarrow> tree_error + sap_info option option" where
  "getPeerInfoByIID S sid iid = with_root (cl_tree (sp_cell S)) (\<lambda>root. Inr (case getPeerByIID_i sid iid root of
      Some sap \<Rightarrow> Some sap
    | None \<Rightarrow> sp_instances S sid iid))"

definition peer_description :: "p3_peer_info \<Rightarrow> peer_info" where
  "peer_description p = (pp_info p)\<lparr>pi_services := []\<rparr>"

section \<open>The general provider\<close>

text \<open>\<^verbatim>\<open>P3GeneralProvider::executeQuery\<close>; a null reply is None.\<close>

definition described :: "(peer_info \<Rightarrow> query_reply) \<Rightarrow> p3_peer_info option \<Rightarrow> query_error + query_reply option" where
  "described f p = (case p of None \<Rightarrow> Inl (QueryFault NULL_DEREF) | Some p \<Rightarrow> Inr (Some (f (peer_description p))))"

fun answer_query :: "superpeer \<Rightarrow> general_query \<Rightarrow> query_error + query_reply option" where
  "answer_query S GetSensorsQuery = (let c = sp_cell S in
     Inr (if cell_isRoot c then Some (SensorsReply (cell_getSensors Audio c) (cell_getSensors Video c)
            (cell_getSensors Event c) (cell_getSensors Actuator c))
          else None))"
| "answer_query S (LaunchServiceSiteQuery req sid flt) =
     (if cell_isRoot (sp_cell S) then
        res_bind (query_fault (mesh_getPoL S (flt @ [req]))) (\<lambda>r. Inr (map_option (\<lambda>p.
          LaunchSiteReply (getPID p) (getFID p) (pi_meshSAP (pp_info p)) (pi_ftSAP (pp_info p))) r))
      else Inr None)"
| "answer_query S (FindPeerQuery u) = res_bind (query_fault (cell_getPeer u (sp_cell S))) (\<lambda>r. case r of
      Some p \<Rightarrow> described FindPeerReply (Some p)
    | None \<Rightarrow> Inr None)"
| "answer_query S (P3FindPeerQuery level) =
     res_bind (query_fault (if level = 0x7FFFFFFF then getRandomPeer (sp_rand S []) (cl_tree (sp_cell S))
                            else getPeerByLevel S level)) (\<lambda>(ret, p).
       if ret = 0 then described P3FindPeerReply p else Inr None)"
| "answer_query S (FindServiceInstanceQuery sid iid) =
     res_bind (query_fault (getPeerInfoByIID S sid iid)) (\<lambda>r. Inr (map_option (\<lambda>sap.
       InstanceReply (cl_pid (sp_cell S)) (cl_fid (sp_cell S)) sap) r))"
| "answer_query S (OtherQuery t) = Inr None"

definition P3GeneralProvider_executeQuery :: "superpeer \<Rightarrow> discovery_query \<Rightarrow> query_error + query_reply option" where
  "P3GeneralProvider_executeQuery S q =
     (if dq_provider q \<noteq> GENERALPROVIDER_TYPE then Inl (DiscoveryException ''Unable to execute sync query'')
      else if \<not> isEventProvided (dq_type q) then Inl (DiscoveryException ''Unable to execute request'')
      else if \<not> sp_mesh S then Inl (DiscoveryException ''Invalid overlay'')
      else answer_query S (narrow_query (sp_rawLevel S) q))"

section \<open>Passing a query on\<close>

text \<open>\<^verbatim>\<open>SuperPeerDiscovery::executeLocalQuery\<close>.\<close>

definition executeLocalQuery :: "superpeer \<Rightarrow> discovery_query \<Rightarrow> query_error + query_reply option" where
  "executeLocalQuery S q = (case findProvider (dq_provider q) (sp_providers S) of
      None \<Rightarrow> Inr None
    | Some _ \<Rightarrow> (case P3GeneralProvider_executeQuery S q of
          Inl (DiscoveryException m) \<Rightarrow> Inr None
        | r \<Rightarrow> r))"

text \<open>A reply on its way: null access points are followed when an object of a derived class is written.\<close>

fun reply_on_wire :: "reply_object \<Rightarrow> query_error + reply_object" where
  "reply_on_wire (Own (LaunchSiteReply u f mesh ft)) =
     (if mesh = None \<or> ft = None then Inl (QueryFault NULL_DEREF) else Inr (Received (LaunchSiteReply u f mesh ft)))"
| "reply_on_wire (Own (InstanceReply u f sap)) =
     (if sap = None then Inl (QueryFault NULL_DEREF) else Inr (Received (InstanceReply u f sap)))"
| "reply_on_wire (Own r) = Inr (Received r)"
| "reply_on_wire (Received r) = Inr (Received r)"

text \<open>\<^verbatim>\<open>handleQueryPacket\<close>: what the superpeer above sends back for the outcome of its own \<^verbatim>\<open>executeQuery\<close>. Before
  it asks, it logs the length of the blob without a test for null, and a sensor query has none: that this is
  harmless rests on \<^verbatim>\<open>ACE_Message_Block::total_length\<close>, whose loop begins with a test of its own block.\<close>

definition handleQueryPacket :: "discovery_query \<Rightarrow> query_error + reply_object option \<Rightarrow> query_error + reply_object option" where
  "handleQueryPacket q r = res_bind r (\<lambda>reply. res_bind (reply_on_wire (case reply of
       None \<Rightarrow> Own (ExceptionReply (dq_provider q) (dq_type q) NO_REPLY_AVAILABLE)
     | Some x \<Rightarrow> x)) (\<lambda>x. Inr (Some x)))"

text \<open>An overlay: its superpeers, and which of them accepts connections to an endpoint.\<close>

record overlay_net =
  on_superpeer :: "nat \<Rightarrow> superpeer"
  on_accepts :: "endpoint \<Rightarrow> nat option"

text \<open>The superpeer above: None when there is none, for the root; else what connecting to its discovery gives.\<close>

definition connect_above :: "overlay_net \<Rightarrow> nat \<Rightarrow> (query_error + nat option) option" where
  "connect_above V n = (let S = on_superpeer V n in map_option (\<lambda>u.
     case getDiscoverySAPInfo (sp_world S) u (sp_cell S) of
       Inl e \<Rightarrow> Inl (ServiceExc e)
     | Inr None \<Rightarrow> Inr None
     | Inr (Some sap) \<Rightarrow> (case getFirstEndpoint sap of Inl _ \<Rightarrow> Inl EndpointExc | Inr e \<Rightarrow> Inr (on_accepts V e)))
       (cl_parentUUID (sp_cell S)))"

text \<open>\<^verbatim>\<open>SuperPeerDiscovery::executeQuery\<close>; the superpeer above runs it in its turn in \<^verbatim>\<open>handleQueryPacket\<close>. It may not
  return, when superpeers are above each other.\<close>

partial_function (option) executeQuery ::
    "overlay_net \<Rightarrow> nat \<Rightarrow> discovery_query \<Rightarrow> (query_error + reply_object option) option"
  where [code]: "executeQuery V n q = (case connect_above V n of
      None \<Rightarrow> Some (res_bind (executeLocalQuery (on_superpeer V n) q) (\<lambda>r. Inr (map_option Own r)))
    | Some (Inl e) \<Rightarrow> Some (Inl e)
    | Some (Inr None) \<Rightarrow> Some (Inr None)
    | Some (Inr (Some m)) \<Rightarrow> Option.bind (executeQuery V m (transmit q)) (\<lambda>r. Some (handleQueryPacket (transmit q) r)))"

section \<open>Reading the reply\<close>

text \<open>The part of \<^verbatim>\<open>P3FaultTolerance::findResources\<close> that asks for one site. A reply without a blob is taken for a
  \<^verbatim>\<open>LaunchServiceSiteQueryReply\<close>, which the object of an exception is not.\<close>

record site =
  st_uuid :: uuid
  st_fid :: uuid
  st_meshSAP :: "sap_info option"
  st_ftSAP :: "sap_info option"

fun narrow_site :: "reply_object option \<Rightarrow> query_error + site option" where
  "narrow_site None = Inr None"
| "narrow_site (Some (Own (LaunchSiteReply u f mesh ft))) =
     Inr (Some \<lparr>st_uuid = u, st_fid = f, st_meshSAP = mesh, st_ftSAP = ft\<rparr>)"
| "narrow_site (Some (Received (LaunchSiteReply u f mesh ft))) =
     Inr (Some \<lparr>st_uuid = u, st_fid = f, st_meshSAP = mesh, st_ftSAP = ft\<rparr>)"
| "narrow_site (Some _) = Inl WRONG_CLASS"

definition findSite :: "overlay_net \<Rightarrow> nat \<Rightarrow> uuid \<Rightarrow> uuid list \<Rightarrow> (query_error + site option) option" where
  "findSite V n sid flt = map_option (\<lambda>r. res_bind r narrow_site) (executeQuery V n
     (new_query (LaunchServiceSiteQuery (cl_pid (sp_cell (on_superpeer V n))) sid flt)))"

text \<open>The fields of a \<^verbatim>\<open>FindServiceInstanceQueryReply\<close> that is read from the bytes of one: the second identifier is read
  into the first field, so that the cell stands in place of the peer, and there is no cell.\<close>

definition instance_reply_received :: "uuid \<Rightarrow> uuid \<Rightarrow> sap_info option \<Rightarrow> uuid \<times> uuid option \<times> sap_info option" where
  "instance_reply_received u f sap = (f, None, sap)"

section \<open>A query on its way to the root\<close>

text \<open>The superpeer whose discovery is \<open>k\<close> connections above \<open>n\<close> is \<open>m\<close>, which has none above it.\<close>

fun root_above :: "overlay_net \<Rightarrow> nat \<Rightarrow> nat \<Rightarrow> nat \<Rightarrow> bool" where
  "root_above V 0 n m = (n = m \<and> connect_above V n = None)"
| "root_above V (Suc k) n m = (case connect_above V n of Some (Inr (Some j)) \<Rightarrow> root_above V k j m | _ \<Rightarrow> False)"

definition query_ok :: "general_query \<Rightarrow> bool" where
  "query_ok q = (case q of
      LaunchServiceSiteQuery req sid flt \<Rightarrow> uuid_ok req \<and> uuid_ok sid \<and> list_all uuid_ok flt \<and> length flt < 2 ^ 32
    | FindPeerQuery u \<Rightarrow> uuid_ok u
    | FindServiceInstanceQuery sid iid \<Rightarrow> uuid_ok sid \<and> uuid_ok iid
    | OtherQuery t \<Rightarrow> t \<notin> set providedEvents
    | _ \<Rightarrow> True)"

lemma query_roundtrip:
  assumes "query_ok q"
  shows "query_deserialize raw (query_type q) (input (encode (query_serialize q))) = q"
proof (cases q)
  case (LaunchServiceSiteQuery req sid flt)
  have "read_n (length flt) uuid_deserialize (input (encode (concat (map uuid_serialize flt)))) = (flt, input [])"
    using uuid.list_back [of flt "[]"] assms by (simp add: LaunchServiceSiteQuery query_ok_def)
  moreover have "unat (word_of_nat (length flt) :: u32) = length flt"
    using assms by (simp add: LaunchServiceSiteQuery query_ok_def unat_of_nat)
  ultimately show ?thesis using assms
    by (simp add: LaunchServiceSiteQuery query_ok_def query_deserialize_def uuid_roundtrip read_ulong_back)
next
  case (FindPeerQuery u)
  then show ?thesis using assms uuid_roundtrip [of u "[]"] by (simp add: query_deserialize_def query_ok_def)
next
  case (P3FindPeerQuery l)
  then show ?thesis using read_long_back [of raw l "[]"] by (simp add: query_deserialize_def)
next
  case (FindServiceInstanceQuery sid iid)
  then show ?thesis using assms uuid_roundtrip [of iid "[]"] by (simp add: query_deserialize_def query_ok_def uuid_roundtrip)
qed (use assms in \<open>simp_all add: query_deserialize_def query_ok_def providedEvents_def\<close>)

lemma transmit_simps [simp]: "dq_provider (transmit q) = dq_provider q" "dq_type (transmit q) = dq_type q"
  "transmit (transmit q) = transmit q"
  by (simp_all add: transmit_def split: option.split)

lemma narrow_transmitted:
  "query_ok q \<Longrightarrow> narrow_query raw (transmit (new_query q)) = q"
  by (simp add: narrow_query_def transmit_def new_query_def query_roundtrip)

text \<open>What a query loses where it was made: every identifier of it is read as the empty one.\<close>

lemma uuid_of_nothing: "uuid_deserialize (input []) = ([], \<lparr>bis_rest = [], bis_good = False, bis_ub = False\<rparr>)"
  by code_simp

lemma narrow_own:
  "narrow_query raw (new_query (LaunchServiceSiteQuery req sid flt)) = LaunchServiceSiteQuery [] [] []"
proof -
  have "query_deserialize raw 0xFF (input []) = LaunchServiceSiteQuery [] [] []"
  proof -
    have "uuid_deserialize \<lparr>bis_rest = [], bis_good = False, bis_ub = False\<rparr> = ([], \<lparr>bis_rest = [], bis_good = False, bis_ub = False\<rparr>)"
      "fst (snd (read_ulong 0 \<lparr>bis_rest = [], bis_good = False, bis_ub = False\<rparr>)) = 0"
      by code_simp+
    then show ?thesis by (simp add: query_deserialize_def uuid_of_nothing Let_def case_prod_unfold)
  qed
  then show ?thesis by (simp add: narrow_query_def new_query_def)
qed

text \<open>The answer of the root as the superpeers below get it.\<close>

definition answer_below :: "discovery_query \<Rightarrow> query_error + query_reply option \<Rightarrow> query_error + reply_object option" where
  "answer_below q r = handleQueryPacket q (res_bind r (\<lambda>x. Inr (map_option Own x)))"

lemma reply_on_wire_received: "reply_on_wire x = Inr y \<Longrightarrow> \<exists>r. y = Received r"
  by (cases x rule: reply_on_wire.cases) (auto split: if_splits)

lemma handle_again: "handleQueryPacket q (answer_below q r) = answer_below q r"
proof -
  have "handleQueryPacket q (handleQueryPacket q x) = handleQueryPacket q x" for x
  proof (cases "handleQueryPacket q x")
    case (Inr y)
    then obtain r where "y = Some (Received r)"
      by (auto simp: handleQueryPacket_def res_bind_def dest!: reply_on_wire_received split: sum.splits)
    then show ?thesis using Inr by (simp add: handleQueryPacket_def res_bind_def)
  qed (simp add: handleQueryPacket_def res_bind_def)
  then show ?thesis by (simp add: answer_below_def)
qed

lemma executeQuery_from_below:
  "root_above V k n m \<Longrightarrow> transmit q = q \<Longrightarrow>
   executeQuery V n q = Some (if k = 0 then res_bind (executeLocalQuery (on_superpeer V m) q) (\<lambda>r. Inr (map_option Own r))
     else answer_below q (executeLocalQuery (on_superpeer V m) q))"
proof (induction k arbitrary: n)
  case 0
  then show ?case by (subst executeQuery.simps) auto
next
  case (Suc k)
  then obtain j where j: "connect_above V n = Some (Inr (Some j))" "root_above V k j m"
    by (auto split: option.splits sum.splits)
  show ?case using Suc.IH [OF j(2) Suc.prems(2)] Suc.prems(2) handle_again
    by (subst executeQuery.simps) (simp add: j(1) answer_below_def)
qed

lemma query_to_root:
  assumes "root_above V (Suc k) n m"
  shows "executeQuery V n q
    = Some (handleQueryPacket q (res_bind (executeLocalQuery (on_superpeer V m) (transmit q)) (\<lambda>r. Inr (map_option Own r))))"
proof -
  obtain j where j: "connect_above V n = Some (Inr (Some j))" "root_above V k j m"
    using assms by (auto split: option.splits sum.splits)
  have h: "handleQueryPacket (transmit q) = handleQueryPacket q"
    by (intro ext) (simp only: handleQueryPacket_def transmit_simps)
  show ?thesis using executeQuery_from_below [OF j(2), of "transmit q"] handle_again [of "transmit q"]
    by (subst executeQuery.simps) (simp add: j(1) h answer_below_def)
qed


section \<open>What the root answers\<close>

text \<open>A root that serves discovery.\<close>

definition serving_root :: "superpeer \<Rightarrow> node \<Rightarrow> bool" where
  "serving_root S t = (cell_isRoot (sp_cell S) \<and> cl_tree (sp_cell S) = Root t \<and> sp_mesh S
     \<and> sp_providers S GENERALPROVIDER_TYPE = Some ())"

lemma root_answer:
  assumes "serving_root S t" "dq_provider q = GENERALPROVIDER_TYPE" "isEventProvided (dq_type q)"
  shows "executeLocalQuery S q = (case answer_query S (narrow_query (sp_rawLevel S) q) of
      Inl (DiscoveryException m) \<Rightarrow> Inr None | r \<Rightarrow> r)"
  using assms by (simp add: executeLocalQuery_def findProvider_def serving_root_def P3GeneralProvider_executeQuery_def)

lemma site_answer:
  assumes "serving_root S t"
  shows "answer_query S (LaunchServiceSiteQuery req sid flt) = Inr (map_option (\<lambda>p. LaunchSiteReply (getPID p) (getFID p)
     (pi_meshSAP (pp_info p)) (pi_ftSAP (pp_info p))) (the (getPoL (flt @ [req]) t)))"
  using assms by (simp add: serving_root_def mesh_getPoL_def with_root_def query_fault_def res_bind_def)

lemma site_query_provided: "isEventProvided (dq_type (new_query (LaunchServiceSiteQuery req sid flt)))"
  by (simp add: new_query_def isEventProvided_def providedEvents_def)

text \<open>C18: the site of a service. A superpeer below a serving root gets, of the superpeers in the root's tree that are
  neither itself nor in its filter, one of least load with its access points. When there is none, the reply
  is an exception, and its object is taken for that of a site: the search for replicas goes wrong instead
  of reporting that there are no resources.\<close>

theorem site_of_least_load:
  assumes "root_above V (Suc k) n m" "serving_root (on_superpeer V m) t"
    and "query_ok (LaunchServiceSiteQuery u sid flt)" "u = cl_pid (sp_cell (on_superpeer V n))"
    and "\<forall>p\<in>set (superpeers t). pi_meshSAP (pp_info p) \<noteq> None \<and> pi_ftSAP (pp_info p) \<noteq> None"
  shows "if pol_candidates (flt @ [u]) t = [] then findSite V n sid flt = Some (Inl WRONG_CLASS)
    else \<exists>p us vs. pol_candidates (flt @ [u]) t = us @ p # vs
      \<and> (\<forall>q\<in>set us. pol_load p \<le> pol_load q) \<and> (\<forall>q\<in>set vs. pol_load p < pol_load q)
      \<and> findSite V n sid flt = Some (Inr (Some \<lparr>st_uuid = getPID p, st_fid = getFID p,
          st_meshSAP = pi_meshSAP (pp_info p), st_ftSAP = pi_ftSAP (pp_info p)\<rparr>))"
proof -
  let ?q = "new_query (LaunchServiceSiteQuery u sid flt)" and ?S = "on_superpeer V m"
  obtain r where r: "getPoL (flt @ [u]) t = Some r" and least: "case r of None \<Rightarrow> pol_candidates (flt @ [u]) t = []
    | Some p \<Rightarrow> \<exists>us vs. pol_candidates (flt @ [u]) t = us @ p # vs
        \<and> (\<forall>q\<in>set us. pol_load p \<le> pol_load q) \<and> (\<forall>q\<in>set vs. pol_load p < pol_load q)"
    using getPoL_spec by blast
  have "executeLocalQuery ?S (transmit ?q) = Inr (map_option (\<lambda>p. LaunchSiteReply (getPID p) (getFID p)
     (pi_meshSAP (pp_info p)) (pi_ftSAP (pp_info p))) r)"
    using root_answer [OF assms(2), of "transmit ?q"] narrow_transmitted [OF assms(3)] site_answer [OF assms(2)] site_query_provided r
    by (simp add: new_query_def)
  then have find: "findSite V n sid flt = Some (res_bind (handleQueryPacket ?q (Inr (map_option (\<lambda>p. Own (LaunchSiteReply (getPID p)
     (getFID p) (pi_meshSAP (pp_info p)) (pi_ftSAP (pp_info p)))) r))) narrow_site)"
    using query_to_root [OF assms(1), of ?q] assms(4) by (simp add: findSite_def res_bind_def option.map_comp comp_def)
  show ?thesis
  proof (cases r)
    case None
    then show ?thesis using find least by (simp add: handleQueryPacket_def res_bind_def)
  next
    case (Some p)
    then have "p \<in> set (pol_candidates (flt @ [u]) t)" using least by auto
    then have "pi_meshSAP (pp_info p) \<noteq> None" "pi_ftSAP (pp_info p) \<noteq> None" using assms(5) by (auto simp: pol_candidates_def)
    then have "findSite V n sid flt = Some (Inr (Some \<lparr>st_uuid = getPID p, st_fid = getFID p,
        st_meshSAP = pi_meshSAP (pp_info p), st_ftSAP = pi_ftSAP (pp_info p)\<rparr>))"
      using find Some by (simp add: handleQueryPacket_def res_bind_def)
    then show ?thesis using least Some by auto
  qed
qed

text \<open>The root finds no site for itself. Its own query is read from a blob it does not have, so the requester that
  is filtered out is the empty identifier, which is equal to every identifier: no superpeer is left,
  whatever the tree and its load.\<close>

lemma root_finds_no_site:
  assumes "connect_above V n = None" "serving_root (on_superpeer V n) t"
  shows "findSite V n sid flt = Some (Inr None)"
proof -
  let ?S = "on_superpeer V n"
  let ?q = "new_query (LaunchServiceSiteQuery (cl_pid (sp_cell ?S)) sid flt)"
  have "pol_candidates [[]] t = []" by (simp add: pol_candidates_def isUUIDInList_def isEqual_def)
  then have "getPoL [[]] t = Some None" using getPoL_spec [of "[[]]" t] by (auto split: option.splits)
  then have "executeLocalQuery ?S ?q = Inr None"
    using root_answer [OF assms(2), of ?q] narrow_own site_answer [OF assms(2)] site_query_provided by (simp add: new_query_def)
  then show ?thesis using assms(1) by (simp add: findSite_def executeQuery.simps res_bind_def)
qed

lemma empty_level:
  "\<forall>n\<in>set (nodes t). ct_depth (info n) \<noteq> level \<Longrightarrow> getPeerByLevel_i rnd level t = (0, None)"
proof (induction t arbitrary: rnd)
  case (Node i cs)
  let ?l = "concat (map (\<lambda>(k, c). case c of None \<Rightarrow> []
      | Some n \<Rightarrow> (case getPeerByLevel_i (\<lambda>q. rnd (k # q)) level n of (ret, sub) \<Rightarrow> if ret = 0 then [sub] else []))
    (enumerate 0 cs))"
  have below: "getPeerByLevel_i r level n = (0, None)" if "Some n \<in> set cs" for n r
    using Node.IH [OF that] Node.prems that by force
  have "x = None" if "x \<in> set ?l" for x
  proof -
    from that obtain k n where "(k, Some n) \<in> set (enumerate 0 cs)"
      "x \<in> set (case getPeerByLevel_i (\<lambda>q. rnd (k # q)) level n of (ret, sub) \<Rightarrow> if ret = 0 then [sub] else [])"
      by (auto split: option.splits)
    moreover from this(1) have "Some n \<in> set cs" by (simp add: in_set_enumerate_eq) (metis nth_mem)
    ultimately show ?thesis using below [of n "\<lambda>q. rnd (k # q)"] by simp
  qed
  then have "?l \<noteq> [] \<Longrightarrow> ?l ! (rnd [] mod length ?l) = None" by (meson length_greater_0_conv mod_less_divisor nth_mem)
  moreover have "ct_depth i \<noteq> level" using Node.prems by simp
  ultimately show ?case by (simp add: Let_def)
qed

text \<open>C31: a query for a level that has no cell. The root reports success with a null peer and follows it: a superpeer
  below it can stop the root with one query.\<close>

theorem level_query_crashes_root:
  assumes "root_above V (Suc k) n m" "serving_root (on_superpeer V m) t"
    "\<forall>c\<in>set (nodes t). ct_depth (info c) \<noteq> level" "level \<noteq> 0x7FFFFFFF"
  shows "executeQuery V n (new_query (P3FindPeerQuery level)) = Some (Inl (QueryFault NULL_DEREF))"
proof -
  let ?q = "new_query (P3FindPeerQuery level)" and ?S = "on_superpeer V m"
  have "getPeerByLevel ?S level = Inr (0, None)"
    using assms(2) empty_level [OF assms(3)] by (simp add: getPeerByLevel_def serving_root_def with_root_def)
  then have "answer_query ?S (P3FindPeerQuery level) = Inl (QueryFault NULL_DEREF)"
    using assms(4) by (simp add: query_fault_def res_bind_def described_def)
  moreover have "isEventProvided (dq_type ?q)" by (simp add: new_query_def isEventProvided_def providedEvents_def)
  ultimately have "executeLocalQuery ?S (transmit ?q) = Inl (QueryFault NULL_DEREF)"
    using root_answer [OF assms(2), of "transmit ?q"] narrow_transmitted [of "P3FindPeerQuery level"]
    by (simp add: new_query_def query_ok_def)
  then show ?thesis using query_to_root [OF assms(1), of ?q] by (simp add: handleQueryPacket_def res_bind_def)
qed

section \<open>Witnesses\<close>

text \<open>A root with two superpeers in its tree, and the second of them, which is below it.\<close>

definition sample_site_peer :: "byte \<Rightarrow> p3_peer_info" where
  "sample_site_peer b = P3PeerInfo_ctor SUPERPEER (replicate 16 b) (replicate 16 7) None (Some [sample_endpoint 1])
     None (Some [sample_endpoint 2])"

definition sample_site_tree :: node where
  "sample_site_tree = Node ((info sample_node)\<lparr>ct_sps := [sample_site_peer 1, sample_site_peer 2]\<rparr>) []"

definition sample_serving :: superpeer where
  "sample_serving = \<lparr>sp_cell = sample_blank\<lparr>cl_pid := replicate 16 1, cl_tree := Root sample_site_tree\<rparr>,
     sp_world = sample_world, sp_mesh = True, sp_instances = (\<lambda>_ _. None), sp_rand = (\<lambda>_. 0), sp_rawLevel = 0,
     sp_providers = snd (addDiscoveryProvider GENERALPROVIDER_TYPE () Map.empty)\<rparr>"

definition sample_below :: superpeer where
  "sample_below = sample_serving\<lparr>sp_cell := sample_blank\<lparr>cl_pid := replicate 16 2, cl_parentUUID := Some (replicate 16 1),
     cl_parentDiscoverySAP := Some [sample_endpoint 1]\<rparr>\<rparr>"

definition sample_overlay :: overlay_net where
  "sample_overlay = \<lparr>on_superpeer = (\<lambda>n. if n = 0 then sample_serving else sample_below), on_accepts = (\<lambda>_. Some 0)\<rparr>"

lemma sample_overlay_simps [simp]: "on_superpeer sample_overlay 0 = sample_serving"
  "on_superpeer sample_overlay 3 = sample_below"
  by (simp_all add: sample_overlay_def)

lemma sample_serving_root: "serving_root sample_serving sample_site_tree"
  by (simp add: serving_root_def sample_serving_def cell_isRoot_def sample_blank_def addDiscoveryProvider_def findProvider_def)

lemma sample_top: "connect_above sample_overlay 0 = None"
  by (simp add: connect_above_def sample_serving_def sample_blank_def)

lemma sample_root_above: "root_above sample_overlay (Suc 0) 3 0"
proof -
  have "\<not> isEqual (replicate 16 1) (replicate 16 (2 :: byte))" "isEqual (replicate 16 1) (replicate 16 (1 :: byte))" by code_simp+
  then have "connect_above sample_overlay 3 = Some (Inr (Some 0))"
    by (simp add: connect_above_def sample_below_def sample_serving_def sample_blank_def getDiscoverySAPInfo_def
        getFirstEndpoint_def sample_overlay_def)
  then show ?thesis by (simp add: sample_top)
qed

lemma sample_site_superpeers: "superpeers sample_site_tree = [sample_site_peer 1, sample_site_peer 2]"
  by (simp add: superpeers_def sample_site_tree_def)

lemma sample_find_peer:
  "answer_query sample_serving (FindPeerQuery (replicate 16 1)) = Inr (Some (FindPeerReply (peer_description (sample_site_peer 1))))"
proof -
  have "getPeer_i (replicate 16 1) sample_site_tree = Some (sample_site_peer 1)" by code_simp
  then show ?thesis
    by (simp add: sample_serving_def cell_getPeer_def with_root_def described_def query_fault_def res_bind_def)
qed


lemma singleton_split: "[x] = us @ p # vs \<longleftrightarrow> us = [] \<and> p = x \<and> vs = []"
  by (cases us) auto

theorem site_of_least_load_witness:
  "findSite sample_overlay 3 [5] [] = Some (Inr (Some \<lparr>st_uuid = replicate 16 1, st_fid = replicate 16 7,
     st_meshSAP = Some [sample_endpoint 1], st_ftSAP = Some [sample_endpoint 2]\<rparr>))"
proof -
  have pid: "cl_pid (sp_cell (on_superpeer sample_overlay 3)) = replicate 16 2" by (simp add: sample_below_def)
  have "\<not> isEqual (replicate 16 2) (replicate 16 (1 :: byte))" "isEqual (replicate 16 2) (replicate 16 (2 :: byte))" by code_simp+
  then have c: "pol_candidates ([] @ [replicate 16 2]) sample_site_tree = [sample_site_peer 1]"
    by (simp add: pol_candidates_def sample_site_superpeers isUUIDInList_def sample_site_peer_def P3PeerInfo_ctor_def getPID_def
        pol_load_def PeerInfo_getTotalServicesRunning_def)
  have q: "query_ok (LaunchServiceSiteQuery (replicate 16 2) [5] [])" by (simp add: query_ok_def uuid_ok_def)
  have saps: "\<forall>p\<in>set (superpeers sample_site_tree). pi_meshSAP (pp_info p) \<noteq> None \<and> pi_ftSAP (pp_info p) \<noteq> None"
    by (simp add: sample_site_superpeers sample_site_peer_def P3PeerInfo_ctor_def)
  have "serving_root (on_superpeer sample_overlay 0) sample_site_tree" by (simp add: sample_serving_root)
  from site_of_least_load [OF sample_root_above this q pid [symmetric] saps]
  obtain p us vs where "[sample_site_peer 1] = us @ p # vs"
    and "findSite sample_overlay 3 [5] [] = Some (Inr (Some \<lparr>st_uuid = getPID p, st_fid = getFID p,
      st_meshSAP = pi_meshSAP (pp_info p), st_ftSAP = pi_ftSAP (pp_info p)\<rparr>))"
    unfolding c by (simp only: list.distinct(2) if_False) blast
  then show ?thesis by (simp add: singleton_split sample_site_peer_def P3PeerInfo_ctor_def getPID_def getFID_def)
qed

theorem level_query_crashes_root_witness:
  "executeQuery sample_overlay 3 (new_query (P3FindPeerQuery 5)) = Some (Inl (QueryFault NULL_DEREF))"
proof -
  have "ct_depth (info sample_node) \<noteq> 5" by code_simp
  then have "\<forall>c\<in>set (nodes sample_site_tree). ct_depth (info c) \<noteq> 5" by (simp add: sample_site_tree_def)
  then show ?thesis using level_query_crashes_root [OF sample_root_above, of sample_site_tree 5] sample_serving_root by simp
qed

end
