(* ===== verification/Services.thy ===== *)
theory Services
  imports PeerInfos
begin

text \<open>
  Services of a runtime: the exceptions, the life cycle of \<^verbatim>\<open>ServiceAbstract\<close>
  (\<^verbatim>\<open>stheno/service/ServiceAbstract.cpp\<close>), the RPC service as an instance of its virtual functions
  (\<^verbatim>\<open>p3/services/rpc/RPCService.cpp\<close>), and the instances of one service that a runtime keeps
  (\<^verbatim>\<open>stheno/core/LocalService.cpp\<close>).

  An operation that may throw returns its exception or its value beside the state it leaves behind,
  for the code does not undo what it did before the exception. The recursive lock of a service
  makes each public operation one step.
\<close>

section \<open>Exceptions\<close>

text \<open>
  \<open>Unexpected\<close> is the end of the process when an exception leaves a function whose throw list does not
  name it (\<^verbatim>\<open>std::unexpected\<close>), \<open>NullDeref\<close> the use of a null pointer. No handler catches either.
\<close>

datatype exn = ServiceException string | RuntimeException string | OverlayException string
  | Unexpected | NullDeref

definition INVALID_STATE :: exn where "INVALID_STATE = ServiceException ''Invalid State''"
definition INVALID_FT_PARAMS :: exn where "INVALID_FT_PARAMS = ServiceException ''Invalid FT params.''"
definition SERVICE_NOT_KNOWN :: exn where "SERVICE_NOT_KNOWN = ServiceException ''Service not known.''"
definition INVALID_ARGUMENT :: exn where "INVALID_ARGUMENT = ServiceException ''Invalid argument.''"

text \<open>A call inside a sequence of statements: an exception ends the sequence, the state stays.\<close>

type_synonym ('e, 'a, 's) outcome = "('e + 'a) \<times> 's"

definition andThen :: "('e, 'a, 's) outcome \<Rightarrow> ('a \<Rightarrow> 's \<Rightarrow> ('e, 'b, 's) outcome) \<Rightarrow> ('e, 'b, 's) outcome" where
  "andThen r f = (case r of (Inl e, s) \<Rightarrow> (Inl e, s) | (Inr x, s) \<Rightarrow> f x s)"

lemma andThen_simps [simp]: "andThen (Inl e, s) f = (Inl e, s)" "andThen (Inr x, s) f = f x s"
  by (simp_all add: andThen_def)

lemma andThen_Inr_iff: "andThen r f = (Inr y, t) \<longleftrightarrow> (\<exists>x s. r = (Inr x, s) \<and> f x s = (Inr y, t))"
  by (cases r; cases "fst r") auto

lemma andThen_inv:
  assumes "P (snd r)" "\<And>x s. r = (Inr x, s) \<Longrightarrow> P (snd (f x s))"
  shows "P (snd (andThen r f))"
  using assms by (cases r; cases "fst r") auto

section \<open>The object of a service\<close>

datatype service_status =
  NOT_INIT | STARTING | RUNNING | SUSPENDING | SUSPENDED | FAULT | RECOVERING | CLOSING | CLOSED

datatype ft_type = FT_NOT_SETTED | FT_PRIMARY | FT_REPLICA

text \<open>\<^verbatim>\<open>FTServiceParams\<close> and \<^verbatim>\<open>ServiceParams\<close>.\<close>

record ft_service_params =
  ftp_replicaCount :: u32
  ftp_policy :: byte

record service_params =
  sp_sid :: uuid
  sp_ftParams :: "ft_service_params option"
  sp_querySpecializationBlob :: "byte list option"

text \<open>
  The members of \<^verbatim>\<open>ServiceAbstract\<close>. Members that the constructor does not set are \<open>None\<close> until they
  are assigned; a pointer to a quality of service manager is its number, \<open>None\<close> when null.
  \<open>sa_impl\<close> holds the members a subclass adds.
\<close>

record 'x service =
  sa_sid :: uuid
  sa_iid :: uuid
  sa_type :: byte
  sa_status :: service_status
  sa_listeners :: "nat list"
  sa_qosManager :: "nat option option"
  sa_ftType :: "ft_type option"
  sa_rg :: "uuid option"
  sa_impl :: 'x

definition P2P_TYPE :: byte where "P2P_TYPE = 0"
definition USER_TYPE :: byte where "USER_TYPE = 1"

definition ServiceAbstract_ctor :: "uuid \<Rightarrow> uuid \<Rightarrow> byte \<Rightarrow> 'x \<Rightarrow> 'x service" where
  "ServiceAbstract_ctor sid iid ty impl =
     \<lparr>sa_sid = sid, sa_iid = iid, sa_type = ty, sa_status = NOT_INIT, sa_listeners = [],
      sa_qosManager = None, sa_ftType = None, sa_rg = None, sa_impl = impl\<rparr>"

definition setIID :: "uuid \<Rightarrow> 'x service \<Rightarrow> 'x service" where
  "setIID iid s = s\<lparr>sa_iid := iid\<rparr>"

definition addServiceListener :: "nat \<Rightarrow> 'x service \<Rightarrow> 'x service" where
  "addServiceListener l s =
     (if l \<in> set (sa_listeners s) then s else s\<lparr>sa_listeners := sa_listeners s @ [l]\<rparr>)"

definition isP2PService :: "'x service \<Rightarrow> bool" where "isP2PService s = (sa_type s = P2P_TYPE)"
definition isUserService :: "'x service \<Rightarrow> bool" where "isUserService s = (\<not> isP2PService s)"
definition service_isValid :: "'x service \<Rightarrow> bool" where "service_isValid s = (sa_status s = RUNNING)"
definition isInFault :: "'x service \<Rightarrow> bool" where "isInFault s = (sa_status s = FAULT)"

text \<open>Reading a member that was never assigned has no defined value: \<open>None\<close>.\<close>

definition isReplica :: "'x service \<Rightarrow> bool option" where
  "isReplica s = map_option (\<lambda>t. t = FT_REPLICA) (sa_ftType s)"
definition isPrimary :: "'x service \<Rightarrow> bool option" where
  "isPrimary s = map_option (\<lambda>t. t = FT_PRIMARY) (sa_ftType s)"
definition isFT :: "'x service \<Rightarrow> bool option" where
  "isFT s = map_option (\<lambda>t. t \<noteq> FT_NOT_SETTED) (sa_ftType s)"

section \<open>The state machine\<close>

definition handleNotInitState :: "service_status \<Rightarrow> exn + unit" where
  "handleNotInitState n = (if n = STARTING then Inr () else Inl INVALID_STATE)"

definition handleStartingState :: "service_status \<Rightarrow> exn + unit" where
  "handleStartingState n = (if n \<in> {RUNNING, FAULT, CLOSING} then Inr () else Inl INVALID_STATE)"

definition handleRunningState :: "service_status \<Rightarrow> exn + unit" where
  "handleRunningState n = (if n \<in> {SUSPENDING, FAULT, CLOSING} then Inr () else Inl INVALID_STATE)"

definition handleSuspendingState :: "service_status \<Rightarrow> exn + unit" where
  "handleSuspendingState n = (if n \<in> {SUSPENDED, CLOSING} then Inr () else Inl INVALID_STATE)"

definition handleSuspendedState :: "service_status \<Rightarrow> exn + unit" where
  "handleSuspendedState n = (if n \<in> {STARTING, CLOSING} then Inr () else Inl INVALID_STATE)"

definition handleFaultState :: "service_status \<Rightarrow> exn + unit" where
  "handleFaultState n = (if n \<in> {FAULT, RECOVERING, CLOSING} then Inr () else Inl INVALID_STATE)"

definition handleClosingState :: "service_status \<Rightarrow> exn + unit" where
  "handleClosingState n = (if n = CLOSED then Inr () else Inl INVALID_STATE)"

definition handleClosedState :: "service_status \<Rightarrow> exn + unit" where
  "handleClosedState n = Inl INVALID_STATE"

definition handleRecoveringState :: "service_status \<Rightarrow> exn + unit" where
  "handleRecoveringState n = (if n \<in> {STARTING, CLOSING, RECOVERING} then Inr () else Inl INVALID_STATE)"

fun handleState :: "service_status \<Rightarrow> service_status \<Rightarrow> exn + unit" where
  "handleState NOT_INIT n = handleNotInitState n"
| "handleState STARTING n = handleStartingState n"
| "handleState RUNNING n = handleRunningState n"
| "handleState SUSPENDING n = handleSuspendingState n"
| "handleState SUSPENDED n = handleSuspendedState n"
| "handleState FAULT n = handleFaultState n"
| "handleState RECOVERING n = handleRecoveringState n"
| "handleState CLOSING n = handleClosingState n"
| "handleState CLOSED n = handleClosedState n"

definition changeState ::
    "service_status \<Rightarrow> 'x service \<Rightarrow> (exn, unit, 'x service) outcome" where
  "changeState n s = (case handleState (sa_status s) n of
      Inl e \<Rightarrow> (Inl e, s)
    | Inr _ \<Rightarrow> (Inr (), s\<lparr>sa_status := n\<rparr>))"

text \<open>The virtual functions of a service class, and the hook the life cycle calls.\<close>

type_synonym 'x hook = "'x service \<Rightarrow> (exn, unit, 'x service) outcome"

record 'x service_class =
  open_i :: "service_params \<Rightarrow> ft_type \<Rightarrow> 'x hook"
  close_i :: "'x hook"
  resume_i :: "'x hook"
  suspend_i :: "'x hook"
  fault_i :: "'x hook"
  getSAP :: "'x service \<Rightarrow> exn + sap_info option"

definition no_hook :: "'x hook" where "no_hook s = (Inr (), s)"

definition service_open :: "'x service_class \<Rightarrow> service_params \<Rightarrow> ft_type \<Rightarrow> nat option \<Rightarrow> 'x hook" where
  "service_open C params ftype qos s =
     andThen (changeState STARTING s) (\<lambda>_ s.
     andThen (open_i C params ftype (s\<lparr>sa_qosManager := Some qos\<rparr>)) (\<lambda>_ s.
     changeState RUNNING s))"

definition service_close :: "'x service_class \<Rightarrow> 'x hook" where
  "service_close C s =
     andThen (changeState CLOSING s) (\<lambda>_ s. andThen (close_i C s) (\<lambda>_ s. changeState CLOSED s))"

definition service_resume :: "'x service_class \<Rightarrow> 'x hook" where
  "service_resume C s =
     andThen (changeState STARTING s) (\<lambda>_ s. andThen (resume_i C s) (\<lambda>_ s. changeState RUNNING s))"

definition service_suspend :: "'x service_class \<Rightarrow> 'x hook" where
  "service_suspend C s =
     andThen (changeState SUSPENDING s) (\<lambda>_ s. andThen (suspend_i C s) (\<lambda>_ s. changeState SUSPENDED s))"

definition service_fault :: "'x service_class \<Rightarrow> 'x hook" where
  "service_fault C s = andThen (changeState FAULT s) (\<lambda>_ s. fault_i C s)"
section \<open>The life cycle\<close>

text \<open>The diagram in the comment of \<^verbatim>\<open>ServiceAbstract.h\<close>.\<close>

inductive doc_step :: "service_status \<Rightarrow> service_status \<Rightarrow> bool" where
  "doc_step NOT_INIT STARTING"
| "n \<in> {RUNNING, FAULT, CLOSING} \<Longrightarrow> doc_step STARTING n"
| "n \<in> {SUSPENDING, FAULT, CLOSING} \<Longrightarrow> doc_step RUNNING n"
| "n \<in> {RECOVERING, CLOSING} \<Longrightarrow> doc_step FAULT n"
| "n \<in> {RUNNING, CLOSING} \<Longrightarrow> doc_step RECOVERING n"
| "doc_step CLOSING CLOSED"
| "n \<in> {SUSPENDED, CLOSING} \<Longrightarrow> doc_step SUSPENDING n"
| "n \<in> {STARTING, CLOSING} \<Longrightarrow> doc_step SUSPENDED n"

inductive_simps doc_step_iff: "doc_step a b"

lemmas handle_defs = handleNotInitState_def handleStartingState_def handleRunningState_def
  handleSuspendingState_def handleSuspendedState_def handleFaultState_def handleClosingState_def
  handleClosedState_def handleRecoveringState_def

lemma handleState_doc:
  "handleState a b = Inr () \<longleftrightarrow>
     (doc_step a b \<or> (a, b) \<in> {(FAULT, FAULT), (RECOVERING, STARTING), (RECOVERING, RECOVERING)})
     \<and> (a, b) \<noteq> (RECOVERING, RUNNING)"
  by (cases a; cases b) (simp_all add: handle_defs doc_step_iff)

lemma changeState_status:
  "sa_status (snd (changeState n s)) = (if handleState (sa_status s) n = Inr () then n else sa_status s)"
  by (auto simp: changeState_def split: sum.splits)

lemma changeState_ok: "handleState (sa_status s) n = Inr () \<Longrightarrow> changeState n s = (Inr (), s\<lparr>sa_status := n\<rparr>)"
  by (simp add: changeState_def)

lemma changeState_refused:
  "handleState (sa_status s) n \<noteq> Inr () \<Longrightarrow> changeState n s = (Inl INVALID_STATE, s)"
  by (cases "sa_status s") (auto simp: changeState_def handle_defs split: if_splits)

text \<open>What the life cycle expects of a hook: the identity and the status of the service are not
  its business.\<close>

definition same_face :: "'x service \<Rightarrow> 'x service \<Rightarrow> bool" where
  "same_face s t = (sa_status t = sa_status s \<and> sa_sid t = sa_sid s \<and> sa_iid t = sa_iid s)"

definition tame :: "'x hook \<Rightarrow> bool" where
  "tame h = (\<forall>s. same_face s (snd (h s)))"

text \<open>The calls a holder of a service may make, and what they do to the status when \<open>ok\<close> tells
  whether the hook returns.\<close>

datatype service_call = Open service_params ft_type "nat option" | Close | Resume | Suspend | Fault

fun perform :: "'x service_class \<Rightarrow> service_call \<Rightarrow> 'x hook" where
  "perform C (Open p t q) = service_open C p t q"
| "perform C Close = service_close C"
| "perform C Resume = service_resume C"
| "perform C Suspend = service_suspend C"
| "perform C Fault = service_fault C"

fun next_status :: "service_call \<Rightarrow> bool \<Rightarrow> service_status \<Rightarrow> service_status" where
  "next_status (Open p t q) ok a =
     (if a \<in> {NOT_INIT, SUSPENDED, RECOVERING} then (if ok then RUNNING else STARTING) else a)"
| "next_status Resume ok a =
     (if a \<in> {NOT_INIT, SUSPENDED, RECOVERING} then (if ok then RUNNING else STARTING) else a)"
| "next_status Suspend ok a = (if a = RUNNING then (if ok then SUSPENDED else SUSPENDING) else a)"
| "next_status Close ok a =
     (if a \<in> {NOT_INIT, CLOSING, CLOSED} then a else if ok then CLOSED else CLOSING)"
| "next_status Fault ok a = (if a \<in> {STARTING, RUNNING, FAULT} then FAULT else a)"

fun hook_of :: "'x service_class \<Rightarrow> service_call \<Rightarrow> 'x hook" where
  "hook_of C (Open p t q) = (\<lambda>s. open_i C p t (s\<lparr>sa_qosManager := Some q\<rparr>))"
| "hook_of C Close = close_i C"
| "hook_of C Resume = resume_i C"
| "hook_of C Suspend = suspend_i C"
| "hook_of C Fault = fault_i C"

fun entry_status :: "service_call \<Rightarrow> service_status" where
  "entry_status (Open p t q) = STARTING"
| "entry_status Close = CLOSING"
| "entry_status Resume = STARTING"
| "entry_status Suspend = SUSPENDING"
| "entry_status Fault = FAULT"

fun exit_status :: "service_call \<Rightarrow> service_status option" where
  "exit_status (Open p t q) = Some RUNNING"
| "exit_status Close = Some CLOSED"
| "exit_status Resume = Some RUNNING"
| "exit_status Suspend = Some SUSPENDED"
| "exit_status Fault = None"

definition leave :: "service_status option \<Rightarrow> 'x hook" where
  "leave a s = (case a of None \<Rightarrow> (Inr (), s) | Some n \<Rightarrow> changeState n s)"

lemma perform_unfold:
  "perform C c s = andThen (changeState (entry_status c) s)
     (\<lambda>_ s. andThen (hook_of C c s) (\<lambda>_ s. leave (exit_status c) s))"
  by (cases c) (auto simp: service_open_def service_close_def service_resume_def service_suspend_def service_fault_def
      leave_def andThen_def split: sum.splits prod.splits)

lemma exit_allowed: "exit_status c = Some n \<Longrightarrow> handleState (entry_status c) n = Inr ()"
  by (cases c) (auto simp: handle_defs)

text \<open>A holder that goes on after exceptions.\<close>

primrec run_calls :: "'x service_class \<Rightarrow> service_call list \<Rightarrow> 'x service \<Rightarrow> 'x service" where
  "run_calls C [] s = s"
| "run_calls C (c # cs) s = run_calls C cs (snd (perform C c s))"

definition spent :: "service_status \<Rightarrow> bool" where
  "spent a = (a \<notin> {NOT_INIT, RUNNING, SUSPENDED, RECOVERING})"

lemma next_status_spent: "spent a \<Longrightarrow> spent (next_status c ok a)"
  by (cases c; cases a; cases ok) (simp_all add: spent_def)

locale service_hooks =
  fixes C :: "'x service_class"
  assumes tame_hook: "tame (open_i C p t)" "tame (close_i C)" "tame (resume_i C)"
    "tame (suspend_i C)" "tame (fault_i C)"
begin

lemma tame_hook_of: "same_face s (snd (hook_of C c s))"
proof (cases c)
  case (Open p t q)
  have "same_face (s\<lparr>sa_qosManager := Some q\<rparr>) (snd (hook_of C c s))"
    using tame_hook(1) [of p t] Open by (simp add: tame_def)
  then show ?thesis by (simp add: same_face_def)
qed (use tame_hook in \<open>auto simp: tame_def\<close>)

text \<open>One call: refused with the state unchanged, or the hook runs in the entry status and the call
  ends in the exit status unless the hook throws.\<close>

lemma call_refused:
  "handleState (sa_status s) (entry_status c) \<noteq> Inr () \<Longrightarrow> perform C c s = (Inl INVALID_STATE, s)"
  by (simp add: perform_unfold changeState_refused)

lemma call_runs:
  assumes ok: "handleState (sa_status s) (entry_status c) = Inr ()"
  defines "r \<equiv> hook_of C c (s\<lparr>sa_status := entry_status c\<rparr>)"
  shows "fst (perform C c s) = fst r"
    "sa_status (snd (perform C c s)) =
      (if isl (fst r) then entry_status c else case_option (entry_status c) id (exit_status c))"
    "sa_sid (snd (perform C c s)) = sa_sid s" "sa_iid (snd (perform C c s)) = sa_iid s"
proof -
  obtain x t where r: "r = (x, t)" by (cases r)
  have face: "sa_status t = entry_status c" "sa_sid t = sa_sid s" "sa_iid t = sa_iid s"
    using tame_hook_of [of "s\<lparr>sa_status := entry_status c\<rparr>" c] r by (auto simp: same_face_def r_def)
  have run: "perform C c s = andThen (x, t) (\<lambda>_ s. leave (exit_status c) s)"
    using ok r by (simp add: perform_unfold changeState_ok r_def)
  have leave: "leave (exit_status c) t =
      (Inr (), case exit_status c of None \<Rightarrow> t | Some n \<Rightarrow> t\<lparr>sa_status := n\<rparr>)"
    using exit_allowed [of c] face(1) by (auto simp: leave_def changeState_ok split: option.splits)
  show "fst (perform C c s) = fst r" "sa_sid (snd (perform C c s)) = sa_sid s"
    "sa_iid (snd (perform C c s)) = sa_iid s" "sa_status (snd (perform C c s)) =
      (if isl (fst r) then entry_status c else case_option (entry_status c) id (exit_status c))"
    using run leave r face by (cases x; auto split: option.splits)+
qed

lemma call_status:
  "sa_status (snd (perform C c s)) =
    next_status c (\<not> isl (fst (hook_of C c (s\<lparr>sa_status := entry_status c\<rparr>)))) (sa_status s)"
proof (cases "handleState (sa_status s) (entry_status c) = Inr ()")
  case True
  from call_runs(2) [OF this] True show ?thesis
    by (cases c; cases "sa_status s") (auto simp: handle_defs)
next
  case False
  from call_refused [OF this] False show ?thesis
    by (cases c; cases "sa_status s") (auto simp: handle_defs)
qed

lemma call_keeps_id:
  "sa_sid (snd (perform C c s)) = sa_sid s \<and> sa_iid (snd (perform C c s)) = sa_iid s"
  by (cases "handleState (sa_status s) (entry_status c) = Inr ()")
     (simp_all add: call_runs(3,4) call_refused)

lemma close_keeps_id: "sa_sid (snd (service_close C s)) = sa_sid s" "sa_iid (snd (service_close C s)) = sa_iid s"
  using call_keeps_id [of Close s] by simp_all

lemma open_keeps_id:
  "sa_sid (snd (service_open C p t q s)) = sa_sid s" "sa_iid (snd (service_open C p t q s)) = sa_iid s"
  using call_keeps_id [of "Open p t q" s] by simp_all

lemma stays_spent: "spent (sa_status s) \<Longrightarrow> spent (sa_status (run_calls C cs s))"
  by (induction cs arbitrary: s) (simp_all add: call_status next_status_spent)

lemma open_result:
  assumes "sa_status s = NOT_INIT"
  shows "sa_status (snd (service_open C p t q s)) = (if isl (fst (service_open C p t q s)) then STARTING else RUNNING)"
  using call_runs(1,2) [of s "Open p t q"] assms by (simp add: handle_defs)

end
section \<open>Access points\<close>

text \<open>
  The template \<^verbatim>\<open>SAP\<close> (\<^verbatim>\<open>euryale/net/endpoint/SAP.h\<close>): one acceptor per requested quality of service.
  The interfaces of the machine, the random ports and whether an acceptor can listen are parameters;
  \<open>k\<close> counts the ports drawn so far.
\<close>

record sap_world =
  ip_interface :: "string \<Rightarrow> string option"
  randomPort :: "nat \<Rightarrow> u16"
  acceptor_open :: "nat \<Rightarrow> endpoint \<Rightarrow> bool"

record sap =
  m_acceptorList :: "endpoint list"
  m_sapInfo :: "sap_info option"

definition MAX_PORT_BIND_ATTEMPTS :: nat where "MAX_PORT_BIND_ATTEMPTS = 500000"

definition EP_TCP :: byte where "EP_TCP = 1"

definition SAP_ctor :: sap where "SAP_ctor = \<lparr>m_acceptorList = [], m_sapInfo = None\<rparr>"

definition SAP_close :: "sap \<Rightarrow> sap" where "SAP_close p = p\<lparr>m_acceptorList := []\<rparr>"

fun initAcceptor_loop :: "sap_world \<Rightarrow> string \<Rightarrow> qos_endpoint \<Rightarrow> nat \<Rightarrow> nat \<Rightarrow> endpoint option \<times> nat" where
  "initAcceptor_loop w ip q 0 k = (None, k)"
| "initAcceptor_loop w ip q (Suc n) k =
     (let e = \<lparr>ep_type = EP_TCP, ep_host = ip, ep_port = randomPort w k, ep_qos = q\<rparr>
      in if acceptor_open w k e then (Some e, Suc k) else initAcceptor_loop w ip q n (Suc k))"

definition initAcceptor :: "sap_world \<Rightarrow> string \<Rightarrow> qos_endpoint \<Rightarrow> nat \<Rightarrow> endpoint option \<times> nat" where
  "initAcceptor w ip q k = initAcceptor_loop w ip q MAX_PORT_BIND_ATTEMPTS k"

fun open_acceptors ::
    "sap_world \<Rightarrow> string \<Rightarrow> qos_endpoint list \<Rightarrow> nat \<Rightarrow> sap_info \<Rightarrow> sap \<Rightarrow> (string, nat, sap) outcome" where
  "open_acceptors w ip [] k sapInfo p = (Inr k, p\<lparr>m_sapInfo := Some sapInfo\<rparr>)"
| "open_acceptors w ip (q # qs) k sapInfo p = (case initAcceptor w ip q k of
      (None, k') \<Rightarrow> (Inl ''Unable to bind'', SAP_close p)
    | (Some e, k') \<Rightarrow> open_acceptors w ip qs k' (snd (addEndpoint e sapInfo))
        (p\<lparr>m_acceptorList := m_acceptorList p @ [e]\<rparr>))"

definition SAP_open ::
    "sap_world \<Rightarrow> string \<Rightarrow> qos_endpoint list \<Rightarrow> nat \<Rightarrow> sap \<Rightarrow> (string, nat, sap) outcome" where
  "SAP_open w itf qosList k p = (case ip_interface w itf of
      None \<Rightarrow> (Inl ''Invalid interface'', p)
    | Some ip \<Rightarrow> open_acceptors w ip qosList k [] p)"

lemma initAcceptor_loop_Some:
  "initAcceptor_loop w ip q n k = (Some e, k') \<Longrightarrow> ep_qos e = q \<and> ep_host e = ip \<and> ep_type e = EP_TCP
    \<and> (\<exists>i. k \<le> i \<and> i < k' \<and> k' \<le> k + n \<and> acceptor_open w i e \<and> ep_port e = randomPort w i)"
proof (induction n arbitrary: k)
  case (Suc n)
  define e0 where "e0 = \<lparr>ep_type = EP_TCP, ep_host = ip, ep_port = randomPort w k, ep_qos = q\<rparr>"
  show ?case
  proof (cases "acceptor_open w k e0")
    case True
    then have "e = e0" "k' = Suc k" using Suc.prems by (simp_all add: Let_def e0_def)
    then show ?thesis using True by (auto simp: e0_def)
  next
    case False
    then have "initAcceptor_loop w ip q n (Suc k) = (Some e, k')"
      using Suc.prems by (simp add: Let_def e0_def)
    from Suc.IH [OF this] show ?thesis by (auto dest: Suc_leD)
  qed
qed simp

lemma addEndpoint_new: "ep_qos e \<notin> ep_qos ` set l \<Longrightarrow> addEndpoint e l = (True, l @ [e])"
proof -
  assume new: "ep_qos e \<notin> ep_qos ` set l"
  have "\<not> Endpoint_isEqual x e" if "x \<in> set l" for x
  proof
    assume "Endpoint_isEqual x e"
    then have "ep_qos x = ep_qos e" by (simp add: Endpoint_isEqual_def QoSEndpoint_isEqual_def)
    then show False using new that by (metis imageI)
  qed
  then show ?thesis by (auto simp: addEndpoint_def list_ex_iff)
qed

text \<open>When \<^verbatim>\<open>open\<close> returns, there is one listening acceptor for each quality of service, in order, and
  the published description lists exactly them; when it throws, nothing is left listening.\<close>

lemma open_acceptors_result:
  assumes "open_acceptors w ip qs k l p = (r, p')" "m_acceptorList p = l" "distinct (map ep_qos l @ qs)"
  shows "case r of
      Inr _ \<Rightarrow> m_sapInfo p' = Some (m_acceptorList p') \<and> map ep_qos (m_acceptorList p') = map ep_qos l @ qs
        \<and> (\<forall>e\<in>set (m_acceptorList p') - set l. ep_host e = ip \<and> (\<exists>i. acceptor_open w i e))
    | Inl _ \<Rightarrow> m_acceptorList p' = [] \<and> m_sapInfo p' = m_sapInfo p"
  using assms
proof (induction qs arbitrary: k l p)
  case Nil
  then show ?case by auto
next
  case (Cons q qs)
  obtain a k' where a: "initAcceptor w ip q k = (a, k')" by (cases "initAcceptor w ip q k")
  show ?case
  proof (cases a)
    case None
    then show ?thesis using Cons.prems a by (auto simp: SAP_close_def)
  next
    case (Some e)
    note e = initAcceptor_loop_Some [OF a [unfolded Some initAcceptor_def]]
    have new: "addEndpoint e l = (True, l @ [e])"
      using Cons.prems(3) e by (intro addEndpoint_new) auto
    let ?p = "p\<lparr>m_acceptorList := m_acceptorList p @ [e]\<rparr>"
    have run: "open_acceptors w ip qs k' (l @ [e]) ?p = (r, p')"
      using Cons.prems(1) a Some new by simp
    have "distinct (map ep_qos (l @ [e]) @ qs)" using Cons.prems(3) e by simp
    from Cons.IH [OF run _ this] show ?thesis
      using Cons.prems(2) e by (cases r) auto
  qed
qed
section \<open>The RPC service\<close>

text \<open>
  \<^verbatim>\<open>RPCService::open_i\<close> and \<^verbatim>\<open>getSAP\<close>: the configured interface, the machine and the ports drawn are
  parameters. \<^verbatim>\<open>SAP::open\<close> throws \<^verbatim>\<open>EndpointException\<close>, which the throw list of \<^verbatim>\<open>open_i\<close> does not
  name. The member \<^verbatim>\<open>m_sap\<close> is \<open>None\<close> when null.
\<close>

definition RPC_qosList :: "qos_endpoint list" where
  "RPC_qosList = [\<lparr>qe_type = 0, qe_priority = 48\<rparr>, \<lparr>qe_type = 1, qe_priority = 24\<rparr>,
     \<lparr>qe_type = 2, qe_priority = 0\<rparr>]"

definition RPCService_open_i ::
    "string option \<Rightarrow> sap_world \<Rightarrow> nat \<Rightarrow> service_params \<Rightarrow> ft_type \<Rightarrow> sap option hook" where
  "RPCService_open_i itf w k params fttype s =
     (let s = s\<lparr>sa_ftType := Some fttype\<rparr> in
      case itf of None \<Rightarrow> (Inl INVALID_ARGUMENT, s)
      | Some i \<Rightarrow> (case SAP_open w i RPC_qosList k SAP_ctor of
            (Inl e, p) \<Rightarrow> (Inl Unexpected, s\<lparr>sa_impl := Some p\<rparr>)
          | (Inr k', p) \<Rightarrow> (Inr (), s\<lparr>sa_impl := Some p\<rparr>)))"

definition RPCService_getSAP :: "sap option service \<Rightarrow> exn + sap_info option" where
  "RPCService_getSAP s = (case sa_impl s of None \<Rightarrow> Inl NullDeref | Some p \<Rightarrow> Inr (m_sapInfo p))"

definition RPCService_ctor :: "uuid \<Rightarrow> uuid \<Rightarrow> sap option service" where
  "RPCService_ctor sid iid = ServiceAbstract_ctor sid iid USER_TYPE None"

definition RPCService_class :: "string option \<Rightarrow> sap_world \<Rightarrow> nat \<Rightarrow> sap option service_class" where
  "RPCService_class itf w k =
     \<lparr>open_i = RPCService_open_i itf w k, close_i = no_hook, resume_i = no_hook,
      suspend_i = no_hook, fault_i = no_hook, getSAP = RPCService_getSAP\<rparr>"

interpretation rpc: service_hooks "RPCService_class itf w k" for itf w k
  by unfold_locales (auto simp: RPCService_class_def tame_def same_face_def no_hook_def
      RPCService_open_i_def Let_def split: option.splits prod.splits sum.splits)

section \<open>The instances of one service\<close>

text \<open>
  \<^verbatim>\<open>LocalService\<close>. Instances are shared between the table and whoever created them, so the table
  holds addresses into a heap of services.
\<close>

record local_service =
  ls_sid :: uuid
  ls_runningServicesMap :: "nat hmap"

definition LocalService_ctor :: "uuid \<Rightarrow> local_service" where
  "LocalService_ctor sid = \<lparr>ls_sid = sid, ls_runningServicesMap = []\<rparr>"

definition addServiceInstance ::
    "hpos \<Rightarrow> 'x service list \<Rightarrow> nat \<Rightarrow> local_service \<Rightarrow> bool \<times> local_service" where
  "addServiceInstance pos h a ls =
     (let (r, m) = hm_bind pos (sa_iid (h ! a)) a (ls_runningServicesMap ls)
      in (r = 0, ls\<lparr>ls_runningServicesMap := m\<rparr>))"

definition removeServiceInstance :: "'x service_class \<Rightarrow> uuid \<Rightarrow> 'x service list \<times> local_service \<Rightarrow>
    (exn, unit, 'x service list \<times> local_service) outcome" where
  "removeServiceInstance C iid = (\<lambda>(h, ls). case hm_find (ls_runningServicesMap ls) iid of
      None \<Rightarrow> (Inl SERVICE_NOT_KNOWN, (h, ls))
    | Some a \<Rightarrow> (let ls' = ls\<lparr>ls_runningServicesMap := snd (hm_unbind iid (ls_runningServicesMap ls))\<rparr>;
                     (r, s) = service_close C (h ! a) in (r, (h[a := s], ls'))))"

text \<open>\<^verbatim>\<open>close\<close>: a \<^verbatim>\<open>ServiceException\<close> of one instance does not stop the loop; the table keeps its entries.\<close>

fun close_instances :: "'x service_class \<Rightarrow> nat list \<Rightarrow> 'x service list \<Rightarrow> (exn, unit, 'x service list) outcome" where
  "close_instances C [] h = (Inr (), h)"
| "close_instances C (a # as) h = (let (r, s) = service_close C (h ! a); h' = h[a := s] in
     case r of Inl (ServiceException m) \<Rightarrow> close_instances C as h'
     | Inr _ \<Rightarrow> close_instances C as h'
     | Inl e \<Rightarrow> (Inl e, h'))"

definition LocalService_close ::
    "'x service_class \<Rightarrow> local_service \<Rightarrow> 'x service list \<Rightarrow> (exn, unit, 'x service list) outcome" where
  "LocalService_close C ls h = close_instances C (map snd (ls_runningServicesMap ls)) h"

definition LocalService_getInstanceOfService :: "uuid \<Rightarrow> local_service \<Rightarrow> exn + nat" where
  "LocalService_getInstanceOfService iid ls = (case hm_find (ls_runningServicesMap ls) iid of
      Some a \<Rightarrow> Inr a
    | None \<Rightarrow> Inl (ServiceException ''Not exists!''))"

definition LocalService_getInstancesOfService :: "'x service list \<Rightarrow> local_service \<Rightarrow> uuid list" where
  "LocalService_getInstancesOfService h ls = map (\<lambda>e. sa_iid (h ! snd e)) (ls_runningServicesMap ls)"

definition instance_info :: "'x service_class \<Rightarrow> 'x service \<Rightarrow> exn + service_instance_info" where
  "instance_info C s = res_bind (getSAP C s)
     (\<lambda>sap. Inr \<lparr>sii_sid = sa_sid s, sii_iid = sa_iid s, sii_sapInfo = sap\<rparr>)"

text \<open>For one instance: the description, or \<open>None\<close> where the code returns false and leaves the
  pointer null.\<close>

definition getInstancesOfServiceInfo_iid :: "'x service_class \<Rightarrow> 'x service list \<Rightarrow> uuid \<Rightarrow> local_service \<Rightarrow>
    exn + service_instance_info option" where
  "getInstancesOfServiceInfo_iid C h iid ls = (case hm_find (ls_runningServicesMap ls) iid of
      Some a \<Rightarrow> res_bind (instance_info C (h ! a)) (\<lambda>i. Inr (Some i))
    | None \<Rightarrow> Inr None)"

fun instance_infos :: "'x service_class \<Rightarrow> 'x service list \<Rightarrow> exn + service_instance_info list" where
  "instance_infos C [] = Inr []"
| "instance_infos C (s # ss) =
     res_bind (instance_info C s) (\<lambda>i. res_bind (instance_infos C ss) (\<lambda>is. Inr (i # is)))"

definition getInstancesOfServiceInfo ::
    "'x service_class \<Rightarrow> 'x service list \<Rightarrow> local_service \<Rightarrow> exn + service_instance_info list" where
  "getInstancesOfServiceInfo C h ls =
     instance_infos C (map (\<lambda>e. h ! snd e) (ls_runningServicesMap ls))"

definition LocalService_setIID :: "hpos \<Rightarrow> uuid \<Rightarrow> uuid \<Rightarrow> 'x service list \<times> local_service \<Rightarrow>
    (exn, unit, 'x service list \<times> local_service) outcome" where
  "LocalService_setIID pos iid newIid = (\<lambda>(h, ls). case hm_find (ls_runningServicesMap ls) iid of
      None \<Rightarrow> (Inl (ServiceException ''Service not fount!''), (h, ls))
    | Some a \<Rightarrow>
        (let m = snd (hm_unbind iid (ls_runningServicesMap ls));
             h' = h[a := setIID newIid (h ! a)];
             (r, m') = hm_bind pos newIid a m;
             ls' = ls\<lparr>ls_runningServicesMap := m'\<rparr>
         in (if r \<noteq> 0 then Inl (ServiceException ''Failed to change IID!'') else Inr (), (h', ls'))))"

definition existsRunningService :: "uuid \<Rightarrow> local_service \<Rightarrow> bool" where
  "existsRunningService iid ls = (hm_find (ls_runningServicesMap ls) iid \<noteq> None)"

definition LocalService_getInstanceCount :: "local_service \<Rightarrow> u32" where
  "LocalService_getInstanceCount ls = word_of_nat (length (ls_runningServicesMap ls))"

text \<open>What holds between calls: every entry is the address of an instance of this service, under the
  instance's own identifier.\<close>

definition entry_ok :: "'x service list \<Rightarrow> uuid \<Rightarrow> uuid \<times> nat \<Rightarrow> bool" where
  "entry_ok h sid e = (snd e < length h \<and> sa_iid (h ! snd e) = fst e \<and> sa_sid (h ! snd e) = sid)"

definition ls_inv :: "'x service list \<Rightarrow> local_service \<Rightarrow> bool" where
  "ls_inv h ls = (hm_ok (ls_runningServicesMap ls)
     \<and> (\<forall>e\<in>set (ls_runningServicesMap ls). entry_ok h (ls_sid ls) e))"

lemma ls_inv_ctor [simp]: "ls_inv h (LocalService_ctor sid)"
  by (simp add: ls_inv_def LocalService_ctor_def hm_ok_def)

lemma ls_inv_find: "ls_inv h ls \<Longrightarrow> hm_find (ls_runningServicesMap ls) k = Some a \<Longrightarrow>
    a < length h \<and> sa_iid (h ! a) = k \<and> sa_sid (h ! a) = ls_sid ls"
  by (drule hm_find_set) (auto simp: ls_inv_def entry_ok_def)

text \<open>The heap may grow and its services change as long as the identities stay.\<close>

definition same_ids :: "'x service list \<Rightarrow> 'x service list \<Rightarrow> bool" where
  "same_ids h h' = (length h \<le> length h'
     \<and> (\<forall>a<length h. sa_sid (h' ! a) = sa_sid (h ! a) \<and> sa_iid (h' ! a) = sa_iid (h ! a)))"

lemma same_ids_refl [simp]: "same_ids h h" by (simp add: same_ids_def)

lemma same_ids_trans: "same_ids h h' \<Longrightarrow> same_ids h' h'' \<Longrightarrow> same_ids h h''"
  by (auto simp: same_ids_def)

lemma same_ids_append [simp]: "same_ids h (h @ ss)"
  by (auto simp: same_ids_def nth_append)

lemma same_ids_update:
  "sa_sid s = sa_sid (h ! a) \<Longrightarrow> sa_iid s = sa_iid (h ! a) \<Longrightarrow> same_ids h (h[a := s])"
  by (cases "a < length h") (auto simp: same_ids_def nth_list_update list_update_beyond)

lemma ls_inv_same_ids: "ls_inv h ls \<Longrightarrow> same_ids h h' \<Longrightarrow> ls_inv h' ls"
  by (fastforce simp: ls_inv_def entry_ok_def same_ids_def)

lemma ls_inv_add:
  assumes "ls_inv h ls" "a < length h" "sa_sid (h ! a) = ls_sid ls"
  shows "ls_inv h (snd (addServiceInstance pos h a ls))"
proof -
  let ?m = "snd (hm_bind pos (sa_iid (h ! a)) a (ls_runningServicesMap ls))"
  have "hm_ok ?m" using assms(1) by (simp add: ls_inv_def hm.bind_inv)
  moreover have "entry_ok h (ls_sid ls) e" if "e \<in> set ?m" for e
    using hm_bind_set [OF that] assms by (auto simp: ls_inv_def entry_ok_def)
  ultimately show ?thesis by (auto simp: ls_inv_def addServiceInstance_def split: prod.splits)
qed

lemma ls_inv_unbind:
  "ls_inv h ls \<Longrightarrow> ls_inv h (ls\<lparr>ls_runningServicesMap := snd (hm_unbind k (ls_runningServicesMap ls))\<rparr>)"
  using hm.unbind_find [of "ls_runningServicesMap ls" k] by (auto simp: ls_inv_def dest: hm_unbind_set)

lemma add_find:
  assumes "ls_inv h ls"
  shows "fst (addServiceInstance pos h a ls) \<longleftrightarrow> hm_find (ls_runningServicesMap ls) (sa_iid (h ! a)) = None"
    "hm_find (ls_runningServicesMap (snd (addServiceInstance pos h a ls))) =
      (if hm_find (ls_runningServicesMap ls) (sa_iid (h ! a)) = None
       then (hm_find (ls_runningServicesMap ls))(sa_iid (h ! a) \<mapsto> a) else hm_find (ls_runningServicesMap ls))"
    "ls_sid (snd (addServiceInstance pos h a ls)) = ls_sid ls"
  using hm.bind_result [of "ls_runningServicesMap ls" pos "sa_iid (h ! a)" a]
    hm.bind_find [of "ls_runningServicesMap ls" pos "sa_iid (h ! a)" a] assms
  by (auto simp: addServiceInstance_def ls_inv_def split: prod.splits)

text \<open>Changing the identifier of an instance: the entry moves. When the new identifier is taken the
  old entry is gone all the same, and the instance answers to an identifier that finds another.\<close>

lemma setIID_moves:
  assumes inv: "ls_inv h ls" and old: "hm_find (ls_runningServicesMap ls) old = Some a"
    and new: "new = old \<or> hm_find (ls_runningServicesMap ls) new = None"
  shows "\<exists>ls'. LocalService_setIID pos old new (h, ls) = (Inr (), (h[a := setIID new (h ! a)], ls'))
    \<and> ls_sid ls' = ls_sid ls
    \<and> hm_find (ls_runningServicesMap ls') = ((hm_find (ls_runningServicesMap ls))(old := None))(new \<mapsto> a)"
  using hm.rename [where pos = pos and m = "ls_runningServicesMap ls" and old = old and v = a and k = new and w = a] inv old new
  by (auto simp: LocalService_setIID_def ls_inv_def Let_def split: prod.splits)

lemma setIID_loses:
  assumes inv: "ls_inv h ls" and old: "hm_find (ls_runningServicesMap ls) old = Some a"
    and new: "hm_find (ls_runningServicesMap ls) new \<noteq> None" "new \<noteq> old"
  shows "\<exists>ls'. LocalService_setIID pos old new (h, ls) =
      (Inl (ServiceException ''Failed to change IID!''), (h[a := setIID new (h ! a)], ls'))
    \<and> ls_sid ls' = ls_sid ls
    \<and> hm_find (ls_runningServicesMap ls') = (hm_find (ls_runningServicesMap ls))(old := None)"
  using hm.rename_clash [where pos = pos and m = "ls_runningServicesMap ls" and old = old and k = new and w = a] inv old new
  by (auto simp: LocalService_setIID_def ls_inv_def Let_def split: prod.splits)

lemma hm_find_ok_iff: "hm_ok m \<Longrightarrow> (k, v) \<in> set m \<longleftrightarrow> hm_find m k = Some v"
  by (simp add: hm_ok_def hm_find_map_of)

lemma ls_inv_iff: "ls_inv h ls \<longleftrightarrow> hm_ok (ls_runningServicesMap ls)
    \<and> (\<forall>k a. hm_find (ls_runningServicesMap ls) k = Some a \<longrightarrow> entry_ok h (ls_sid ls) (k, a))"
  by (auto simp: ls_inv_def simp flip: hm_find_ok_iff)

lemma setIID_ok_map: "hm_ok (ls_runningServicesMap ls) \<Longrightarrow>
    hm_ok (ls_runningServicesMap (snd (snd (LocalService_setIID pos old new (h, ls)))))"
proof (cases "hm_find (ls_runningServicesMap ls) old")
  case (Some a)
  assume "hm_ok (ls_runningServicesMap ls)"
  then have "hm_ok (snd (hm_bind pos new a (snd (hm_unbind old (ls_runningServicesMap ls)))))"
    by (simp add: hm.bind_inv hm.unbind_find)
  then show ?thesis using Some by (auto simp: LocalService_setIID_def Let_def split: prod.splits)
qed (simp add: LocalService_setIID_def)

lemma ls_inv_setIID:
  assumes "ls_inv h ls"
  shows "case LocalService_setIID pos old new (h, ls) of (r, (h', ls')) \<Rightarrow>
    ls_inv h' ls' \<and> ls_sid ls' = ls_sid ls \<and> length h' = length h"
proof (cases "hm_find (ls_runningServicesMap ls) old")
  case None
  then show ?thesis using assms by (simp add: LocalService_setIID_def)
next
  case (Some a)
  obtain r h' ls' where run: "LocalService_setIID pos old new (h, ls) = (r, (h', ls'))"
    by (metis prod_cases3)
  have ok: "hm_ok (ls_runningServicesMap ls')"
    using setIID_ok_map [of ls pos old new h] assms run by (simp add: ls_inv_def)
  have h': "h' = h[a := setIID new (h ! a)]" and sid: "ls_sid ls' = ls_sid ls"
    using run Some by (auto simp: LocalService_setIID_def Let_def split: prod.splits)
  have other: "b \<noteq> a" if "k \<noteq> old" "hm_find (ls_runningServicesMap ls) k = Some b" for k b
    using that ls_inv_find [OF assms Some] ls_inv_find [OF assms that(2)] by auto
  have "entry_ok h' (ls_sid ls') (k, b)" if f: "hm_find (ls_runningServicesMap ls') k = Some b" for k b
  proof (cases "new = old \<or> hm_find (ls_runningServicesMap ls) new = None")
    case True
    have "hm_find (ls_runningServicesMap ls') = ((hm_find (ls_runningServicesMap ls))(old := None))(new \<mapsto> a)"
      using setIID_moves [OF assms Some True, of pos] run by auto
    then show ?thesis using f other [of k b] ls_inv_find [OF assms, of k b] ls_inv_find [OF assms Some] h' sid
      by (auto simp: entry_ok_def setIID_def split: if_splits)
  next
    case False
    have "hm_find (ls_runningServicesMap ls') = (hm_find (ls_runningServicesMap ls))(old := None)"
      using setIID_loses [OF assms Some, of new pos] run False by auto
    then show ?thesis using f other [of k b] ls_inv_find [OF assms, of k b] h' sid
      by (auto simp: entry_ok_def split: if_splits)
  qed
  then show ?thesis using run ok h' sid by (simp add: ls_inv_iff)
qed
context service_hooks
begin

lemma same_ids_close: "same_ids h (h[a := snd (service_close C (h ! a))])"
  by (rule same_ids_update) (simp_all add: close_keeps_id)

lemma remove_result:
  fixes iid :: uuid
  assumes inv: "ls_inv h ls"
  defines "r \<equiv> removeServiceInstance C iid (h, ls)"
  shows "same_ids h (fst (snd r))" "ls_inv (fst (snd r)) (snd (snd r))" "ls_sid (snd (snd r)) = ls_sid ls"
    "hm_find (ls_runningServicesMap (snd (snd r))) = (hm_find (ls_runningServicesMap ls))(iid := None)"
    "length (fst (snd r)) = length h"
proof -
  have *: "same_ids h (fst (snd r)) \<and> ls_inv (fst (snd r)) (snd (snd r)) \<and> ls_sid (snd (snd r)) = ls_sid ls
    \<and> hm_find (ls_runningServicesMap (snd (snd r))) = (hm_find (ls_runningServicesMap ls))(iid := None)
    \<and> length (fst (snd r)) = length h"
  proof (cases "hm_find (ls_runningServicesMap ls) iid")
    case None
    then show ?thesis using inv by (simp add: r_def removeServiceInstance_def fun_upd_idem)
  next
    case (Some a)
    have "hm_ok (ls_runningServicesMap ls)" using inv by (simp add: ls_inv_def)
    then show ?thesis using Some same_ids_close [of h a]
        ls_inv_same_ids [OF ls_inv_unbind [OF inv, of iid] same_ids_close [of h a]]
      by (cases "service_close C (h ! a)") (simp add: r_def removeServiceInstance_def hm.unbind_find Let_def)
  qed
  then show "same_ids h (fst (snd r))" "ls_inv (fst (snd r)) (snd (snd r))" "ls_sid (snd (snd r)) = ls_sid ls"
    "hm_find (ls_runningServicesMap (snd (snd r))) = (hm_find (ls_runningServicesMap ls))(iid := None)"
    "length (fst (snd r)) = length h" by simp_all
qed

lemma close_instances_same: "same_ids h (snd (close_instances C as h)) \<and> length (snd (close_instances C as h)) = length h"
proof (induction "as" arbitrary: h)
  case (Cons a as)
  obtain r s where c: "service_close C (h ! a) = (r, s)" by (cases "service_close C (h ! a)")
  have s: "same_ids h (h[a := s])" using same_ids_close [of h a] c by simp
  show ?case using c s Cons.IH [of "h[a := s]"] same_ids_trans [OF s]
    by (auto simp: Let_def split: sum.splits exn.splits)
qed simp

text \<open>Nothing that \<^verbatim>\<open>close\<close> reaches is left valid.\<close>

lemma service_close_invalid: "\<not> service_isValid (snd (service_close C s))"
  using call_status [of Close s] by (cases "sa_status s") (auto simp: service_isValid_def)

lemma close_keeps_invalid: "\<not> service_isValid s \<Longrightarrow> \<not> service_isValid (snd (service_close C s))"
  by (rule service_close_invalid)

lemma close_instances_invalid:
  assumes "fst (close_instances C as h) = Inr ()" "a < length h"
    "a \<in> set as \<or> \<not> service_isValid (h ! a)"
  shows "\<not> service_isValid (snd (close_instances C as h) ! a)"
  using assms
proof (induction "as" arbitrary: h)
  case (Cons b as)
  obtain r s where c: "service_close C (h ! b) = (r, s)" by (cases "service_close C (h ! b)")
  have run: "close_instances C (b # as) h = close_instances C as (h[b := s])"
    using Cons.prems(1) c by (auto simp: Let_def split: sum.splits exn.splits)
  have "\<not> service_isValid s" using service_close_invalid [of "h ! b"] c by simp
  then have "a \<in> set as \<or> \<not> service_isValid (h[b := s] ! a)"
    using Cons.prems(2,3) by (cases "a = b") auto
  then show ?case using Cons.IH [of "h[b := s]"] Cons.prems(1,2) run by simp
qed simp

end

section \<open>Properties\<close>

definition sample_sap_world :: sap_world where
  "sample_sap_world = \<lparr>ip_interface = (\<lambda>i. if i = ''eth0'' then Some ''10.0.0.1'' else None),
     randomPort = (\<lambda>k. of_nat (2000 + k)), acceptor_open = (\<lambda>k e. ep_port e \<noteq> 2001)\<rparr>"

definition sample_params :: service_params where
  "sample_params = \<lparr>sp_sid = [1], sp_ftParams = None, sp_querySpecializationBlob = None\<rparr>"

abbreviation sample_rpc :: "sap option service_class" where
  "sample_rpc \<equiv> RPCService_class (Some ''eth0'') sample_sap_world 0"

text \<open>C22: A service that has faulted, was closed, or whose hook threw while it was opened, resumed,
  suspended or closed is never valid again: whatever open, close, resume, suspend and fault calls
  follow, and whether or not they throw, its status does not come back to running. (No call
  enters the recovering state, the only way out of a fault that the state machine knows.)\<close>

theorem service_never_valid_again:
  assumes "service_hooks C" "sa_status s \<in> {STARTING, SUSPENDING, FAULT, CLOSING, CLOSED}"
  shows "\<not> service_isValid (run_calls C cs s)"
  using service_hooks.stays_spent [OF assms(1), of s cs] assms(2)
  by (auto simp: spent_def service_isValid_def)

theorem service_never_valid_again_witness:
  "\<not> service_isValid (run_calls sample_rpc [Resume, Open sample_params FT_PRIMARY None, Close]
     (run_calls (RPCService_class None sample_sap_world 0) [Open sample_params FT_PRIMARY None]
       (RPCService_ctor [1] [2])))"
proof (rule service_never_valid_again [OF rpc.service_hooks_axioms])
  show "sa_status (run_calls (RPCService_class None sample_sap_world 0) [Open sample_params FT_PRIMARY None]
      (RPCService_ctor [1] [2])) \<in> {STARTING, SUSPENDING, FAULT, CLOSING, CLOSED}"
    by (simp add: service_open_def changeState_def handle_defs RPCService_ctor_def ServiceAbstract_ctor_def
        RPCService_class_def RPCService_open_i_def)
qed

text \<open>Opening an access point is all or nothing. When it returns there is one listening acceptor
  for each requested quality of service, in that order, on the address of the interface, and the
  published description lists exactly the endpoints of those acceptors; when it throws, no acceptor
  is left and no description is published.\<close>

lemma sap_open_all_or_nothing:
  assumes "distinct qosList"
  shows "case SAP_open w itf qosList k SAP_ctor of
      (Inr _, p) \<Rightarrow> m_sapInfo p = Some (m_acceptorList p) \<and> map ep_qos (m_acceptorList p) = qosList
        \<and> list_all (\<lambda>e. Some (ep_host e) = ip_interface w itf \<and> (\<exists>i. acceptor_open w i e)) (m_acceptorList p)
    | (Inl _, p) \<Rightarrow> p = SAP_ctor"
proof (cases "ip_interface w itf")
  case (Some ip)
  obtain r p where run: "open_acceptors w ip qosList k [] SAP_ctor = (r, p)"
    by (cases "open_acceptors w ip qosList k [] SAP_ctor")
  have "m_acceptorList SAP_ctor = []" "m_sapInfo SAP_ctor = None" by (simp_all add: SAP_ctor_def)
  with open_acceptors_result [OF run] assms Some run show ?thesis
    by (cases r) (auto simp: SAP_open_def list_all_iff SAP_ctor_def)
qed (simp add: SAP_open_def)

lemma initAcceptor_loop_numeral:
  "initAcceptor_loop w ip q (numeral n) k =
     (let e = \<lparr>ep_type = EP_TCP, ep_host = ip, ep_port = randomPort w k, ep_qos = q\<rparr>
      in if acceptor_open w k e then (Some e, Suc k) else initAcceptor_loop w ip q (pred_numeral n) (Suc k))"
  by (simp add: numeral_eq_Suc)

lemma sample_sap: "SAP_open sample_sap_world ''eth0'' RPC_qosList 0 SAP_ctor = (Inr 4,
      let ps = map (\<lambda>(n, q). \<lparr>ep_type = EP_TCP, ep_host = ''10.0.0.1'', ep_port = n, ep_qos = q\<rparr>)
        (zip [2000, 2002, 2003] RPC_qosList) in \<lparr>m_acceptorList = ps, m_sapInfo = Some ps\<rparr>)"
  by (simp add: SAP_open_def sample_sap_world_def RPC_qosList_def initAcceptor_def
        MAX_PORT_BIND_ATTEMPTS_def initAcceptor_loop_numeral Let_def addEndpoint_def Endpoint_isEqual_def
        QoSEndpoint_isEqual_def SAP_ctor_def)

lemma sap_open_all_or_nothing_witness:
  "\<exists>p. snd (SAP_open sample_sap_world ''eth0'' RPC_qosList 0 SAP_ctor) = p
    \<and> m_sapInfo p = Some (m_acceptorList p) \<and> map ep_port (m_acceptorList p) = [2000, 2002, 2003]"
proof -
  have "distinct RPC_qosList" by (simp add: RPC_qosList_def)
  from sap_open_all_or_nothing [OF this, of sample_sap_world "''eth0''" 0] sample_sap
  show ?thesis by (simp add: Let_def RPC_qosList_def)
qed

end
