(* ===== verification/RuntimeCore.thy ===== *)
theory RuntimeCore
  imports Services
begin

text \<open>
  The runtime (\<^verbatim>\<open>stheno/core/SthenoCore.cpp\<close>) with its factory of services
  (\<^verbatim>\<open>stheno/core/DefaultServiceFactory.cpp\<close>), the states of the overlay
  (\<^verbatim>\<open>stheno/core/p2p/Overlay.cpp\<close>) and the handler of remote creation requests
  (\<^verbatim>\<open>P3Mesh::handleServiceCreate\<close>). The runtime keeps, per service identifier, a \<^verbatim>\<open>LocalService\<close> with
  the running instances. The abstract view is \<open>instance_at\<close>, a map from service and instance
  identifiers to instances; creation and stop are specified on it.
\<close>

section \<open>The factory of services\<close>

text \<open>
  \<^verbatim>\<open>DefaultServiceFactory\<close>: one prototype per service identifier; \<^verbatim>\<open>duplicate\<close> and \<^verbatim>\<open>getName\<close> are
  virtual functions of the prototypes.
\<close>

definition Factory_addService :: "hpos \<Rightarrow> 'x service \<Rightarrow> 'x service hmap \<Rightarrow> bool \<times> 'x service hmap" where
  "Factory_addService pos impl m =
     (if hm_find m (sa_sid impl) = None
      then let (r, m') = hm_bind pos (sa_sid impl) impl m in (r = 0, m') else (False, m))"

definition Factory_getInstance ::
    "('x service \<Rightarrow> exn + 'x service) \<Rightarrow> uuid \<Rightarrow> 'x service hmap \<Rightarrow> exn + 'x service" where
  "Factory_getInstance duplicate sid m = (case hm_find m sid of
      None \<Rightarrow> Inl SERVICE_NOT_KNOWN
    | Some s \<Rightarrow> duplicate s)"

definition getServiceName :: "('x service \<Rightarrow> string) \<Rightarrow> string \<Rightarrow> 'x service hmap \<Rightarrow> exn + uuid" where
  "getServiceName getName name m = (case List.find (\<lambda>e. getName (snd e) = name) m of
      Some e \<Rightarrow> Inr (fst e)
    | None \<Rightarrow> Inl SERVICE_NOT_KNOWN)"

section \<open>The overlay\<close>

text \<open>\<^verbatim>\<open>Overlay\<close>: unlike a service, its state changes are not checked.\<close>

datatype overlay_status = OV_NOT_INIT | OV_STARTING | OV_RUNNING | OV_SUSPENDING | OV_SUSPENDED
  | OV_RESUMING | OV_CLOSING | OV_CLOSED | OV_ERROR

record overlay =
  ov_status :: overlay_status
  ov_qosManager :: "nat option"

definition Overlay_changeState :: "overlay_status \<Rightarrow> overlay \<Rightarrow> overlay" where
  "Overlay_changeState n ov = ov\<lparr>ov_status := n\<rparr>"

definition Overlay_open :: "(exn + unit) \<Rightarrow> nat option \<Rightarrow> overlay \<Rightarrow> (exn, unit, overlay) outcome" where
  "Overlay_open hook qos ov =
     andThen (hook, (Overlay_changeState OV_STARTING ov)\<lparr>ov_qosManager := qos\<rparr>)
       (\<lambda>_ ov. (Inr (), Overlay_changeState OV_RUNNING ov))"

definition Overlay_close :: "(exn + unit) \<Rightarrow> overlay \<Rightarrow> (exn, unit, overlay) outcome" where
  "Overlay_close hook ov =
     andThen (hook, Overlay_changeState OV_CLOSING ov)
       (\<lambda>_ ov. (Inr (), Overlay_changeState OV_CLOSED ov))"

section \<open>The runtime\<close>

definition INVALID_OVERLAY :: exn where "INVALID_OVERLAY = RuntimeException ''Overlay not found!''"
definition INVALID_RUNTIME :: exn where
  "INVALID_RUNTIME = RuntimeException ''Runtime has an invalid state!''"
definition INVALID_ARGS :: exn where "INVALID_ARGS = RuntimeException ''Invalid args!''"
definition QOS_CLIENT_INITIALIZATION_ERROR :: exn where
  "QOS_CLIENT_INITIALIZATION_ERROR = RuntimeException ''QoS Client failed!''"

datatype core_status = CORE_NOT_INIT | CORE_RUNNING | CORE_SUSPENDED | CORE_CLOSED

text \<open>What the runtime tells the mesh, in order; the description of a new instance is \<open>None\<close> where
  the code passes a null pointer.\<close>

datatype mesh_event = ServiceCreation "service_instance_info option" | ServiceUpdateIID uuid uuid uuid

datatype group_role = AsPrimary | AsReplica overlay_peer_info "overlay_peer_info list"

text \<open>
  The members of \<^verbatim>\<open>SthenoCore\<close> with the heap of services and the number of identifiers generated so
  far. \<open>'f\<close> is the state of the fault tolerance service.
\<close>

record ('x, 'f) core =
  co_status :: core_status
  co_peerID :: uuid
  co_overlay :: "overlay option"
  co_heap :: "'x service list"
  co_serviceMap :: "local_service hmap"
  co_serviceFactory :: "'x service hmap"
  co_reservationFlag :: bool
  co_runtimeQoS :: u32
  co_runtimeQoSManager :: "nat option"
  co_serviceQosManager :: "nat option"
  co_qosClosed :: bool
  co_uuids :: nat
  co_mesh :: "mesh_event list"
  co_ft :: 'f

text \<open>
  The surroundings: the virtual functions of the services, the order of the tables, the generator of
  identifiers, the overlay (whether it has a mesh and a fault tolerance service, and how its own
  start and stop end), what the fault tolerance service does when a group is created, and the
  domains of the quality of service manager.
\<close>

record ('x, 'f) core_env =
  ce_class :: "'x service_class"
  ce_duplicate :: "'x service \<Rightarrow> exn + 'x service"
  ce_getName :: "'x service \<Rightarrow> string"
  ce_pos :: hpos
  ce_uuid :: "nat \<Rightarrow> uuid"
  ce_hasMesh :: bool
  ce_hasFT :: bool
  ce_overlay_open :: "exn + unit"
  ce_overlay_close :: "exn + unit"
  ce_createGroup :: "group_role \<Rightarrow> service_params \<Rightarrow> uuid \<Rightarrow> nat option \<Rightarrow> nat \<Rightarrow> 'x service \<times> 'f \<Rightarrow>
    (exn, unit, 'x service \<times> 'f) outcome"
  ce_qosOpen :: bool
  ce_runtimeManager :: nat
  ce_subDomain :: "nat \<Rightarrow> string \<Rightarrow> exn + nat"
  ce_parseInt :: "string \<Rightarrow> u32"

type_synonym ('x, 'f, 'a) core_op = "('x, 'f) core \<Rightarrow> (exn, 'a, ('x, 'f) core) outcome"

definition SthenoCore_ctor :: "uuid \<Rightarrow> 'f \<Rightarrow> ('x, 'f) core" where
  "SthenoCore_ctor rid ft = \<lparr>co_status = CORE_NOT_INIT, co_peerID = rid, co_overlay = None, co_heap = [],
     co_serviceMap = [], co_serviceFactory = [], co_reservationFlag = False, co_runtimeQoS = 0,
     co_runtimeQoSManager = None, co_serviceQosManager = None, co_qosClosed = False,
     co_uuids = 0, co_mesh = [], co_ft = ft\<rparr>"

definition core_isValid :: "('x, 'f) core \<Rightarrow> bool" where
  "core_isValid c = (co_status c = CORE_RUNNING)"

definition whenValid :: "('x, 'f, 'a) core_op \<Rightarrow> ('x, 'f, 'a) core_op" where
  "whenValid f c = (if core_isValid c then f c else (Inl INVALID_RUNTIME, c))"

definition attachOverlay :: "overlay \<Rightarrow> ('x, 'f, unit) core_op" where
  "attachOverlay ov c = (if co_status c \<noteq> CORE_NOT_INIT then (Inl INVALID_RUNTIME, c)
     else (Inr (), c\<lparr>co_overlay := Some ov\<rparr>))"

text \<open>The options of the command line as \<^verbatim>\<open>ACE_Get_Opt\<close> delivers them.\<close>

datatype option_event = LongOption string string | MissingArgument

definition ascii_lower :: "string \<Rightarrow> string" where
  "ascii_lower = map (\<lambda>ch. let n = of_char ch :: nat in if 65 \<le> n \<and> n \<le> 90 then char_of (n + 32) else ch)"

fun core_options :: "('x, 'f) core_env \<Rightarrow> option_event list \<Rightarrow> ('x, 'f, unit) core_op" where
  "core_options E [] c = (Inr (), c)"
| "core_options E (MissingArgument # os) c = (Inl INVALID_ARGS, c)"
| "core_options E (LongOption name val # os) c = core_options E os
     (if name = ''reservation'' \<and> ascii_lower val = ''true'' then c\<lparr>co_reservationFlag := True\<rparr>
      else if name = ''runtimeqos'' then c\<lparr>co_runtimeQoS := ce_parseInt E val\<rparr> else c)"

definition initRuntimeQoS :: "('x, 'f) core_env \<Rightarrow> ('x, 'f, unit) core_op" where
  "initRuntimeQoS E c = (if co_reservationFlag c \<and> \<not> ce_qosOpen E
     then (Inl QOS_CLIENT_INITIALIZATION_ERROR, c) else (Inr (), c))"

definition open_overlay :: "('x, 'f) core_env \<Rightarrow> ('x, 'f, unit) core_op" where
  "open_overlay E c = (case co_overlay c of
      None \<Rightarrow> (Inl NullDeref, c)
    | Some ov \<Rightarrow>
        (let (r, ov') = Overlay_open (ce_overlay_open E)
               (if co_reservationFlag c then co_runtimeQoSManager c else None) ov;
             c' = c\<lparr>co_overlay := Some ov'\<rparr>
         in (case r of Inl (OverlayException m) \<Rightarrow> (Inl INVALID_OVERLAY, c')
             | Inl (RuntimeException m) \<Rightarrow> (Inl INVALID_OVERLAY, c')
             | Inl e \<Rightarrow> (Inl e, c')
             | Inr _ \<Rightarrow> (Inr (), if co_reservationFlag c'
                 then c'\<lparr>co_serviceQosManager := co_runtimeQoSManager c'\<rparr> else c'))))"

definition core_open :: "('x, 'f) core_env \<Rightarrow> option_event list \<Rightarrow> ('x, 'f, unit) core_op" where
  "core_open E os c =
     andThen (core_options E os (c\<lparr>co_reservationFlag := False, co_runtimeQoS := 1000\<rparr>)) (\<lambda>_ c.
     andThen (initRuntimeQoS E c) (\<lambda>_ c.
     andThen (open_overlay E (c\<lparr>co_runtimeQoSManager := Some (ce_runtimeManager E)\<rparr>)) (\<lambda>_ c.
     (Inr (), c\<lparr>co_status := CORE_RUNNING\<rparr>))))"

text \<open>\<^verbatim>\<open>close\<close>: every instance of every service, then the overlay, then the quality of service manager.\<close>

fun close_services :: "'x service_class \<Rightarrow> local_service list \<Rightarrow> 'x service list \<Rightarrow> (exn, unit, 'x service list) outcome" where
  "close_services C [] h = (Inr (), h)"
| "close_services C (ls # lss) h = andThen (LocalService_close C ls h) (\<lambda>_ h. close_services C lss h)"

definition core_close :: "('x, 'f) core_env \<Rightarrow> ('x, 'f, unit) core_op" where
  "core_close E c =
     (let (r, h) = close_services (ce_class E) (map snd (co_serviceMap c)) (co_heap c);
          c1 = c\<lparr>co_status := CORE_CLOSED, co_heap := h\<rparr>
      in case r of Inl e \<Rightarrow> (Inl e, c1)
      | Inr _ \<Rightarrow>
          (let c2 = c1\<lparr>co_serviceMap := []\<rparr>
           in case co_overlay c2 of None \<Rightarrow> (Inr (), c2\<lparr>co_qosClosed := True\<rparr>)
           | Some ov \<Rightarrow> (case Overlay_close (ce_overlay_close E) ov of
                 (Inl e, ov') \<Rightarrow> (Inl e, c2\<lparr>co_overlay := Some ov'\<rparr>)
               | (Inr _, ov') \<Rightarrow> (Inr (), c2\<lparr>co_overlay := Some ov', co_qosClosed := True\<rparr>))))"
section \<open>Services of the runtime\<close>

definition on_object :: "nat \<Rightarrow> 'x hook \<Rightarrow> ('x, 'f, unit) core_op" where
  "on_object a f c = (let (r, s) = f (co_heap c ! a) in (r, c\<lparr>co_heap := (co_heap c)[a := s]\<rparr>))"

definition nextUUID :: "('x, 'f) core_env \<Rightarrow> ('x, 'f, uuid) core_op" where
  "nextUUID E c = (Inr (ce_uuid E (co_uuids c)), c\<lparr>co_uuids := Suc (co_uuids c)\<rparr>)"

text \<open>\<^verbatim>\<open>m_overlay->getFaultTolerance\<close> and \<^verbatim>\<open>getOverlay()->getMesh\<close>.\<close>

definition needFaultTolerance :: "('x, 'f) core_env \<Rightarrow> ('x, 'f, unit) core_op" where
  "needFaultTolerance E c = (if co_overlay c = None then (Inl NullDeref, c)
     else if ce_hasFT E then (Inr (), c) else (Inl INVALID_OVERLAY, c))"

definition tellMesh :: "('x, 'f) core_env \<Rightarrow> mesh_event \<Rightarrow> ('x, 'f, unit) core_op" where
  "tellMesh E ev c = (if co_overlay c = None then (Inl NullDeref, c)
     else if ce_hasMesh E then (Inr (), c\<lparr>co_mesh := co_mesh c @ [ev]\<rparr>) else (Inl INVALID_OVERLAY, c))"

definition core_addServiceInstance :: "('x, 'f) core_env \<Rightarrow> uuid \<Rightarrow> nat \<Rightarrow> ('x, 'f) core \<Rightarrow> ('x, 'f) core" where
  "core_addServiceInstance E sid a c = c\<lparr>co_serviceMap :=
     hm_update sid (\<lambda>ls. snd (addServiceInstance (ce_pos E) (co_heap c) a ls)) (co_serviceMap c)\<rparr>"

definition bindLocalService :: "('x, 'f) core_env \<Rightarrow> uuid \<Rightarrow> ('x, 'f, unit) core_op" where
  "bindLocalService E sid c = (case hm_find (co_serviceMap c) sid of
      Some ls \<Rightarrow> (Inr (), c)
    | None \<Rightarrow> (let (r, m) = hm_bind (ce_pos E) sid (LocalService_ctor sid) (co_serviceMap c)
        in if r \<noteq> 0 then (Inl (ServiceException ''Error on binding service''), c)
           else (Inr (), c\<lparr>co_serviceMap := m\<rparr>)))"

text \<open>The result is the address of the new instance; whether \<^verbatim>\<open>addServiceInstance\<close> could add it is not
  looked at.\<close>

definition createServiceInstance :: "('x, 'f) core_env \<Rightarrow> uuid \<Rightarrow> uuid \<Rightarrow> ('x, 'f, nat) core_op" where
  "createServiceInstance E sid iid = whenValid (\<lambda>c.
     andThen (bindLocalService E sid c) (\<lambda>_ c.
     case Factory_getInstance (ce_duplicate E) sid (co_serviceFactory c) of
       Inl e \<Rightarrow> (Inl e, c)
     | Inr i \<Rightarrow> (let a = length (co_heap c)
         in (Inr a, core_addServiceInstance E sid a (c\<lparr>co_heap := co_heap c @ [setIID iid i]\<rparr>)))))"

definition getInstanceOfService_info ::
    "('x, 'f) core_env \<Rightarrow> uuid \<Rightarrow> uuid \<Rightarrow> ('x, 'f, service_instance_info option) core_op" where
  "getInstanceOfService_info E sid iid = whenValid (\<lambda>c. case hm_find (co_serviceMap c) sid of
      None \<Rightarrow> (Inl SERVICE_NOT_KNOWN, c)
    | Some ls \<Rightarrow> (getInstancesOfServiceInfo_iid (ce_class E) (co_heap c) iid ls, c))"

definition announce :: "('x, 'f) core_env \<Rightarrow> uuid \<Rightarrow> uuid \<Rightarrow> ('x, 'f, unit) core_op" where
  "announce E sid iid c =
     andThen (getInstanceOfService_info E sid iid c) (\<lambda>info c. tellMesh E (ServiceCreation info) c)"

definition createGroup ::
    "('x, 'f) core_env \<Rightarrow> group_role \<Rightarrow> service_params \<Rightarrow> uuid \<Rightarrow> nat option \<Rightarrow> nat \<Rightarrow> ('x, 'f, unit) core_op" where
  "createGroup E role params rgid qos a c =
     (let (r, (s, f)) = ce_createGroup E role params rgid qos a (co_heap c ! a, co_ft c)
      in (r, c\<lparr>co_heap := (co_heap c)[a := s], co_ft := f\<rparr>))"

text \<open>With fault tolerance the assignment for a reservation goes to the member \<^verbatim>\<open>m_serviceQosManager\<close>,
  and the managers of the group and of the service stay null.\<close>

definition openInstance ::
    "('x, 'f) core_env \<Rightarrow> service_params \<Rightarrow> uuid \<Rightarrow> nat \<Rightarrow> ('x, 'f, unit) core_op" where
  "openInstance E params iid a c =
     (if sp_ftParams params \<noteq> None
      then andThen (createGroup E AsPrimary params iid None a
             (if co_reservationFlag c then c\<lparr>co_serviceQosManager := co_runtimeQoSManager c\<rparr> else c))
           (\<lambda>_ c. on_object a (service_open (ce_class E) params FT_PRIMARY None) c)
      else on_object a (service_open (ce_class E) params FT_NOT_SETTED
             (if co_reservationFlag c then co_runtimeQoSManager c else None)) c)"

definition createLocalService :: "('x, 'f) core_env \<Rightarrow> uuid \<Rightarrow> service_params \<Rightarrow> ('x, 'f, uuid) core_op" where
  "createLocalService E sid params = whenValid (\<lambda>c.
     andThen (needFaultTolerance E c) (\<lambda>_ c.
     andThen (nextUUID E c) (\<lambda>iid c.
     andThen (createServiceInstance E sid iid c) (\<lambda>a c.
     andThen (nextUUID E c) (\<lambda>cgroup c.
     andThen (openInstance E params iid a c) (\<lambda>_ c.
     andThen (announce E sid iid c) (\<lambda>_ c. (Inr iid, c))))))))"

definition service_path :: "uuid \<Rightarrow> uuid \<Rightarrow> string" where
  "service_path sid u = ''service_'' @ toString sid @ ''_'' @ toString u"

definition getSep :: string where "getSep = ''-''"

text \<open>The domains of a replica: one for the service, and one each for its fault tolerance and the
  service proper, of which only the first is used.\<close>

definition replica_domains :: "('x, 'f) core_env \<Rightarrow> uuid \<Rightarrow> ('x, 'f, nat option) core_op" where
  "replica_domains E sid c = (if \<not> co_reservationFlag c then (Inr None, c)
     else andThen (nextUUID E c) (\<lambda>u c.
       case co_serviceQosManager c of None \<Rightarrow> (Inl NullDeref, c)
       | Some m \<Rightarrow> (res_bind (ce_subDomain E m (service_path sid u)) (\<lambda>q.
           res_bind (ce_subDomain E q (getSep @ ''FT'')) (\<lambda>_.
           res_bind (ce_subDomain E q (getSep @ ''service'')) (\<lambda>_. Inr (Some q)))), c)))"

definition createLocalServiceReplica :: "('x, 'f) core_env \<Rightarrow> uuid \<Rightarrow> service_params \<Rightarrow> ('x, 'f, nat) core_op" where
  "createLocalServiceReplica E sid params = whenValid (\<lambda>c.
     andThen (needFaultTolerance E c) (\<lambda>_ c.
     andThen (nextUUID E c) (\<lambda>iid c.
     andThen (createServiceInstance E sid iid c) (\<lambda>a c.
     andThen (replica_domains E sid c) (\<lambda>qos c.
     andThen (on_object a (service_open (ce_class E) params FT_REPLICA qos) c) (\<lambda>_ c.
     andThen (announce E sid iid c) (\<lambda>_ c. (Inr a, c))))))))"

text \<open>The throw list names \<^verbatim>\<open>ServiceException\<close> alone.\<close>

definition throws_service :: "(exn, 'a, 's) outcome \<Rightarrow> (exn, 'a, 's) outcome" where
  "throws_service r = (case r of
      (Inl (RuntimeException m), s) \<Rightarrow> (Inl Unexpected, s)
    | (Inl (OverlayException m), s) \<Rightarrow> (Inl Unexpected, s)
    | _ \<Rightarrow> r)"

definition createReplicationGroup :: "('x, 'f) core_env \<Rightarrow> overlay_peer_info \<Rightarrow> overlay_peer_info list \<Rightarrow>
    uuid \<Rightarrow> uuid \<Rightarrow> service_params \<Rightarrow> ('x, 'f, unit) core_op" where
  "createReplicationGroup E prim replicas rgid sid params c = throws_service (whenValid (\<lambda>c.
     andThen (needFaultTolerance E c) (\<lambda>_ c.
     if sp_ftParams params = None then (Inl INVALID_FT_PARAMS, c)
     else andThen (nextUUID E c) (\<lambda>iid c.
       andThen (createServiceInstance E sid iid c) (\<lambda>a c.
       andThen (nextUUID E c) (\<lambda>cgroup c.
       let qos = (if co_reservationFlag c then co_runtimeQoSManager c else None)
       in andThen (createGroup E (AsReplica prim replicas) params rgid qos a c) (\<lambda>_ c.
          andThen (on_object a (service_open (ce_class E) params FT_REPLICA qos) c) (\<lambda>_ c.
          announce E sid iid c))))))) c)"

definition changeIIDOfService :: "('x, 'f) core_env \<Rightarrow> uuid \<Rightarrow> uuid \<Rightarrow> uuid \<Rightarrow> ('x, 'f, unit) core_op" where
  "changeIIDOfService E sid iid newIid = whenValid (\<lambda>c. case hm_find (co_serviceMap c) sid of
      None \<Rightarrow> (Inl SERVICE_NOT_KNOWN, c)
    | Some ls \<Rightarrow>
        (let (r, (h, ls')) = LocalService_setIID (ce_pos E) iid newIid (co_heap c, ls);
             c' = c\<lparr>co_heap := h, co_serviceMap := hm_update sid (\<lambda>_. ls') (co_serviceMap c)\<rparr>
         in andThen (r, c') (\<lambda>_ c.
            andThen (getInstancesOfServiceInfo_iid (ce_class E) h newIid ls', c) (\<lambda>info c.
            tellMesh E (ServiceUpdateIID sid iid newIid) c))))"

definition removeService :: "('x, 'f) core_env \<Rightarrow> uuid \<Rightarrow> uuid \<Rightarrow> ('x, 'f, unit) core_op" where
  "removeService E sid iid = whenValid (\<lambda>c. case hm_find (co_serviceMap c) sid of
      None \<Rightarrow> (Inl SERVICE_NOT_KNOWN, c)
    | Some ls \<Rightarrow> (let (r, (h, ls')) = removeServiceInstance (ce_class E) iid (co_heap c, ls)
        in (r, c\<lparr>co_heap := h, co_serviceMap := hm_update sid (\<lambda>_. ls') (co_serviceMap c)\<rparr>)))"

text \<open>The variant for a whole service throws when \<^verbatim>\<open>unbind\<close> returns 0, its success.\<close>

definition removeService_sid :: "uuid \<Rightarrow> ('x, 'f, unit) core_op" where
  "removeService_sid sid = whenValid (\<lambda>c. case hm_find (co_serviceMap c) sid of
      None \<Rightarrow> (Inl SERVICE_NOT_KNOWN, c)
    | Some ls \<Rightarrow> (let (r, m) = hm_unbind sid (co_serviceMap c)
        in (if r = 0 then Inl SERVICE_NOT_KNOWN else Inr (), c\<lparr>co_serviceMap := m\<rparr>)))"

definition stopLocalService :: "('x, 'f) core_env \<Rightarrow> uuid \<Rightarrow> uuid \<Rightarrow> ('x, 'f, unit) core_op" where
  "stopLocalService E sid iid = whenValid (\<lambda>c. removeService E sid iid c)"

definition stopService :: "('x, 'f) core_env \<Rightarrow> uuid \<Rightarrow> uuid \<Rightarrow> ('x, 'f, unit) core_op" where
  "stopService E sid iid = whenValid (\<lambda>c. andThen (stopLocalService E sid iid c)
     (\<lambda>_ c. (Inl (RuntimeException ''Not implemented!''), c)))"

definition core_addService :: "('x, 'f) core_env \<Rightarrow> nat \<Rightarrow> ('x, 'f, bool) core_op" where
  "core_addService E a = whenValid (\<lambda>c. let sid = sa_sid (co_heap c ! a) in
     case bindLocalService E sid c of
       (Inl e, c) \<Rightarrow> (Inr False, c)
     | (Inr _, c) \<Rightarrow>
         (Inr (case hm_find (co_serviceMap c) sid of
             None \<Rightarrow> False
           | Some ls \<Rightarrow> fst (addServiceInstance (ce_pos E) (co_heap c) a ls)),
          core_addServiceInstance E sid a c))"

definition isServiceRunning :: "uuid \<Rightarrow> uuid \<Rightarrow> ('x, 'f, bool) core_op" where
  "isServiceRunning sid iid = whenValid (\<lambda>c. (Inr (case hm_find (co_serviceMap c) sid of
      None \<Rightarrow> False
    | Some ls \<Rightarrow> existsRunningService iid ls), c))"

definition core_getInstanceOfService :: "uuid \<Rightarrow> uuid \<Rightarrow> ('x, 'f, nat) core_op" where
  "core_getInstanceOfService sid iid = whenValid (\<lambda>c. (case hm_find (co_serviceMap c) sid of
      None \<Rightarrow> Inl (ServiceException ''Service not found!'')
    | Some ls \<Rightarrow> LocalService_getInstanceOfService iid ls, c))"

definition getInstancesOfServiceUUIDs :: "uuid \<Rightarrow> ('x, 'f, uuid list) core_op" where
  "getInstancesOfServiceUUIDs sid = whenValid (\<lambda>c. (case hm_find (co_serviceMap c) sid of
      None \<Rightarrow> Inl (ServiceException ''Service not found!'')
    | Some ls \<Rightarrow> Inr (LocalService_getInstancesOfService (co_heap c) ls), c))"

definition core_getInstancesOfService ::
    "('x, 'f) core_env \<Rightarrow> uuid \<Rightarrow> ('x, 'f, service_instance_info list) core_op" where
  "core_getInstancesOfService E sid = whenValid (\<lambda>c. (case hm_find (co_serviceMap c) sid of
      None \<Rightarrow> Inl (ServiceException ''Service not found!'')
    | Some ls \<Rightarrow> getInstancesOfServiceInfo (ce_class E) (co_heap c) ls, c))"

definition core_getSID :: "('x, 'f) core_env \<Rightarrow> string \<Rightarrow> ('x, 'f, uuid) core_op" where
  "core_getSID E name = whenValid (\<lambda>c. (getServiceName (ce_getName E) name (co_serviceFactory c), c))"

text \<open>A request of a remote peer (\<^verbatim>\<open>P3Mesh::handleServiceCreate\<close> through
  \<^verbatim>\<open>SthenoCoreInterface::createLocalService\<close>): what is replied.\<close>

datatype create_reply = ServiceCreated uuid | CreationFailed string

definition interface_createLocalService ::
    "('x, 'f) core_env \<Rightarrow> uuid \<Rightarrow> service_params \<Rightarrow> ('x, 'f, uuid) core_op" where
  "interface_createLocalService E sid params c = throws_service (createLocalService E sid params c)"

definition handleServiceCreate :: "('x, 'f) core_env \<Rightarrow> service_params \<Rightarrow> ('x, 'f, create_reply) core_op" where
  "handleServiceCreate E params c = (case interface_createLocalService E (sp_sid params) params c of
      (Inr iid, c) \<Rightarrow> (Inr (ServiceCreated iid), c)
    | (Inl (ServiceException m), c) \<Rightarrow> (Inr (CreationFailed ''failed creation''), c)
    | (Inl e, c) \<Rightarrow> (Inl e, c))"
section \<open>What the registry keeps\<close>

definition core_inv :: "('x, 'f) core \<Rightarrow> bool" where
  "core_inv c = (hm_ok (co_serviceMap c) \<and> hm_ok (co_serviceFactory c)
     \<and> (\<forall>sid ls. hm_find (co_serviceMap c) sid = Some ls \<longrightarrow> ls_sid ls = sid \<and> ls_inv (co_heap c) ls)
     \<and> (\<forall>sid s. hm_find (co_serviceFactory c) sid = Some s \<longrightarrow> sa_sid s = sid))"

lemma core_invD:
  assumes "core_inv c" "hm_find (co_serviceMap c) sid = Some ls"
  shows "ls_sid ls = sid" "ls_inv (co_heap c) ls"
  using assms by (auto simp: core_inv_def)

text \<open>The abstract view of the registry: the instance found under a service and an instance
  identifier.\<close>

definition addr_at :: "local_service hmap \<Rightarrow> uuid \<Rightarrow> uuid \<Rightarrow> nat option" where
  "addr_at m sid iid = Option.bind (hm_find m sid) (\<lambda>ls. hm_find (ls_runningServicesMap ls) iid)"

definition instance_at :: "('x, 'f) core \<Rightarrow> uuid \<Rightarrow> uuid \<Rightarrow> 'x service option" where
  "instance_at c sid iid = map_option ((!) (co_heap c)) (addr_at (co_serviceMap c) sid iid)"

lemma core_inv_cong:
  "co_serviceMap c' = co_serviceMap c \<Longrightarrow> co_serviceFactory c' = co_serviceFactory c \<Longrightarrow>
    same_ids (co_heap c) (co_heap c') \<Longrightarrow> core_inv c \<Longrightarrow> core_inv c'"
  by (auto simp: core_inv_def intro: ls_inv_same_ids)

lemma inv_whenValid: "(core_isValid c \<Longrightarrow> core_inv (snd (f c))) \<Longrightarrow> core_inv c \<Longrightarrow> core_inv (snd (whenValid f c))"
  by (simp add: whenValid_def)

lemma inv_andThen:
  assumes "core_inv (snd r)" "\<And>x d. core_inv d \<Longrightarrow> core_inv (snd (f x d))"
  shows "core_inv (snd (andThen r f))"
  using assms by (cases r; cases "fst r") auto

lemma inv_nextUUID: "core_inv c \<Longrightarrow> core_inv (snd (nextUUID E c))"
  by (rule core_inv_cong) (simp_all add: nextUUID_def)

lemma inv_needFT: "core_inv c \<Longrightarrow> core_inv (snd (needFaultTolerance E c))"
  by (simp add: needFaultTolerance_def)

lemma inv_tellMesh: "core_inv c \<Longrightarrow> core_inv (snd (tellMesh E ev c))"
  by (rule core_inv_cong) (simp_all add: tellMesh_def)

lemma inv_on_object:
  "(\<And>s. sa_sid (snd (f s)) = sa_sid s \<and> sa_iid (snd (f s)) = sa_iid s) \<Longrightarrow> core_inv c \<Longrightarrow>
    core_inv (snd (on_object a f c))"
proof (rule core_inv_cong [of _ c])
  assume f: "\<And>s. sa_sid (snd (f s)) = sa_sid s \<and> sa_iid (snd (f s)) = sa_iid s"
  obtain r s where "f (co_heap c ! a) = (r, s)" by (cases "f (co_heap c ! a)")
  then show "same_ids (co_heap c) (co_heap (snd (on_object a f c)))"
    using f [of "co_heap c ! a"] by (auto simp: on_object_def intro: same_ids_update)
qed (simp_all add: on_object_def split: prod.splits)

lemma inv_bindLocalService: "core_inv c \<Longrightarrow> core_inv (snd (bindLocalService E sid c))"
proof (cases "hm_find (co_serviceMap c) sid")
  case None
  assume inv: "core_inv c"
  let ?m = "snd (hm_bind (ce_pos E) sid (LocalService_ctor sid) (co_serviceMap c))"
  have m: "hm_ok ?m" "hm_find ?m = (hm_find (co_serviceMap c))(sid \<mapsto> LocalService_ctor sid)"
    using hm.bind_new [of "co_serviceMap c" sid "ce_pos E" "LocalService_ctor sid"] inv None
    by (auto simp: core_inv_def)
  have "core_inv (c\<lparr>co_serviceMap := ?m\<rparr>)"
    using inv m by (auto simp: core_inv_def LocalService_ctor_def ls_inv_def hm_ok_def)
  then show ?thesis using inv None by (auto simp: bindLocalService_def Let_def split: prod.splits)
qed (simp add: bindLocalService_def)

lemma inv_replace:
  assumes "core_inv c" "hm_find (co_serviceMap c) sid = Some ls" "ls_sid ls' = sid" "ls_inv h ls'"
    "\<And>sid' ls'. sid' \<noteq> sid \<Longrightarrow> hm_find (co_serviceMap c) sid' = Some ls' \<Longrightarrow> ls_inv h ls'"
  shows "core_inv (c\<lparr>co_heap := h, co_serviceMap := hm_update sid (\<lambda>_. ls') (co_serviceMap c)\<rparr>)"
  using assms by (auto simp: core_inv_def hm_update_find split: if_splits)

lemma hm_ok_unique: "hm_ok m \<Longrightarrow> (k, v) \<in> set m \<Longrightarrow> (k, w) \<in> set m \<Longrightarrow> v = w"
  by (simp add: hm_find_ok_iff)

lemma hm_update_const:
  "hm_ok m \<Longrightarrow> hm_find m k = Some v \<Longrightarrow> hm_update k f m = hm_update k (\<lambda>_. f v) m"
proof -
  assume ok: "hm_ok m" and k: "hm_find m k = Some v"
  have kv: "(k, v) \<in> set m" using hm_find_set [OF k] .
  show ?thesis unfolding hm_update_def
  proof (rule map_cong)
    fix e assume e: "e \<in> set m"
    show "(case e of (k', w) \<Rightarrow> (k', if key_equal k' k then f w else w))
        = (case e of (k', w) \<Rightarrow> (k', if key_equal k' k then f v else w))"
      using hm_ok_unique [OF ok kv, of "snd e"] e by (cases e) auto
  qed simp
qed

lemma inv_addServiceInstance:
  assumes inv: "core_inv c" and a: "a < length (co_heap c)" "sa_sid (co_heap c ! a) = sid"
  shows "core_inv (core_addServiceInstance E sid a c)"
proof (cases "hm_find (co_serviceMap c) sid")
  case None
  have "hm_find (co_serviceMap (core_addServiceInstance E sid a c)) = hm_find (co_serviceMap c)"
    using None by (rule_tac ext) (simp add: core_addServiceInstance_def hm_update_find)
  then show ?thesis using inv
    by (simp add: core_inv_def) (simp add: core_addServiceInstance_def)
next
  case (Some ls)
  let ?ls = "snd (addServiceInstance (ce_pos E) (co_heap c) a ls)"
  have ls: "ls_sid ls = sid" "ls_inv (co_heap c) ls" by (rule core_invD [OF inv Some])+
  have "core_inv (c\<lparr>co_heap := co_heap c, co_serviceMap := hm_update sid (\<lambda>_. ?ls) (co_serviceMap c)\<rparr>)"
    using inv_replace [OF inv Some, of ?ls "co_heap c"] ls a ls_inv_add [OF ls(2)] add_find(3) [OF ls(2)]
      core_invD(2) [OF inv] by blast
  moreover have ok: "hm_ok (co_serviceMap c)" using inv by (simp add: core_inv_def)
  ultimately show ?thesis
    unfolding core_addServiceInstance_def
      hm_update_const [OF ok Some, of "\<lambda>ls. snd (addServiceInstance (ce_pos E) (co_heap c) a ls)"]
    by simp
qed

text \<open>What the rest of the system owes the runtime: hooks that leave the face of a service alone,
  prototypes that make fresh services of their own kind, and a fault tolerance service that leaves
  the face alone as well.\<close>

locale core_surroundings = service_hooks "ce_class E" for E :: "('x, 'f) core_env" +
  assumes duplicate: "ce_duplicate E s = Inr t \<Longrightarrow> sa_sid t = sa_sid s \<and> sa_status t = NOT_INIT"
    and group: "ce_createGroup E role p rgid q a (s, f) = (r, (s', f')) \<Longrightarrow> same_face s s'"
begin

lemma inv_open: "core_inv c \<Longrightarrow> core_inv (snd (on_object a (service_open (ce_class E) p t q) c))"
  by (rule inv_on_object) (simp_all add: open_keeps_id)

lemma inv_createGroup: "core_inv c \<Longrightarrow> core_inv (snd (createGroup E role p rgid q a c))"
proof (rule core_inv_cong [of _ c])
  obtain r s f where g: "ce_createGroup E role p rgid q a (co_heap c ! a, co_ft c) = (r, (s, f))"
    by (metis prod_cases3)
  then show "same_ids (co_heap c) (co_heap (snd (createGroup E role p rgid q a c)))"
    using group [OF g] by (auto simp: createGroup_def same_face_def intro: same_ids_update)
qed (simp_all add: createGroup_def split: prod.splits)

lemma factory_sid:
  "core_inv c \<Longrightarrow> Factory_getInstance (ce_duplicate E) sid (co_serviceFactory c) = Inr i \<Longrightarrow>
    sa_sid i = sid \<and> sa_status i = NOT_INIT"
  by (auto simp: Factory_getInstance_def core_inv_def split: option.splits dest!: duplicate)

lemma inv_createServiceInstance: "core_inv c \<Longrightarrow> core_inv (snd (createServiceInstance E sid iid c))"
  unfolding createServiceInstance_def
proof (rule inv_whenValid, rule inv_andThen)
  fix u and d :: "('x, 'f) core"
  assume inv: "core_inv d"
  show "core_inv (snd (case Factory_getInstance (ce_duplicate E) sid (co_serviceFactory d) of
       Inl e \<Rightarrow> (Inl e, d)
     | Inr i \<Rightarrow> let a = length (co_heap d)
         in (Inr a, core_addServiceInstance E sid a (d\<lparr>co_heap := co_heap d @ [setIID iid i]\<rparr>))))"
  proof (cases "Factory_getInstance (ce_duplicate E) sid (co_serviceFactory d)")
    case (Inr i)
    have "core_inv (d\<lparr>co_heap := co_heap d @ [setIID iid i]\<rparr>)"
      by (rule core_inv_cong [OF _ _ _ inv]) simp_all
    then show ?thesis using Inr factory_sid [OF inv Inr]
      by (simp add: inv_addServiceInstance setIID_def Let_def nth_append)
  qed (simp add: inv)
qed (simp_all add: inv_bindLocalService)

lemma inv_announce: "core_inv c \<Longrightarrow> core_inv (snd (announce E sid iid c))"
  unfolding announce_def
proof (rule inv_andThen)
  assume "core_inv c"
  then show "core_inv (snd (getInstanceOfService_info E sid iid c))"
    by (auto simp: getInstanceOfService_info_def whenValid_def split: option.splits)
qed (rule inv_tellMesh)

lemmas inv_steps = inv_nextUUID inv_needFT inv_tellMesh inv_open inv_createGroup
  inv_createServiceInstance inv_announce

end
section \<open>Every call keeps the registry in order\<close>

text \<open>The calls that reach a runtime: those of its owner, of the mesh and of the fault tolerance
  service, and the calls that holders of a service make on the object itself.\<close>

datatype 'x core_call =
    AttachOverlay overlay
  | OpenRuntime "option_event list"
  | CloseRuntime
  | AddImplementation "'x service"
  | CreateLocal uuid service_params
  | CreateReplica uuid service_params
  | CreateGroup overlay_peer_info "overlay_peer_info list" uuid uuid service_params
  | RemoteCreate service_params
  | ChangeIID uuid uuid uuid
  | StopLocal uuid uuid
  | StopService uuid uuid
  | RemoveService uuid
  | CallObject nat service_call

fun core_step :: "('x, 'f) core_env \<Rightarrow> 'x core_call \<Rightarrow> ('x, 'f) core \<Rightarrow> ('x, 'f) core" where
  "core_step E (AttachOverlay ov) c = snd (attachOverlay ov c)"
| "core_step E (OpenRuntime os) c = snd (core_open E os c)"
| "core_step E CloseRuntime c = snd (core_close E c)"
| "core_step E (AddImplementation s) c =
     c\<lparr>co_serviceFactory := snd (Factory_addService (ce_pos E) s (co_serviceFactory c))\<rparr>"
| "core_step E (CreateLocal sid p) c = snd (createLocalService E sid p c)"
| "core_step E (CreateReplica sid p) c = snd (createLocalServiceReplica E sid p c)"
| "core_step E (CreateGroup prim reps rgid sid p) c = snd (createReplicationGroup E prim reps rgid sid p c)"
| "core_step E (RemoteCreate p) c = snd (handleServiceCreate E p c)"
| "core_step E (ChangeIID sid old new) c = snd (changeIIDOfService E sid old new c)"
| "core_step E (StopLocal sid iid) c = snd (stopLocalService E sid iid c)"
| "core_step E (StopService sid iid) c = snd (stopService E sid iid c)"
| "core_step E (RemoveService sid) c = snd (removeService_sid sid c)"
| "core_step E (CallObject a k) c = snd (on_object a (perform (ce_class E) k) c)"

lemma inv_core_options: "core_inv c \<Longrightarrow> core_inv (snd (core_options E os c))"
proof (induction E os c rule: core_options.induct)
  case (3 E name val os c)
  show ?case by (simp add: "3.IH" "3.prems" core_inv_cong [OF _ _ _ "3.prems"])
qed simp_all

lemma inv_core_open:
  fixes c :: "('x, 'f) core"
  assumes inv: "core_inv c"
  shows "core_inv (snd (core_open E os c))"
proof -
  have upd: "core_inv (d\<lparr>co_runtimeQoSManager := m\<rparr>)" "core_inv (d\<lparr>co_status := st\<rparr>)" if "core_inv d"
    for d :: "('x, 'f) core" and m st
    by (rule core_inv_cong [OF _ _ _ that]; simp)+
  have ov: "core_inv (snd (open_overlay E d))" if "core_inv d" for d :: "('x, 'f) core"
    by (rule core_inv_cong [OF _ _ _ that])
       (auto simp: open_overlay_def Let_def split: option.splits prod.splits sum.splits exn.splits)
  have "core_inv (c\<lparr>co_reservationFlag := False, co_runtimeQoS := 1000\<rparr>)"
    by (rule core_inv_cong [OF _ _ _ inv]) simp_all
  then show ?thesis unfolding core_open_def
    by (intro inv_andThen inv_core_options ov upd) (auto simp: initRuntimeQoS_def upd)
qed

lemma inv_throws_service: "core_inv (snd r) \<Longrightarrow> core_inv (snd (throws_service r))"
  by (auto simp: throws_service_def split: prod.splits sum.splits exn.splits)

lemma inv_changeIID: "core_inv c \<Longrightarrow> core_inv (snd (changeIIDOfService E sid old new c))"
  unfolding changeIIDOfService_def
proof (rule inv_whenValid)
  assume inv: "core_inv c"
  show "core_inv (snd (case hm_find (co_serviceMap c) sid of None \<Rightarrow> (Inl SERVICE_NOT_KNOWN, c)
    | Some ls \<Rightarrow>
        (let (r, (h, ls')) = LocalService_setIID (ce_pos E) old new (co_heap c, ls);
             c' = c\<lparr>co_heap := h, co_serviceMap := hm_update sid (\<lambda>_. ls') (co_serviceMap c)\<rparr>
         in (andThen (r, c') (\<lambda>_ c.
            andThen (getInstancesOfServiceInfo_iid (ce_class E) h new ls', c) (\<lambda>info c.
            tellMesh E (ServiceUpdateIID sid old new) c))))))"
  proof (cases "hm_find (co_serviceMap c) sid")
    case (Some ls)
    note ls = core_invD [OF inv Some]
    obtain r h ls' where run: "LocalService_setIID (ce_pos E) old new (co_heap c, ls) = (r, (h, ls'))"
      by (metis prod_cases3)
    have ls': "ls_inv h ls'" "ls_sid ls' = sid"
      using ls_inv_setIID [OF ls(2), of "ce_pos E" old new] run ls(1) by simp_all
    have "ls_inv h lt" if other: "sid' \<noteq> sid" "hm_find (co_serviceMap c) sid' = Some lt" for sid' lt
    proof -
      note lt = core_invD [OF inv other(2)]
      have "h = co_heap c \<or> (\<exists>a. hm_find (ls_runningServicesMap ls) old = Some a \<and>
          h = (co_heap c)[a := setIID new (co_heap c ! a)])"
        using run by (auto simp: LocalService_setIID_def Let_def split: option.splits prod.splits)
      then show ?thesis
      proof (elim disjE exE conjE)
        fix a assume a: "hm_find (ls_runningServicesMap ls) old = Some a"
          and h: "h = (co_heap c)[a := setIID new (co_heap c ! a)]"
        have "h ! snd e = co_heap c ! snd e" if "e \<in> set (ls_runningServicesMap lt)" for e
        proof -
          have "snd e \<noteq> a"
            using that lt ls_inv_find [OF ls(2) a] ls(1) other(1) by (auto simp: ls_inv_def entry_ok_def)
          then show ?thesis using h by simp
        qed
        then show ?thesis using lt(2) h by (simp add: ls_inv_def entry_ok_def)
      qed (simp add: lt(2))
    qed
    from inv_replace [OF inv Some ls'(2,1) this]
    have c': "core_inv (c\<lparr>co_heap := h, co_serviceMap := hm_update sid (\<lambda>_. ls') (co_serviceMap c)\<rparr>)" .
    show ?thesis
      using Some run by simp (intro inv_andThen inv_tellMesh; simp add: c')
  qed (simp add: inv)
qed

lemma inv_removeService_sid: "core_inv c \<Longrightarrow> core_inv (snd (removeService_sid sid c))"
  unfolding removeService_sid_def
proof (rule inv_whenValid)
  assume inv: "core_inv c"
  have "hm_ok (co_serviceMap c)" using inv by (simp add: core_inv_def)
  from hm.unbind_find [OF this, of sid] inv
  have "core_inv (c\<lparr>co_serviceMap := snd (hm_unbind sid (co_serviceMap c))\<rparr>)"
    by (auto simp: core_inv_def split: if_splits)
  then show "core_inv (snd (case hm_find (co_serviceMap c) sid of
      None \<Rightarrow> (Inl SERVICE_NOT_KNOWN, c)
    | Some ls \<Rightarrow> (let (r, m) = hm_unbind sid (co_serviceMap c)
        in (if r = 0 then Inl SERVICE_NOT_KNOWN else Inr (), c\<lparr>co_serviceMap := m\<rparr>))))"
    using inv by (auto split: option.splits prod.splits)
qed

context core_surroundings
begin

lemma close_services_same: "same_ids h (snd (close_services (ce_class E) lss h))"
proof (induction lss arbitrary: h)
  case (Cons ls lss)
  obtain r h1 where c: "LocalService_close (ce_class E) ls h = (r, h1)"
    by (cases "LocalService_close (ce_class E) ls h")
  then have "same_ids h h1"
    using close_instances_same [of h "map snd (ls_runningServicesMap ls)"] by (simp add: LocalService_close_def)
  then show ?case using c same_ids_trans [OF _ Cons.IH [of h1]] by (cases r) simp_all
qed simp

lemma inv_core_close: "core_inv c \<Longrightarrow> core_inv (snd (core_close E c))"
proof -
  assume inv: "core_inv c"
  obtain r h where c: "close_services (ce_class E) (map snd (co_serviceMap c)) (co_heap c) = (r, h)"
    by (cases "close_services (ce_class E) (map snd (co_serviceMap c)) (co_heap c)")
  have same: "same_ids (co_heap c) h" using close_services_same [of "co_heap c"] c by (metis snd_conv)
  have 1: "core_inv (c\<lparr>co_status := CORE_CLOSED, co_heap := h\<rparr>)"
    by (rule core_inv_cong [OF _ _ _ inv]) (simp_all add: same)
  have 2: "core_inv d" if "co_serviceMap d = []" "co_serviceFactory d = co_serviceFactory c"
    for d :: "('x, 'f) core"
    using inv that by (simp add: core_inv_def hm_ok_def hm_find_map_of)
  show ?thesis
    using c by (auto simp: core_close_def 1 2 Let_def split: option.splits sum.splits prod.splits)
qed

lemma inv_removeService: "core_inv c \<Longrightarrow> core_inv (snd (removeService E sid iid c))"
  unfolding removeService_def
proof (rule inv_whenValid)
  assume inv: "core_inv c"
  show "core_inv (snd (case hm_find (co_serviceMap c) sid of None \<Rightarrow> (Inl SERVICE_NOT_KNOWN, c)
    | Some ls \<Rightarrow> (let (r, (h, ls')) = removeServiceInstance (ce_class E) iid (co_heap c, ls)
        in (r, c\<lparr>co_heap := h, co_serviceMap := hm_update sid (\<lambda>_. ls') (co_serviceMap c)\<rparr>))))"
  proof (cases "hm_find (co_serviceMap c) sid")
    case (Some ls)
    obtain r h ls' where run: "removeServiceInstance (ce_class E) iid (co_heap c, ls) = (r, (h, ls'))"
      by (metis prod_cases3)
    note rr = remove_result [OF core_invD(2) [OF inv Some], of iid, unfolded run, simplified]
    have "core_inv (c\<lparr>co_heap := h, co_serviceMap := hm_update sid (\<lambda>_. ls') (co_serviceMap c)\<rparr>)"
      using inv_replace [OF inv Some _ rr(2)] rr(1,3) core_invD [OF inv] Some ls_inv_same_ids by blast
    then show ?thesis using Some run by simp
  qed (simp add: inv)
qed

lemma inv_stopLocal: "core_inv c \<Longrightarrow> core_inv (snd (stopLocalService E sid iid c))"
  by (simp add: stopLocalService_def inv_whenValid inv_removeService)

lemma inv_openInstance: "core_inv c \<Longrightarrow> core_inv (snd (openInstance E p iid a c))"
proof -
  assume inv: "core_inv c"
  have "core_inv (c\<lparr>co_serviceQosManager := m\<rparr>)" for m
    by (rule core_inv_cong [OF _ _ _ inv]) simp_all
  then show ?thesis
    by (auto simp: openInstance_def inv inv_open intro!: inv_andThen inv_createGroup)
qed

lemma inv_createLocal: "core_inv c \<Longrightarrow> core_inv (snd (createLocalService E sid p c))"
  unfolding createLocalService_def
  by (intro inv_whenValid inv_andThen inv_needFT inv_nextUUID inv_createServiceInstance
      inv_openInstance inv_announce) simp_all

lemma inv_replica_domains: "core_inv c \<Longrightarrow> core_inv (snd (replica_domains E sid c))"
  by (auto simp: replica_domains_def intro!: inv_andThen inv_nextUUID split: option.splits)

lemma inv_createReplica: "core_inv c \<Longrightarrow> core_inv (snd (createLocalServiceReplica E sid p c))"
  unfolding createLocalServiceReplica_def
  by (intro inv_whenValid inv_andThen inv_needFT inv_nextUUID inv_createServiceInstance
      inv_replica_domains inv_open inv_announce) simp_all

lemma inv_createRG: "core_inv c \<Longrightarrow> core_inv (snd (createReplicationGroup E prim reps rgid sid p c))"
  unfolding createReplicationGroup_def
  by (intro inv_throws_service inv_whenValid inv_andThen inv_needFT)
     (auto simp: Let_def intro!: inv_andThen inv_nextUUID inv_createServiceInstance inv_createGroup
       inv_open inv_announce)

lemma inv_remoteCreate: "core_inv c \<Longrightarrow> core_inv (snd (handleServiceCreate E p c))"
  using inv_throws_service [OF inv_createLocal [of c "sp_sid p" p]]
  by (auto simp: handleServiceCreate_def interface_createLocalService_def
      split: prod.splits sum.splits exn.splits)

lemma inv_factory:
  "core_inv c \<Longrightarrow> core_inv (c\<lparr>co_serviceFactory := snd (Factory_addService pos s (co_serviceFactory c))\<rparr>)"
  using hm.bind_new [of "co_serviceFactory c" "sa_sid s" pos s]
  by (auto simp: core_inv_def Factory_addService_def split: prod.splits if_splits)

lemma inv_core_step: "core_inv c \<Longrightarrow> core_inv (core_step E k c)"
proof (cases k)
  case (AttachOverlay ov)
  moreover assume "core_inv c"
  moreover from this have "core_inv (c\<lparr>co_overlay := Some ov\<rparr>)"
    by (rule core_inv_cong [rotated 3]) simp_all
  ultimately show ?thesis by (simp add: attachOverlay_def)
next
  case (StopService sid iid)
  moreover assume "core_inv c"
  ultimately show ?thesis
    by (auto simp: stopService_def intro!: inv_whenValid inv_andThen inv_stopLocal)
next
  case (CallObject a q)
  moreover assume "core_inv c"
  ultimately show ?thesis by (simp add: inv_on_object call_keeps_id)
qed (simp_all add: inv_core_open inv_core_close inv_factory inv_createLocal inv_createReplica
    inv_createRG inv_remoteCreate inv_changeIID inv_stopLocal inv_removeService_sid)

lemma inv_core_run: "core_inv c \<Longrightarrow> core_inv (fold (core_step E) ks c)"
  by (induction ks arbitrary: c) (simp_all add: inv_core_step)

end

lemma core_inv_ctor: "core_inv (SthenoCore_ctor rid ft)"
  by (simp add: core_inv_def SthenoCore_ctor_def hm_ok_def hm_find_map_of)
section \<open>Creating and stopping a service\<close>

lemma addr_at_entry:
  assumes "core_inv c" "addr_at (co_serviceMap c) sid iid = Some a"
  shows "a < length (co_heap c) \<and> sa_sid (co_heap c ! a) = sid \<and> sa_iid (co_heap c ! a) = iid"
proof -
  obtain ls where "hm_find (co_serviceMap c) sid = Some ls" "hm_find (ls_runningServicesMap ls) iid = Some a"
    using assms(2) by (auto simp: addr_at_def bind_eq_Some_conv)
  then show ?thesis using core_invD [OF assms(1), of sid ls] ls_inv_find [of "co_heap c" ls iid a] by simp
qed

lemma hm_find_Nil [simp]: "hm_find [] k = None"
  by (simp add: hm_find_map_of)

lemma bindLocalService_new:
  assumes inv: "core_inv c"
  shows "\<exists>m ls. bindLocalService E sid c = (Inr (), c\<lparr>co_serviceMap := m\<rparr>) \<and> hm_find m sid = Some ls
    \<and> addr_at m = addr_at (co_serviceMap c)"
proof (cases "hm_find (co_serviceMap c) sid")
  case None
  let ?m = "snd (hm_bind (ce_pos E) sid (LocalService_ctor sid) (co_serviceMap c))"
  have m: "fst (hm_bind (ce_pos E) sid (LocalService_ctor sid) (co_serviceMap c)) = 0"
    "hm_find ?m = (hm_find (co_serviceMap c))(sid \<mapsto> LocalService_ctor sid)"
    using hm.bind_new [of "co_serviceMap c" sid "ce_pos E" "LocalService_ctor sid"] inv None
    by (auto simp: core_inv_def)
  have "addr_at ?m s u = addr_at (co_serviceMap c) s u" for s u
    using None m(2) by (simp add: addr_at_def LocalService_ctor_def)
  then have "addr_at ?m = addr_at (co_serviceMap c)" by blast
  then show ?thesis using None m by (auto simp: bindLocalService_def Let_def split: prod.splits)
next
  case (Some ls)
  then show ?thesis by (intro exI [of _ "co_serviceMap c"] exI [of _ ls]) (simp add: bindLocalService_def)
qed

text \<open>What the steps after the registration leave alone.\<close>

definition touched :: "nat \<Rightarrow> ('x, 'f) core \<Rightarrow> ('x, 'f) core \<Rightarrow> bool" where
  "touched a c c' = (co_serviceMap c' = co_serviceMap c \<and> co_status c' = co_status c
     \<and> co_overlay c' = co_overlay c \<and> co_mesh c' = co_mesh c
     \<and> (\<exists>s. co_heap c' = (co_heap c)[a := s]))"

lemma touched_trans: "touched a c d \<Longrightarrow> touched a d e \<Longrightarrow> touched a c e"
  by (auto simp: touched_def)

lemma touched_on_object: "touched a c (snd (on_object a f c))"
  by (auto simp: touched_def on_object_def split: prod.splits)

lemma touched_createGroup: "touched a c (snd (createGroup E role p rgid q a c))"
  by (auto simp: touched_def createGroup_def split: prod.splits)

context core_surroundings
begin

text \<open>A new instance occupies the next address and is found under its two identifiers; nothing else of
  the registry changes.\<close>

lemma createServiceInstance_new:
  assumes inv: "core_inv c" and valid: "core_isValid c"
    and i: "Factory_getInstance (ce_duplicate E) sid (co_serviceFactory c) = Inr i"
    and fresh: "addr_at (co_serviceMap c) sid iid = None"
  shows "\<exists>m. createServiceInstance E sid iid c =
      (Inr (length (co_heap c)), c\<lparr>co_heap := co_heap c @ [setIID iid i], co_serviceMap := m\<rparr>)
    \<and> addr_at m = (\<lambda>s u. if s = sid \<and> u = iid then Some (length (co_heap c)) else addr_at (co_serviceMap c) s u)"
proof -
  obtain m1 ls where b: "bindLocalService E sid c = (Inr (), c\<lparr>co_serviceMap := m1\<rparr>)"
    "hm_find m1 sid = Some ls" "addr_at m1 = addr_at (co_serviceMap c)"
    using bindLocalService_new [OF inv] by blast
  let ?a = "length (co_heap c)" and ?h = "co_heap c @ [setIID iid i]"
  let ?ls = "snd (addServiceInstance (ce_pos E) ?h ?a ls)"
  let ?m = "hm_update sid (\<lambda>ls. snd (addServiceInstance (ce_pos E) ?h ?a ls)) m1"
  have "core_inv (c\<lparr>co_serviceMap := m1\<rparr>)" using inv_bindLocalService [OF inv, of E sid] b(1) by simp
  from core_invD(2) [OF this, of sid] b(2) have "ls_inv (co_heap c) ls" by simp
  then have ls: "ls_inv ?h ls" by (rule ls_inv_same_ids) simp
  have "hm_find (ls_runningServicesMap ls) iid = None"
    using fresh b(2) by (simp add: b(3) [symmetric] addr_at_def)
  then have find: "hm_find (ls_runningServicesMap ?ls) = (hm_find (ls_runningServicesMap ls))(iid \<mapsto> ?a)"
    using add_find(2) [OF ls, of "ce_pos E" ?a] by (simp add: setIID_def)
  have "addr_at ?m s u = (if s = sid \<and> u = iid then Some ?a else addr_at m1 s u)" for s u
    using b(2) find by (simp add: addr_at_def hm_update_find)
  then have "addr_at ?m = (\<lambda>s u. if s = sid \<and> u = iid then Some ?a else addr_at (co_serviceMap c) s u)"
    by (simp add: b(3) fun_eq_iff)
  moreover have "createServiceInstance E sid iid c = (Inr ?a, c\<lparr>co_heap := ?h, co_serviceMap := ?m\<rparr>)"
    using valid b(1) i by (simp add: createServiceInstance_def whenValid_def core_addServiceInstance_def Let_def)
  ultimately show ?thesis by blast
qed

lemma on_open:
  assumes "a < length (co_heap c)" "sa_status (co_heap c ! a) = NOT_INIT"
    "on_object a (service_open (ce_class E) p t q) c = (r, c')"
  shows "sa_status (co_heap c' ! a) = (if isl r then STARTING else RUNNING)"
  using open_result [OF assms(2), of p t q] assms(1,3) by (auto simp: on_object_def split: prod.splits)

lemma openInstance_result:
  assumes a: "a < length (co_heap c)" "sa_status (co_heap c ! a) = NOT_INIT"
    and run: "openInstance E p iid a c = (r, c')"
  shows "touched a c c'" "isl r \<Longrightarrow> sa_status (co_heap c' ! a) \<in> {NOT_INIT, STARTING}"
    "\<not> isl r \<Longrightarrow> sa_status (co_heap c' ! a) = RUNNING"
proof -
  have *: "touched a c c' \<and> (if isl r then sa_status (co_heap c' ! a) \<in> {NOT_INIT, STARTING}
      else sa_status (co_heap c' ! a) = RUNNING)"
  proof (cases "sp_ftParams p")
    case None
    then obtain q where q: "on_object a (service_open (ce_class E) p FT_NOT_SETTED q) c = (r, c')"
      using run by (auto simp: openInstance_def)
    then have "touched a c c'"
      using touched_on_object [of a c "service_open (ce_class E) p FT_NOT_SETTED q"] by simp
    then show ?thesis using on_open [OF a q] by simp
  next
    case (Some ft)
    define d where "d = (if co_reservationFlag c then c\<lparr>co_serviceQosManager := co_runtimeQoSManager c\<rparr> else c)"
    have d: "touched a c d" "co_heap d = co_heap c"
      by (auto simp: d_def touched_def intro: exI [of _ "co_heap c ! a"])
    obtain x s f where g: "ce_createGroup E AsPrimary p iid None a (co_heap d ! a, co_ft d) = (x, (s, f))"
      by (metis prod_cases3)
    have s: "sa_status s = NOT_INIT" using group [OF g] a d(2) by (simp add: same_face_def)
    let ?e = "d\<lparr>co_heap := (co_heap d)[a := s], co_ft := f\<rparr>"
    have grp: "createGroup E AsPrimary p iid None a d = (x, ?e)" using g by (simp add: createGroup_def)
    have e: "touched a c ?e" using touched_trans [OF d(1)] touched_createGroup [of a d E AsPrimary p iid None]
      by (simp add: grp)
    show ?thesis
    proof (cases x)
      case (Inl y)
      then have "r = Inl y" "c' = ?e" using run Some grp by (simp_all add: openInstance_def d_def [symmetric])
      then show ?thesis using e a d(2) s by simp
    next
      case (Inr y)
      then have o: "on_object a (service_open (ce_class E) p FT_PRIMARY None) ?e = (r, c')"
        using run Some grp by (simp add: openInstance_def d_def [symmetric])
      have "sa_status (co_heap c' ! a) = (if isl r then STARTING else RUNNING)"
        by (rule on_open [OF _ _ o]) (use a d(2) s in simp_all)
      moreover have "touched a c c'"
        using touched_trans [OF e] touched_on_object [of a ?e "service_open (ce_class E) p FT_PRIMARY None"] o by simp
      ultimately show ?thesis by simp
    qed
  qed
  then show "touched a c c'" "isl r \<Longrightarrow> sa_status (co_heap c' ! a) \<in> {NOT_INIT, STARTING}"
    "\<not> isl r \<Longrightarrow> sa_status (co_heap c' ! a) = RUNNING" by simp_all
qed

lemma announce_result:
  assumes "core_isValid c" "addr_at (co_serviceMap c) sid iid = Some a" "announce E sid iid c = (r, c')"
  shows "c' = c\<lparr>co_mesh := co_mesh c'\<rparr>" "isl r \<Longrightarrow> co_mesh c' = co_mesh c"
    "\<not> isl r \<Longrightarrow> \<exists>info. instance_info (ce_class E) (co_heap c ! a) = Inr info
      \<and> co_mesh c' = co_mesh c @ [ServiceCreation (Some info)]"
proof -
  obtain ls where ls: "hm_find (co_serviceMap c) sid = Some ls" "hm_find (ls_runningServicesMap ls) iid = Some a"
    using assms(2) by (auto simp: addr_at_def bind_eq_Some_conv)
  have "getInstanceOfService_info E sid iid c = (res_bind (instance_info (ce_class E) (co_heap c ! a)) (\<lambda>i. Inr (Some i)), c)"
    using assms(1) ls by (simp add: getInstanceOfService_info_def whenValid_def getInstancesOfServiceInfo_iid_def)
  then have *: "announce E sid iid c = andThen (res_bind (instance_info (ce_class E) (co_heap c ! a)) (\<lambda>i. Inr (Some i)), c)
      (\<lambda>info c. tellMesh E (ServiceCreation info) c)"
    by (simp add: announce_def)
  show "c' = c\<lparr>co_mesh := co_mesh c'\<rparr>" "isl r \<Longrightarrow> co_mesh c' = co_mesh c"
    "\<not> isl r \<Longrightarrow> \<exists>info. instance_info (ce_class E) (co_heap c ! a) = Inr info
      \<and> co_mesh c' = co_mesh c @ [ServiceCreation (Some info)]"
    using assms(3) * by (cases "instance_info (ce_class E) (co_heap c ! a)"; auto simp: tellMesh_def split: if_splits)+
qed

end
context core_surroundings
begin

lemma create_local_result:
  assumes inv: "core_inv c" and valid: "core_isValid c" and ov: "co_overlay c \<noteq> None" "ce_hasFT E"
    and i: "Factory_getInstance (ce_duplicate E) sid (co_serviceFactory c) = Inr i"
    and iid: "iid = ce_uuid E (co_uuids c)" and fresh: "instance_at c sid iid = None"
    and run: "createLocalService E sid p c = (r, c')"
  shows "\<exists>s. instance_at c' = (\<lambda>sid' iid'. if sid' = sid \<and> iid' = iid then Some s else instance_at c sid' iid')
    \<and> sa_sid s = sid \<and> sa_iid s = iid \<and> co_status c' = co_status c
    \<and> (case r of Inl e \<Rightarrow> co_mesh c' = co_mesh c
       | Inr u \<Rightarrow> u = iid \<and> sa_status s = RUNNING \<and> (\<exists>info. instance_info (ce_class E) s = Inr info
           \<and> co_mesh c' = co_mesh c @ [ServiceCreation (Some info)]))"
proof -
  let ?a = "length (co_heap c)"
  define c0 where "c0 = c\<lparr>co_uuids := Suc (co_uuids c)\<rparr>"
  have c0: "core_inv c0" "core_isValid c0" "co_heap c0 = co_heap c" "co_serviceMap c0 = co_serviceMap c"
    "co_serviceFactory c0 = co_serviceFactory c" "co_mesh c0 = co_mesh c" "co_status c0 = co_status c"
    using core_inv_cong [OF _ _ _ inv, of c0] valid by (simp_all add: c0_def core_isValid_def)
  have free: "addr_at (co_serviceMap c0) sid iid = None" using fresh c0(4) by (simp add: instance_at_def)
  obtain m where csi: "createServiceInstance E sid iid c0 =
      (Inr ?a, c0\<lparr>co_heap := co_heap c @ [setIID iid i], co_serviceMap := m\<rparr>)"
    and m: "addr_at m = (\<lambda>s u. if s = sid \<and> u = iid then Some ?a else addr_at (co_serviceMap c) s u)"
    using createServiceInstance_new [OF c0(1,2) i [folded c0(5)] free] unfolding c0(3,4) by blast
  define c1 where "c1 = c0\<lparr>co_heap := co_heap c @ [setIID iid i], co_serviceMap := m, co_uuids := Suc (co_uuids c0)\<rparr>"
  obtain r1 c2 where o: "openInstance E p iid ?a c1 = (r1, c2)" by (cases "openInstance E p iid ?a c1")
  have steps: "(r, c') = andThen (r1, c2) (\<lambda>_ c. andThen (announce E sid iid c) (\<lambda>_ c. (Inr iid, c)))"
  proof -
    have "needFaultTolerance E c = (Inr (), c)" using ov by (simp add: needFaultTolerance_def)
    moreover have "nextUUID E c = (Inr iid, c0)" by (simp add: nextUUID_def iid c0_def)
    moreover have "nextUUID E (c0\<lparr>co_heap := co_heap c @ [setIID iid i], co_serviceMap := m\<rparr>)
        = (Inr (ce_uuid E (co_uuids c0)), c1)"
      by (simp add: nextUUID_def c1_def)
    ultimately show ?thesis using run valid csi o by (simp add: createLocalService_def whenValid_def)
  qed
  have a: "?a < length (co_heap c1)" "sa_status (co_heap c1 ! ?a) = NOT_INIT"
    using factory_sid [OF inv i] by (simp_all add: c1_def setIID_def)
  note oi = openInstance_result [OF a o]
  obtain s where s: "co_heap c2 = (co_heap c1)[?a := s]" using oi(1) by (auto simp: touched_def)
  have c2: "co_serviceMap c2 = m" "co_status c2 = co_status c" "co_mesh c2 = co_mesh c"
    using oi(1) c0 by (simp_all add: touched_def c1_def)
  have found: "addr_at (co_serviceMap c2) sid iid = Some ?a" by (simp add: c2(1) m)
  have s2: "co_heap c2 ! ?a = s" using s a(1) by simp
  have end_state: "co_heap c' = co_heap c2" "co_serviceMap c' = m" "co_status c' = co_status c"
    and end_result: "case r of Inl e \<Rightarrow> co_mesh c' = co_mesh c
       | Inr u \<Rightarrow> u = iid \<and> sa_status s = RUNNING \<and> (\<exists>info. instance_info (ce_class E) s = Inr info
           \<and> co_mesh c' = co_mesh c @ [ServiceCreation (Some info)])"
  proof -
    have *: "co_heap c' = co_heap c2 \<and> co_serviceMap c' = m \<and> co_status c' = co_status c
      \<and> (case r of Inl e \<Rightarrow> co_mesh c' = co_mesh c
       | Inr u \<Rightarrow> u = iid \<and> sa_status s = RUNNING \<and> (\<exists>info. instance_info (ce_class E) s = Inr info
           \<and> co_mesh c' = co_mesh c @ [ServiceCreation (Some info)]))"
    proof (cases r1)
      case (Inl e)
      then show ?thesis using steps c2 by simp
    next
      case (Inr x)
      obtain r2 c3 where an: "announce E sid iid c2 = (r2, c3)" by (cases "announce E sid iid c2")
      have "core_isValid c2" using valid c2(2) by (simp add: core_isValid_def)
      note ar = announce_result [OF this found an]
      have c3: "co_heap c3 = co_heap c2" "co_serviceMap c3 = m" "co_status c3 = co_status c"
        using c2 by (subst ar(1); simp)+
      have st: "sa_status s = RUNNING" using oi(3) Inr s2 by simp
      show ?thesis
      proof (cases r2)
        case (Inl e)
        then have "r = Inl e" "c' = c3" using steps Inr an by simp_all
        then show ?thesis using c3 c2 ar(2) Inl by simp
      next
        case (Inr y)
        then have "r = Inr iid" "c' = c3" using steps \<open>r1 = Inr x\<close> an by simp_all
        then show ?thesis using c3 c2 ar(3) Inr st s2 by simp
      qed
    qed
    then show "co_heap c' = co_heap c2" "co_serviceMap c' = m" "co_status c' = co_status c"
      "case r of Inl e \<Rightarrow> co_mesh c' = co_mesh c
       | Inr u \<Rightarrow> u = iid \<and> sa_status s = RUNNING \<and> (\<exists>info. instance_info (ce_class E) s = Inr info
           \<and> co_mesh c' = co_mesh c @ [ServiceCreation (Some info)])" by blast+
  qed
  have "core_inv c'" using inv_createLocal [OF inv, of sid p] run by simp
  from addr_at_entry [OF this, of sid iid ?a] have id: "sa_sid s = sid" "sa_iid s = iid"
    using m end_state s2 by simp_all
  have at: "instance_at c' sid' iid' = (if sid' = sid \<and> iid' = iid then Some s else instance_at c sid' iid')"
    for sid' iid'
  proof (cases "sid' = sid \<and> iid' = iid")
    case True
    then show ?thesis using m end_state s2 by (simp add: instance_at_def)
  next
    case False
    have "co_heap c' ! b = co_heap c ! b" if "addr_at (co_serviceMap c) sid' iid' = Some b" for b
    proof -
      have "b < ?a" using addr_at_entry [OF inv that] by simp
      then show ?thesis using end_state(1) s by (simp add: c1_def nth_append)
    qed
    then show ?thesis using False m end_state(2)
      by (cases "addr_at (co_serviceMap c) sid' iid'") (auto simp: instance_at_def)
  qed
  show ?thesis by (intro exI [of _ s] conjI ext at id end_state(3) end_result)
qed

lemma stop_local_result:
  assumes inv: "core_inv c" and valid: "core_isValid c" and s: "instance_at c sid iid = Some s"
    and run: "stopLocalService E sid iid c = (r, c')"
  shows "instance_at c' = (\<lambda>sid' iid'. if sid' = sid \<and> iid' = iid then None else instance_at c sid' iid')"
    "r = fst (service_close (ce_class E) s)" "co_mesh c' = co_mesh c"
    "\<exists>a. addr_at (co_serviceMap c) sid iid = Some a \<and> co_heap c' ! a = snd (service_close (ce_class E) s)"
proof -
  obtain a where a: "addr_at (co_serviceMap c) sid iid = Some a" "co_heap c ! a = s"
    using s by (auto simp: instance_at_def)
  note entry = addr_at_entry [OF inv a(1)]
  obtain ls where ls: "hm_find (co_serviceMap c) sid = Some ls" "hm_find (ls_runningServicesMap ls) iid = Some a"
    using a(1) by (auto simp: addr_at_def bind_eq_Some_conv)
  obtain x t where cl: "service_close (ce_class E) s = (x, t)" by (cases "service_close (ce_class E) s")
  define ls' where "ls' = ls\<lparr>ls_runningServicesMap := snd (hm_unbind iid (ls_runningServicesMap ls))\<rparr>"
  have c': "c' = c\<lparr>co_heap := (co_heap c)[a := t], co_serviceMap := hm_update sid (\<lambda>_. ls') (co_serviceMap c)\<rparr>"
    "r = x"
    using run valid ls a(2) cl
    by (simp_all add: stopLocalService_def removeService_def whenValid_def removeServiceInstance_def ls'_def)
  have "hm_ok (ls_runningServicesMap ls)" using core_invD(2) [OF inv ls(1)] by (simp add: ls_inv_def)
  then have f: "hm_find (ls_runningServicesMap ls') = (hm_find (ls_runningServicesMap ls))(iid := None)"
    by (simp add: ls'_def hm.unbind_find)
  have addr: "addr_at (co_serviceMap c') sid' iid' =
      (if sid' = sid \<and> iid' = iid then None else addr_at (co_serviceMap c) sid' iid')" for sid' iid'
    using ls f by (simp add: c' addr_at_def hm_update_find)
  have other: "co_heap c' ! b = co_heap c ! b"
    if "addr_at (co_serviceMap c) sid' iid' = Some b" "\<not> (sid' = sid \<and> iid' = iid)" for sid' iid' b
  proof -
    have "b \<noteq> a" using addr_at_entry [OF inv that(1)] entry that(2) by auto
    then show ?thesis by (simp add: c')
  qed
  show "instance_at c' = (\<lambda>sid' iid'. if sid' = sid \<and> iid' = iid then None else instance_at c sid' iid')"
  proof (intro ext)
    fix sid' iid'
    show "instance_at c' sid' iid' = (if sid' = sid \<and> iid' = iid then None else instance_at c sid' iid')"
      using addr [of sid' iid'] other [of sid' iid']
      by (cases "addr_at (co_serviceMap c) sid' iid'") (simp_all add: instance_at_def)
  qed
  show "r = fst (service_close (ce_class E) s)" "co_mesh c' = co_mesh c"
    "\<exists>a. addr_at (co_serviceMap c) sid iid = Some a \<and> co_heap c' ! a = snd (service_close (ce_class E) s)"
    using c' cl a(1) entry by simp_all
qed

end
section \<open>Properties\<close>

text \<open>A runtime whose services are RPC services: \<open>duplicate\<close> makes a fresh one of the same kind, and the
  fault tolerance service gives a primary its group.\<close>

definition RPCService_duplicate :: "uuid \<Rightarrow> sap option service \<Rightarrow> exn + sap option service" where
  "RPCService_duplicate iid s = Inr (RPCService_ctor (sa_sid s) iid)"

definition rpc_env :: "string option \<Rightarrow> (sap option, uuid list) core_env" where
  "rpc_env itf = \<lparr>ce_class = RPCService_class itf sample_sap_world 0, ce_duplicate = RPCService_duplicate [0],
     ce_getName = (\<lambda>s. ''RPCService''), ce_pos = (\<lambda>ks k. 0), ce_uuid = (\<lambda>n. [of_nat n]),
     ce_hasMesh = True, ce_hasFT = True, ce_overlay_open = Inr (), ce_overlay_close = Inr (),
     ce_createGroup = (\<lambda>role p rgid q a (s, f). (Inr (), (s\<lparr>sa_rg := Some rgid\<rparr>, rgid # f))),
     ce_qosOpen = True, ce_runtimeManager = 1, ce_subDomain = (\<lambda>m path. Inr (Suc m)),
     ce_parseInt = (\<lambda>s. 0)\<rparr>"

interpretation rpc_core: core_surroundings "rpc_env itf" for itf
proof -
  have C: "ce_class (rpc_env itf) = RPCService_class itf sample_sap_world 0" by (simp add: rpc_env_def)
  show "core_surroundings (rpc_env itf)"
    by unfold_locales
       (auto simp: C rpc.tame_hook rpc_env_def RPCService_duplicate_def RPCService_ctor_def
         ServiceAbstract_ctor_def same_face_def)
qed

definition sample_core :: "(sap option, uuid list) core" where
  "sample_core = (SthenoCore_ctor [9] [])\<lparr>co_status := CORE_RUNNING,
     co_overlay := Some \<lparr>ov_status = OV_RUNNING, ov_qosManager = None\<rparr>,
     co_serviceFactory := [([1], RPCService_ctor [1] [0])]\<rparr>"

lemma sample_core_inv: "core_inv sample_core"
  by (simp add: core_inv_def sample_core_def SthenoCore_ctor_def hm_ok_def hm_find_map_of
      RPCService_ctor_def ServiceAbstract_ctor_def)

lemma sample_core_simps [simp]:
  "core_isValid sample_core" "co_overlay sample_core \<noteq> None" "ce_hasFT (rpc_env itf)"
  "Factory_getInstance (ce_duplicate (rpc_env itf)) [1] (co_serviceFactory sample_core)
    = Inr (RPCService_ctor [1] [0])"
  "instance_at sample_core sid iid = None" "ce_uuid (rpc_env itf) (co_uuids sample_core) = [0]"
  by (simp_all add: sample_core_def SthenoCore_ctor_def core_isValid_def rpc_env_def Factory_getInstance_def
      hm_find_map_of RPCService_duplicate_def RPCService_ctor_def ServiceAbstract_ctor_def
      instance_at_def addr_at_def)

text \<open>C20: Whatever calls reach a runtime from its construction on, in whatever order and whether or not
  they throw - of its owner, of the mesh (remote creation), of the fault tolerance service, and the
  calls holders make on the services themselves - an instance that the registry finds under a
  service and an instance identifier carries these two identifiers.\<close>

theorem registry_finds_by_identity:
  assumes "core_surroundings E"
  shows "case instance_at (fold (core_step E) ks (SthenoCore_ctor rid ft)) sid iid of
      Some s \<Rightarrow> sa_sid s = sid \<and> sa_iid s = iid
    | None \<Rightarrow> True"
proof -
  let ?c = "fold (core_step E) ks (SthenoCore_ctor rid ft)"
  have "core_inv ?c" by (rule core_surroundings.inv_core_run [OF assms core_inv_ctor])
  from addr_at_entry [OF this, of sid iid] show ?thesis
    by (cases "addr_at (co_serviceMap ?c) sid iid") (simp_all add: instance_at_def)
qed

theorem registry_finds_by_identity_witness:
  "case instance_at (fold (core_step (rpc_env (Some ''eth0'')))
      [AttachOverlay \<lparr>ov_status = OV_NOT_INIT, ov_qosManager = None\<rparr>, AddImplementation (RPCService_ctor [1] [0]),
       OpenRuntime [], CreateLocal [1] sample_params, ChangeIID [1] [0] [7]] (SthenoCore_ctor [9] [])) [1] [7] of
      Some s \<Rightarrow> sa_sid s = [1] \<and> sa_iid s = [7]
    | None \<Rightarrow> True"
  by (rule registry_finds_by_identity [OF rpc_core.core_surroundings_axioms])

text \<open>C15: Creating a local service. On a running runtime that knows the service, with an overlay that
  has a fault tolerance service, and for a new identifier: when \<^verbatim>\<open>createLocalService\<close> returns, the
  identifier it returns finds an instance of that service which is running, its description has
  been passed to the mesh, once, and every other instance is as before.\<close>

theorem local_creation_registers:
  assumes "core_surroundings E" "core_inv c" "core_isValid c" "co_overlay c \<noteq> None" "ce_hasFT E"
    "Factory_getInstance (ce_duplicate E) sid (co_serviceFactory c) = Inr i"
    "instance_at c sid (ce_uuid E (co_uuids c)) = None"
    "createLocalService E sid p c = (Inr iid, c')"
  shows "\<exists>s info. instance_at c' = (instance_at c)(sid := (instance_at c sid)(iid := Some s))
    \<and> service_isValid s \<and> co_mesh c' = co_mesh c @ [ServiceCreation (Some info)]
    \<and> sii_sid info = sid \<and> sii_iid info = iid \<and> getSAP (ce_class E) s = Inr (sii_sapInfo info)"
proof -
  obtain s info where r: "instance_at c' = (\<lambda>sid' iid'. if sid' = sid \<and> iid' = iid then Some s
      else instance_at c sid' iid')" "sa_sid s = sid" "sa_iid s = iid" "sa_status s = RUNNING"
    "instance_info (ce_class E) s = Inr info" "co_mesh c' = co_mesh c @ [ServiceCreation (Some info)]"
    using core_surroundings.create_local_result [OF assms(1-6) refl assms(7,8)] by auto
  moreover have "sii_sid info = sid \<and> sii_iid info = iid \<and> getSAP (ce_class E) s = Inr (sii_sapInfo info)"
    using r(2,3,5) by (auto simp: instance_info_def res_bind_Inr_iff)
  ultimately show ?thesis by (intro exI [of _ s] exI [of _ info]) (auto simp: service_isValid_def fun_eq_iff)
qed

text \<open>C28: A failed creation stays registered. Under the same conditions, when \<^verbatim>\<open>createLocalService\<close>
  throws - the group cannot be created, the service does not open, the mesh is missing - the
  instance is in the registry all the same: \<^verbatim>\<open>isServiceRunning\<close> answers true for it, though the mesh
  was told nothing.\<close>

theorem failed_creation_stays_registered:
  assumes "core_surroundings E" "core_inv c" "core_isValid c" "co_overlay c \<noteq> None" "ce_hasFT E"
    "Factory_getInstance (ce_duplicate E) sid (co_serviceFactory c) = Inr i"
    "instance_at c sid (ce_uuid E (co_uuids c)) = None"
    "createLocalService E sid p c = (Inl e, c')"
  shows "isServiceRunning sid (ce_uuid E (co_uuids c)) c' = (Inr True, c') \<and> co_mesh c' = co_mesh c"
proof -
  let ?u = "ce_uuid E (co_uuids c)"
  obtain s where r: "instance_at c' = (\<lambda>sid' iid'. if sid' = sid \<and> iid' = ?u then Some s
      else instance_at c sid' iid')" "co_mesh c' = co_mesh c" "co_status c' = co_status c"
    using core_surroundings.create_local_result [OF assms(1-6) refl assms(7,8)] by auto
  then have "instance_at c' sid ?u = Some s" by simp
  then obtain ls a where "hm_find (co_serviceMap c') sid = Some ls"
    "hm_find (ls_runningServicesMap ls) ?u = Some a"
    by (auto simp: instance_at_def addr_at_def bind_eq_Some_conv)
  then show ?thesis using r assms(3)
    by (simp add: isServiceRunning_def whenValid_def core_isValid_def existsRunningService_def)
qed
lemma rpc_env_simps [simp]:
  "ce_class (rpc_env itf) = RPCService_class itf sample_sap_world 0" "ce_pos (rpc_env itf) ks k = 0"
  "ce_uuid (rpc_env itf) n = [of_nat n]" "ce_hasMesh (rpc_env itf)"
  "ce_duplicate (rpc_env itf) = RPCService_duplicate [0]"
  by (simp_all add: rpc_env_def)

lemma sample_core_fields [simp]:
  "co_status sample_core = CORE_RUNNING" "co_heap sample_core = []" "co_serviceMap sample_core = []"
  "co_uuids sample_core = 0" "co_mesh sample_core = []" "\<not> co_reservationFlag sample_core"
  by (simp_all add: sample_core_def SthenoCore_ctor_def)

lemma run_local_creation:
  "createLocalService (rpc_env itf) [1] sample_params sample_core =
    (let s = setIID [0] (RPCService_ctor [1] [0]);
         c = sample_core\<lparr>co_heap := [s], co_serviceMap := [([1], \<lparr>ls_sid = [1], ls_runningServicesMap = [([0], 0)]\<rparr>)],
           co_uuids := 2\<rparr>
     in andThen (on_object 0 (service_open (RPCService_class itf sample_sap_world 0) sample_params FT_NOT_SETTED None) c)
          (\<lambda>_ c. andThen (announce (rpc_env itf) [1] [0] c) (\<lambda>_ c. (Inr [0], c))))"
proof -
  have "hm_find (co_serviceFactory sample_core) [1] = Some (RPCService_ctor [1] [0])"
    by (simp add: sample_core_def SthenoCore_ctor_def hm_find_map_of)
  then have "createServiceInstance (rpc_env itf) [1] [0] (sample_core\<lparr>co_uuids := 1\<rparr>) =
    (Inr 0, sample_core\<lparr>co_uuids := 1, co_heap := [setIID [0] (RPCService_ctor [1] [0])],
      co_serviceMap := [([1], \<lparr>ls_sid = [1], ls_runningServicesMap = [([0], 0)]\<rparr>)]\<rparr>)"
    by (simp add: createServiceInstance_def whenValid_def core_isValid_def bindLocalService_def hm_find_map_of
        hm_bind_def core_addServiceInstance_def addServiceInstance_def hm_update_def LocalService_ctor_def
        Factory_getInstance_def Let_def RPCService_duplicate_def RPCService_ctor_def ServiceAbstract_ctor_def
        setIID_def)
  moreover have "needFaultTolerance (rpc_env itf) sample_core = (Inr (), sample_core)"
    by (simp add: needFaultTolerance_def)
  moreover have "nextUUID (rpc_env itf) sample_core = (Inr [0], sample_core\<lparr>co_uuids := 1\<rparr>)"
    by (simp add: nextUUID_def)
  ultimately show ?thesis
    by (simp add: createLocalService_def whenValid_def Let_def nextUUID_def openInstance_def
        sample_params_def core_isValid_def eval_nat_numeral)
qed

lemma run_local_creation_fails:
  "fst (createLocalService (rpc_env None) [1] sample_params sample_core) = Inl INVALID_ARGUMENT"
  by (simp add: run_local_creation Let_def on_object_def service_open_def changeState_def handle_defs
      RPCService_class_def RPCService_open_i_def setIID_def RPCService_ctor_def ServiceAbstract_ctor_def)

lemma run_local_creation_ok:
  "fst (createLocalService (rpc_env (Some ''eth0'')) [1] sample_params sample_core) = Inr [0]"
proof -
  let ?C = "RPCService_class (Some ''eth0'') sample_sap_world 0" and ?s = "setIID [0] (RPCService_ctor [1] [0])"
  obtain p where p: "SAP_open sample_sap_world ''eth0'' RPC_qosList 0 SAP_ctor = (Inr 4, p)"
    using sample_sap by (simp add: Let_def)
  define t where "t = ?s\<lparr>sa_status := RUNNING, sa_qosManager := Some None, sa_ftType := Some FT_NOT_SETTED,
      sa_impl := Some p\<rparr>"
  have "service_open ?C sample_params FT_NOT_SETTED None ?s = (Inr (), t)"
    by (simp add: service_open_def changeState_def handle_defs RPCService_class_def RPCService_open_i_def
        p setIID_def RPCService_ctor_def ServiceAbstract_ctor_def t_def)
  moreover have "instance_info ?C t = Inr \<lparr>sii_sid = [1], sii_iid = [0], sii_sapInfo = m_sapInfo p\<rparr>"
    by (simp add: instance_info_def RPCService_class_def RPCService_getSAP_def t_def setIID_def
        RPCService_ctor_def ServiceAbstract_ctor_def)
  moreover have "co_overlay sample_core \<noteq> None" by (rule sample_core_simps)
  ultimately show ?thesis
    by (simp add: run_local_creation Let_def on_object_def announce_def getInstanceOfService_info_def
        whenValid_def core_isValid_def getInstancesOfServiceInfo_iid_def hm_find_map_of tellMesh_def)
qed

theorem local_creation_registers_witness:
  "\<exists>(c' :: (sap option, uuid list) core) s info. instance_at c' = (instance_at sample_core)([1] := (instance_at sample_core [1])([0] := Some s))
    \<and> service_isValid s \<and> co_mesh c' = co_mesh sample_core @ [ServiceCreation (Some info)]
    \<and> sii_sid info = [1] \<and> sii_iid info = [0]"
proof -
  obtain c' where run: "createLocalService (rpc_env (Some ''eth0'')) [1] sample_params sample_core = (Inr [0], c')"
    using run_local_creation_ok by (metis prod.collapse)
  have "instance_at sample_core [1] (ce_uuid (rpc_env (Some ''eth0'')) (co_uuids sample_core)) = None"
    using sample_core_simps(5) .
  with local_creation_registers [OF rpc_core.core_surroundings_axioms sample_core_inv sample_core_simps(1,2,3,4) _ run]
  obtain s info where "instance_at c' = (instance_at sample_core)([1] := (instance_at sample_core [1])([0] := Some s))
    \<and> service_isValid s \<and> co_mesh c' = co_mesh sample_core @ [ServiceCreation (Some info)]
    \<and> sii_sid info = [1] \<and> sii_iid info = [0]"
    by metis
  then show ?thesis by (intro exI [of _ c'] exI [of _ s] exI [of _ info])
qed

theorem failed_creation_stays_registered_witness:
  "\<exists>c'. snd (createLocalService (rpc_env None) [1] sample_params sample_core) = c'
    \<and> isServiceRunning [1] [0] c' = (Inr True, c') \<and> co_mesh c' = []"
proof -
  obtain c' where run: "createLocalService (rpc_env None) [1] sample_params sample_core = (Inl INVALID_ARGUMENT, c')"
    using run_local_creation_fails by (metis prod.collapse)
  have "instance_at sample_core [1] (ce_uuid (rpc_env None) (co_uuids sample_core)) = None"
    using sample_core_simps(5) .
  from failed_creation_stays_registered
    [OF rpc_core.core_surroundings_axioms sample_core_inv sample_core_simps(1,2,3,4) this run]
  show ?thesis by (simp add: run)
qed

text \<open>C25: Stopping a local service. On a running runtime, \<^verbatim>\<open>stopLocalService\<close> for a registered instance
  takes it out of the registry and closes it, leaving every other instance as it was; it returns or
  throws as the close does. The mesh is told nothing. \<^verbatim>\<open>stopService\<close> does the same and then throws
  in every case.\<close>

theorem stop_removes_and_closes:
  assumes "core_surroundings E" "core_inv c" "core_isValid c" "instance_at c sid iid = Some s"
  shows "case stopLocalService E sid iid c of (r, c') \<Rightarrow>
      r = fst (service_close (ce_class E) s)
      \<and> instance_at c' = (instance_at c)(sid := (instance_at c sid)(iid := None))
      \<and> \<not> service_isValid (co_heap c' ! the (addr_at (co_serviceMap c) sid iid))
      \<and> co_mesh c' = co_mesh c \<and> snd (stopService E sid iid c) = c' \<and> isl (fst (stopService E sid iid c))"
proof -
  obtain r c' where run: "stopLocalService E sid iid c = (r, c')" by (cases "stopLocalService E sid iid c")
  note sr = core_surroundings.stop_local_result [OF assms run]
  have "service_hooks (ce_class E)" using assms(1) by (simp add: core_surroundings_def)
  then have "\<not> service_isValid (snd (service_close (ce_class E) s))" by (rule service_hooks.service_close_invalid)
  moreover obtain a where "addr_at (co_serviceMap c) sid iid = Some a"
    "co_heap c' ! a = snd (service_close (ce_class E) s)" using sr(4) by blast
  moreover have "stopService E sid iid c = andThen (r, c') (\<lambda>_ c. (Inl (RuntimeException ''Not implemented!''), c))"
    using assms(3) run by (simp add: stopService_def whenValid_def)
  then have "snd (stopService E sid iid c) = c' \<and> isl (fst (stopService E sid iid c))" by (cases r) simp_all
  moreover have "instance_at c' = (instance_at c)(sid := (instance_at c sid)(iid := None))"
    using sr(1) by (auto simp: fun_eq_iff)
  ultimately show ?thesis using run sr(2,3) by simp
qed

definition started_core :: "(sap option, uuid list) core" where
  "started_core = sample_core\<lparr>co_heap := [(RPCService_ctor [1] [0])\<lparr>sa_status := RUNNING\<rparr>],
     co_serviceMap := [([1], \<lparr>ls_sid = [1], ls_runningServicesMap = [([0], 0)]\<rparr>)]\<rparr>"

theorem stop_removes_and_closes_witness:
  "fst (stopLocalService (rpc_env None) [1] [0] started_core) = Inr ()
    \<and> instance_at (snd (stopLocalService (rpc_env None) [1] [0] started_core)) [1] [0] = None"
proof -
  have inv: "core_inv started_core"
    by (simp add: core_inv_def started_core_def sample_core_def SthenoCore_ctor_def hm_ok_def hm_find_map_of
        RPCService_ctor_def ServiceAbstract_ctor_def ls_inv_def entry_ok_def)
  have s: "instance_at started_core [1] [0] = Some ((RPCService_ctor [1] [0])\<lparr>sa_status := RUNNING\<rparr>)"
    by (simp add: instance_at_def addr_at_def started_core_def hm_find_map_of)
  have v: "core_isValid started_core" using sample_core_simps(1) by (simp add: core_isValid_def started_core_def)
  have "fst (service_close (ce_class (rpc_env None)) ((RPCService_ctor [1] [0])\<lparr>sa_status := RUNNING\<rparr>)) = Inr ()"
    by (simp add: service_close_def changeState_def handle_defs rpc_env_def RPCService_class_def no_hook_def)
  with stop_removes_and_closes [OF rpc_core.core_surroundings_axioms inv v s, of None] show ?thesis
    by (simp split: prod.splits)
qed

text \<open>A creation request that arrives while the runtime is not running - the mesh accepts requests
  before \<^verbatim>\<open>SthenoCore::open\<close> has finished, and still after \<^verbatim>\<open>close\<close> began - is not refused: the
  exception of the runtime is not in the throw list of \<^verbatim>\<open>SthenoCoreInterface::createLocalService\<close>, so
  the process ends.\<close>

theorem create_request_outside_running:
  assumes "\<not> core_isValid c"
  shows "handleServiceCreate E params c = (Inl Unexpected, c)"
  using assms by (simp add: handleServiceCreate_def interface_createLocalService_def createLocalService_def
      whenValid_def throws_service_def INVALID_RUNTIME_def)

end
