(* ===== verification/PacketChannels.thy ===== *)
theory PacketChannels
  imports CellPackets
begin

text \<open>
  Channels of \<^verbatim>\<open>euryale/net\<close>: the stream channel of \<^verbatim>\<open>AbstractStreamChannel.h\<close>, with its synchronous and queued
  output and its closing, and \<^verbatim>\<open>PacketChannel.h\<close>, which cuts the bytes of a stream into packets. The socket
  is what its calls answer: how many bytes a send takes and which bytes a receive finds. Buffers are the
  message blocks of the output streams; a copy beyond the end of a buffer and the use of a deleted header
  are errors. The parser and its loops are parameterised by the factory of the packet family and by the
  channel's \<^verbatim>\<open>handlePacket\<close>.

  The lemmas of the family locale show that, for every family of packets and every way the network cuts
  the stream, the parser starves or delivers the next packet; the properties at the end are about the cell
  protocol, hostile headers and the output queue. Locks, timers and the reactor's registration are left
  out.
\<close>

section \<open>Stream channels\<close>

text \<open>The state of \<^verbatim>\<open>AbstractStreamChannel\<close> its operations depend on; the output queue holds, per write
  block, the bytes still to be sent. \<open>ch_reactor\<close> says whether a reactor is set.\<close>

record stream_channel =
  ch_asyncRead :: bool
  ch_asyncWrite :: bool
  ch_reactor :: bool
  ch_outputQueue :: "byte list list"
  ch_closeListener :: bool
  ch_close :: bool

text \<open>\<^verbatim>\<open>close\<close>: what it returns is whether the listener's \<^verbatim>\<open>onClose\<close> is called.\<close>

definition channel_close :: "bool \<Rightarrow> 'x stream_channel_scheme \<Rightarrow> bool \<times> 'x stream_channel_scheme" where
  "channel_close dont_call c =
     (if ch_close c then (False, c) else (\<not> dont_call \<and> ch_closeListener c, c\<lparr>ch_close := True\<rparr>))"

definition setCloseListener :: "bool \<Rightarrow> 'x stream_channel_scheme \<Rightarrow> int \<times> 'x stream_channel_scheme" where
  "setCloseListener l c =
     (if ch_closeListener c then (-1, c) else if ch_close c then (-1, c) else (0, c\<lparr>ch_closeListener := l\<rparr>))"

text \<open>What the socket answers to one attempt of a synchronous send: the deadline has passed, or
  \<^verbatim>\<open>peer().send\<close> fails, or it takes some bytes.\<close>

datatype send_answer = Expired | Refused | Took nat

text \<open>The loop of a synchronous \<^verbatim>\<open>send\<close>: the result and the bytes handed to the socket; no value while the
  answers do not suffice.\<close>

fun send_loop :: "send_answer list \<Rightarrow> byte list \<Rightarrow> (int \<times> byte list) option" where
  "send_loop as [] = Some (0, [])"
| "send_loop [] (b # bs) = None"
| "send_loop (Expired # as) (b # bs) = Some (-1, [])"
| "send_loop (Refused # as) (b # bs) = Some (-1, [])"
| "send_loop (Took k # as) (b # bs) =
     map_option (\<lambda>(ret, out). (ret, take k (b # bs) @ out)) (send_loop as (drop k (b # bs)))"

definition send_sync :: "send_answer list \<Rightarrow> byte list \<Rightarrow> 'x stream_channel_scheme
    \<Rightarrow> (int \<times> byte list \<times> 'x stream_channel_scheme) option" where
  "send_sync as mb c =
     (if ch_close c then Some (-1, [], c)
      else map_option (\<lambda>(ret, out). (ret, out, if ret = -1 then snd (channel_close False c) else c)) (send_loop as mb))"

text \<open>\<^verbatim>\<open>sendAsync\<close> queues the block, or closes the channel when the queue does not take it (\<open>room\<close> false);
  \<^verbatim>\<open>handleOutput_i\<close> offers the block at the head to the socket and puts back what it did not take, its
  result then being the length of the queue. The third component says whether a block was completed.\<close>

definition sendAsync :: "bool \<Rightarrow> byte list \<Rightarrow> 'x stream_channel_scheme \<Rightarrow> int \<times> 'x stream_channel_scheme" where
  "sendAsync room mb c = (if room then (0, c\<lparr>ch_outputQueue := ch_outputQueue c @ [mb]\<rparr>)
     else (-1, snd (channel_close False c)))"

definition handleOutput_i :: "nat option \<Rightarrow> 'x stream_channel_scheme \<Rightarrow> int \<times> byte list \<times> bool \<times> 'x stream_channel_scheme" where
  "handleOutput_i took c = (case ch_outputQueue c of
      [] \<Rightarrow> (0, [], False, c)
    | mb # q \<Rightarrow> (case took of
        None \<Rightarrow> (-1, [], False, snd (channel_close False (c\<lparr>ch_outputQueue := q\<rparr>)))
      | Some k \<Rightarrow> (if drop k mb \<noteq> [] then (int (Suc (length q)), take k mb, False, c\<lparr>ch_outputQueue := drop k mb # q\<rparr>)
                   else (0, take k mb, True, c\<lparr>ch_outputQueue := q\<rparr>))))"

definition synchronous :: "'x stream_channel_scheme \<Rightarrow> int \<times> 'x stream_channel_scheme" where
  "synchronous c = (0, c\<lparr>ch_asyncWrite := False, ch_asyncRead := False\<rparr>)"

text \<open>\<open>registered\<close>: what registering the handler with the reactor returns.\<close>

definition stream_asynchronous :: "int \<Rightarrow> bool \<Rightarrow> bool \<Rightarrow> 'x stream_channel_scheme \<Rightarrow> int \<times> 'x stream_channel_scheme" where
  "stream_asynchronous registered readAsync writeAsync c =
     (if ch_reactor c
      then (if readAsync \<or> writeAsync then registered else 0, c\<lparr>ch_asyncWrite := writeAsync, ch_asyncRead := readAsync\<rparr>)
      else (-1, c))"

section \<open>Packet channels\<close>

text \<open>\<open>m_header\<close>: null, the header of a packet whose body is still to come, or a pointer that was deleted
  and not reset.\<close>

datatype header_ptr = NoHeader | Header stheno_header | FreedHeader

record packet_channel = stream_channel +
  pc_header :: header_ptr
  pc_partialMessage :: block
  pc_sequenceID :: u32

datatype channel_error = Overrun | UseAfterFree

definition MAX_BUFFER_SIZE :: u32 where "MAX_BUFFER_SIZE = 1024"

definition blk_space :: "block \<Rightarrow> nat" where
  "blk_space b = blk_size b - blk_wr b"

definition blk_advance :: "nat \<Rightarrow> block \<Rightarrow> block" where
  "blk_advance n b = b\<lparr>blk_rd := blk_rd b + n\<rparr>"

definition new_block :: "raw_packet \<Rightarrow> nat \<Rightarrow> block" where
  "new_block raw n = \<lparr>blk_base = raw_block raw n, blk_rd = 0, blk_wr = 0\<rparr>"

text \<open>A new buffer of \<open>n\<close> bytes into which the unread bytes are copied with \<^verbatim>\<open>memcpy\<close>.\<close>

definition rebuffer :: "raw_packet \<Rightarrow> nat \<Rightarrow> block \<Rightarrow> channel_error + block" where
  "rebuffer raw n pm =
     (if n < blk_length pm then Inl Overrun
      else Inr ((blk_poke 0 (blk_data pm) (new_block raw n))\<lparr>blk_wr := blk_length pm\<rparr>))"

definition PacketChannel_ctor :: "raw_packet \<Rightarrow> bool \<Rightarrow> bool \<Rightarrow> bool \<Rightarrow> packet_channel" where
  "PacketChannel_ctor raw asyncRead asyncWrite listener =
     \<lparr>ch_asyncRead = asyncRead, ch_asyncWrite = asyncWrite, ch_reactor = False, ch_outputQueue = [],
      ch_closeListener = listener, ch_close = False, pc_header = NoHeader,
      pc_partialMessage = new_block raw (unat MAX_BUFFER_SIZE), pc_sequenceID = 0\<rparr>"

text \<open>The part of \<^verbatim>\<open>handleInputParsePacket\<close> that builds the packet, drops the bytes the factory read and
  copies the rest to a new buffer.\<close>

type_synonym 'b parsed = "channel_error + int \<times> (stheno_header \<times> 'b) option \<times> packet_channel"

definition take_packet :: "(stheno_header \<Rightarrow> bis \<Rightarrow> ('b \<times> bis) option) \<Rightarrow> raw_packet \<Rightarrow> stheno_header \<Rightarrow> bis
    \<Rightarrow> packet_channel \<Rightarrow> 'b parsed" where
  "take_packet factory raw h s c =
     (let pm = pc_partialMessage c;
          (packet, s') = (case factory h s of None \<Rightarrow> (None, s) | Some (b, s') \<Rightarrow> (Some (h, b), s'));
          pm' = blk_advance (blk_length pm - bis_length s') pm
      in res_bind (rebuffer raw (blk_size pm') pm') (\<lambda>buffer.
           Inr (0, packet, c\<lparr>pc_header := NoHeader, pc_partialMessage := buffer\<rparr>)))"

definition parse_body :: "(stheno_header \<Rightarrow> bis \<Rightarrow> ('b \<times> bis) option) \<Rightarrow> raw_packet \<Rightarrow> stheno_header \<Rightarrow> bis
    \<Rightarrow> packet_channel \<Rightarrow> 'b parsed" where
  "parse_body factory raw h s c =
     (if blk_length (pc_partialMessage c) < unat (sh_messageSize h) then Inr (0, None, c\<lparr>pc_header := Header h\<rparr>)
      else take_packet factory raw h s c)"

definition handleInputParsePacket :: "(stheno_header \<Rightarrow> bis \<Rightarrow> ('b \<times> bis) option) \<Rightarrow> raw_packet
    \<Rightarrow> packet_channel \<Rightarrow> 'b parsed" where
  "handleInputParsePacket factory raw c =
     (let pm = pc_partialMessage c; readSize = blk_length pm; s = input (blk_data pm) in
      if readSize = 0 then Inr (0, None, c)
      else case pc_header c of
        FreedHeader \<Rightarrow> Inl UseAfterFree
      | Header h \<Rightarrow> parse_body factory raw h s c
      | NoHeader \<Rightarrow>
         if readSize < unat SthenoHeader_getSize then Inr (0, None, c)
         else
           let (h, s1) = SthenoHeader_deserialize raw s in
           if \<not> bis_good s1 then Inr (-1, None, c\<lparr>pc_header := FreedHeader\<rparr>)
           else
             let pm1 = blk_advance (readSize - bis_length s1) pm; c1 = c\<lparr>pc_partialMessage := pm1\<rparr>;
                 rest = blk_length pm1; body = unat (sh_messageSize h) in
             if body = 0 then take_packet factory raw h s1 c1
             else if rest < body then
               res_bind (rebuffer raw (if blk_space pm1 < body - rest
                                       then unat (SthenoHeader_getSize + sh_messageSize h + MAX_BUFFER_SIZE)
                                       else blk_size pm1) pm1)
                 (\<lambda>buffer. parse_body factory raw h s1 (c1\<lparr>pc_partialMessage := buffer\<rparr>))
             else parse_body factory raw h s1 c1)"

text \<open>\<^verbatim>\<open>readInputBuffer\<close>: the argument is what \<^verbatim>\<open>peer().recv\<close> delivers for the number of bytes asked for.\<close>

definition readInputBuffer :: "(nat \<Rightarrow> byte list option) \<Rightarrow> packet_channel \<Rightarrow> int \<times> packet_channel" where
  "readInputBuffer recv c =
     (let pm = pc_partialMessage c in
      case recv (blk_space pm) of
        None \<Rightarrow> (-1, c)
      | Some bs \<Rightarrow> if bs = [] then (-1, c)
                   else (int (length bs),
                         c\<lparr>pc_partialMessage := (blk_poke (blk_wr pm) bs pm)\<lparr>blk_wr := blk_wr pm + length bs\<rparr>\<rparr>))"
text \<open>The destructor deletes the header it points to.\<close>

definition PacketChannel_dtor :: "packet_channel \<Rightarrow> channel_error + unit" where
  "PacketChannel_dtor c = (if pc_header c = FreedHeader then Inl UseAfterFree else Inr ())"

text \<open>The unread bytes and the bytes a buffer can still take after the primitive operations.\<close>

lemma blk_advance_ok: "blk_ok b \<Longrightarrow> n \<le> blk_length b \<Longrightarrow> blk_ok (blk_advance n b)
    \<and> blk_data (blk_advance n b) = drop n (blk_data b) \<and> blk_length (blk_advance n b) = blk_length b - n"
  by (auto simp: blk_advance_def blk_ok_def blk_data_def blk_length_def blk_size_def drop_take add.commute)

lemma blk_advance_size [simp]: "blk_size (blk_advance n b) = blk_size b" "blk_space (blk_advance n b) = blk_space b"
  by (simp_all add: blk_advance_def blk_size_def blk_space_def)

lemma rebuffer_length: "rebuffer raw n pm = Inr pm' \<Longrightarrow> blk_length pm' = blk_length pm"
  by (auto simp: rebuffer_def blk_length_def blk_poke_def new_block_def split: if_splits)

lemma rebuffer_back:
  assumes "raw_ok raw" "blk_ok pm" "blk_length pm \<le> n"
  shows "\<exists>pm'. rebuffer raw n pm = Inr pm' \<and> blk_ok pm' \<and> blk_data pm' = blk_data pm
    \<and> blk_length pm' = blk_length pm \<and> blk_size pm' = n \<and> blk_space pm' = n - blk_length pm"
proof -
  let ?pm = "(blk_poke 0 (blk_data pm) (new_block raw n))\<lparr>blk_wr := blk_length pm\<rparr>"
  have "length (blk_data pm) = blk_length pm" using assms(2) by (rule length_blk_data)
  moreover from assms(1) have "length (raw_block raw n) = n" by (simp add: raw_ok_def)
  ultimately show ?thesis using assms(3)
    by (intro exI [of _ ?pm])
       (simp add: rebuffer_def blk_ok_def blk_size_def blk_space_def blk_poke_def new_block_def blk_length_def,
        simp add: blk_data_def blk_length_def)
qed

lemma shrink_header [shrink]:
  "bis_length s \<le> n \<Longrightarrow> bis_length (snd (SthenoHeader_deserialize raw s)) \<le> n"
  by (simp add: SthenoHeader_deserialize_def Let_def case_prod_unfold shrink)

lemma header_progress:
  assumes "4 \<le> bis_length s"
  shows "bis_length (snd (SthenoHeader_deserialize raw s)) < bis_length s"
proof -
  have "bis_length (snd (snd (read_ulong (raw_ulong raw) s))) \<le> bis_length s - 4"
    using assms by (simp add: read_ulong_def read_4_def bis_adjust_def bis_length_def)
  then have "bis_length (snd (SthenoHeader_deserialize raw s)) \<le> bis_length s - 4"
    by (simp add: SthenoHeader_deserialize_def Let_def case_prod_unfold shrink)
  with assms show ?thesis by simp
qed

text \<open>A packet is delivered at the cost of its header, read now or before.\<close>

definition input_left :: "packet_channel \<Rightarrow> nat" where
  "input_left c = 2 * blk_length (pc_partialMessage c) + (case pc_header c of Header _ \<Rightarrow> 1 | _ \<Rightarrow> 0)"

lemma take_packet_left:
  assumes "take_packet factory raw h s c = Inr (ret, p, c')"
  shows "input_left c' \<le> 2 * blk_length (pc_partialMessage c)"
  using assms by (auto simp: take_packet_def Let_def case_prod_unfold res_bind_Inr_iff input_left_def
    blk_advance_def blk_length_def dest!: rebuffer_length)

lemma parse_body_left:
  assumes "parse_body factory raw h s c = Inr (ret, Some p, c')"
  shows "input_left c' \<le> 2 * blk_length (pc_partialMessage c)"
  using assms take_packet_left by (fastforce simp: parse_body_def split: if_splits)

lemma length_blk_data_le: "length (blk_data b) \<le> blk_length b"
  by (simp add: blk_data_def)

lemma parse_progress:
  assumes "handleInputParsePacket factory raw c = Inr (ret, Some p, c')"
  shows "input_left c' < input_left c"
proof (cases "pc_header c")
  case (Header h)
  with assms have "parse_body factory raw h (input (blk_data (pc_partialMessage c))) c = Inr (ret, Some p, c')"
    by (simp add: handleInputParsePacket_def Let_def split: if_splits)
  from parse_body_left [OF this] Header show ?thesis by (simp add: input_left_def)
next
  case NoHeader
  let ?pm = "pc_partialMessage c" let ?s = "input (blk_data ?pm)"
  obtain h s1 where d: "SthenoHeader_deserialize raw ?s = (h, s1)" by fastforce
  let ?pm1 = "blk_advance (blk_length ?pm - bis_length s1) ?pm"
  let ?c1 = "c\<lparr>pc_partialMessage := ?pm1\<rparr>"
  have l: "98 \<le> blk_length ?pm" using assms NoHeader
    by (simp add: handleInputParsePacket_def Let_def SthenoHeader_getSize_def split: if_splits)
  have "input_left c' \<le> 2 * blk_length ?pm1"
    using assms NoHeader l d
    by (auto simp: handleInputParsePacket_def Let_def res_bind_Inr_iff SthenoHeader_getSize_def
        split: if_splits dest!: take_packet_left parse_body_left rebuffer_length)
  moreover have "bis_length s1 < blk_length ?pm"
  proof (cases "4 \<le> bis_length ?s")
    case True
    from header_progress [OF this, of raw] d length_blk_data_le [of ?pm] show ?thesis by (simp add: bis_length_def)
  next
    case False
    have "bis_length s1 \<le> bis_length ?s" using d shrink_header [of ?s "bis_length ?s" raw] by simp
    with False l show ?thesis by simp
  qed
  then have "blk_length ?pm1 < blk_length ?pm" by (simp add: blk_advance_def blk_length_def)
  ultimately show ?thesis by (simp add: input_left_def)
qed (use assms in \<open>simp add: handleInputParsePacket_def Let_def split: if_splits\<close>)

text \<open>How the loops that parse and hand on packets end: out of packets, with what the parser returned;
  the parser failed; the handler failed. The handler is the channel's \<^verbatim>\<open>handlePacket\<close>.\<close>

datatype loop_end = Drained int | ParseFailed | HandlerFailed

function input_loop :: "(stheno_header \<Rightarrow> bis \<Rightarrow> ('b \<times> bis) option) \<Rightarrow> raw_packet
    \<Rightarrow> (stheno_header \<times> 'b \<Rightarrow> 's \<Rightarrow> int \<times> 's) \<Rightarrow> packet_channel \<Rightarrow> 's \<Rightarrow> channel_error + loop_end \<times> packet_channel \<times> 's" where
  "input_loop factory raw handle c st =
     (case handleInputParsePacket factory raw c of
        Inl e \<Rightarrow> Inl e
      | Inr (ret, None, c') \<Rightarrow> Inr (if ret = -1 then ParseFailed else Drained ret, c', st)
      | Inr (ret, Some p, c') \<Rightarrow>
          if ret = -1 then Inr (ParseFailed, c', st)
          else let (r, st') = handle p st in
            if r = -1 then Inr (HandlerFailed, c', st') else input_loop factory raw handle c' st')"
  by pat_completeness auto
termination
  by (relation "measure (\<lambda>(factory, raw, handle, c, st). input_left c)") (auto intro: parse_progress)

declare input_loop.simps [simp del]

definition handleInput_i :: "(stheno_header \<Rightarrow> bis \<Rightarrow> ('b \<times> bis) option) \<Rightarrow> raw_packet
    \<Rightarrow> (stheno_header \<times> 'b \<Rightarrow> 's \<Rightarrow> int \<times> 's) \<Rightarrow> (nat \<Rightarrow> byte list option) \<Rightarrow> packet_channel \<Rightarrow> 's
    \<Rightarrow> channel_error + int \<times> packet_channel \<times> 's" where
  "handleInput_i factory raw handle recv c st =
     (let (n, c1) = readInputBuffer recv c in
      if n = -1 then Inr (-1, c1, st)
      else res_bind (input_loop factory raw handle c1 st) (\<lambda>(end, c2, st').
        Inr (case end of Drained ret \<Rightarrow> ret | _ \<Rightarrow> -1, c2, st')))"

text \<open>\<^verbatim>\<open>asynchronous\<close> first hands on the packets that are already in the buffer.\<close>

definition asynchronous :: "(stheno_header \<Rightarrow> bis \<Rightarrow> ('b \<times> bis) option) \<Rightarrow> raw_packet
    \<Rightarrow> (stheno_header \<times> 'b \<Rightarrow> 's \<Rightarrow> int \<times> 's) \<Rightarrow> int \<Rightarrow> bool \<Rightarrow> bool \<Rightarrow> packet_channel \<Rightarrow> 's
    \<Rightarrow> channel_error + int \<times> packet_channel \<times> 's" where
  "asynchronous factory raw handle registered readAsync writeAsync c st =
     (if readAsync then
        res_bind (input_loop factory raw handle c st) (\<lambda>(end, c1, st').
          Inr (case end of
            ParseFailed \<Rightarrow> (-1, snd (channel_close False c1), st')
          | HandlerFailed \<Rightarrow> (-1, c1, st')
          | Drained _ \<Rightarrow> let (ret, c2) = stream_asynchronous registered readAsync writeAsync c1 in (ret, c2, st')))
      else let (ret, c2) = stream_asynchronous registered readAsync writeAsync c in Inr (ret, c2, st))"

text \<open>\<^verbatim>\<open>receivePacket\<close>: per round whether the deadline has passed and what \<^verbatim>\<open>recv\<close> delivers; no value while
  the answers do not suffice.\<close>

fun receive_loop :: "(stheno_header \<Rightarrow> bis \<Rightarrow> ('b \<times> bis) option) \<Rightarrow> raw_packet
    \<Rightarrow> (bool \<times> (nat \<Rightarrow> byte list option)) list \<Rightarrow> packet_channel \<Rightarrow> 'b parsed option" where
  "receive_loop factory raw [] c = None"
| "receive_loop factory raw ((expired, recv) # as) c =
     (if expired then Some (Inr (-1, None, c))
      else case handleInputParsePacket factory raw c of
        Inl e \<Rightarrow> Some (Inl e)
      | Inr (ret, p, c1) \<Rightarrow>
          if ret = -1 then Some (Inr (-1, p, snd (channel_close False c1)))
          else if p \<noteq> None then Some (Inr (0, p, c1))
          else let (n, c2) = readInputBuffer recv c1 in
            if n = -1 then Some (Inr (-1, None, snd (channel_close False c2)))
            else receive_loop factory raw as c2)"

definition receivePacket :: "(stheno_header \<Rightarrow> bis \<Rightarrow> ('b \<times> bis) option) \<Rightarrow> raw_packet
    \<Rightarrow> (bool \<times> (nat \<Rightarrow> byte list option)) list \<Rightarrow> packet_channel \<Rightarrow> 'b parsed option" where
  "receivePacket factory raw as c =
     (if ch_asyncRead c then Some (Inr (-1, None, c)) else receive_loop factory raw as c)"
section \<open>Framing\<close>

text \<open>The bytes of a packet on the wire, and when a packet fits: header and body can be written, the type
  is the one of the body, the size announced is the size of the body, and the buffer for it can be
  counted in 32 bits.\<close>

definition frame :: "wop list \<Rightarrow> stheno_header \<Rightarrow> byte list" where
  "frame body h = encode (SthenoHeader_serialize h) @ encode body"

definition sized :: "wop list \<Rightarrow> stheno_header \<Rightarrow> bool" where
  "sized body h = (header_ok h \<and> unat (sh_messageSize h) = length (encode body) \<and> length (encode body) + 1122 < 2 ^ 32)"

lemma frame_length: "sized body h \<Longrightarrow> length (frame body h) = 98 + unat (sh_messageSize h)"
  using header_length [of h] by (simp add: frame_def sized_def SthenoHeader_getSize_def)

text \<open>The invariant of a channel: the buffer starts at its base, has at least its first size, and has
  room for the body that is expected. \<open>starved\<close>: not enough bytes to go on.\<close>

fun expected :: "header_ptr \<Rightarrow> nat" where
  "expected (Header h) = unat (sh_messageSize h)"
| "expected _ = 98"

definition chan_inv :: "packet_channel \<Rightarrow> bool" where
  "chan_inv c = (blk_ok (pc_partialMessage c) \<and> blk_rd (pc_partialMessage c) = 0 \<and> 1024 \<le> blk_size (pc_partialMessage c)
     \<and> pc_header c \<noteq> FreedHeader \<and> 0 < expected (pc_header c) \<and> expected (pc_header c) \<le> blk_size (pc_partialMessage c))"

definition starved :: "packet_channel \<Rightarrow> bool" where
  "starved c = (blk_length (pc_partialMessage c) < expected (pc_header c))"

lemma starved_space: "chan_inv c \<Longrightarrow> starved c \<Longrightarrow> 0 < blk_space (pc_partialMessage c)"
  by (auto simp: chan_inv_def starved_def blk_space_def blk_length_def)

lemma rebuffer_rd: "rebuffer raw n pm = Inr pm' \<Longrightarrow> blk_rd pm' = 0"
  by (auto simp: rebuffer_def blk_poke_def new_block_def split: if_splits)

lemma rebuffer_kept:
  assumes "raw_ok raw" "blk_ok pm" "blk_length pm \<le> n"
  obtains pm' where "rebuffer raw n pm = Inr pm'" "blk_ok pm'" "blk_rd pm' = 0" "blk_data pm' = blk_data pm"
    "blk_length pm' = blk_length pm" "blk_size pm' = n"
  using rebuffer_back [OF assms] rebuffer_rd by metis

lemma readInputBuffer_appends:
  assumes "chan_inv c" "recv (blk_space (pc_partialMessage c)) = Some bs" "bs \<noteq> []"
    "length bs \<le> blk_space (pc_partialMessage c)"
  shows "\<exists>c'. readInputBuffer recv c = (int (length bs), c') \<and> chan_inv c' \<and> pc_header c' = pc_header c
    \<and> blk_data (pc_partialMessage c') = blk_data (pc_partialMessage c) @ bs"
proof -
  let ?pm = "pc_partialMessage c"
  let ?pm' = "(blk_poke (blk_wr ?pm) bs ?pm)\<lparr>blk_wr := blk_wr ?pm + length bs\<rparr>"
  have w: "blk_wr ?pm + length bs \<le> length (blk_base ?pm)" "blk_rd ?pm = 0"
    using assms(1,4) by (auto simp: chan_inv_def blk_space_def blk_ok_def blk_size_def)
  then have "blk_data ?pm' = blk_data ?pm @ bs"
    by (simp add: blk_data_def blk_length_def blk_poke_def)
  moreover have "blk_ok ?pm'" "blk_size ?pm' = blk_size ?pm" "blk_rd ?pm' = 0"
    using w by (simp_all add: blk_ok_def blk_size_def blk_poke_def)
  ultimately show ?thesis using assms
    by (intro exI [of _ "c\<lparr>pc_partialMessage := ?pm'\<rparr>"]) (simp add: readInputBuffer_def Let_def chan_inv_def)
qed

context packet_family
begin

text \<open>The packets of a family that can be sent, the stream of a list of them, and what a channel still
  owes when \<open>ps\<close> are to come and \<open>rest\<close> is on its way.\<close>

lemma take_packet_back:
  assumes "raw_ok raw" "chan_inv c" "sized (body b) h" "ok b" "sh_messageType h = ptype b"
    and d: "blk_data (pc_partialMessage c) = pre @ encode (body b) @ r"
    and c1: "c1 = c\<lparr>pc_partialMessage := blk_advance (length pre) (pc_partialMessage c)\<rparr>"
  shows "\<exists>b' c'. take_packet (factory raw) raw h (input (encode (body b) @ r)) c1 = Inr (0, Some (h, b'), c')
    \<and> sim b b' \<and> chan_inv c' \<and> pc_header c' = NoHeader \<and> blk_data (pc_partialMessage c') = r"
proof -
  let ?pm = "pc_partialMessage c" let ?n = "length (encode (body b))"
  let ?pm1 = "blk_advance (length pre) ?pm"
  have ok: "blk_ok ?pm" "1024 \<le> blk_size ?pm" using assms(2) by (simp_all add: chan_inv_def)
  then have l: "blk_length ?pm = length pre + ?n + length r" using d length_blk_data [of ?pm] by simp
  obtain b' where b': "factory raw h (input (encode (body b) @ r)) = Some (b', input r)" "sim b b'"
    using factory_back [OF assms(4,1,5)] by blast
  have a1: "blk_ok ?pm1" "blk_length ?pm1 = ?n + length r" "blk_data ?pm1 = encode (body b) @ r"
    using blk_advance_ok [OF ok(1), of "length pre"] l d by simp_all
  then have a2: "blk_ok (blk_advance ?n ?pm1)" "blk_length (blk_advance ?n ?pm1) = length r"
      "blk_data (blk_advance ?n ?pm1) = r"
    using blk_advance_ok [OF a1(1), of ?n] by simp_all
  have "length r \<le> blk_size ?pm" using l ok(1) by (auto simp: blk_ok_def blk_length_def)
  then obtain pm' where pm': "rebuffer raw (blk_size ?pm) (blk_advance ?n ?pm1) = Inr pm'" "blk_ok pm'"
      "blk_rd pm' = 0" "blk_data pm' = r" "blk_size pm' = blk_size ?pm"
    using rebuffer_kept [OF assms(1) a2(1), of "blk_size ?pm"] a2 by metis
  have "take_packet (factory raw) raw h (input (encode (body b) @ r)) c1
      = Inr (0, Some (h, b'), c1\<lparr>pc_header := NoHeader, pc_partialMessage := pm'\<rparr>)"
    using b'(1) pm'(1) a1 by (simp add: take_packet_def c1 bis_length_def)
  then show ?thesis using b'(2) pm' ok by (simp add: chan_inv_def)
qed

end
definition stream_of :: "('b \<Rightarrow> wop list) \<Rightarrow> (stheno_header \<times> 'b) list \<Rightarrow> byte list" where
  "stream_of body ps = concat (map (\<lambda>(h, b). frame (body b) h) ps)"

lemma stream_of_simps [simp]:
  "stream_of body [] = []" "stream_of body ((h, b) # ps) = frame (body b) h @ stream_of body ps"
  by (simp_all add: stream_of_def)

text \<open>What is in the buffer together with what is on its way is what is left of the stream.\<close>

definition awaits :: "('b \<Rightarrow> wop list) \<Rightarrow> packet_channel \<Rightarrow> (stheno_header \<times> 'b) list \<Rightarrow> byte list \<Rightarrow> bool" where
  "awaits body c ps rest = (case pc_header c of
      NoHeader \<Rightarrow> blk_data (pc_partialMessage c) @ rest = stream_of body ps
    | Header h \<Rightarrow> (case ps of [] \<Rightarrow> False | (h', b) # ps' \<Rightarrow>
        h' = h \<and> blk_data (pc_partialMessage c) @ rest = encode (body b) @ stream_of body ps')
    | FreedHeader \<Rightarrow> False)"

lemma append_eq_prefix: "xs @ ys = us @ vs \<Longrightarrow> length us \<le> length xs \<Longrightarrow> \<exists>zs. xs = us @ zs \<and> zs @ ys = vs"
  by (auto simp: append_eq_append_conv2)

text \<open>A packet of a family that fits.\<close>

definition fits :: "('b \<Rightarrow> wop list) \<Rightarrow> ('b \<Rightarrow> u16) \<Rightarrow> ('b \<Rightarrow> bool) \<Rightarrow> stheno_header \<times> 'b \<Rightarrow> bool" where
  "fits body ptype ok p = (sized (body (snd p)) (fst p) \<and> ok (snd p) \<and> sh_messageType (fst p) = ptype (snd p))"

text \<open>The two outcomes of the parser on a stream of packets that fit: it starves, or it delivers the next
  packet.\<close>

definition starves :: "('b \<Rightarrow> wop list) \<Rightarrow> (stheno_header \<times> 'b) list \<Rightarrow> byte list \<Rightarrow> 'b parsed \<Rightarrow> bool" where
  "starves body ps rest res = (\<exists>c'. res = Inr (0, None, c') \<and> chan_inv c' \<and> awaits body c' ps rest \<and> starved c')"

definition delivers :: "('b \<Rightarrow> wop list) \<Rightarrow> ('b \<Rightarrow> 'b \<Rightarrow> bool) \<Rightarrow> (stheno_header \<times> 'b) list \<Rightarrow> byte list \<Rightarrow> 'b parsed \<Rightarrow> bool" where
  "delivers body sim ps rest res = (\<exists>h b b' ps' c'. ps = (h, b) # ps' \<and> res = Inr (0, Some (h, b'), c') \<and> sim b b'
     \<and> chan_inv c' \<and> awaits body c' ps' rest)"

context packet_family
begin

lemma take_packet_delivers:
  assumes "raw_ok raw" "chan_inv c" "fits body ptype ok (h, b)"
    and d: "blk_data (pc_partialMessage c) = pre @ d1" and s: "d1 @ rest = encode (body b) @ stream_of body ps"
    and l: "unat (sh_messageSize h) \<le> length d1"
    and c1: "c1 = c\<lparr>pc_partialMessage := blk_advance (length pre) (pc_partialMessage c)\<rparr>"
  shows "delivers body sim ((h, b) # ps) rest (take_packet (factory raw) raw h (input d1) c1)"
proof -
  have f: "sized (body b) h" "ok b" "sh_messageType h = ptype b" using assms(3) by (simp_all add: fits_def)
  then have "length (encode (body b)) \<le> length d1" using l by (simp add: sized_def)
  from append_eq_prefix [OF s this] obtain r where r: "d1 = encode (body b) @ r" "r @ rest = stream_of body ps" by blast
  from take_packet_back [OF assms(1,2) f, of pre r c1] d r(1) c1 obtain b' c'
    where "take_packet (factory raw) raw h (input d1) c1 = Inr (0, Some (h, b'), c')" "sim b b'" "chan_inv c'"
      "pc_header c' = NoHeader" "blk_data (pc_partialMessage c') = r" by auto
  with r(2) show ?thesis by (auto simp: delivers_def awaits_def)
qed

lemma parse_in_body:
  assumes "raw_ok raw" "chan_inv c" "list_all (fits body ptype ok) ps" "awaits body c ps rest" "pc_header c = Header h"
  shows "starves body ps rest (handleInputParsePacket (factory raw) raw c) \<or>
    delivers body sim ps rest (handleInputParsePacket (factory raw) raw c)"
proof -
  let ?pm = "pc_partialMessage c"
  from assms(4,5) obtain b ps' where ps: "ps = (h, b) # ps'" and
    d: "blk_data ?pm @ rest = encode (body b) @ stream_of body ps'"
    by (auto simp: awaits_def split: list.splits)
  have ok: "length (blk_data ?pm) = blk_length ?pm" "0 < unat (sh_messageSize h)"
    using assms(2,5) by (simp_all add: chan_inv_def)
  show ?thesis
  proof (cases "blk_length ?pm < unat (sh_messageSize h)")
    case True
    then have "handleInputParsePacket (factory raw) raw c = Inr (0, None, c)"
      using assms(5) by (simp add: handleInputParsePacket_def parse_body_def Let_def)
    with True assms(2,4,5) show ?thesis by (simp add: starves_def starved_def)
  next
    case False
    then have "handleInputParsePacket (factory raw) raw c = take_packet (factory raw) raw h (input (blk_data ?pm)) c"
      using assms(5) ok by (auto simp: handleInputParsePacket_def parse_body_def Let_def)
    moreover have "delivers body sim ps rest (take_packet (factory raw) raw h (input (blk_data ?pm)) c)"
      using take_packet_delivers [OF assms(1,2), of h b "[]" "blk_data ?pm" rest ps' c] assms(3) ps d False ok
      by (simp add: blk_advance_def)
    ultimately show ?thesis by simp
  qed
qed

lemma parse_new_header:
  assumes "raw_ok raw" "chan_inv c" "list_all (fits body ptype ok) ps" "awaits body c ps rest" "pc_header c = NoHeader"
    and "98 \<le> blk_length (pc_partialMessage c)"
  shows "starves body ps rest (handleInputParsePacket (factory raw) raw c) \<or>
    delivers body sim ps rest (handleInputParsePacket (factory raw) raw c)"
proof -
  let ?pm = "pc_partialMessage c" let ?res = "handleInputParsePacket (factory raw) raw c"
  have bok: "blk_ok ?pm" "blk_rd ?pm = 0" "1024 \<le> blk_size ?pm" using assms(2) by (simp_all add: chan_inv_def)
  have len: "length (blk_data ?pm) = blk_length ?pm" using bok by simp
  from assms(4,5,6) len obtain h b ps' where ps: "ps = (h, b) # ps'"
    by (cases ps) (auto simp: awaits_def)
  let ?H = "encode (SthenoHeader_serialize h)" let ?N = "unat (sh_messageSize h)"
  have f: "fits body ptype ok (h, b)" "sized (body b) h" "header_ok h" using assms(3) ps by (simp_all add: fits_def sized_def)
  then have H: "length ?H = 98" using header_length [of h] by (simp add: SthenoHeader_getSize_def)
  from assms(4,5) ps have "blk_data ?pm @ rest = ?H @ encode (body b) @ stream_of body ps'"
    by (simp add: awaits_def frame_def)
  from append_eq_prefix [OF this] H len assms(6) obtain d1
    where d1: "blk_data ?pm = ?H @ d1" "d1 @ rest = encode (body b) @ stream_of body ps'" by auto
  have dl: "blk_length ?pm = 98 + length d1" using d1(1) H len by simp
  have des: "SthenoHeader_deserialize raw (input (blk_data ?pm)) = (h, input d1)"
    using header.des_ser [OF f(3), of raw d1] d1(1) by simp
  let ?pm1 = "blk_advance 98 ?pm" let ?c1 = "c\<lparr>pc_partialMessage := ?pm1\<rparr>"
  have a: "blk_ok ?pm1" "blk_length ?pm1 = length d1" "blk_data ?pm1 = d1"
    using blk_advance_ok [OF bok(1), of 98] dl d1(1) H by simp_all
  have res: "?res = (if ?N = 0 then take_packet (factory raw) raw h (input d1) ?c1
      else if length d1 < ?N then
        res_bind (rebuffer raw (if blk_space ?pm < ?N - length d1
                                then unat (SthenoHeader_getSize + sh_messageSize h + MAX_BUFFER_SIZE)
                                else blk_size ?pm) ?pm1)
          (\<lambda>buffer. parse_body (factory raw) raw h (input d1) (?c1\<lparr>pc_partialMessage := buffer\<rparr>))
      else parse_body (factory raw) raw h (input d1) ?c1)"
    using des assms(5,6) dl a(2) by (simp add: handleInputParsePacket_def Let_def SthenoHeader_getSize_def bis_length_def)
  show ?thesis
  proof (cases "length d1 < ?N")
    case True
    let ?n = "if blk_space ?pm < ?N - length d1 then 1122 + ?N else blk_size ?pm"
    have "unat (SthenoHeader_getSize + sh_messageSize h + MAX_BUFFER_SIZE) = 1122 + ?N"
      using f(2) by (simp add: sized_def SthenoHeader_getSize_def MAX_BUFFER_SIZE_def unat_word_ariths)
    then have r1: "?res = res_bind (rebuffer raw ?n ?pm1)
        (\<lambda>buffer. parse_body (factory raw) raw h (input d1) (?c1\<lparr>pc_partialMessage := buffer\<rparr>))"
      using res True by simp
    have n: "length d1 \<le> ?n" "1024 \<le> ?n" "?N \<le> ?n" using True bok dl
      by (auto simp: blk_space_def blk_length_def blk_ok_def)
    from rebuffer_kept [OF assms(1) a(1), of ?n] n(1) a(2) obtain pm' where
      pm': "rebuffer raw ?n ?pm1 = Inr pm'" "blk_ok pm'" "blk_rd pm' = 0" "blk_data pm' = blk_data ?pm1"
        "blk_length pm' = blk_length ?pm1" "blk_size pm' = ?n" by metis
    then have "?res = Inr (0, None, c\<lparr>pc_partialMessage := pm', pc_header := Header h\<rparr>)"
      using True a r1 by (simp add: parse_body_def)
    then show ?thesis using pm' a n True ps d1(2)
      by (simp add: starves_def chan_inv_def awaits_def starved_def)
  next
    case False
    then have "?res = take_packet (factory raw) raw h (input d1) ?c1"
      using res a(2) by (simp add: parse_body_def)
    then show ?thesis
      using take_packet_delivers [OF assms(1,2) f(1) d1, of ?c1] False H ps by simp
  qed
qed

lemma parse_step:
  assumes "raw_ok raw" "chan_inv c" "list_all (fits body ptype ok) ps" "awaits body c ps rest"
  shows "starves body ps rest (handleInputParsePacket (factory raw) raw c) \<or>
    delivers body sim ps rest (handleInputParsePacket (factory raw) raw c)"
proof (cases "pc_header c")
  case NoHeader
  show ?thesis
  proof (cases "blk_length (pc_partialMessage c) < 98")
    case True
    then have "handleInputParsePacket (factory raw) raw c = Inr (0, None, c)" using NoHeader
      by (simp add: handleInputParsePacket_def Let_def SthenoHeader_getSize_def)
    with True NoHeader assms show ?thesis by (simp add: starves_def starved_def)
  next
    case False
    then show ?thesis using parse_new_header [OF assms NoHeader] by simp
  qed
next
  case (Header h)
  then show ?thesis using parse_in_body [OF assms] by simp
qed (use assms(2) in \<open>simp add: chan_inv_def\<close>)

end
section \<open>The reactor and the channel\<close>

text \<open>Handing a list of packets to the handler.\<close>

fun handle_all :: "('p \<Rightarrow> 's \<Rightarrow> int \<times> 's) \<Rightarrow> 'p list \<Rightarrow> 's \<Rightarrow> 's" where
  "handle_all handle [] st = st"
| "handle_all handle (p # ps) st = handle_all handle ps (snd (handle p st))"

lemma handle_all_append: "handle_all handle (ps @ qs) st = handle_all handle qs (handle_all handle ps st)"
  by (induction ps arbitrary: st) auto

definition accepts :: "('p \<Rightarrow> 's \<Rightarrow> int \<times> 's) \<Rightarrow> bool" where
  "accepts handle = (\<forall>p st. fst (handle p st) \<noteq> -1)"

text \<open>The packets received are those sent: the same headers and bodies equal up to \<open>sim\<close>.\<close>

definition received :: "('b \<Rightarrow> 'b \<Rightarrow> bool) \<Rightarrow> (stheno_header \<times> 'b) list \<Rightarrow> (stheno_header \<times> 'b) list \<Rightarrow> bool" where
  "received sim = list_all2 (\<lambda>(h, b) (h', b'). h' = h \<and> sim b b')"

lemma received_append: "received sim ps ds \<Longrightarrow> received sim ps' ds' \<Longrightarrow> received sim (ps @ ps') (ds @ ds')"
  by (simp add: received_def list_all2_appendI)

text \<open>The reactor calls \<^verbatim>\<open>handle_input\<close> while there are bytes to read; the network decides how many bytes
  a \<^verbatim>\<open>recv\<close> finds: at least one, at most what was asked for. A handler that returns -1 is closed.\<close>

fun feed :: "(stheno_header \<Rightarrow> bis \<Rightarrow> ('b \<times> bis) option) \<Rightarrow> raw_packet \<Rightarrow> (stheno_header \<times> 'b \<Rightarrow> 's \<Rightarrow> int \<times> 's)
    \<Rightarrow> nat list \<Rightarrow> byte list \<Rightarrow> packet_channel \<Rightarrow> 's \<Rightarrow> channel_error + int \<times> byte list \<times> packet_channel \<times> 's" where
  "feed factory raw handle [] pending c st = Inr (0, pending, c, st)"
| "feed factory raw handle (k # ks) pending c st =
     (if pending = [] then Inr (0, pending, c, st)
      else res_bind (handleInput_i factory raw handle (\<lambda>n. Some (take (min n (Suc k)) pending)) c st) (\<lambda>(ret, c', st').
        if ret = -1 then Inr (-1, drop (min (blk_space (pc_partialMessage c)) (Suc k)) pending, snd (channel_close False c'), st')
        else feed factory raw handle ks (drop (min (blk_space (pc_partialMessage c)) (Suc k)) pending) c' st'))"

context packet_family
begin

lemma loop_delivers:
  assumes "raw_ok raw" "accepts handle" "chan_inv c" "list_all (fits body ptype ok) ps" "awaits body c ps rest"
  shows "\<exists>done todo ds c'. ps = done @ todo \<and> received sim done ds
    \<and> input_loop (factory raw) raw handle c st = Inr (Drained 0, c', handle_all handle ds st)
    \<and> chan_inv c' \<and> starved c' \<and> awaits body c' todo rest"
  using assms(3-5)
proof (induction ps arbitrary: c st)
  case (Cons p ps)
  let ?res = "handleInputParsePacket (factory raw) raw c"
  show ?case
  proof (cases "starves body (p # ps) rest ?res")
    case True
    then obtain c' where "?res = Inr (0, None, c')" "chan_inv c'" "awaits body c' (p # ps) rest" "starved c'"
      by (auto simp: starves_def)
    then show ?thesis
      by (intro exI [of _ "[]"] exI [of _ "p # ps"] exI [of _ c']) (simp add: input_loop.simps received_def)
  next
    case False
    with parse_step [OF assms(1) Cons.prems] obtain h b b' c' where p: "p = (h, b)"
        "?res = Inr (0, Some (h, b'), c')" "sim b b'" "chan_inv c'" "awaits body c' ps rest"
      by (auto simp: delivers_def)
    let ?st = "snd (handle (h, b') st)"
    from Cons.IH [OF p(4) _ p(5), of ?st] Cons.prems(2) obtain "done" todo ds c'' where
      ih: "ps = done @ todo" "received sim done ds"
        "input_loop (factory raw) raw handle c' ?st = Inr (Drained 0, c'', handle_all handle ds ?st)"
        "chan_inv c''" "starved c''" "awaits body c'' todo rest" by auto
    have "input_loop (factory raw) raw handle c st = input_loop (factory raw) raw handle c' ?st"
      using p(2) assms(2) by (subst input_loop.simps) (auto simp: accepts_def case_prod_unfold Let_def)
    then show ?thesis using ih p(1,3)
      by (intro exI [of _ "p # done"] exI [of _ todo] exI [of _ "(h, b') # ds"] exI [of _ c'']) (simp add: received_def)
  qed
next
  case Nil
  with parse_step [OF assms(1) Nil] obtain c' where "handleInputParsePacket (factory raw) raw c = Inr (0, None, c')"
      "chan_inv c'" "awaits body c' [] rest" "starved c'"
    by (auto simp: starves_def delivers_def)
  then show ?case by (intro exI [of _ "[]"] exI [of _ c']) (simp add: input_loop.simps received_def)
qed

lemma awaits_more:
  assumes "awaits body c ps (x @ rest)" "pc_header c' = pc_header c"
    "blk_data (pc_partialMessage c') = blk_data (pc_partialMessage c) @ x"
  shows "awaits body c' ps rest"
  using assms by (auto simp: awaits_def split: header_ptr.splits list.splits)

lemma input_delivers:
  assumes "raw_ok raw" "accepts handle" "chan_inv c" "list_all (fits body ptype ok) ps" "awaits body c ps (x @ rest)"
    "recv (blk_space (pc_partialMessage c)) = Some x" "x \<noteq> []" "length x \<le> blk_space (pc_partialMessage c)"
  shows "\<exists>done todo ds c'. ps = done @ todo \<and> received sim done ds
    \<and> handleInput_i (factory raw) raw handle recv c st = Inr (0, c', handle_all handle ds st)
    \<and> chan_inv c' \<and> starved c' \<and> awaits body c' todo rest"
proof -
  from readInputBuffer_appends [of c recv x] assms(3,6-8) obtain c1 where c1: "readInputBuffer recv c = (int (length x), c1)"
      "chan_inv c1" "pc_header c1 = pc_header c" "blk_data (pc_partialMessage c1) = blk_data (pc_partialMessage c) @ x"
    by blast
  from awaits_more [OF assms(5) c1(3,4)] have "awaits body c1 ps rest" .
  from loop_delivers [OF assms(1,2) c1(2) assms(4) this, of st] obtain "done" todo ds c' where
    l: "ps = done @ todo" "received sim done ds"
      "input_loop (factory raw) raw handle c1 st = Inr (Drained 0, c', handle_all handle ds st)"
      "chan_inv c'" "starved c'" "awaits body c' todo rest" by blast
  have "handleInput_i (factory raw) raw handle recv c st = Inr (0, c', handle_all handle ds st)"
    using c1(1) l(3) by (simp add: handleInput_i_def)
  with l show ?thesis by blast
qed

lemma feed_delivers:
  assumes "raw_ok raw" "accepts handle" "chan_inv c" "starved c" "list_all (fits body ptype ok) ps" "awaits body c ps rest"
  shows "\<exists>done todo ds c' rest'. ps = done @ todo \<and> received sim done ds
    \<and> feed (factory raw) raw handle ks rest c st = Inr (0, rest', c', handle_all handle ds st)
    \<and> chan_inv c' \<and> starved c' \<and> awaits body c' todo rest' \<and> length rest' \<le> length rest - length ks"
  using assms(3-6)
proof (induction ks arbitrary: c ps rest st)
  case (Cons k ks)
  show ?case
  proof (cases "rest = []")
    case True
    with Cons.prems show ?thesis
      by (intro exI [of _ "[]"] exI [of _ ps] exI [of _ c]) (simp add: received_def)
  next
    case False
    let ?n = "min (blk_space (pc_partialMessage c)) (Suc k)"
    let ?x = "take ?n rest" let ?r = "drop ?n rest"
    have sp: "0 < ?n" using starved_space [OF Cons.prems(1,2)] by simp
    have "?x \<noteq> []" "length ?x \<le> blk_space (pc_partialMessage c)" using sp False by auto
    from input_delivers [OF assms(1,2) Cons.prems(1,3), of ?x ?r "\<lambda>n. Some (take (min n (Suc k)) rest)" st] this Cons.prems(4)
    obtain d1 t1 ds1 c1 where
      i: "ps = d1 @ t1" "received sim d1 ds1"
        "handleInput_i (factory raw) raw handle (\<lambda>n. Some (take (min n (Suc k)) rest)) c st = Inr (0, c1, handle_all handle ds1 st)"
        "chan_inv c1" "starved c1" "awaits body c1 t1 ?r" by auto
    have "list_all (fits body ptype ok) t1" using Cons.prems(3) i(1) by simp
    from Cons.IH [OF i(4,5) this i(6), of "handle_all handle ds1 st"] obtain d2 t2 ds2 c2 r2 where
      j: "t1 = d2 @ t2" "received sim d2 ds2"
        "feed (factory raw) raw handle ks ?r c1 (handle_all handle ds1 st) = Inr (0, r2, c2, handle_all handle ds2 (handle_all handle ds1 st))"
        "chan_inv c2" "starved c2" "awaits body c2 t2 r2" "length r2 \<le> length ?r - length ks" by blast
    have "length r2 \<le> length rest - length (k # ks)" using j(7) sp False by auto
    then show ?thesis using i j False received_append [OF i(2) j(2)]
      by (intro exI [of _ "d1 @ d2"] exI [of _ t2] exI [of _ "ds1 @ ds2"] exI [of _ c2] exI [of _ r2])
         (simp add: handle_all_append)
  qed
next
  case Nil
  then show ?case by (intro exI [of _ "[]"] exI [of _ ps] exI [of _ c] exI [of _ rest]) (simp add: received_def)
qed

end
context packet_family
begin

lemma awaits_done:
  assumes "chan_inv c" "starved c" "list_all (fits body ptype ok) ps" "awaits body c ps []"
  shows "ps = [] \<and> pc_header c = NoHeader \<and> blk_data (pc_partialMessage c) = []"
proof (cases "pc_header c")
  case NoHeader
  have "length (blk_data (pc_partialMessage c)) < 98"
    using assms(1,2) NoHeader by (simp add: chan_inv_def starved_def)
  then show ?thesis using assms(3,4) NoHeader
    by (cases ps) (auto simp: awaits_def fits_def frame_length)
next
  case (Header h)
  then obtain b ps' where ps: "ps = (h, b) # ps'" and "blk_data (pc_partialMessage c) = encode (body b) @ stream_of body ps'"
    using assms(4) by (auto simp: awaits_def split: list.splits)
  then have "length (encode (body b)) \<le> blk_length (pc_partialMessage c)"
    using assms(1) length_blk_data [of "pc_partialMessage c"] by (simp add: chan_inv_def)
  with assms(2,3) ps Header show ?thesis by (simp add: starved_def fits_def sized_def)
qed (use assms(1) in \<open>simp add: chan_inv_def\<close>)

lemma new_channel:
  assumes "raw_ok raw"
  shows "chan_inv (PacketChannel_ctor raw ar aw l)" "starved (PacketChannel_ctor raw ar aw l)"
    "awaits body (PacketChannel_ctor raw ar aw l) ps (stream_of body ps)"
proof -
  let ?c = "PacketChannel_ctor raw ar aw l"
  define n where "n = unat MAX_BUFFER_SIZE"
  have n: "1024 \<le> n" "98 \<le> n" by (simp_all add: n_def MAX_BUFFER_SIZE_def)
  have c: "pc_header ?c = NoHeader" "pc_partialMessage ?c = new_block raw n"
    by (simp_all add: PacketChannel_ctor_def n_def)
  have b: "blk_size (new_block raw n) = n" "blk_length (new_block raw n) = 0" "blk_data (new_block raw n) = []"
      "blk_ok (new_block raw n)" "blk_rd (new_block raw n) = 0"
    using assms by (simp_all add: new_block_def blk_size_def blk_length_def blk_data_def blk_ok_def raw_ok_def)
  show "chan_inv ?c" "starved ?c" "awaits body ?c ps (stream_of body ps)"
    using c b n by (simp_all add: chan_inv_def starved_def awaits_def)
qed

lemma framing:
  assumes "raw_ok raw" "accepts handle" "list_all (fits body ptype ok) ps"
  shows "\<exists>done todo ds c rest. ps = done @ todo \<and> received sim done ds
    \<and> feed (factory raw) raw handle ks (stream_of body ps) (PacketChannel_ctor raw ar aw l) st
        = Inr (0, rest, c, handle_all handle ds st)
    \<and> 0 < blk_space (pc_partialMessage c)
    \<and> (length (stream_of body ps) \<le> length ks \<longrightarrow>
        rest = [] \<and> todo = [] \<and> pc_header c = NoHeader \<and> blk_data (pc_partialMessage c) = [])"
proof -
  define c0 s0 where "c0 = PacketChannel_ctor raw ar aw l" and "s0 = stream_of body ps"
  have c0: "chan_inv c0" "starved c0" "awaits body c0 ps s0"
    unfolding c0_def s0_def by (rule new_channel [OF assms(1)])+
  from feed_delivers [OF assms(1,2) c0(1,2) assms(3) c0(3), of ks st] obtain "done" todo ds c rest where
    f: "ps = done @ todo" "received sim done ds"
      "feed (factory raw) raw handle ks s0 c0 st = Inr (0, rest, c, handle_all handle ds st)"
      "chan_inv c" "starved c" "awaits body c todo rest" "length rest \<le> length s0 - length ks"
    by blast
  have "rest = [] \<and> todo = [] \<and> pc_header c = NoHeader \<and> blk_data (pc_partialMessage c) = []"
    if l: "length (stream_of body ps) \<le> length ks"
  proof -
    from l f(7) have r: "rest = []" by (simp add: s0_def)
    with f(6) have "awaits body c todo []" by simp
    moreover from assms(3) f(1) have "list_all (fits body ptype ok) todo" by simp
    ultimately show ?thesis using awaits_done [OF f(4,5)] r by simp
  qed
  then show ?thesis using f(1-3) starved_space [OF f(4,5)]
    by (intro exI [of _ "done"] exI [of _ todo] exI [of _ ds] exI [of _ c] exI [of _ rest]) (simp add: c0_def s0_def)
qed

end

section \<open>Sending\<close>

text \<open>\<^verbatim>\<open>serializePacket\<close>: a packet without a request number gets the next one; header and body are run on a
  new output stream, whose blocks are copied into one.\<close>

definition serializePacket :: "rdr_consts \<Rightarrow> (nat \<Rightarrow> byte list option) \<Rightarrow> nat \<Rightarrow> stheno_header \<Rightarrow> wop list
    \<Rightarrow> packet_channel \<Rightarrow> (byte list \<times> stheno_header \<times> packet_channel) option" where
  "serializePacket consts alloc tradeoff h body c =
     (let (h', c') = (if sh_requestID h = 0
                      then (h\<lparr>sh_requestID := pc_sequenceID c + 1\<rparr>, c\<lparr>pc_sequenceID := pc_sequenceID c + 1\<rparr>)
                      else (h, c))
      in Option.bind (serialize_packet h' body) (\<lambda>ops.
           map_option (\<lambda>os. (bos_content os, h', c')) (run_ops bos_put ops (bos_ctor consts alloc True tradeoff 0))))"

definition sendPacket :: "rdr_consts \<Rightarrow> (nat \<Rightarrow> byte list option) \<Rightarrow> nat \<Rightarrow> send_answer list \<Rightarrow> stheno_header \<Rightarrow> wop list
    \<Rightarrow> packet_channel \<Rightarrow> (int \<times> byte list \<times> packet_channel) option" where
  "sendPacket consts alloc tradeoff as h body c =
     Option.bind (serializePacket consts alloc tradeoff h body c) (\<lambda>(mb, h', c'). send_sync as mb c')"

lemma send_loop_all:
  "send_loop as mb = Some (ret, out) \<Longrightarrow> (ret = 0 \<and> out = mb) \<or> (ret = -1 \<and> (\<exists>left. mb = out @ left))"
proof (induction as mb arbitrary: ret out rule: send_loop.induct)
  case (5 k as b bs)
  let ?mb = "b # bs"
  from 5(2) obtain out' where o: "send_loop as (drop k ?mb) = Some (ret, out')" "out = take k ?mb @ out'"
    by (auto simp: case_prod_unfold)
  from 5(1) [OF o(1)] consider "ret = 0" "out' = drop k ?mb" | left where "ret = -1" "drop k ?mb = out' @ left" by blast
  then show ?case
  proof cases
    case 2
    then have "?mb = out @ left" using o(2) by (metis append.assoc append_take_drop_id)
    with 2 show ?thesis by blast
  qed (use o(2) in simp)
qed auto

text \<open>Answers that take enough bytes end the loop with everything sent.\<close>

lemma send_loop_returns:
  "\<forall>a\<in>set as. a \<noteq> Expired \<and> a \<noteq> Refused \<and> a \<noteq> Took 0 \<Longrightarrow> length mb \<le> length as \<Longrightarrow> send_loop as mb = Some (0, mb)"
proof (induction as mb rule: send_loop.induct)
  case (5 k as b bs)
  then have "send_loop as (drop k (b # bs)) = Some (0, drop k (b # bs))" by (cases k) auto
  then show ?case by (simp del: take.simps drop.simps)
qed auto

text \<open>Packets as they are on the wire: numbered, with their size.\<close>

fun numbered :: "('b \<Rightarrow> wop list) \<Rightarrow> u32 \<Rightarrow> (stheno_header \<times> 'b) list \<Rightarrow> (stheno_header \<times> 'b) list" where
  "numbered body n [] = []"
| "numbered body n ((h, b) # ps) =
     (let size = word_of_nat (length (encode (body b))) in
      if sh_requestID h = 0 then (h\<lparr>sh_requestID := n + 1, sh_messageSize := size\<rparr>, b) # numbered body (n + 1) ps
      else (h\<lparr>sh_messageSize := size\<rparr>, b) # numbered body n ps)"

text \<open>One \<^verbatim>\<open>sendPacket\<close> after the other, each with the answers of the socket, until one fails.\<close>

fun send_all :: "rdr_consts \<Rightarrow> (nat \<Rightarrow> byte list option) \<Rightarrow> nat \<Rightarrow> ('b \<Rightarrow> wop list)
    \<Rightarrow> (send_answer list \<times> stheno_header \<times> 'b) list \<Rightarrow> packet_channel \<Rightarrow> (int \<times> byte list \<times> packet_channel) option" where
  "send_all consts alloc tradeoff body [] c = Some (0, [], c)"
| "send_all consts alloc tradeoff body ((as, h, b) # ps) c =
     Option.bind (sendPacket consts alloc tradeoff as h (body b) c) (\<lambda>(ret, out, c').
       if ret = -1 then Some (-1, out, c')
       else map_option (\<lambda>(ret', out', c''). (ret', out @ out', c'')) (send_all consts alloc tradeoff body ps c'))"

lemma serializePacket_frame:
  assumes "consts_ok consts" "alloc_ok alloc" "header_ok h" "wire_ok body"
  shows "\<exists>h' n. serializePacket consts alloc tradeoff h body c =
      Some (frame body (h'\<lparr>sh_messageSize := word_of_nat (length (encode body))\<rparr>), h', c\<lparr>pc_sequenceID := n\<rparr>)
    \<and> (h', n) = (if sh_requestID h = 0 then (h\<lparr>sh_requestID := pc_sequenceID c + 1\<rparr>, pc_sequenceID c + 1) else (h, pc_sequenceID c))"
proof -
  define h' where "h' = (if sh_requestID h = 0 then h\<lparr>sh_requestID := pc_sequenceID c + 1\<rparr> else h)"
  let ?h = "h'\<lparr>sh_messageSize := word_of_nat (length (encode body))\<rparr>"
  have ok: "header_ok ?h" using assms(3) by (simp add: h'_def header_ok_def)
  have sz: "serialize_packet h' body = Some (SthenoHeader_serialize ?h @ body)"
    using wire_run [OF assms(4,1,2), of 0 0] by (auto simp: serialize_packet_def)
  have "wire_ok (SthenoHeader_serialize ?h @ body)" using assms(4) header.calls [OF ok] by simp
  from wire_run [OF this assms(1,2), of tradeoff 0] obtain t where
    "run_ops bos_put (SthenoHeader_serialize ?h @ body) (bos_ctor consts alloc True tradeoff 0) = Some t"
    "bos_content t = frame body ?h" by (auto simp: frame_def)
  with sz show ?thesis by (auto simp: serializePacket_def h'_def)
qed

context packet_family
begin

lemma send_all_stream:
  assumes "consts_ok consts" "alloc_ok alloc"
    "list_all (\<lambda>(as, h, b). header_ok h \<and> ok b) xs" "\<not> ch_close c"
    "send_all consts alloc tradeoff body xs c = Some (0, out, c')"
  shows "out = stream_of body (numbered body (pc_sequenceID c) (map snd xs))"
  using assms(3-5)
proof (induction xs arbitrary: c out)
  case (Cons x xs)
  obtain as h b where x: "x = (as, h, b)" by (cases x)
  with Cons.prems(1) have hb: "header_ok h" "wire_ok (body b)" using body_in_range by auto
  from serializePacket_frame [OF assms(1,2) hb, of tradeoff c] obtain h' n where
    s: "serializePacket consts alloc tradeoff h (body b) c =
        Some (frame (body b) (h'\<lparr>sh_messageSize := word_of_nat (length (encode (body b)))\<rparr>), h', c\<lparr>pc_sequenceID := n\<rparr>)"
      "(h', n) = (if sh_requestID h = 0 then (h\<lparr>sh_requestID := pc_sequenceID c + 1\<rparr>, pc_sequenceID c + 1) else (h, pc_sequenceID c))"
    by blast
  let ?mb = "frame (body b) (h'\<lparr>sh_messageSize := word_of_nat (length (encode (body b)))\<rparr>)"
  let ?c = "c\<lparr>pc_sequenceID := n\<rparr>"
  from Cons.prems(3) x s(1) Cons.prems(2) obtain ret out1 where l: "send_loop as ?mb = Some (ret, out1)" "ret \<noteq> -1"
    by (auto simp: sendPacket_def send_sync_def bind_eq_Some_conv split: if_splits)
  then have o1: "out1 = ?mb" "ret = 0" using send_loop_all by blast+
  with l Cons.prems(3) x s(1) Cons.prems(2) obtain out2 where
    o2: "out = ?mb @ out2" "send_all consts alloc tradeoff body xs ?c = Some (0, out2, c')"
    by (auto simp: sendPacket_def send_sync_def)
  from Cons.IH [of ?c out2] Cons.prems(1,2) o2(2) have "out2 = stream_of body (numbered body n (map snd xs))" by simp
  then show ?case using o2(1) s(2) x by (auto simp: Let_def split: if_splits)
qed simp

lemma numbered_fits:
  assumes "list_all (\<lambda>(h, b). header_ok h \<and> ok b \<and> sh_messageType h = ptype b \<and> length (encode (body b)) + 1122 < 2 ^ 32) ps"
  shows "list_all (fits body ptype ok) (numbered body n ps)"
  using assms
proof (induction ps arbitrary: n)
  case (Cons p ps)
  then show ?case
    by (cases p) (auto simp: Let_def fits_def sized_def header_ok_def unat_of_nat)
qed simp

end
text \<open>A socket that takes at least one byte per call and is asked often enough.\<close>

definition willing :: "nat \<Rightarrow> send_answer list \<Rightarrow> bool" where
  "willing n as = (list_all (\<lambda>a. a \<noteq> Expired \<and> a \<noteq> Refused \<and> a \<noteq> Took 0) as \<and> n \<le> length as)"

context packet_family
begin

lemma send_all_returns:
  assumes "consts_ok consts" "alloc_ok alloc" "\<not> ch_close c"
    "list_all (\<lambda>(as, h, b). header_ok h \<and> ok b \<and> willing (98 + length (encode (body b))) as) xs"
  shows "\<exists>c'. send_all consts alloc tradeoff body xs c = Some (0, stream_of body (numbered body (pc_sequenceID c) (map snd xs)), c')
    \<and> \<not> ch_close c'"
  using assms(3,4)
proof (induction xs arbitrary: c)
  case (Cons x xs)
  obtain as h b where x: "x = (as, h, b)" by (cases x)
  let ?size = "word_of_nat (length (encode (body b))) :: u32"
  from Cons.prems(2) x have hb: "header_ok h" "wire_ok (body b)" "willing (98 + length (encode (body b))) as"
    using body_in_range by auto
  from serializePacket_frame [OF assms(1,2) hb(1,2), of tradeoff c] obtain h' n where
    s: "serializePacket consts alloc tradeoff h (body b) c = Some (frame (body b) (h'\<lparr>sh_messageSize := ?size\<rparr>), h', c\<lparr>pc_sequenceID := n\<rparr>)"
      "(h', n) = (if sh_requestID h = 0 then (h\<lparr>sh_requestID := pc_sequenceID c + 1\<rparr>, pc_sequenceID c + 1) else (h, pc_sequenceID c))"
    by blast
  let ?mb = "frame (body b) (h'\<lparr>sh_messageSize := ?size\<rparr>)" let ?c = "c\<lparr>pc_sequenceID := n\<rparr>"
  have "header_ok (h'\<lparr>sh_messageSize := ?size\<rparr>)" using s(2) hb(1) by (simp add: header_ok_def split: if_splits)
  from header_length [OF this] have "length ?mb = 98 + length (encode (body b))"
    by (simp add: frame_def SthenoHeader_getSize_def)
  then have "send_loop as ?mb = Some (0, ?mb)"
    using send_loop_returns [of as ?mb] hb(3) by (simp add: willing_def list_all_iff)
  then have p: "sendPacket consts alloc tradeoff as h (body b) c = Some (0, ?mb, ?c)"
    using s(1) Cons.prems(1) by (simp add: sendPacket_def send_sync_def)
  from Cons.IH [of ?c] Cons.prems obtain c' where
    "send_all consts alloc tradeoff body xs ?c = Some (0, stream_of body (numbered body n (map snd xs)), c')" "\<not> ch_close c'"
    by auto
  then show ?case using x p s(2) by (auto simp: Let_def split: if_splits)
qed simp

lemma end_to_end:
  assumes "raw_ok raw" "accepts handle" "consts_ok consts" "alloc_ok alloc" "\<not> ch_close sender"
    "list_all (\<lambda>(as, h, b). header_ok h \<and> ok b \<and> sh_messageType h = ptype b
       \<and> length (encode (body b)) + 1122 < 2 ^ 32 \<and> willing (98 + length (encode (body b))) as) xs"
  shows "\<exists>out sender' done todo ds c rest.
    send_all consts alloc tradeoff body xs sender = Some (0, out, sender')
    \<and> numbered body (pc_sequenceID sender) (map snd xs) = done @ todo \<and> received sim done ds
    \<and> feed (factory raw) raw handle ks out (PacketChannel_ctor raw ar aw l) st = Inr (0, rest, c, handle_all handle ds st)
    \<and> 0 < blk_space (pc_partialMessage c)
    \<and> (length out \<le> length ks \<longrightarrow> rest = [] \<and> todo = [] \<and> pc_header c = NoHeader \<and> blk_data (pc_partialMessage c) = [])"
proof -
  let ?ps = "numbered body (pc_sequenceID sender) (map snd xs)"
  have "list_all (\<lambda>(as, h, b). header_ok h \<and> ok b \<and> willing (98 + length (encode (body b))) as) xs"
    using assms(6) by (auto simp: list_all_iff)
  from send_all_returns [OF assms(3-5) this, of tradeoff] obtain sender' where
    s: "send_all consts alloc tradeoff body xs sender = Some (0, stream_of body ?ps, sender')" by blast
  have "list_all (fits body ptype ok) ?ps"
    using assms(6) by (intro numbered_fits) (auto simp: list_all_iff)
  from framing [OF assms(1,2) this, of ks ar aw l st] obtain "done" todo ds c rest where
    f: "?ps = done @ todo" "received sim done ds"
      "feed (factory raw) raw handle ks (stream_of body ?ps) (PacketChannel_ctor raw ar aw l) st = Inr (0, rest, c, handle_all handle ds st)"
      "0 < blk_space (pc_partialMessage c)"
      "length (stream_of body ?ps) \<le> length ks \<longrightarrow>
        rest = [] \<and> todo = [] \<and> pc_header c = NoHeader \<and> blk_data (pc_partialMessage c) = []" by blast
  then show ?thesis using s
    by (intro exI [of _ "stream_of body ?ps"] exI [of _ sender'] exI [of _ "done"] exI [of _ todo] exI [of _ ds]
        exI [of _ c] exI [of _ rest]) simp
qed

end

section \<open>Properties of packet channels\<close>

text \<open>C10: a packet channel delivers what was sent. Packets of the cell protocol, with arguments in range
  and bodies that leave room for header and slack below \<open>2 ^ 32\<close>, are sent one after the other with
  \<^verbatim>\<open>sendPacket\<close>, over a socket that takes any positive number of bytes per call. Then every send
  returns 0; and for every way in which the network cuts the bytes into pieces, at the receiving
  channel no buffer is overrun, the channel stays open, \<^verbatim>\<open>handlePacket\<close> has been called, in order, with
  exactly a prefix of the packets sent, numbered and sized by the sender, and the buffer has room for
  the next \<^verbatim>\<open>recv\<close>. After as many calls of \<^verbatim>\<open>handleInput_i\<close> as there are bytes all packets have been handed
  on and nothing is left in the buffer.\<close>

theorem packets_delivered:
  assumes "raw_ok raw" "accepts handle" "consts_ok consts" "alloc_ok alloc" "\<not> ch_close sender"
    "list_all (\<lambda>(as, h, b). header_ok h \<and> body_ok b \<and> sh_messageType h = packet_type b
       \<and> length (encode (serializeBody b)) + 1122 < 2 ^ 32 \<and> willing (98 + length (encode (serializeBody b))) as) xs"
  shows "\<exists>out sender' done todo ds c rest.
    send_all consts alloc tradeoff serializeBody xs sender = Some (0, out, sender')
    \<and> numbered serializeBody (pc_sequenceID sender) (map snd xs) = done @ todo
    \<and> received (rel_cell_packet same_bytes) done ds
    \<and> feed (createPacket raw) raw handle ks out (PacketChannel_ctor raw ar aw l) st = Inr (0, rest, c, handle_all handle ds st)
    \<and> 0 < blk_space (pc_partialMessage c)
    \<and> (length out \<le> length ks \<longrightarrow> rest = [] \<and> todo = [] \<and> pc_header c = NoHeader \<and> blk_data (pc_partialMessage c) = [])"
  using assms by (rule cell_packets.end_to_end)

definition sample_leave :: "mb_chain cell_packet" where
  "sample_leave = LeaveMeshPacket (replicate 16 1) (replicate 16 2)"

definition collect :: "'p \<Rightarrow> 'p list \<Rightarrow> int \<times> 'p list" where
  "collect p l = (0, l @ [p])"

theorem packets_delivered_witness:
  "\<exists>out c ds. feed (createPacket sample_raw_packet) sample_raw_packet collect (replicate 200 4) out
      (PacketChannel_ctor sample_raw_packet True True True) [] = Inr (0, [], c, handle_all collect ds [])
    \<and> received (rel_cell_packet same_bytes) [((sample_header 0x15)\<lparr>sh_messageSize := 40\<rparr>, sample_leave)] ds"
proof -
  define as where "as = replicate 138 (Took 1)"
  define xs where "xs = [(as, sample_header 0x15, sample_leave)]"
  define sender where "sender = PacketChannel_ctor sample_raw_packet True True True"
  have len: "length (encode (serializeBody sample_leave)) = 40"
    by (simp add: sample_leave_def LeaveMesh_serialize_def)
  have pkt: "body_ok sample_leave" "sh_messageType (sample_header 0x15) = packet_type sample_leave"
    "header_ok (sample_header 0x15)" "sh_requestID (sample_header 0x15) \<noteq> 0"
    by (simp_all add: sample_leave_def uuid_ok_def sample_header_def SthenoHeader_ctor_def header_ok_def)
  have env: "raw_ok sample_raw_packet" "accepts (collect :: stheno_header \<times> mb_chain cell_packet \<Rightarrow> _)" "\<not> ch_close sender"
    by (simp_all add: raw_ok_def sample_raw_packet_def accepts_def collect_def sender_def PacketChannel_ctor_def)
  have "willing 138 as" by (simp add: willing_def as_def list_all_iff)
  then have "list_all (\<lambda>(as, h, b). header_ok h \<and> body_ok b \<and> sh_messageType h = packet_type b
       \<and> length (encode (serializeBody b)) + 1122 < 2 ^ 32 \<and> willing (98 + length (encode (serializeBody b))) as)
     xs"
    using pkt len by (simp add: xs_def)
  note packets_delivered [OF env(1,2) sample_stream_ok env(3) this, of 256 "replicate 200 4" True True True "[]"]
  then obtain out sender' "done" todo ds c rest where
    o: "send_all sample_consts zero_alloc 256 serializeBody xs sender = Some (0, out, sender')"
    and n: "numbered serializeBody (pc_sequenceID sender) (map snd xs) = done @ todo"
    and r: "received (rel_cell_packet same_bytes) done ds"
    and f: "feed (createPacket sample_raw_packet) sample_raw_packet collect (replicate 200 4) out
      (PacketChannel_ctor sample_raw_packet True True True) [] = Inr (0, rest, c, handle_all collect ds [])"
    and all: "length out \<le> length (replicate 200 (4::nat)) \<longrightarrow> rest = [] \<and> todo = []" by blast
  have p: "numbered serializeBody k (map snd xs) = [((sample_header 0x15)\<lparr>sh_messageSize := 40\<rparr>, sample_leave)]" for k
    using pkt(4) len by (simp add: xs_def)
  have "out = stream_of serializeBody [((sample_header 0x15)\<lparr>sh_messageSize := 40\<rparr>, sample_leave)]"
    using cell_packets.send_all_stream [OF sample_stream_ok _ env(3) o] pkt(1,3) p by (simp add: xs_def)
  moreover have "sized (serializeBody sample_leave) ((sample_header 0x15)\<lparr>sh_messageSize := 40\<rparr>)"
    using len pkt(3) by (simp add: sized_def)
  ultimately have "length out = 138" using frame_length by simp
  with all n r f p show ?thesis by auto
qed
text \<open>A channel with given bytes in its first buffer.\<close>

definition filled_channel :: "byte list \<Rightarrow> packet_channel" where
  "filled_channel bs = (PacketChannel_ctor sample_raw_packet True True True)\<lparr>pc_partialMessage :=
     \<lparr>blk_base = bs @ replicate (1024 - length bs) 0, blk_rd = 0, blk_wr = length bs\<rparr>\<rparr>"

lemma filled_channel_props:
  assumes "length bs \<le> 1024"
  shows "chan_inv (filled_channel bs)" "blk_ok (pc_partialMessage (filled_channel bs))" "blk_size (pc_partialMessage (filled_channel bs)) = 1024"
    "blk_data (pc_partialMessage (filled_channel bs)) = bs" "blk_length (pc_partialMessage (filled_channel bs)) = length bs"
    "pc_header (filled_channel bs) = NoHeader"
  using assms by (simp_all add: filled_channel_def chan_inv_def blk_ok_def blk_size_def blk_data_def blk_length_def PacketChannel_ctor_def)

lemma sample_header_ok [simp]: "header_ok (sample_header t)" "length (encode (SthenoHeader_serialize (sample_header t))) = 98"
  "length (encode (SthenoHeader_serialize ((sample_header t)\<lparr>sh_messageSize := n\<rparr>))) = 98"
proof -
  show h: "header_ok (sample_header t)" by (simp add: sample_header_def SthenoHeader_ctor_def header_ok_def)
  show "length (encode (SthenoHeader_serialize (sample_header t))) = 98"
    using header_length [OF h] by (simp add: SthenoHeader_getSize_def)
  show "length (encode (SthenoHeader_serialize ((sample_header t)\<lparr>sh_messageSize := n\<rparr>))) = 98"
    using header_length [of "(sample_header t)\<lparr>sh_messageSize := n\<rparr>"] h by (simp add: SthenoHeader_getSize_def)
qed

text \<open>C34: a header that announces a body of nearly \<open>2 ^ 32\<close> bytes. The size of the new buffer is computed in
  32 bits and wraps, so that the bytes that came with the header are copied past its end.\<close>

theorem oversized_body_overruns:
  assumes "header_ok h" "2 ^ 32 - 1122 \<le> unat (sh_messageSize h)" "pc_header c = NoHeader" "blk_ok (pc_partialMessage c)"
    "blk_size (pc_partialMessage c) = 1024" "blk_data (pc_partialMessage c) = encode (SthenoHeader_serialize h) @ d"
    "unat (sh_messageSize h) + 1122 < 2 ^ 32 + length d"
  shows "handleInputParsePacket factory raw c = Inl Overrun"
proof -
  let ?pm = "pc_partialMessage c" let ?N = "unat (sh_messageSize h)"
  have H: "length (encode (SthenoHeader_serialize h)) = 98" using header_length [OF assms(1)] by (simp add: SthenoHeader_getSize_def)
  have l: "blk_length ?pm = 98 + length d" using assms(4,6) H length_blk_data [of ?pm] by simp
  let ?pm1 = "blk_advance 98 ?pm"
  have a: "blk_length ?pm1 = length d" using blk_advance_ok [OF assms(4), of 98] l by simp
  have d: "length d + 98 \<le> 1024" using l assms(4,5) by (auto simp: blk_ok_def blk_length_def)
  have "?N < 2 ^ LENGTH(32)" by (rule unsigned_less)
  then have "?N < 2 ^ 32" by simp
  then have "unat (SthenoHeader_getSize + sh_messageSize h + MAX_BUFFER_SIZE) = ?N + 1122 - 2 ^ 32"
    using assms(2) by (simp add: SthenoHeader_getSize_def MAX_BUFFER_SIZE_def unat_word_ariths mod_if)
  then have "rebuffer raw (unat (SthenoHeader_getSize + sh_messageSize h + MAX_BUFFER_SIZE)) ?pm1 = Inl Overrun"
    using a assms(2,7) by (simp add: rebuffer_def)
  moreover have "SthenoHeader_deserialize raw (input (blk_data ?pm)) = (h, input d)"
    using header.des_ser [OF assms(1), of raw d] assms(6) by simp
  moreover have "blk_space ?pm < ?N - length d" using assms(2,5) d by (simp add: blk_space_def)
  moreover have "length d < ?N" "?N \<noteq> 0" using assms(2) d by simp_all
  ultimately show ?thesis using assms(3) l a
    by (simp add: handleInputParsePacket_def Let_def SthenoHeader_getSize_def bis_length_def)
qed

theorem oversized_body_overruns_witness:
  "\<exists>c. chan_inv c \<and> handleInputParsePacket (createPacket sample_raw_packet) sample_raw_packet c = Inl Overrun"
proof -
  let ?h = "(sample_header 0x15)\<lparr>sh_messageSize := 0xFFFFFB9E\<rparr>"
  let ?bytes = "encode (SthenoHeader_serialize ?h) @ [0]"
  have l: "length ?bytes \<le> 1024" by simp
  have "handleInputParsePacket (createPacket sample_raw_packet) sample_raw_packet (filled_channel ?bytes) = Inl Overrun"
    by (rule oversized_body_overruns [of ?h _ "[0]"]) (simp_all add: filled_channel_props [OF l])
  with filled_channel_props(1) [OF l] show ?thesis by blast
qed

text \<open>C35: a packet of a type the factory does not know. The parser drops its header and keeps its body in
  the buffer, where it will be taken for the next header; the loop ends, so that packets behind it are
  not handed on.\<close>

theorem unknown_packet_desync:
  assumes "header_ok h" "\<And>s. factory h s = None" "unat (sh_messageSize h) \<le> length d" "raw_ok raw" "chan_inv c"
    "pc_header c = NoHeader" "blk_data (pc_partialMessage c) = encode (SthenoHeader_serialize h) @ d"
  shows "\<exists>c'. input_loop factory raw handle c st = Inr (Drained 0, c', st)
    \<and> pc_header c' = NoHeader \<and> blk_data (pc_partialMessage c') = d"
proof -
  let ?pm = "pc_partialMessage c" let ?pm1 = "blk_advance 98 ?pm" let ?c1 = "c\<lparr>pc_partialMessage := ?pm1\<rparr>"
  have H: "length (encode (SthenoHeader_serialize h)) = 98" using header_length [OF assms(1)] by (simp add: SthenoHeader_getSize_def)
  have ok: "blk_ok ?pm" using assms(5) by (simp add: chan_inv_def)
  have l: "blk_length ?pm = 98 + length d" using ok assms(7) H length_blk_data [of ?pm] by simp
  have a: "blk_ok ?pm1" "blk_length ?pm1 = length d" "blk_data ?pm1 = d"
    using blk_advance_ok [OF ok, of 98] l assms(7) H by simp_all
  have z: "blk_advance 0 b = b" for b by (simp add: blk_advance_def)
  from a(2) l ok have "blk_length ?pm1 \<le> blk_size ?pm1" by (auto simp: blk_ok_def blk_length_def)
  from rebuffer_kept [OF assms(4) a(1) this] obtain pm' where
    pm': "rebuffer raw (blk_size ?pm1) ?pm1 = Inr pm'" "blk_data pm' = d" using a(3) by metis
  have "SthenoHeader_deserialize raw (input (blk_data ?pm)) = (h, input d)"
    using header.des_ser [OF assms(1), of raw d] assms(7) by simp
  moreover have "take_packet factory raw h (input d) ?c1 = Inr (0, None, ?c1\<lparr>pc_header := NoHeader, pc_partialMessage := pm'\<rparr>)"
    using assms(2) a(2) pm' by (simp add: take_packet_def bis_length_def z)
  ultimately have "handleInputParsePacket factory raw c = Inr (0, None, c\<lparr>pc_header := NoHeader, pc_partialMessage := pm'\<rparr>)"
    using assms(3,6) l a(2)
    by (simp add: handleInputParsePacket_def parse_body_def Let_def SthenoHeader_getSize_def bis_length_def)
  then show ?thesis using pm'(2)
    by (intro exI [of _ "c\<lparr>pc_header := NoHeader, pc_partialMessage := pm'\<rparr>"]) (simp add: input_loop.simps)
qed

theorem unknown_packet_desync_witness:
  "\<exists>c'. input_loop (createPacket sample_raw_packet) sample_raw_packet collect
      (filled_channel (encode (SthenoHeader_serialize ((sample_header 0x99)\<lparr>sh_messageSize := 3\<rparr>)) @ [1, 2, 3])) [] = Inr (Drained 0, c', [])
    \<and> pc_header c' = NoHeader \<and> blk_data (pc_partialMessage c') = [1, 2, 3]"
proof -
  let ?h = "(sample_header 0x99)\<lparr>sh_messageSize := 3\<rparr>"
  let ?bytes = "encode (SthenoHeader_serialize ?h) @ [1, 2, 3]"
  have l: "length ?bytes \<le> 1024" by simp
  have "createPacket sample_raw_packet ?h s = None" for s
    by (simp add: createPacket_def sample_header_def SthenoHeader_ctor_def)
  moreover have "raw_ok sample_raw_packet" by (simp add: raw_ok_def sample_raw_packet_def)
  ultimately show ?thesis
    by (intro unknown_packet_desync [of ?h]) (simp_all add: filled_channel_props [OF l])
qed

text \<open>A header whose identifiers claim more bytes than arrived. The parser reports failure after deleting
  the header it still points to; the destructor deletes it again.\<close>

lemma bad_header_deleted_twice:
  assumes "pc_header c = NoHeader" "98 \<le> blk_length (pc_partialMessage c)"
    "\<not> bis_good (snd (SthenoHeader_deserialize raw (input (blk_data (pc_partialMessage c)))))"
  shows "\<exists>c'. input_loop factory raw handle c st = Inr (ParseFailed, c', st) \<and> PacketChannel_dtor c' = Inl UseAfterFree"
proof -
  have "handleInputParsePacket factory raw c = Inr (-1, None, c\<lparr>pc_header := FreedHeader\<rparr>)"
    using assms by (auto simp: handleInputParsePacket_def Let_def SthenoHeader_getSize_def case_prod_unfold)
  then show ?thesis
    by (intro exI [of _ "c\<lparr>pc_header := FreedHeader\<rparr>"]) (simp add: input_loop.simps PacketChannel_dtor_def)
qed

lemma bad_header_deleted_twice_witness:
  "\<exists>c'. input_loop (createPacket sample_raw_packet) sample_raw_packet collect
      (filled_channel ([0, 0, 0, 0, 0, 0, 0, 0, 99, 0, 0, 0] @ replicate 86 0)) [] = Inr (ParseFailed, c', [])
    \<and> PacketChannel_dtor c' = Inl UseAfterFree"
proof -
  define bytes :: "byte list" where "bytes = [0, 0, 0, 0, 0, 0, 0, 0, 99, 0, 0, 0] @ replicate 86 0"
  have l: "length bytes = 98" by (simp add: bytes_def)
  have "\<not> bis_good (snd (SthenoHeader_deserialize sample_raw_packet (input bytes)))"
    unfolding bytes_def by code_simp
  then have "\<exists>c'. input_loop (createPacket sample_raw_packet) sample_raw_packet collect (filled_channel bytes) [] = Inr (ParseFailed, c', [])
      \<and> PacketChannel_dtor c' = Inl UseAfterFree"
    using l by (intro bad_header_deleted_twice) (simp_all add: filled_channel_props)
  then show ?thesis by (simp only: bytes_def)
qed

section \<open>The output queue\<close>

text \<open>Blocks are queued and the socket takes bytes when the reactor says so.\<close>

datatype output_event = Queue "byte list" | Writable nat

fun output_run :: "output_event list \<Rightarrow> 'x stream_channel_scheme \<Rightarrow> byte list \<times> nat \<times> 'x stream_channel_scheme" where
  "output_run [] c = ([], 0, c)"
| "output_run (Queue mb # es) c = output_run es (snd (sendAsync True mb c))"
| "output_run (Writable k # es) c =
     (let (ret, out, completed, c1) = handleOutput_i (Some k) c; (out', n, c') = output_run es c1
      in (out @ out', (if completed then Suc n else n), c'))"

fun queued :: "output_event list \<Rightarrow> byte list list" where
  "queued [] = []"
| "queued (Queue mb # es) = mb # queued es"
| "queued (Writable k # es) = queued es"

text \<open>C27: asynchronous output is a first-in first-out byte queue. Whatever blocks are queued and however
  many bytes the socket takes each time, what has been written followed by what is still queued is what
  was queued before followed by the blocks queued, in order, and the blocks reported as completed are
  exactly those that have left the queue, the first ones.\<close>

theorem output_in_order:
  fixes c :: "'x stream_channel_scheme"
  assumes "output_run es c = (out, n, c')"
  shows "out @ concat (ch_outputQueue c') = concat (ch_outputQueue c @ queued es)
    \<and> length (ch_outputQueue c') + n = length (ch_outputQueue c @ queued es)
    \<and> drop 1 (ch_outputQueue c') = drop (Suc n) (ch_outputQueue c @ queued es)"
  using assms
proof (induction es c arbitrary: out n c' rule: output_run.induct)
  case (2 mb es c)
  then show ?case by (simp add: sendAsync_def)
next
  case (3 k es c)
  obtain ret o1 cm c1 where h: "handleOutput_i (Some k) c = (ret, o1, cm, c1)" by (metis prod_cases4)
  obtain o2 m c2 where r: "output_run es c1 = (o2, m, c2)" by (metis prod_cases3)
  note ih = 3(1) [OF h [symmetric] refl refl refl r]
  have e: "out = o1 @ o2" "n = (if cm then Suc m else m)" "c' = c2" using 3(2) h r by auto
  show ?case
  proof (cases "ch_outputQueue c")
    case Nil
    then have "o1 = []" "\<not> cm" "c1 = c" using h by (auto simp: handleOutput_i_def)
    with ih e show ?thesis by simp
  next
    case (Cons mb q)
    show ?thesis
    proof (cases "drop k mb = []")
      case True
      then have "o1 = mb" "cm" "ch_outputQueue c1 = q" using h Cons by (auto simp: handleOutput_i_def)
      with ih e Cons show ?thesis by simp
    next
      case False
      then have "o1 = take k mb" "\<not> cm" "ch_outputQueue c1 = drop k mb # q"
        using h Cons by (auto simp: handleOutput_i_def simp del: drop_eq_Nil)
      with ih e Cons show ?thesis by simp
    qed
  qed
qed auto

theorem output_in_order_witness:
  "\<exists>out n c'. output_run [Queue [1, 2, 3], Queue [4, 5], Writable 2, Writable 7, Writable 1]
      (PacketChannel_ctor sample_raw_packet True True True) = (out, n, c')
    \<and> out @ concat (ch_outputQueue c') = [1, 2, 3, 4, 5] \<and> n = 1 \<and> ch_outputQueue c' = [[5]]"
proof -
  let ?es = "[Queue [1, 2, 3], Queue [4, 5], Writable 2, Writable 7, Writable 1]"
  let ?c = "PacketChannel_ctor sample_raw_packet True True True"
  have q: "ch_outputQueue ?c = []" by (simp add: PacketChannel_ctor_def)
  obtain out n c' where r: "output_run ?es ?c = (out, n, c')" by (metis prod_cases3)
  then have "n = 1" "ch_outputQueue c' = [[5]]" using q
    by (auto simp: handleOutput_i_def sendAsync_def numeral_eq_Suc)
  with output_in_order [OF r] q r show ?thesis by auto
qed

end
