(* ===== verification/ReplicationGroups.thy ===== *)
theory ReplicationGroups
  imports RuntimeCore PacketChannels
begin

text \<open>
  A replication group as one member keeps it (\<^verbatim>\<open>stheno/core/p2p/ft/ReplicationGroup\<close> and
  \<^verbatim>\<open>stheno/core/p2p/p3/ft/P3ReplicationGroup.cpp\<close>): the service, the primary, the other replicas in the
  order in which they joined, and the tables of control and data channels to them
  (\<^verbatim>\<open>StreamChannelGroup.h\<close>, \<^verbatim>\<open>FTControlChannelManager.cpp\<close>, \<^verbatim>\<open>FTDataChannelManager.cpp\<close>), with the table
  of groups of \<^verbatim>\<open>P3FaultTolerance.cpp\<close>. Its operations are opening as primary or replica, adding and
  losing a member, failover and replication. The state of the runtime around a group and the peers
  is a type parameter \<open>'w\<close>, reached through the operations of \<open>group_env\<close>; the theory of runs gives
  it the runtimes of a net. Then come the abstract view of a group, the list of its members,
  what losing a member does to it, and tables of channels that are all open.
\<close>

section \<open>Channel managers\<close>

text \<open>A channel of the replication protocol: the channel of \<^verbatim>\<open>AbstractStreamChannel.h\<close>, the identifier
  generated for it and the peer at its other end. \<open>up\<close> says whether the connection still stands.\<close>

record ft_channel = stream_channel +
  fc_channelID :: uuid
  fc_pid :: uuid

definition FTChannel_ctor :: "uuid \<Rightarrow> uuid \<Rightarrow> bool \<Rightarrow> ft_channel" where
  "FTChannel_ctor cid pid up = \<lparr>ch_asyncRead = False, ch_asyncWrite = False, ch_reactor = True,
     ch_outputQueue = [], ch_closeListener = False, ch_close = (\<not> up), fc_channelID = cid, fc_pid = pid\<rparr>"

text \<open>
  \<^verbatim>\<open>ChannelManager\<close>. What the operations return besides is the channel on which \<^verbatim>\<open>fireOnClose\<close> is
  called, if it is: the managers of the two kinds of channel override it. While an entry is removed
  the channel's own \<^verbatim>\<open>close\<close> calls \<^verbatim>\<open>onClose\<close> again, which then finds no entry.
\<close>

definition detached :: "ft_channel \<Rightarrow> ft_channel" where
  "detached ch = snd (channel_close False (snd (setCloseListener False ch)))"

definition CM_remove :: "ft_channel \<Rightarrow> ft_channel hmap \<Rightarrow> ft_channel option \<times> ft_channel hmap" where
  "CM_remove ch m = (case hm_unbind (fc_channelID ch) m of
      (r, m') \<Rightarrow> (if r = 0 then (Some (detached ch), m') else (None, m')))"

definition CM_remove_uuid :: "uuid \<Rightarrow> ft_channel hmap \<Rightarrow> ft_channel option \<times> ft_channel hmap" where
  "CM_remove_uuid u m = (case hm_find m u of
      None \<Rightarrow> (None, m)
    | Some ch \<Rightarrow> (Some (detached ch), snd (hm_unbind u m)))"

definition CM_add :: "hpos \<Rightarrow> ft_channel \<Rightarrow> ft_channel hmap \<Rightarrow> int \<times> ft_channel option \<times> ft_channel hmap" where
  "CM_add pos ch m = (case (hm_bind pos (fc_channelID ch) ch m, setCloseListener True ch) of
      ((ret, m1), (r, ch')) \<Rightarrow>
        if r = -1 then (-1, CM_remove ch m1) else (ret, None, snd (hm_bind pos (fc_channelID ch) ch' m)))"

definition CM_getMemberList :: "ft_channel hmap \<Rightarrow> ft_channel list" where
  "CM_getMemberList m = map snd m"

definition CM_getPeerList :: "ft_channel hmap \<Rightarrow> uuid list" where
  "CM_getPeerList m = map fc_pid (map snd m)"

definition CM_getSize :: "ft_channel hmap \<Rightarrow> nat" where
  "CM_getSize m = length m"

lemma CM_remove_uuid_length: "CM_remove_uuid u m = (Some ch, m') \<Longrightarrow> length m' < length m"
  by (auto simp: CM_remove_uuid_def hm_unbind_def hm_find_def erase1_None_iff find_Some_iff
      dest: erase1_length split: option.splits)

section \<open>A replication group\<close>

text \<open>
  The members of \<^verbatim>\<open>ReplicationGroup\<close> and \<^verbatim>\<open>P3ReplicationGroup\<close>. The service is the address of its
  object; a null \<^verbatim>\<open>m_primaryPeer\<close> is \<open>None\<close>.
\<close>

record rgroup =
  rg_groupUUID :: uuid
  rg_svc :: nat
  rg_sid :: uuid
  rg_primaryPeer :: "overlay_peer_info option"
  rg_replicas :: "overlay_peer_info list"
  rg_params :: service_params
  rg_primary :: bool
  rg_closed :: bool
  rg_qosManager :: "nat option"
  rg_dataSAP :: sap
  rg_clientDataManager :: "ft_channel hmap"
  rg_clientControlManager :: "ft_channel hmap"

definition ReplicationGroup_primary :: "uuid \<Rightarrow> nat \<Rightarrow> uuid \<Rightarrow> service_params \<Rightarrow> nat option \<Rightarrow> rgroup" where
  "ReplicationGroup_primary rgid svc sid params qos = \<lparr>rg_groupUUID = rgid, rg_svc = svc, rg_sid = sid,
     rg_primaryPeer = None, rg_replicas = [], rg_params = params, rg_primary = True, rg_closed = False,
     rg_qosManager = qos, rg_dataSAP = SAP_ctor, rg_clientDataManager = [], rg_clientControlManager = []\<rparr>"

definition ReplicationGroup_replica ::
    "uuid \<Rightarrow> nat \<Rightarrow> uuid \<Rightarrow> service_params \<Rightarrow> overlay_peer_info \<Rightarrow> overlay_peer_info list \<Rightarrow> nat option \<Rightarrow> rgroup" where
  "ReplicationGroup_replica rgid svc sid params prim replicas qos =
     (ReplicationGroup_primary rgid svc sid params qos)
       \<lparr>rg_primaryPeer := Some prim, rg_replicas := replicas, rg_primary := False\<rparr>"

definition ReplicationGroup_close :: "rgroup \<Rightarrow> rgroup" where
  "ReplicationGroup_close g = g\<lparr>rg_closed := True\<rparr>"

text \<open>
  The first packets a channel to a replica sends: \<^verbatim>\<open>FTInitReplicaPacket\<close> to make the peer join the
  group, \<^verbatim>\<open>FTInitDataGroupPacket\<close>, and their variants of a channel between replicas.
\<close>

record init_replica =
  ip_uuid :: uuid
  ip_fid :: uuid
  ip_rgid :: uuid
  ip_sid :: uuid
  ip_iid :: uuid
  ip_params :: service_params
  ip_primary :: overlay_peer_info
  ip_group :: "overlay_peer_info list"

record prebind =
  pp_uuid :: uuid
  pp_fid :: uuid
  pp_rgid :: uuid

datatype ft_hello = InitReplica init_replica | Prebind prebind | InitData prebind | DataPrebind prebind

text \<open>What became of a connection: the identifier drawn for the channel, whether \<^verbatim>\<open>connect\<close> succeeded,
  the data access point that \<^verbatim>\<open>initSession\<close> assigned (null when it failed), whether the channel
  is open when it is added to its manager, and what registering it with the reactor returned.\<close>

record ft_link =
  ln_channelID :: uuid
  ln_connected :: bool
  ln_session :: "sap_info option"
  ln_up :: bool
  ln_registered :: int

text \<open>The table of groups of the fault tolerance service and the objects its entries point to.\<close>

record p3_ft =
  ft_map :: "nat hmap"
  ft_objs :: "rgroup list"

record launch_site =
  ls_uuid :: uuid
  ls_fid :: uuid
  ls_meshSAP :: sap_info
  ls_ftSAP :: sap_info

text \<open>
  The surroundings of a group in a runtime, over a state \<open>'w\<close>: the identity and the access points of
  the runtime (\<open>ge_mesh\<close> is \<open>None\<close> when \<^verbatim>\<open>getMesh\<close> throws), the configured interface, the machine,
  the discovery of sites, the fault tolerance service of the runtime, the group's service and its
  registration in the runtime, and the peers, reached by connections and requests.
\<close>

record 'w group_env =
  ge_uuid :: uuid
  ge_mesh :: "(uuid \<times> sap_info option) option"
  ge_ftSAP :: "sap_info option"
  ge_interface :: "string option"
  ge_sapWorld :: sap_world
  ge_sapTry :: nat
  ge_pos :: hpos
  ge_findSite :: "uuid \<Rightarrow> uuid list \<Rightarrow> launch_site option"
  ge_ft :: "'w \<Rightarrow> p3_ft"
  ge_setFt :: "p3_ft \<Rightarrow> 'w \<Rightarrow> 'w"
  ge_setGroup :: "nat \<Rightarrow> uuid option \<Rightarrow> 'w \<Rightarrow> 'w"
  ge_toPrimary :: "nat \<Rightarrow> 'w \<Rightarrow> bool \<times> 'w"
  ge_iid :: "nat \<Rightarrow> 'w \<Rightarrow> uuid"
  ge_changeIID :: "uuid \<Rightarrow> uuid \<Rightarrow> uuid \<Rightarrow> 'w \<Rightarrow> (exn, unit, 'w) outcome"
  ge_onReplication :: "nat \<Rightarrow> byte list \<Rightarrow> 'w \<Rightarrow> (exn, unit, 'w) outcome"
  ge_connect :: "endpoint \<Rightarrow> ft_hello option \<Rightarrow> 'w \<Rightarrow> ft_link \<times> 'w"
  ge_addReplica :: "ft_channel \<Rightarrow> overlay_peer_info \<Rightarrow> 'w \<Rightarrow> 'w"
  ge_replicate :: "ft_channel \<Rightarrow> byte list \<Rightarrow> 'w \<Rightarrow> 'w"

type_synonym ('w, 'a) group_op = "rgroup \<times> 'w \<Rightarrow> (exn, 'a, rgroup \<times> 'w) outcome"

definition isThisPeer :: "'w group_env \<Rightarrow> uuid \<Rightarrow> bool" where
  "isThisPeer E u = isEqual (ge_uuid E) u"

definition isPeerPrimary :: "uuid \<Rightarrow> rgroup \<Rightarrow> exn + bool" where
  "isPeerPrimary u g = (case rg_primaryPeer g of None \<Rightarrow> Inl NullDeref | Some p \<Rightarrow> Inr (isEqual (op_uuid p) u))"

definition isThisPeerPrimary :: "'w group_env \<Rightarrow> rgroup \<Rightarrow> exn + bool" where
  "isThisPeerPrimary E g =
     (case rg_primaryPeer g of None \<Rightarrow> Inl NullDeref | Some p \<Rightarrow> Inr (isThisPeer E (op_uuid p)))"

fun isPeerReplica_loop :: "uuid \<Rightarrow> overlay_peer_info list \<Rightarrow> bool" where
  "isPeerReplica_loop u [] = True"
| "isPeerReplica_loop u (r # rs) = (if isEqual (op_uuid r) u then True else isPeerReplica_loop u rs)"

definition isPeerReplica :: "uuid \<Rightarrow> rgroup \<Rightarrow> bool" where
  "isPeerReplica u g = (case rg_replicas g of
      [] \<Rightarrow> False
    | r # rs \<Rightarrow> if isEqual (op_uuid r) u then True else isPeerReplica_loop u rs)"

fun precedent_loop :: "'w group_env \<Rightarrow> uuid \<Rightarrow> int \<Rightarrow> int \<Rightarrow> int \<Rightarrow> overlay_peer_info list \<Rightarrow> int \<times> int" where
  "precedent_loop E u i our repl [] = (our, repl)"
| "precedent_loop E u i our repl (r # rs) =
     (let our' = (if isThisPeer E (op_uuid r) then i else our);
          repl' = (if isEqual (op_uuid r) u then i else repl)
      in if our' \<noteq> -1 \<and> repl' \<noteq> -1 then (our', repl') else precedent_loop E u (i + 1) our' repl' rs)"

definition isReplicaPrecedent :: "'w group_env \<Rightarrow> uuid \<Rightarrow> rgroup \<Rightarrow> int" where
  "isReplicaPrecedent E u g = (let (our, repl) = precedent_loop E u 0 (-1) (-1) (rg_replicas g)
     in if repl = -1 then -1 else if repl < our then 0 else 1)"

section \<open>The table of groups\<close>

definition addReplicationGroup :: "'w group_env \<Rightarrow> uuid \<Rightarrow> nat \<Rightarrow> 'w \<Rightarrow> bool \<times> 'w" where
  "addReplicationGroup E rgid a w = (case hm_bind (ge_pos E) rgid a (ft_map (ge_ft E w)) of
      (r, m) \<Rightarrow> (r = 0, ge_setFt E ((ge_ft E w)\<lparr>ft_map := m\<rparr>) w))"

definition removeReplicationGroup :: "'w group_env \<Rightarrow> uuid \<Rightarrow> 'w \<Rightarrow> bool \<times> 'w" where
  "removeReplicationGroup E rgid w = (case hm_unbind rgid (ft_map (ge_ft E w)) of
      (r, m) \<Rightarrow> (r = 0, ge_setFt E ((ge_ft E w)\<lparr>ft_map := m\<rparr>) w))"

definition getReplicationGroup :: "'w group_env \<Rightarrow> uuid \<Rightarrow> 'w \<Rightarrow> nat option" where
  "getReplicationGroup E rgid w = hm_find (ft_map (ge_ft E w)) rgid"

definition onReplicationGroupClose :: "'w group_env \<Rightarrow> uuid \<Rightarrow> 'w \<Rightarrow> 'w" where
  "onReplicationGroupClose E rgid w = snd (removeReplicationGroup E rgid w)"

section \<open>Losing a member\<close>

text \<open>The end of \<^verbatim>\<open>onPeerClosure\<close> at the new primary: a service that cannot change its role closes the
  group, and the identifier of the instance is changed all the same.\<close>

definition fireOnChangeToPrimary :: "'w group_env \<Rightarrow> ('w, unit) group_op" where
  "fireOnChangeToPrimary E gw = (case gw of (g, w) \<Rightarrow>
     case ge_toPrimary E (rg_svc g) w of (ok, w1) \<Rightarrow>
     case ge_changeIID E (rg_sid g) (ge_iid E (rg_svc g) w1) (rg_groupUUID g) w1 of (r, w2) \<Rightarrow>
       (r, (if ok then g else ReplicationGroup_close g, w2)))"

definition erase_replica :: "uuid \<Rightarrow> rgroup \<Rightarrow> bool \<times> rgroup" where
  "erase_replica u g = (case erase1 (\<lambda>r. isEqual (op_uuid r) u) (rg_replicas g) of
      None \<Rightarrow> (False, g)
    | Some rs \<Rightarrow> (True, g\<lparr>rg_replicas := rs\<rparr>))"

text \<open>
  \<^verbatim>\<open>removeReplica\<close> closes the channels that the managers find under the peer's identifier; closing a
  control channel calls \<^verbatim>\<open>onPeerClosure\<close>, here \<open>closure\<close>, for the channel's peer.
\<close>

definition removeReplica_with :: "(uuid \<Rightarrow> ('w, unit) group_op) \<Rightarrow> 'w group_env \<Rightarrow> uuid \<Rightarrow> ('w, bool) group_op" where
  "removeReplica_with closure E u gw = (case gw of (g, w) \<Rightarrow>
     if isThisPeer E u then (Inr True, (ReplicationGroup_close g, onReplicationGroupClose E (rg_groupUUID g) w))
     else andThen (case CM_remove_uuid u (rg_clientControlManager g) of
              (None, m) \<Rightarrow> (Inr (), (g, w))
            | (Some ch, m) \<Rightarrow> closure (fc_pid ch) (g\<lparr>rg_clientControlManager := m\<rparr>, w))
        (\<lambda>_ (g, w). case erase_replica u
              (g\<lparr>rg_clientDataManager := snd (CM_remove_uuid u (rg_clientDataManager g))\<rparr>) of
            (flag, g) \<Rightarrow> (Inr flag, (g, w))))"

lemma removeReplica_cong [fundef_cong]:
  assumes "E = E'" "u = u'" "gw = gw'"
    "\<And>ch m. CM_remove_uuid u' (rg_clientControlManager (fst gw')) = (Some ch, m) \<Longrightarrow>
      closure (fc_pid ch) ((fst gw')\<lparr>rg_clientControlManager := m\<rparr>, snd gw')
      = closure' (fc_pid ch) ((fst gw')\<lparr>rg_clientControlManager := m\<rparr>, snd gw')"
  shows "removeReplica_with closure E u gw = removeReplica_with closure' E' u' gw'"
  using assms by (cases gw') (auto simp: removeReplica_with_def split: prod.split option.split)

function (sequential) onPeerClosure :: "'w group_env \<Rightarrow> uuid \<Rightarrow> ('w, unit) group_op" where
  "onPeerClosure E u (g, w) = (case isPeerPrimary u g of
      Inl e \<Rightarrow> (Inl e, (g, w))
    | Inr True \<Rightarrow> (case rg_replicas g of
          [] \<Rightarrow> (Inr (), (ReplicationGroup_close g, w))
        | q # qs \<Rightarrow> (let g' = g\<lparr>rg_primaryPeer := Some q, rg_replicas := qs\<rparr>
            in if isThisPeer E (op_uuid q) then fireOnChangeToPrimary E (g', w) else (Inr (), (g', w))))
    | Inr False \<Rightarrow> andThen (removeReplica_with (onPeerClosure E) E u (g, w)) (\<lambda>_ s. (Inr (), s)))"
  by pat_completeness auto

termination
  by (relation "measure (\<lambda>(E, u, g, w). length (rg_clientControlManager g))")
     (auto dest: CM_remove_uuid_length)

definition removeReplica :: "'w group_env \<Rightarrow> uuid \<Rightarrow> ('w, bool) group_op" where
  "removeReplica E = removeReplica_with (onPeerClosure E) E"

text \<open>\<^verbatim>\<open>FTControlChannelManager::onClose\<close>, which a control channel calls when it is closed, and \<^verbatim>\<open>close\<close> of
  a control channel.\<close>

definition control_onClose :: "'w group_env \<Rightarrow> ft_channel \<Rightarrow> ('w, unit) group_op" where
  "control_onClose E ch gw = (case gw of (g, w) \<Rightarrow> (case CM_remove ch (rg_clientControlManager g) of
      (None, m) \<Rightarrow> (Inr (), (g, w))
    | (Some ch', m) \<Rightarrow> onPeerClosure E (fc_pid ch') (g\<lparr>rg_clientControlManager := m\<rparr>, w)))"

definition control_close :: "'w group_env \<Rightarrow> ft_channel \<Rightarrow> ('w, unit) group_op" where
  "control_close E ch s = (case channel_close False ch of
      (True, ch') \<Rightarrow> control_onClose E ch' s
    | (False, ch') \<Rightarrow> (Inr (), s))"

definition data_onClose :: "ft_channel \<Rightarrow> rgroup \<Rightarrow> rgroup" where
  "data_onClose ch g = g\<lparr>rg_clientDataManager := snd (CM_remove ch (rg_clientDataManager g))\<rparr>"

definition data_close :: "ft_channel \<Rightarrow> rgroup \<Rightarrow> rgroup" where
  "data_close ch g = (case channel_close False ch of (True, ch') \<Rightarrow> data_onClose ch' g | (False, ch') \<Rightarrow> g)"

section \<open>Adding a member\<close>

text \<open>Adding a connected channel to its manager and switching it to asynchronous reads.\<close>

definition attachControl :: "'w group_env \<Rightarrow> ft_link \<Rightarrow> uuid \<Rightarrow> ('w, bool) group_op" where
  "attachControl E l pid gw = (case gw of (g, w) \<Rightarrow>
     let ch = FTChannel_ctor (ln_channelID l) pid (ln_up l)
     in case CM_add (ge_pos E) ch (rg_clientControlManager g) of
       (ret, f, m) \<Rightarrow>
         if ret = -1
         then andThen (case f of None \<Rightarrow> (Inr (), (g\<lparr>rg_clientControlManager := m\<rparr>, w))
                | Some ch' \<Rightarrow> onPeerClosure E (fc_pid ch') (g\<lparr>rg_clientControlManager := m\<rparr>, w))
              (\<lambda>_ s. (Inr False, s))
         else (case stream_asynchronous (ln_registered l) True False (snd (setCloseListener True ch)) of
             (r, ch') \<Rightarrow>
               let s = (g\<lparr>rg_clientControlManager := if ret = 0 then hm_update (ln_channelID l) (\<lambda>_. ch') m else m\<rparr>, w)
               in if r = -1 then andThen (control_close E ch' s) (\<lambda>_ s. (Inr False, s)) else (Inr True, s)))"

definition attachData :: "'w group_env \<Rightarrow> ft_link \<Rightarrow> uuid \<Rightarrow> rgroup \<Rightarrow> bool \<times> rgroup" where
  "attachData E l pid g =
     (let ch = FTChannel_ctor (ln_channelID l) pid (ln_up l)
      in case CM_add (ge_pos E) ch (rg_clientDataManager g) of
        (ret, f, m) \<Rightarrow>
          if ret = -1 then (False, g\<lparr>rg_clientDataManager := m\<rparr>)
          else (case stream_asynchronous (ln_registered l) True False (snd (setCloseListener True ch)) of
              (r, ch') \<Rightarrow>
                let g' = g\<lparr>rg_clientDataManager := if ret = 0 then hm_update (ln_channelID l) (\<lambda>_. ch') m else m\<rparr>
                in if r = -1 then (False, data_close ch' g') else (True, g')))"

text \<open>The address of an access point: a null one is dereferenced, and an empty one throws an exception
  that nobody catches.\<close>

definition first_endpoint :: "sap_info option \<Rightarrow> exn + endpoint" where
  "first_endpoint sap = (case sap of None \<Rightarrow> Inl NullDeref
    | Some l \<Rightarrow> (case getFirstEndpoint l of Inl e \<Rightarrow> Inl Unexpected | Inr e \<Rightarrow> Inr e))"

definition printMembers :: "rgroup \<Rightarrow> exn + unit" where
  "printMembers g = (if rg_primaryPeer g = None then Inl NullDeref else Inr ())"

text \<open>\<^verbatim>\<open>initSession\<close> and \<^verbatim>\<open>preBindSession\<close> send nothing without a mesh. Their result is not looked at.\<close>

definition control_hello :: "'w group_env \<Rightarrow> overlay_peer_info \<Rightarrow> rgroup \<Rightarrow> ft_hello option" where
  "control_hello E prim g = map_option (\<lambda>(fid, sap). InitReplica \<lparr>ip_uuid = ge_uuid E, ip_fid = fid,
     ip_rgid = rg_groupUUID g, ip_sid = rg_sid g, ip_iid = rg_groupUUID g, ip_params = rg_params g,
     ip_primary = prim, ip_group = rg_replicas g\<rparr>) (ge_mesh E)"

definition bind_hello :: "'w group_env \<Rightarrow> (prebind \<Rightarrow> ft_hello) \<Rightarrow> rgroup \<Rightarrow> ft_hello option" where
  "bind_hello E k g = map_option (\<lambda>(fid, sap). k \<lparr>pp_uuid = ge_uuid E, pp_fid = fid,
     pp_rgid = rg_groupUUID g\<rparr>) (ge_mesh E)"

definition bindControlToReplica ::
    "'w group_env \<Rightarrow> overlay_peer_info \<Rightarrow> ('w, bool \<times> overlay_peer_info) group_op" where
  "bindControlToReplica E r gw = (case gw of (g, w) \<Rightarrow> (case first_endpoint (op_ftSAP r) of
      Inl e \<Rightarrow> (Inl e, (g, w))
    | Inr e \<Rightarrow> (case rg_primaryPeer g of
          None \<Rightarrow> (Inl NullDeref, (g, w))
        | Some p \<Rightarrow> (case ge_connect E e (control_hello E p g) w of
              (l, w') \<Rightarrow> if \<not> ln_connected l then (Inr (False, r), (g, w'))
                else andThen (attachControl E l (op_uuid r) (g, w'))
                       (\<lambda>ok s. (Inr (ok, if ok then r\<lparr>op_ftDataSAP := ln_session l\<rparr> else r), s))))))"

definition bindDataToReplica :: "'w group_env \<Rightarrow> overlay_peer_info \<Rightarrow> ('w, bool) group_op" where
  "bindDataToReplica E r gw = (case gw of (g, w) \<Rightarrow> (case first_endpoint (op_ftDataSAP r) of
      Inl e \<Rightarrow> (Inl e, (g, w))
    | Inr e \<Rightarrow> (case ge_connect E e (bind_hello E InitData g) w of
          (l, w') \<Rightarrow> if \<not> ln_connected l then (Inr False, (g, w'))
            else (case attachData E l (op_uuid r) g of (ok, g') \<Rightarrow> (Inr ok, (g', w'))))))"

definition prebindControlToReplica :: "'w group_env \<Rightarrow> overlay_peer_info \<Rightarrow> ('w, bool) group_op" where
  "prebindControlToReplica E r gw = (case gw of (g, w) \<Rightarrow> (case first_endpoint (op_ftSAP r) of
      Inl e \<Rightarrow> (Inl e, (g, w))
    | Inr e \<Rightarrow> (case printMembers g of
          Inl x \<Rightarrow> (Inl x, (g, w))
        | Inr _ \<Rightarrow> (case ge_connect E e (bind_hello E Prebind g) w of
              (l, w') \<Rightarrow> if \<not> ln_connected l then (Inr False, (g, w'))
                else attachControl E l (op_uuid r) (g, w')))))"

definition prebindDataToReplica :: "'w group_env \<Rightarrow> overlay_peer_info \<Rightarrow> ('w, bool) group_op" where
  "prebindDataToReplica E r gw = (case gw of (g, w) \<Rightarrow> (case first_endpoint (op_ftDataSAP r) of
      Inl e \<Rightarrow> (Inl e, (g, w))
    | Inr e \<Rightarrow> (case ge_connect E e (bind_hello E DataPrebind g) w of
          (l, w') \<Rightarrow> if \<not> ln_connected l then (Inr False, (g, w'))
            else (case attachData E l (op_uuid r) g of (ok, g') \<Rightarrow> (Inr ok, (g', w'))))))"

text \<open>\<^verbatim>\<open>FTControlChannelManager::addReplica\<close>: a request over each control channel to another peer than
  the new one; a closed channel sends nothing; the replies are awaited and not looked at.\<close>

fun notify_members :: "'w group_env \<Rightarrow> overlay_peer_info \<Rightarrow> ft_channel list \<Rightarrow> 'w \<Rightarrow> 'w" where
  "notify_members E r [] w = w"
| "notify_members E r (ch # chs) w = notify_members E r chs
     (if isEqual (fc_pid ch) (op_uuid r) \<or> ch_close ch then w else ge_addReplica E ch r w)"

definition addReplicaAsPrimary :: "'w group_env \<Rightarrow> overlay_peer_info \<Rightarrow> ('w, bool) group_op" where
  "addReplicaAsPrimary E r s =
     andThen (bindControlToReplica E r s) (\<lambda>(ok, r) s. if \<not> ok then (Inr False, s)
     else andThen (bindDataToReplica E r s) (\<lambda>ok (g, w). if \<not> ok then (Inr False, (g, w))
     else (Inr True, (g\<lparr>rg_replicas := rg_replicas g @ [r]\<rparr>,
            notify_members E r (CM_getMemberList (rg_clientControlManager g)) w))))"

definition addReplicaAsReplica :: "'w group_env \<Rightarrow> overlay_peer_info \<Rightarrow> ('w, bool) group_op" where
  "addReplicaAsReplica E r s =
     andThen (prebindControlToReplica E r s) (\<lambda>_ s.
     andThen (prebindDataToReplica E r s) (\<lambda>ok (g, w).
       (Inr ok, (if ok then g\<lparr>rg_replicas := rg_replicas g @ [r]\<rparr> else g, w))))"

definition addReplica :: "'w group_env \<Rightarrow> overlay_peer_info \<Rightarrow> ('w, bool) group_op" where
  "addReplica E r gw = (if rg_primary (fst gw) then addReplicaAsPrimary E r gw else addReplicaAsReplica E r gw)"

definition updateFTDataSAP :: "uuid \<Rightarrow> sap_info option \<Rightarrow> rgroup \<Rightarrow> bool \<times> rgroup" where
  "updateFTDataSAP u sap g = (False, case first_index (\<lambda>r. isEqual (op_uuid r) u) (rg_replicas g) of
      None \<Rightarrow> g
    | Some i \<Rightarrow> g\<lparr>rg_replicas := (rg_replicas g)[i := (rg_replicas g ! i)\<lparr>op_ftDataSAP := sap\<rparr>]\<rparr>)"

section \<open>Opening a group\<close>

definition LOW_LVL_P2P_UNAVAILABLE :: exn where
  "LOW_LVL_P2P_UNAVAILABLE = ServiceException ''Low level P2P is unable.''"
definition INSUFFICIENT_RESOURCES :: exn where
  "INSUFFICIENT_RESOURCES = ServiceException ''Insufficient resources.''"

text \<open>\<^verbatim>\<open>findResources\<close>: one query per replica, which excludes the sites already found; null as soon as
  one has no answer.\<close>

fun findResources :: "'w group_env \<Rightarrow> uuid \<Rightarrow> nat \<Rightarrow> overlay_peer_info list \<Rightarrow> exn + overlay_peer_info list option" where
  "findResources E sid 0 peers = Inr (Some peers)"
| "findResources E sid (Suc n) peers = (case ge_findSite E sid (map op_uuid peers) of
      None \<Rightarrow> Inr None
    | Some l \<Rightarrow> (case first_endpoint (Some (ls_ftSAP l)) of
          Inl e \<Rightarrow> Inl e
        | Inr _ \<Rightarrow> findResources E sid n (peers @ [\<lparr>op_uuid = ls_uuid l, op_fid = ls_fid l,
            op_meshSAP = Some (ls_meshSAP l), op_ftSAP = Some (ls_ftSAP l), op_ftDataSAP = None\<rparr>])))"

definition own_info :: "'w group_env \<Rightarrow> rgroup \<Rightarrow> exn + overlay_peer_info" where
  "own_info E g = (case ge_mesh E of
      None \<Rightarrow> Inl LOW_LVL_P2P_UNAVAILABLE
    | Some (fid, sap) \<Rightarrow> Inr \<lparr>op_uuid = ge_uuid E, op_fid = fid, op_meshSAP = sap, op_ftSAP = ge_ftSAP E,
        op_ftDataSAP = m_sapInfo (rg_dataSAP g)\<rparr>)"

fun add_replicas :: "'w group_env \<Rightarrow> overlay_peer_info list \<Rightarrow> ('w, unit) group_op" where
  "add_replicas E [] s = (Inr (), s)"
| "add_replicas E (r # rs) s = andThen (addReplica E r s) (\<lambda>_ s. add_replicas E rs s)"

definition setReplicationGroup :: "'w group_env \<Rightarrow> ('w, unit) group_op" where
  "setReplicationGroup E gw = (case gw of (g, w) \<Rightarrow> (Inr (), (g, ge_setGroup E (rg_svc g)
     (map_option (\<lambda>_. rg_groupUUID g) (getReplicationGroup E (rg_groupUUID g) w)) w)))"

definition openPrimary :: "'w group_env \<Rightarrow> ('w, unit) group_op" where
  "openPrimary E gw = (case gw of (g, w) \<Rightarrow> (case own_info E g of
      Inl e \<Rightarrow> (Inl e, (g, w))
    | Inr p \<Rightarrow> (case sp_ftParams (rg_params g) of
          None \<Rightarrow> (Inl NullDeref, (g\<lparr>rg_primaryPeer := Some p\<rparr>, w))
        | Some ftp \<Rightarrow> (case findResources E (rg_sid g) (unat (ftp_replicaCount ftp)) [] of
              Inl e \<Rightarrow> (Inl e, (g\<lparr>rg_primaryPeer := Some p\<rparr>, w))
            | Inr None \<Rightarrow> (Inl INSUFFICIENT_RESOURCES, (g\<lparr>rg_primaryPeer := Some p\<rparr>, w))
            | Inr (Some peers) \<Rightarrow> andThen (add_replicas E peers (g\<lparr>rg_primaryPeer := Some p\<rparr>, w))
                (\<lambda>_ s. setReplicationGroup E s)))))"

definition openReplica :: "'w group_env \<Rightarrow> ('w, unit) group_op" where
  "openReplica E gw = (case gw of (g, w) \<Rightarrow> (case own_info E g of
      Inl e \<Rightarrow> (Inl e, (g, w))
    | Inr p \<Rightarrow> setReplicationGroup E (g\<lparr>rg_replicas := rg_replicas g @ [p]\<rparr>, w)))"

definition FT_qosList :: "qos_endpoint list" where
  "FT_qosList = [\<lparr>qe_type = 0, qe_priority = 48\<rparr>]"

text \<open>The throw list of \<^verbatim>\<open>open\<close> does not name the exception of the access point.\<close>

definition group_open :: "'w group_env \<Rightarrow> ('w, unit) group_op" where
  "group_open E gw = (case gw of (g, w) \<Rightarrow> (case ge_interface E of
      None \<Rightarrow> (Inl INVALID_ARGUMENT, (g\<lparr>rg_closed := False\<rparr>, w))
    | Some itf \<Rightarrow> (case SAP_open (ge_sapWorld E) itf FT_qosList (ge_sapTry E) (rg_dataSAP g) of
          (Inl e, p) \<Rightarrow> (Inl Unexpected, (g\<lparr>rg_closed := False, rg_dataSAP := p\<rparr>, w))
        | (Inr k, p) \<Rightarrow> (let g = g\<lparr>rg_closed := False, rg_dataSAP := p\<rparr>
            in if rg_primary g then openPrimary E (g, w) else openReplica E (g, w)))))"

section \<open>Creating a group\<close>

text \<open>An operation of the group at an address.\<close>

definition on_group :: "'w group_env \<Rightarrow> nat \<Rightarrow> ('w, 'a) group_op \<Rightarrow> 'w \<Rightarrow> (exn, 'a, 'w) outcome" where
  "on_group E a op w = (case op (ft_objs (ge_ft E w) ! a, w) of
      (r, (g, w')) \<Rightarrow> (r, ge_setFt E ((ge_ft E w')\<lparr>ft_objs := (ft_objs (ge_ft E w'))[a := g]\<rparr>) w'))"

text \<open>Both forms of \<^verbatim>\<open>createReplicationGroup\<close>. Whether the table took the entry is not looked at, and a
  failed group takes the entry of its identifier with it, whoever made that entry.\<close>

fun group_of_role :: "group_role \<Rightarrow> uuid \<Rightarrow> nat \<Rightarrow> uuid \<Rightarrow> service_params \<Rightarrow> nat option \<Rightarrow> rgroup" where
  "group_of_role AsPrimary rgid svc sid params qos = ReplicationGroup_primary rgid svc sid params qos"
| "group_of_role (AsReplica p rs) rgid svc sid params qos =
     ReplicationGroup_replica rgid svc sid params p rs qos"

definition P3_createReplicationGroup :: "'w group_env \<Rightarrow> group_role \<Rightarrow> uuid \<Rightarrow> nat \<Rightarrow> uuid \<Rightarrow>
    service_params \<Rightarrow> nat option \<Rightarrow> 'w \<Rightarrow> (exn, unit, 'w) outcome" where
  "P3_createReplicationGroup E role rgid svc sid params qos w =
     (let a = length (ft_objs (ge_ft E w));
          w1 = ge_setFt E ((ge_ft E w)\<lparr>ft_objs := ft_objs (ge_ft E w) @ [group_of_role role rgid svc sid params qos]\<rparr>) w;
          w2 = snd (addReplicationGroup E rgid a w1)
      in case throws_service (on_group E a (group_open E) w2) of
          (Inl (ServiceException x), w3) \<Rightarrow> (Inl (ServiceException x), snd (removeReplicationGroup E rgid w3))
        | r \<Rightarrow> r)"

section \<open>Requests of the members\<close>

text \<open>The value is the acceptance the reply carries.\<close>

definition handleAddReplicaPacket :: "'w group_env \<Rightarrow> overlay_peer_info \<Rightarrow> ('w, bool) group_op" where
  "handleAddReplicaPacket E r s = andThen (addReplica E r s) (\<lambda>ok (g, w). case printMembers g of
      Inl e \<Rightarrow> (Inl e, (g, w)) | Inr _ \<Rightarrow> (Inr ok, (g, w)))"

definition handleRemoveReplicaPacket :: "'w group_env \<Rightarrow> uuid \<Rightarrow> ('w, bool) group_op" where
  "handleRemoveReplicaPacket E u s = removeReplica E u s"

definition handleReplicationPacket :: "'w group_env \<Rightarrow> byte list \<Rightarrow> ('w, unit) group_op" where
  "handleReplicationPacket E payload gw = (case gw of (g, w) \<Rightarrow> (case isThisPeerPrimary E g of
      Inl e \<Rightarrow> (Inl e, (g, w))
    | Inr True \<Rightarrow> (Inr (), (g, w))
    | Inr False \<Rightarrow> (case ge_onReplication E (rg_svc g) payload w of (r, w') \<Rightarrow> (r, (g, w')))))"

text \<open>\<^verbatim>\<open>FTDataChannelManager::replicate\<close>: a request over each data channel; a closed one sends nothing.\<close>

fun replicate_over :: "'w group_env \<Rightarrow> byte list \<Rightarrow> ft_channel list \<Rightarrow> 'w \<Rightarrow> 'w" where
  "replicate_over E payload [] w = w"
| "replicate_over E payload (ch # chs) w =
     replicate_over E payload chs (if ch_close ch then w else ge_replicate E ch payload w)"

definition group_replicate :: "'w group_env \<Rightarrow> byte list \<Rightarrow> ('w, unit) group_op" where
  "group_replicate E payload gw = (case gw of (g, w) \<Rightarrow>
     (Inr (), (g, replicate_over E payload (CM_getMemberList (rg_clientDataManager g)) w)))"

section \<open>Views\<close>

text \<open>The members a group lists, the primary first. All identifiers have 16 octets, so that
  \<^verbatim>\<open>isEqual\<close> is equality.\<close>

definition view :: "rgroup \<Rightarrow> uuid list" where
  "view g = map op_uuid ((case rg_primaryPeer g of None \<Rightarrow> [] | Some p \<Rightarrow> [p]) @ rg_replicas g)"

definition uuids :: "uuid set \<Rightarrow> bool" where
  "uuids U = (\<forall>u\<in>U. length u = 16)"

lemma isEqual_eq: "length u = length v \<Longrightarrow> isEqual u v \<longleftrightarrow> u = v"
  by (auto simp: isEqual_def)

lemma uuids_isEqual: "uuids U \<Longrightarrow> u \<in> U \<Longrightarrow> v \<in> U \<Longrightarrow> isEqual u v \<longleftrightarrow> u = v"
  by (simp add: uuids_def isEqual_eq)

lemma erase1_remove1: "\<forall>x\<in>set xs. P x \<longleftrightarrow> f x = u \<Longrightarrow>
    map f (case erase1 P xs of None \<Rightarrow> xs | Some ys \<Rightarrow> ys) = remove1 u (map f xs)"
proof (induction xs)
  case (Cons x xs)
  then have "map f (case erase1 P xs of None \<Rightarrow> xs | Some ys \<Rightarrow> ys) = remove1 u (map f xs)" by simp
  then show ?case using Cons.prems by (cases "erase1 P xs") auto
qed simp

text \<open>What no loss of a member changes.\<close>

definition same_group :: "rgroup \<Rightarrow> rgroup \<Rightarrow> bool" where
  "same_group g g' = (rg_groupUUID g' = rg_groupUUID g \<and> rg_svc g' = rg_svc g \<and> rg_sid g' = rg_sid g
     \<and> rg_params g' = rg_params g \<and> rg_primary g' = rg_primary g \<and> rg_dataSAP g' = rg_dataSAP g)"

lemma same_group_refl [simp]: "same_group g g"
  by (simp add: same_group_def)

text \<open>The loss of another member, when no channel of the group is registered under the identifier of
  that member: the member leaves the view, unless it is the only one.\<close>

lemma onPeerClosure_effect:
  fixes E :: "'w group_env" and w :: 'w
  assumes U: "uuids U" "insert u (insert (ge_uuid E) (set (view g))) \<subseteq> U"
    and other: "u \<noteq> ge_uuid E" and p: "rg_primaryPeer g \<noteq> None"
    and keys: "hm_find (rg_clientControlManager g) u = None" "hm_find (rg_clientDataManager g) u = None"
  defines "r \<equiv> onPeerClosure E u (g, w)"
  shows "view (fst (snd r)) = (if view g = [u] then [u] else remove1 u (view g))"
    and "rg_clientControlManager (fst (snd r)) = rg_clientControlManager g"
    and "rg_clientDataManager (fst (snd r)) = rg_clientDataManager g"
    and "rg_primaryPeer (fst (snd r)) \<noteq> None"
    and "same_group g (fst (snd r))"
    and "snd (snd r) = w \<or> (\<exists>g'. snd (snd r) = snd (snd (fireOnChangeToPrimary E (g', w))) \<and> same_group g g')"
proof -
  obtain q where q: "rg_primaryPeer g = Some q" using p by auto
  have eq: "isEqual (op_uuid q) u \<longleftrightarrow> op_uuid q = u" "isEqual (ge_uuid E) u \<longleftrightarrow> False"
    using U other q by (auto simp: uuids_def view_def isEqual_eq)
  have eqs: "\<forall>x\<in>set (rg_replicas g). isEqual (op_uuid x) u \<longleftrightarrow> op_uuid x = u"
    using U by (auto simp: uuids_def view_def isEqual_eq)
  let ?rs = "case erase1 (\<lambda>r. isEqual (op_uuid r) u) (rg_replicas g) of None \<Rightarrow> rg_replicas g | Some ys \<Rightarrow> ys"
  have same: "g\<lparr>rg_clientDataManager := rg_clientDataManager g\<rparr> = g" by (cases g) simp
  have rem: "removeReplica_with (onPeerClosure E) E u (g, w) = (Inr (erase1 (\<lambda>r. isEqual (op_uuid r) u) (rg_replicas g) \<noteq> None),
      (g\<lparr>rg_replicas := ?rs\<rparr>, w))"
    using eq(2) keys same
    by (cases g) (auto simp: removeReplica_with_def isThisPeer_def CM_remove_uuid_def erase_replica_def split: option.split)
  have "view (fst (snd r)) = (if view g = [u] then [u] else remove1 u (view g))
    \<and> rg_clientControlManager (fst (snd r)) = rg_clientControlManager g
    \<and> rg_clientDataManager (fst (snd r)) = rg_clientDataManager g
    \<and> rg_primaryPeer (fst (snd r)) \<noteq> None \<and> same_group g (fst (snd r))
    \<and> (snd (snd r) = w \<or> (\<exists>g'. snd (snd r) = snd (snd (fireOnChangeToPrimary E (g', w))) \<and> same_group g g'))"
  proof (cases "op_uuid q = u")
    case False
    then have "r = (Inr (), (g\<lparr>rg_replicas := ?rs\<rparr>, w))"
      using q eq rem by (simp add: r_def isPeerPrimary_def)
    then show ?thesis using False q erase1_remove1 [OF eqs] by (simp add: view_def same_group_def)
  next
    case True
    then have prim: "isPeerPrimary u g = Inr True" using q eq by (simp add: isPeerPrimary_def)
    show ?thesis
    proof (cases "rg_replicas g")
      case Nil
      then have "r = (Inr (), (ReplicationGroup_close g, w))" by (simp add: r_def prim)
      then show ?thesis using Nil q True by (simp add: view_def same_group_def ReplicationGroup_close_def)
    next
      case (Cons x xs)
      let ?g = "g\<lparr>rg_primaryPeer := Some x, rg_replicas := xs\<rparr>"
      have r: "r = (if isThisPeer E (op_uuid x) then fireOnChangeToPrimary E (?g, w) else (Inr (), (?g, w)))"
        using Cons by (simp add: r_def prim)
      have f: "same_group ?g (fst (snd (fireOnChangeToPrimary E (?g, w))))
        \<and> view (fst (snd (fireOnChangeToPrimary E (?g, w)))) = view ?g
        \<and> rg_clientControlManager (fst (snd (fireOnChangeToPrimary E (?g, w)))) = rg_clientControlManager g
        \<and> rg_clientDataManager (fst (snd (fireOnChangeToPrimary E (?g, w)))) = rg_clientDataManager g
        \<and> rg_primaryPeer (fst (snd (fireOnChangeToPrimary E (?g, w)))) = Some x"
        by (auto simp: fireOnChangeToPrimary_def same_group_def view_def ReplicationGroup_close_def split: prod.splits)
      have g: "same_group g ?g" "view ?g = remove1 u (view g)" "view g \<noteq> [u]"
        using Cons q True by (simp_all add: same_group_def view_def)
      show ?thesis
      proof (cases "isThisPeer E (op_uuid x)")
        case True
        then show ?thesis using r f g by (auto simp: same_group_def)
      next
        case False
        then show ?thesis using r g by simp
      qed
    qed
  qed
  then show "view (fst (snd r)) = (if view g = [u] then [u] else remove1 u (view g))"
    "rg_clientControlManager (fst (snd r)) = rg_clientControlManager g"
    "rg_clientDataManager (fst (snd r)) = rg_clientDataManager g"
    "rg_primaryPeer (fst (snd r)) \<noteq> None"
    "same_group g (fst (snd r))"
    "snd (snd r) = w \<or> (\<exists>g'. snd (snd r) = snd (snd (fireOnChangeToPrimary E (g', w))) \<and> same_group g g')"
    by blast+
qed

section \<open>Connections that succeed\<close>

definition good_link :: "ft_link \<Rightarrow> bool" where
  "good_link l = (ln_connected l \<and> ln_up l \<and> ln_registered l \<noteq> -1)"

text \<open>A channel once it has its listener and reads asynchronously, and a table with one such channel,
  under an identifier of its own, for each peer of a set.\<close>

definition opened :: "uuid \<Rightarrow> uuid \<Rightarrow> ft_channel" where
  "opened cid pid = (FTChannel_ctor cid pid True)\<lparr>ch_closeListener := True, ch_asyncRead := True\<rparr>"

definition chan_table :: "(uuid \<Rightarrow> uuid) \<Rightarrow> uuid set \<Rightarrow> ft_channel hmap \<Rightarrow> bool" where
  "chan_table cid Q m = (hm_ok m \<and> set m = (\<lambda>q. (cid q, opened (cid q) q)) ` Q)"

lemma opened_simps [simp]: "fc_channelID (opened c p) = c" "fc_pid (opened c p) = p"
  "ch_close (opened c p) = False" "ch_closeListener (opened c p) = True"
  by (simp_all add: opened_def FTChannel_ctor_def)

lemma hm_update_absent: "k \<notin> fst ` set m \<Longrightarrow> hm_update k f m = m"
  by (induction m) (auto simp: hm_update_def)

lemma hm_update_bind:
  "hm_find m k = None \<Longrightarrow> hm_update k (\<lambda>_. v') (snd (hm_bind pos k v m)) = snd (hm_bind pos k v' m)"
proof -
  assume k: "hm_find m k = None"
  then have "k \<notin> fst ` set m" by (simp add: hm_find_map_of map_of_eq_None_iff)
  then have "k \<notin> fst ` set (take i m)" "k \<notin> fst ` set (drop i m)" for i
    by (auto dest: in_set_takeD in_set_dropD)
  then have "hm_update k (\<lambda>_. v') (take i m) = take i m" "hm_update k (\<lambda>_. v') (drop i m) = drop i m" for i
    by (simp_all add: hm_update_absent)
  then show ?thesis using k by (simp add: hm_bind_def Let_def hm_update_def)
qed

lemma hm_bind_entries: "hm_find m k = None \<Longrightarrow> set (snd (hm_bind pos k v m)) = insert (k, v) (set m)"
proof -
  assume "hm_find m k = None"
  moreover have "set (take i m) \<union> set (drop i m) = set m" for i
    by (metis append_take_drop_id set_append)
  ultimately show ?thesis by (auto simp: hm_bind_def Let_def)
qed

lemma chan_table_find:
  assumes "inj cid" "chan_table cid Q m"
  shows "hm_find m (cid q) = (if q \<in> Q then Some (opened (cid q) q) else None)"
proof (cases "q \<in> Q")
  case True
  then show ?thesis using assms
    by (auto simp: chan_table_def hm_ok_def hm_find_map_of intro!: map_of_is_SomeI)
next
  case False
  then have "cid q \<notin> fst ` set m" using assms by (auto simp: chan_table_def dest: injD)
  then show ?thesis using False by (simp add: hm_find_map_of map_of_eq_None_iff)
qed

lemma chan_table_other: "chan_table cid Q m \<Longrightarrow> k \<notin> range cid \<Longrightarrow> hm_find m k = None"
  by (auto simp: chan_table_def hm_find_map_of map_of_eq_None_iff)

lemma chan_table_bind:
  assumes cid: "inj cid" and "chan_table cid Q m" "q \<notin> Q"
  shows "chan_table cid (insert q Q) (snd (hm_bind pos (cid q) (opened (cid q) q) m))"
proof -
  have "hm_find m (cid q) = None" using chan_table_find [OF cid assms(2)] assms(3) by simp
  then show ?thesis using hm_bind_absent [of m "cid q" pos] assms
    by (auto simp: chan_table_def hm_bind_entries)
qed

lemma detached_pid [simp]: "fc_pid (detached ch) = fc_pid ch"
  by (simp add: detached_def channel_close_def setCloseListener_def)

lemma chan_table_remove:
  assumes cid: "inj cid" and "chan_table cid Q m" "q \<in> Q" and ch: "fc_channelID ch = cid q"
  shows "CM_remove ch m = (Some (detached ch), snd (hm_unbind (cid q) m))"
    and "chan_table cid (Q - {q}) (snd (hm_unbind (cid q) m))"
proof -
  have f: "hm_find m (cid q) \<noteq> None" using chan_table_find [OF cid assms(2)] assms(3) by simp
  have ok: "hm_ok m" using assms by (simp add: chan_table_def)
  note u = hm_unbind_find [OF ok, of "cid q"]
  show "CM_remove ch m = (Some (detached ch), snd (hm_unbind (cid q) m))"
    using u f ch by (cases "hm_unbind (cid q) m") (simp add: CM_remove_def)
  obtain m' where e: "erase1 (\<lambda>e. key_equal (fst e) (cid q)) m = Some m'"
    using u f by (auto simp: hm_unbind_def split: option.splits)
  from erase1_SomeD [OF this] obtain us e vs where
    m: "m = us @ e # vs" "m' = us @ vs" "fst e = cid q" by auto
  have "fst e \<notin> fst ` set us" "fst e \<notin> fst ` set vs" using ok m(1) by (simp_all add: hm_ok_def)
  then have "e \<notin> set us" "e \<notin> set vs" by (metis imageI)+
  then have "set m' = set m - {e}" using m by auto
  moreover have "e = (cid q, opened (cid q) q)"
  proof -
    have "e \<in> (\<lambda>q. (cid q, opened (cid q) q)) ` Q" using assms(2) m by (auto simp: chan_table_def)
    then show ?thesis using m(3) by (auto dest: injD [OF cid])
  qed
  ultimately have "set m' = (\<lambda>q. (cid q, opened (cid q) q)) ` (Q - {q})"
    using assms(2) by (auto simp: chan_table_def dest: injD [OF cid])
  then show "chan_table cid (Q - {q}) (snd (hm_unbind (cid q) m))"
    using u e by (simp add: chan_table_def hm_unbind_def)
qed

lemma chan_table_members: "chan_table cid Q m \<Longrightarrow>
    set (CM_getMemberList m) = (\<lambda>q. opened (cid q) q) ` Q \<and> distinct (CM_getMemberList m)"
proof -
  assume t: "chan_table cid Q m"
  have "inj_on snd (set m)"
  proof (rule inj_onI)
    fix x y assume "x \<in> set m" "y \<in> set m" "snd x = snd y"
    then show "x = y" using t by (auto simp: chan_table_def dest: arg_cong [of _ _ fc_pid])
  qed
  moreover have "distinct m" using t by (auto simp: chan_table_def hm_ok_def distinct_map)
  ultimately show ?thesis using t
    by (auto simp: CM_getMemberList_def chan_table_def distinct_map image_image)
qed

lemma attached_channel:
  assumes "good_link l" "hm_find m (ln_channelID l) = None"
  shows "CM_add pos (FTChannel_ctor (ln_channelID l) pid (ln_up l)) m =
      (0, None, snd (hm_bind pos (ln_channelID l) ((FTChannel_ctor (ln_channelID l) pid True)\<lparr>ch_closeListener := True\<rparr>) m))"
    and "stream_asynchronous (ln_registered l) True False
        (snd (setCloseListener True (FTChannel_ctor (ln_channelID l) pid (ln_up l))))
      = (ln_registered l, opened (ln_channelID l) pid)"
  using assms
  by (simp_all add: CM_add_def good_link_def setCloseListener_def FTChannel_ctor_def hm_bind_def
      stream_asynchronous_def opened_def Let_def)

lemma attachControl_good:
  assumes "good_link l" "hm_find (rg_clientControlManager g) (ln_channelID l) = None"
  shows "attachControl E l pid (g, w) = (Inr True,
     (g\<lparr>rg_clientControlManager := snd (hm_bind (ge_pos E) (ln_channelID l) (opened (ln_channelID l) pid)
        (rg_clientControlManager g))\<rparr>, w))"
  using attached_channel [OF assms] assms(1)
  by (simp add: attachControl_def Let_def hm_update_bind [OF assms(2)] good_link_def)

lemma attachData_good:
  assumes "good_link l" "hm_find (rg_clientDataManager g) (ln_channelID l) = None"
  shows "attachData E l pid g = (True,
     g\<lparr>rg_clientDataManager := snd (hm_bind (ge_pos E) (ln_channelID l) (opened (ln_channelID l) pid)
        (rg_clientDataManager g))\<rparr>)"
  using attached_channel [OF assms] assms(1)
  by (simp add: attachData_def Let_def hm_update_bind [OF assms(2)] good_link_def)

end
