(* ===== verification/GroupRuns.thy ===== *)
theory GroupRuns
  imports ReplicationGroups
begin

text \<open>
  The runtimes of a net and the runs of a replication group over them. The accepting side of the
  replication protocol (\<^verbatim>\<open>FTControlSvcHandler.cpp\<close>, \<^verbatim>\<open>FTControlAcceptor.cpp\<close>, \<^verbatim>\<open>FTDataSvcHandler.cpp\<close>) and the
  runtime core are composed with the groups: a connection or a request of a member is answered by
  the group, the table and the registry of the other runtime. \<open>group_step\<close> is the step relation of
  crashes, breaking channels and replication; \<open>run_inv\<close> is its invariant, by rule induction, and
  \<open>unnoticed\<close> the measure by which breaking channels settles.
\<close>

section \<open>Runtimes and their network\<close>

text \<open>
  A net maps the identifier of a runtime to its state; the fault tolerance service is the component
  \<open>co_ft\<close> of the runtime. What a runtime is besides: the surroundings of its core, its access points, its
  machine and its configuration, the discovery of sites, and the two virtual functions of a service
  that replication calls.
\<close>

record 'x ft_node =
  fn_core :: "('x, p3_ft) core_env"
  fn_mesh :: "(uuid \<times> sap_info option) option"
  fn_ftSAP :: "sap_info option"
  fn_interface :: "string option"
  fn_sapWorld :: sap_world
  fn_sapTry :: nat
  fn_findSite :: "uuid \<Rightarrow> uuid list \<Rightarrow> launch_site option"
  fn_toPrimary :: "'x service \<Rightarrow> bool \<times> 'x service"
  fn_onReplication :: "byte list \<Rightarrow> 'x hook"

type_synonym 'x net = "uuid \<Rightarrow> ('x, p3_ft) core"

text \<open>The virtual functions as \<^verbatim>\<open>ServiceAbstract\<close> defines them.\<close>

definition ServiceAbstract_changeToPrimaryRole :: "'x service \<Rightarrow> bool \<times> 'x service" where
  "ServiceAbstract_changeToPrimaryRole s = (False, s)"

definition ServiceAbstract_onReplication :: "byte list \<Rightarrow> 'x hook" where
  "ServiceAbstract_onReplication payload s = (Inr (), s)"

text \<open>The network: the machine that has an address, and what becomes of the two ends of the connections
  between two runtimes: \<open>pn_control n q\<close> is the end at \<open>n\<close> of a control channel between \<open>n\<close> and \<open>q\<close>.\<close>

record 'x p2p_net =
  pn_node :: "uuid \<Rightarrow> 'x ft_node"
  pn_host :: "string \<Rightarrow> uuid"
  pn_control :: "uuid \<Rightarrow> uuid \<Rightarrow> ft_link"
  pn_data :: "uuid \<Rightarrow> uuid \<Rightarrow> ft_link"

text \<open>The fault tolerance service as the runtime calls it to create a replica: the group it makes is
  reached through the service and the table. No peer is called.\<close>

definition no_link :: ft_link where
  "no_link = \<lparr>ln_channelID = [], ln_connected = False, ln_session = None, ln_up = False, ln_registered = 0\<rparr>"

definition replica_ft_env :: "uuid \<Rightarrow> 'x ft_node \<Rightarrow> ('x service \<times> p3_ft) group_env" where
  "replica_ft_env n F = \<lparr>ge_uuid = n, ge_mesh = fn_mesh F, ge_ftSAP = fn_ftSAP F, ge_interface = fn_interface F,
     ge_sapWorld = fn_sapWorld F, ge_sapTry = fn_sapTry F, ge_pos = ce_pos (fn_core F), ge_findSite = fn_findSite F,
     ge_ft = snd, ge_setFt = (\<lambda>f (s, _). (s, f)),
     ge_setGroup = (\<lambda>a rg (s, f). (s\<lparr>sa_rg := rg\<rparr>, f)), ge_toPrimary = (\<lambda>a w. (False, w)),
     ge_iid = (\<lambda>a (s, f). sa_iid s), ge_changeIID = (\<lambda>sid iid new w. (Inr (), w)),
     ge_onReplication = (\<lambda>a p w. (Inr (), w)), ge_connect = (\<lambda>e h w. (no_link, w)),
     ge_addReplica = (\<lambda>ch r w. w), ge_replicate = (\<lambda>ch p w. w)\<rparr>"

definition node_core :: "'x p2p_net \<Rightarrow> uuid \<Rightarrow> ('x, p3_ft) core_env" where
  "node_core W n = (fn_core (pn_node W n))\<lparr>ce_createGroup := (\<lambda>role params rgid qos a (s, f).
     P3_createReplicationGroup (replica_ft_env n (pn_node W n)) role rgid a (sa_sid s) params qos (s, f))\<rparr>"

definition core_object :: "nat \<Rightarrow> ('x service \<Rightarrow> 'x service) \<Rightarrow> ('x, 'f) core \<Rightarrow> ('x, 'f) core" where
  "core_object a f c = c\<lparr>co_heap := (co_heap c)[a := f (co_heap c ! a)]\<rparr>"

definition at_node :: "uuid \<Rightarrow> ('x, p3_ft, 'a) core_op \<Rightarrow> 'x net \<Rightarrow> (exn, 'a, 'x net) outcome" where
  "at_node n f N = (case f (N n) of (r, c) \<Rightarrow> (r, N(n := c)))"

text \<open>The surroundings of the groups of runtime \<open>n\<close>, but for its peers.\<close>

definition local_env :: "'x p2p_net \<Rightarrow> uuid \<Rightarrow> ('x net) group_env" where
  "local_env W n = (let F = pn_node W n in
     \<lparr>ge_uuid = n, ge_mesh = fn_mesh F, ge_ftSAP = fn_ftSAP F, ge_interface = fn_interface F,
      ge_sapWorld = fn_sapWorld F, ge_sapTry = fn_sapTry F, ge_pos = ce_pos (fn_core F), ge_findSite = fn_findSite F,
      ge_ft = (\<lambda>N. co_ft (N n)), ge_setFt = (\<lambda>f N. N(n := (N n)\<lparr>co_ft := f\<rparr>)),
      ge_setGroup = (\<lambda>a rg N. N(n := core_object a (\<lambda>s. s\<lparr>sa_rg := rg\<rparr>) (N n))),
      ge_toPrimary = (\<lambda>a N. case fn_toPrimary F (co_heap (N n) ! a) of
         (ok, s) \<Rightarrow> (ok, N(n := core_object a (\<lambda>_. s) (N n)))),
      ge_iid = (\<lambda>a N. sa_iid (co_heap (N n) ! a)),
      ge_changeIID = (\<lambda>sid iid new. at_node n (changeIIDOfService (node_core W n) sid iid new)),
      ge_onReplication = (\<lambda>a payload. at_node n (on_object a (fn_onReplication F payload))),
      ge_connect = (\<lambda>e h N. (no_link, N)), ge_addReplica = (\<lambda>ch r N. N), ge_replicate = (\<lambda>ch p N. N)\<rparr>)"

section \<open>The side that accepts\<close>

text \<open>
  \<^verbatim>\<open>FTControlSvcHandler::open\<close> at runtime \<open>b\<close> on the first packet of a connection (none came in time:
  \<open>None\<close>): the peer, the group and the access point in the reply; \<open>None\<close> is the result \<open>-1\<close>.
\<close>

definition FTControlSvcHandler_open :: "'x p2p_net \<Rightarrow> uuid \<Rightarrow> ft_hello option \<Rightarrow> 'x net
    \<Rightarrow> (exn, (uuid \<times> uuid \<times> sap_info option) option, 'x net) outcome" where
  "FTControlSvcHandler_open W b hello N = (case hello of
      Some (InitReplica ip) \<Rightarrow>
        andThen (at_node b (createReplicationGroup (node_core W b) (ip_primary ip) (ip_group ip) (ip_rgid ip)
            (ip_sid ip) (ip_params ip)) N)
          (\<lambda>_ N. case getReplicationGroup (local_env W b) (ip_rgid ip) N of
              None \<Rightarrow> (Inl NullDeref, N)
            | Some a \<Rightarrow> (Inr (Some (ip_uuid ip, ip_rgid ip, m_sapInfo (rg_dataSAP (ft_objs (co_ft (N b)) ! a)))), N))
    | Some (Prebind pp) \<Rightarrow> (Inr (Some (pp_uuid pp, pp_rgid pp, None)), N)
    | _ \<Rightarrow> (Inr None, N))"

text \<open>\<^verbatim>\<open>FTControlAcceptor::handle_input\<close>: the channel joins the control channels of the group it names.
  The value is the access point of the reply, when the channel was kept.\<close>

definition FTControlAcceptor_handle_input :: "'x p2p_net \<Rightarrow> uuid \<Rightarrow> ft_hello option \<Rightarrow> 'x net
    \<Rightarrow> (exn, sap_info option option, 'x net) outcome" where
  "FTControlAcceptor_handle_input W b hello N =
     andThen (FTControlSvcHandler_open W b hello N) (\<lambda>r N. case r of
       None \<Rightarrow> (Inr None, N)
     | Some (pid, rgid, sap) \<Rightarrow> (case getReplicationGroup (local_env W b) rgid N of
           None \<Rightarrow> (Inl NullDeref, N)
         | Some a \<Rightarrow> andThen (on_group (local_env W b) a (attachControl (local_env W b) (pn_control W b pid) pid) N)
             (\<lambda>ok N. (Inr (if ok then Some sap else None), N))))"

text \<open>Connecting from runtime \<open>n\<close>. A data connection is kept by its acceptor, which has no part in the state
  of the group (\<^verbatim>\<open>FTDataSvcHandler::open\<close> answers either first packet).\<close>

definition connect :: "'x p2p_net \<Rightarrow> uuid \<Rightarrow> endpoint \<Rightarrow> ft_hello option \<Rightarrow> 'x net \<Rightarrow> ft_link \<times> 'x net" where
  "connect W n e hello N = (let b = pn_host W (ep_host e) in case hello of
      Some (InitData pp) \<Rightarrow> (pn_data W n b, N)
    | Some (DataPrebind pp) \<Rightarrow> (pn_data W n b, N)
    | _ \<Rightarrow> (case FTControlAcceptor_handle_input W b hello N of
          (Inr (Some sap), N') \<Rightarrow> ((pn_control W n b)\<lparr>ln_session := sap\<rparr>, N')
        | (_, N') \<Rightarrow> ((pn_control W n b)\<lparr>ln_session := None, ln_up := False\<rparr>, N')))"

definition replica_env :: "'x p2p_net \<Rightarrow> uuid \<Rightarrow> ('x net) group_env" where
  "replica_env W n = (local_env W n)\<lparr>ge_connect := connect W n\<rparr>"

text \<open>An operation of the group that runtime \<open>n\<close> has under an identifier.\<close>

definition in_group :: "('x net) group_env \<Rightarrow> uuid \<Rightarrow> ('x net, 'a) group_op \<Rightarrow> 'x net \<Rightarrow> 'x net" where
  "in_group E rgid op N = (case getReplicationGroup E rgid N of
      None \<Rightarrow> N | Some a \<Rightarrow> snd (on_group E a op N))"

text \<open>
  The requests of a member: \<^verbatim>\<open>FTControlSvcHandler::handlePacket\<close> and \<^verbatim>\<open>FTDataSvcHandler::handlePacket\<close> at
  the other end of the channel, with the group to which that end belongs.
\<close>

definition member_env :: "'x p2p_net \<Rightarrow> uuid \<Rightarrow> uuid \<Rightarrow> ('x net) group_env" where
  "member_env W rgid n = (replica_env W n)
     \<lparr>ge_addReplica := (\<lambda>ch r. in_group (replica_env W (fc_pid ch)) rgid
        (handleAddReplicaPacket (replica_env W (fc_pid ch)) r)),
      ge_replicate := (\<lambda>ch payload. in_group (replica_env W (fc_pid ch)) rgid
        (handleReplicationPacket (replica_env W (fc_pid ch)) payload))\<rparr>"

text \<open>The members of a group after \<^verbatim>\<open>createReplicationGroup\<close> of the runtime \<open>p\<close> for the service at an
  address.\<close>

definition found_group ::
    "'x p2p_net \<Rightarrow> uuid \<Rightarrow> uuid \<Rightarrow> nat \<Rightarrow> service_params \<Rightarrow> 'x net \<Rightarrow> (exn, unit, 'x net) outcome" where
  "found_group W p rgid svc params N = P3_createReplicationGroup (member_env W rgid p) AsPrimary rgid svc
     (sa_sid (co_heap (N p) ! svc)) params None N"

section \<open>Crashes\<close>

text \<open>
  The runs of a group: a runtime stops; a member that runs closes a channel to a member that does not;
  a member replicates an update; and a runtime does something else, which the group does not see.
  A channel is closed by its reactor when the connection breaks, which it does only when the peer
  has stopped.
\<close>

inductive group_step :: "'x p2p_net \<Rightarrow> uuid \<Rightarrow> uuid list \<Rightarrow> 'x net \<times> uuid set \<Rightarrow> 'x net \<times> uuid set \<Rightarrow> bool"
  for W rgid J where
  Crash: "group_step W rgid J (N, A) (N, A - {n})"
| ControlBreaks: "n \<in> A \<inter> set J \<Longrightarrow> getReplicationGroup (local_env W n) rgid N = Some a \<Longrightarrow>
    ch \<in> set (CM_getMemberList (rg_clientControlManager (ft_objs (co_ft (N n)) ! a))) \<Longrightarrow> fc_pid ch \<notin> A \<Longrightarrow>
    group_step W rgid J (N, A) (snd (on_group (member_env W rgid n) a (control_close (member_env W rgid n) ch) N), A)"
| DataBreaks: "n \<in> A \<inter> set J \<Longrightarrow> getReplicationGroup (local_env W n) rgid N = Some a \<Longrightarrow>
    ch \<in> set (CM_getMemberList (rg_clientDataManager (ft_objs (co_ft (N n)) ! a))) \<Longrightarrow> fc_pid ch \<notin> A \<Longrightarrow>
    group_step W rgid J (N, A) (snd (on_group (member_env W rgid n) a (\<lambda>(g, N). (Inr (), (data_close ch g, N))) N), A)"
| Replicate: "n \<in> A \<inter> set J \<Longrightarrow> group_step W rgid J (N, A)
    (in_group (member_env W rgid n) rgid (group_replicate (member_env W rgid n) payload) N, A)"
| Local: "co_ft c = co_ft (N n) \<Longrightarrow> group_step W rgid J (N, A) (N(n := c), A)"

section \<open>Groups of a net\<close>

text \<open>The group of a runtime under an identifier.\<close>

definition has_group :: "'x net \<Rightarrow> uuid \<Rightarrow> uuid \<Rightarrow> rgroup \<Rightarrow> bool" where
  "has_group N rgid n g = (case hm_find (ft_map (co_ft (N n))) rgid of
      None \<Rightarrow> False
    | Some a \<Rightarrow> a < length (ft_objs (co_ft (N n))) \<and> ft_objs (co_ft (N n)) ! a = g)"

text \<open>What all surroundings of the groups of a runtime share.\<close>

definition env_at :: "('x net) group_env \<Rightarrow> uuid \<Rightarrow> bool" where
  "env_at E n = (ge_uuid E = n \<and> ge_ft E = (\<lambda>N. co_ft (N n))
     \<and> ge_setFt E = (\<lambda>f N. N(n := (N n)\<lparr>co_ft := f\<rparr>)))"

definition same_ft :: "'x net \<Rightarrow> 'x net \<Rightarrow> bool" where
  "same_ft N N' = (\<forall>m. co_ft (N' m) = co_ft (N m))"

lemma env_at_envs [simp]: "env_at (local_env W n) n" "env_at (replica_env W n) n" "env_at (member_env W rgid n) n"
  by (simp_all add: env_at_def replica_env_def member_env_def local_env_def Let_def)

lemma env_simps [simp]:
  "ge_uuid (local_env W n) = n" "ge_uuid (replica_env W n) = n" "ge_uuid (member_env W rgid n) = n"
  "ge_mesh (replica_env W n) = fn_mesh (pn_node W n)" "ge_mesh (member_env W rgid n) = fn_mesh (pn_node W n)"
  "ge_connect (replica_env W n) = connect W n" "ge_connect (member_env W rgid n) = connect W n"
  by (simp_all add: local_env_def replica_env_def member_env_def Let_def)

lemma has_group_unique: "has_group N rgid n g \<Longrightarrow> has_group N rgid n g' \<Longrightarrow> g = g'"
  by (auto simp: has_group_def split: option.splits)

lemma has_group_cong: "co_ft (N' n) = co_ft (N n) \<Longrightarrow> has_group N' rgid n g = has_group N rgid n g"
  by (simp add: has_group_def split: option.split)

lemma has_group_addr: "has_group N rgid n g \<Longrightarrow> env_at E n \<Longrightarrow> \<exists>a. getReplicationGroup E rgid N = Some a
    \<and> a < length (ft_objs (co_ft (N n))) \<and> ft_objs (co_ft (N n)) ! a = g"
  by (auto simp: has_group_def getReplicationGroup_def env_at_def split: option.splits)

lemma getReplicationGroup_env: "env_at E n \<Longrightarrow> getReplicationGroup E rgid N = hm_find (ft_map (co_ft (N n))) rgid"
  by (simp add: getReplicationGroup_def env_at_def)

text \<open>An operation of a group that leaves the fault tolerance service of its own runtime alone.\<close>

lemma on_group_effect:
  assumes E: "env_at E n" and g: "has_group N rgid n g" and a: "getReplicationGroup E rgid N = Some a"
    and op: "op (g, N) = (r, (g', N'))" and keep: "co_ft (N' n) = co_ft (N n)"
  shows "on_group E a op N = (r, N'(n := (N' n)\<lparr>co_ft := (co_ft (N n))\<lparr>ft_objs := (ft_objs (co_ft (N n)))[a := g']\<rparr>\<rparr>))"
    and "has_group (snd (on_group E a op N)) rgid n g'"
    and "m \<noteq> n \<Longrightarrow> snd (on_group E a op N) m = N' m"
proof -
  have o: "ft_objs (co_ft (N n)) ! a = g" "a < length (ft_objs (co_ft (N n)))"
    "hm_find (ft_map (co_ft (N n))) rgid = Some a"
    using g a E by (auto simp: has_group_def getReplicationGroup_def env_at_def)
  show *: "on_group E a op N = (r, N'(n := (N' n)\<lparr>co_ft := (co_ft (N n))\<lparr>ft_objs := (ft_objs (co_ft (N n)))[a := g']\<rparr>\<rparr>))"
    using E op o keep by (simp add: on_group_def env_at_def)
  show "has_group (snd (on_group E a op N)) rgid n g'" "m \<noteq> n \<Longrightarrow> snd (on_group E a op N) m = N' m"
    using o by (simp_all add: * has_group_def)
qed

text \<open>Registering, opening and announcing services does not touch the fault tolerance service.\<close>

lemma andThen_ft: "co_ft (snd r) = f \<Longrightarrow> (\<And>x c. co_ft c = f \<Longrightarrow> co_ft (snd (k x c)) = f) \<Longrightarrow>
    co_ft (snd (andThen r k)) = f"
  by (cases r; cases "fst r") auto

lemma ft_whenValid: "co_ft (snd (f c)) = co_ft c \<Longrightarrow> co_ft (snd (whenValid f c)) = co_ft c"
  by (simp add: whenValid_def)

lemma ft_on_object [simp]: "co_ft (snd (on_object a f c)) = co_ft c"
  by (simp add: on_object_def split: prod.split)

lemma ft_tellMesh [simp]: "co_ft (snd (tellMesh E x c)) = co_ft c"
  by (simp add: tellMesh_def split: option.split)

lemma ft_changeIID [simp]: "co_ft (snd (changeIIDOfService E sid iid new c)) = co_ft c"
  unfolding changeIIDOfService_def
  by (rule ft_whenValid) (auto simp: Let_def split: option.split prod.split intro!: andThen_ft)

lemma ft_at_node: "(\<And>c. co_ft (snd (f c)) = co_ft c) \<Longrightarrow> same_ft N (snd (at_node n f N))"
  by (auto simp: same_ft_def at_node_def split: prod.split) (metis snd_conv)

lemma local_env_hooks:
  assumes "E = local_env W n \<or> E = replica_env W n \<or> E = member_env W rgid n"
  shows "same_ft N (snd (ge_toPrimary E a N))" "same_ft N (snd (ge_changeIID E s i j N))"
    "same_ft N (snd (ge_onReplication E a p N))"
    "m \<noteq> n \<Longrightarrow> snd (ge_toPrimary E a N) m = N m" "m \<noteq> n \<Longrightarrow> snd (ge_changeIID E s i j N) m = N m"
  using assms
  by (auto simp: local_env_def replica_env_def member_env_def Let_def intro!: ft_at_node)
     (auto simp: same_ft_def core_object_def at_node_def split: prod.splits)

lemma same_ft_refl [simp]: "same_ft N N"
  by (simp add: same_ft_def)

lemma same_ft_trans: "same_ft N M \<Longrightarrow> same_ft M K \<Longrightarrow> same_ft N K"
  by (simp add: same_ft_def)

lemma fire_keeps:
  assumes "E = local_env W n \<or> E = replica_env W n \<or> E = member_env W rgid n"
  shows "same_ft N (snd (snd (fireOnChangeToPrimary E (g, N))))"
    and "m \<noteq> n \<Longrightarrow> snd (snd (fireOnChangeToPrimary E (g, N))) m = N m"
proof -
  obtain ok N1 where 1: "ge_toPrimary E (rg_svc g) N = (ok, N1)" by (cases "ge_toPrimary E (rg_svc g) N")
  obtain r N2 where 2: "ge_changeIID E (rg_sid g) (ge_iid E (rg_svc g) N1) (rg_groupUUID g) N1 = (r, N2)"
    by (cases "ge_changeIID E (rg_sid g) (ge_iid E (rg_svc g) N1) (rg_groupUUID g) N1")
  note h = local_env_hooks [OF assms]
  show "same_ft N (snd (snd (fireOnChangeToPrimary E (g, N))))"
    using h(1) [of N "rg_svc g"] h(2) [of N1 "rg_sid g" "ge_iid E (rg_svc g) N1" "rg_groupUUID g"]
    by (auto simp: fireOnChangeToPrimary_def 1 2 intro: same_ft_trans)
  show "m \<noteq> n \<Longrightarrow> snd (snd (fireOnChangeToPrimary E (g, N))) m = N m"
    using h(4) [of m "rg_svc g" N] h(5) [of m "rg_sid g" "ge_iid E (rg_svc g) N1" "rg_groupUUID g" N1]
    by (simp add: fireOnChangeToPrimary_def 1 2)
qed

section \<open>The invariant of the runs\<close>

definition control_id :: "'x p2p_net \<Rightarrow> uuid \<Rightarrow> uuid \<Rightarrow> uuid" where
  "control_id W n q = ln_channelID (pn_control W n q)"

definition data_id :: "'x p2p_net \<Rightarrow> uuid \<Rightarrow> uuid \<Rightarrow> uuid" where
  "data_id W n q = ln_channelID (pn_data W n q)"

text \<open>Every channel has an identifier of its own, and none is the identifier of a member.\<close>

definition channel_ids :: "'x p2p_net \<Rightarrow> uuid set \<Rightarrow> bool" where
  "channel_ids W J = (uuids J \<and> (\<forall>n. inj (control_id W n) \<and> inj (data_id W n)
     \<and> range (control_id W n) \<inter> J = {} \<and> range (data_id W n) \<inter> J = {}))"

text \<open>The members that joined after one.\<close>

definition later :: "uuid list \<Rightarrow> uuid \<Rightarrow> uuid set" where
  "later J n = set (tl (dropWhile (\<lambda>x. x \<noteq> n) J))"

text \<open>
  The group of a running member \<open>n\<close>, in a group whose members joined in the order \<open>J\<close> and of which the
  set \<open>A\<close> runs: its view is \<open>J\<close> without some that stopped, it has one control channel to each other
  member of its view, and a data channel to each later one that runs.
\<close>

definition member_inv :: "'x p2p_net \<Rightarrow> uuid list \<Rightarrow> uuid set \<Rightarrow> uuid \<Rightarrow> rgroup \<Rightarrow> bool" where
  "member_inv W J A n g = ((\<exists>D. D \<inter> A = {} \<and> view g = filter (\<lambda>q. q \<notin> D) J) \<and> rg_primaryPeer g \<noteq> None
     \<and> chan_table (control_id W n) (set (view g) - {n}) (rg_clientControlManager g)
     \<and> (\<exists>Q. chan_table (data_id W n) Q (rg_clientDataManager g) \<and> later J n \<inter> A \<subseteq> Q \<and> Q \<subseteq> later J n))"

definition run_inv :: "'x p2p_net \<Rightarrow> uuid \<Rightarrow> uuid list \<Rightarrow> 'x net \<times> uuid set \<Rightarrow> bool" where
  "run_inv W rgid J s = (case s of (N, A) \<Rightarrow>
     distinct J \<and> channel_ids W (set J)
     \<and> (\<forall>n\<in>A \<inter> set J. \<exists>g. has_group N rgid n g \<and> rg_groupUUID g = rgid \<and> member_inv W J A n g))"

lemma run_invD:
  "run_inv W rgid J (N, A) \<Longrightarrow> n \<in> A \<Longrightarrow> n \<in> set J \<Longrightarrow>
     \<exists>g. has_group N rgid n g \<and> rg_groupUUID g = rgid \<and> member_inv W J A n g"
  by (auto simp: run_inv_def)

lemma later_set: "later J n \<subseteq> set J"
proof -
  have "set (dropWhile (\<lambda>x. x \<noteq> n) J) \<subseteq> set J" by (auto dest: set_dropWhileD)
  moreover have "set (tl xs) \<subseteq> set xs" for xs :: "uuid list" by (cases xs) auto
  ultimately show ?thesis unfolding later_def by blast
qed

text \<open>A change that keeps the groups of the members and their invariant.\<close>

lemma run_inv_change:
  assumes inv: "run_inv W rgid J (N, A)" and n: "n \<in> A \<inter> set J \<Longrightarrow> has_group N' rgid n g'"
    "n \<in> A \<inter> set J \<Longrightarrow> rg_groupUUID g' = rgid" "n \<in> A \<inter> set J \<Longrightarrow> member_inv W J A n g'"
    and others: "\<And>m. m \<noteq> n \<Longrightarrow> co_ft (N' m) = co_ft (N m)"
  shows "run_inv W rgid J (N', A)"
proof -
  have "\<exists>g. has_group N' rgid m g \<and> rg_groupUUID g = rgid \<and> member_inv W J A m g" if m: "m \<in> A \<inter> set J" for m
  proof (cases "m = n")
    case True
    then show ?thesis using n m by blast
  next
    case False
    then show ?thesis using run_invD [OF inv, of m] m
        has_group_cong [where N = N and N' = N' and n = m, OF others [OF False]] by auto
  qed
  then show ?thesis using inv by (auto simp: run_inv_def)
qed

lemma same_ft_has_group: "same_ft N N' \<Longrightarrow> has_group N' = has_group N"
  by (simp add: fun_eq_iff same_ft_def has_group_def split: option.split)

lemma run_inv_same: "run_inv W rgid J (N, A) \<Longrightarrow> same_ft N N' \<Longrightarrow> run_inv W rgid J (N', A)"
  by (simp add: run_inv_def same_ft_has_group)

lemma member_inv_crash: "member_inv W J A n g \<Longrightarrow> B \<subseteq> A \<Longrightarrow> member_inv W J B n g"
  unfolding member_inv_def by (meson disjoint_iff subset_eq inf_mono order_trans order_refl)

text \<open>The members of the view of a running member, and those it has channels to.\<close>

lemma member_view:
  assumes "member_inv W J A n g" "n \<in> A" "n \<in> set J"
  shows "n \<in> set (view g)" "set (view g) \<subseteq> set J"
  using assms by (auto simp: member_inv_def)

lemma control_channel:
  assumes "member_inv W J A n g" "ch \<in> set (CM_getMemberList (rg_clientControlManager g))"
  shows "fc_pid ch \<in> set (view g)" "fc_pid ch \<noteq> n" "ch = opened (control_id W n (fc_pid ch)) (fc_pid ch)"
proof -
  have "chan_table (control_id W n) (set (view g) - {n}) (rg_clientControlManager g)"
    using assms(1) by (simp add: member_inv_def)
  then obtain q where "q \<in> set (view g) - {n}" "ch = opened (control_id W n q) q"
    using chan_table_members assms(2) by blast
  then show "fc_pid ch \<in> set (view g)" "fc_pid ch \<noteq> n" "ch = opened (control_id W n (fc_pid ch)) (fc_pid ch)"
    by simp_all
qed

text \<open>A control channel to a member that stopped breaks.\<close>

lemma control_break_member:
  fixes E :: "('x net) group_env" and w :: "'x net"
  assumes ids: "channel_ids W (set J)" "distinct J" and inv: "member_inv W J A n g" and n: "n \<in> A" "n \<in> set J"
    and ch: "ch \<in> set (CM_getMemberList (rg_clientControlManager g))" "fc_pid ch \<notin> A"
    and E: "ge_uuid E = n"
  defines "r \<equiv> control_close E ch (g, w)"
  shows "member_inv W J A n (fst (snd r))" "same_group g (fst (snd r))"
    "view (fst (snd r)) = remove1 (fc_pid ch) (view g)"
    "snd (snd r) = w \<or> (\<exists>g'. snd (snd r) = snd (snd (fireOnChangeToPrimary E (g', w))))"
proof -
  let ?q = "fc_pid ch" and ?m = "rg_clientControlManager g" and ?V = "set (view g)"
  note c = control_channel [OF inv ch(1)]
  have inj: "inj (control_id W n)" "inj (data_id W n)" using ids by (auto simp: channel_ids_def)
  have t: "chan_table (control_id W n) (?V - {n}) ?m" using inv by (simp add: member_inv_def)
  obtain Q where Q: "chan_table (data_id W n) Q (rg_clientDataManager g)" "later J n \<inter> A \<subseteq> Q" "Q \<subseteq> later J n"
    using inv by (auto simp: member_inv_def)
  obtain D where D: "D \<inter> A = {}" "view g = filter (\<lambda>q. q \<notin> D) J" using inv by (auto simp: member_inv_def)
  have q: "?q \<in> ?V - {n}" using c by simp
  have J: "?V \<subseteq> set J" "n \<in> ?V" using member_view [OF inv n] by auto
  define ch' where "ch' = ch\<lparr>ch_close := True\<rparr>"
  define m' where "m' = snd (hm_unbind (control_id W n ?q) ?m)"
  have id: "fc_channelID ch' = control_id W n ?q" using c(3) by (metis ch'_def ft_channel.select_convs(1)
        ft_channel.surjective opened_simps(1) stream_channel.update_convs(6))
  have pid: "fc_pid (detached ch') = ?q" by (simp add: ch'_def)
  note rem = chan_table_remove [OF inj(1) t q id]
  have close: "channel_close False ch = (True, ch')"
    using c(3) by (simp add: channel_close_def ch'_def) (metis opened_simps(3,4))
  have r: "r = onPeerClosure E ?q (g\<lparr>rg_clientControlManager := m'\<rparr>, w)"
    using rem(1) pid by (simp add: r_def control_close_def close control_onClose_def m'_def)
  let ?g = "g\<lparr>rg_clientControlManager := m'\<rparr>"
  have v: "view ?g = view g" by (simp add: view_def)
  have U: "uuids (set J)" "insert ?q (insert (ge_uuid E) (set (view ?g))) \<subseteq> set J"
    using ids J q E by (auto simp: channel_ids_def v)
  have keys: "hm_find (rg_clientControlManager ?g) ?q = None" "hm_find (rg_clientDataManager ?g) ?q = None"
  proof -
    have "?q \<in> set J" "range (control_id W n) \<inter> set J = {}" "range (data_id W n) \<inter> set J = {}"
      using ids J q by (auto simp: channel_ids_def)
    then have no: "?q \<notin> range (control_id W n)" "?q \<notin> range (data_id W n)" by blast+
    show "hm_find (rg_clientControlManager ?g) ?q = None" "hm_find (rg_clientDataManager ?g) ?q = None"
      using chan_table_other [OF rem(2) no(1)] chan_table_other [OF Q(1) no(2)] by (simp_all add: m'_def)
  qed
  have qn: "?q \<noteq> ge_uuid E" "rg_primaryPeer ?g \<noteq> None" using c E inv by (auto simp: member_inv_def)
  note e = onPeerClosure_effect [OF U qn keys, of w, folded r]
  have "view ?g \<noteq> [?q]" using J c(2) by (auto simp: v)
  then show "view (fst (snd r)) = remove1 ?q (view g)" using e(1) by (simp add: v)
  have "view ?g \<noteq> [?q]" using J c(2) by (auto simp: v)
  then have view: "view (fst (snd r)) = filter (\<lambda>x. x \<notin> insert ?q D) J"
    using e(1) ids(2) by (auto simp: v D(2) distinct_remove1_removeAll removeAll_filter_not_eq intro: filter_cong)
  then have V: "set (view (fst (snd r))) = ?V - {?q}" using D(2) by auto
  have "chan_table (control_id W n) (set (view (fst (snd r))) - {n}) (rg_clientControlManager (fst (snd r)))"
    using rem(2) e(2) by (simp add: V m'_def Diff_insert [symmetric] insert_commute)
  moreover have "\<exists>D. D \<inter> A = {} \<and> view (fst (snd r)) = filter (\<lambda>q. q \<notin> D) J"
    using D(1) ch(2) view by (intro exI [of _ "insert ?q D"]) simp
  moreover have "\<exists>Q. chan_table (data_id W n) Q (rg_clientDataManager (fst (snd r))) \<and> later J n \<inter> A \<subseteq> Q \<and> Q \<subseteq> later J n"
    using e(3) Q by (intro exI [of _ Q]) simp
  ultimately show "member_inv W J A n (fst (snd r))" using e(4) by (simp add: member_inv_def)
  show "same_group g (fst (snd r))" using e(5) by (simp add: same_group_def)
  show "snd (snd r) = w \<or> (\<exists>g'. snd (snd r) = snd (snd (fireOnChangeToPrimary E (g', w))))" using e(6) by blast
qed

text \<open>One member handles an update.\<close>

definition deliver :: "'x p2p_net \<Rightarrow> uuid \<Rightarrow> byte list \<Rightarrow> uuid \<Rightarrow> ('x, p3_ft) core \<Rightarrow> ('x, p3_ft) core" where
  "deliver W rgid payload n c = (case hm_find (ft_map (co_ft c)) rgid of
      None \<Rightarrow> c
    | Some a \<Rightarrow> (case isThisPeerPrimary (local_env W n) (ft_objs (co_ft c) ! a) of
          Inr False \<Rightarrow> snd (on_object (rg_svc (ft_objs (co_ft c) ! a)) (fn_onReplication (pn_node W n) payload) c)
        | _ \<Rightarrow> c))"

lemma deliver_ft [simp]: "co_ft (deliver W rgid payload n c) = co_ft c"
  by (simp add: deliver_def split: option.split sum.split bool.split)

lemma set_ft_idem: "co_ft c = f \<Longrightarrow> c\<lparr>co_ft := f\<rparr> = c"
  by auto

lemma in_group_replication:
  "in_group (replica_env W n) rgid (handleReplicationPacket (replica_env W n) payload) N
     = N(n := deliver W rgid payload n (N n))"
proof (cases "hm_find (ft_map (co_ft (N n))) rgid")
  case None
  then show ?thesis by (simp add: in_group_def deliver_def getReplicationGroup_env [of _ n])
next
  case (Some a)
  let ?g = "ft_objs (co_ft (N n)) ! a"
  have p: "isThisPeerPrimary (replica_env W n) ?g = isThisPeerPrimary (local_env W n) ?g"
    by (simp add: isThisPeerPrimary_def isThisPeer_def replica_env_def split: option.split)
  have "snd (handleReplicationPacket (replica_env W n) payload (?g, N)) = (?g, N(n := deliver W rgid payload n (N n)))"
    using Some p
    by (simp add: handleReplicationPacket_def deliver_def replica_env_def local_env_def Let_def at_node_def
        split: sum.split bool.split prod.split)
  then obtain r where h: "handleReplicationPacket (replica_env W n) payload (?g, N)
      = (r, (?g, N(n := deliver W rgid payload n (N n))))" by (metis prod.collapse)
  show ?thesis
    using env_at_envs(2) [of W n]
    by (simp add: in_group_def getReplicationGroup_env [of _ n] Some on_group_def env_at_def h set_ft_idem)
qed

lemma replicate_over_net:
  "replicate_over (member_env W rgid n) payload chs N m = (if m \<in> fc_pid ` set (filter (\<lambda>ch. \<not> ch_close ch) chs)
     then (deliver W rgid payload m ^^ length (filter (\<lambda>ch. fc_pid ch = m \<and> \<not> ch_close ch) chs)) (N m) else N m)"
proof (induction chs arbitrary: N)
  case (Cons ch chs)
  have r: "ge_replicate (member_env W rgid n) ch payload N
      = N(fc_pid ch := deliver W rgid payload (fc_pid ch) (N (fc_pid ch)))"
    using in_group_replication [of W "fc_pid ch" rgid payload N] by (simp add: member_env_def)
  have none: "m \<notin> fc_pid ` set (filter (\<lambda>ch. \<not> ch_close ch) chs) \<Longrightarrow>
      filter (\<lambda>ch. fc_pid ch = m \<and> \<not> ch_close ch) chs = []"
    by (auto simp: filter_empty_conv)
  show ?case using none by (auto simp: Cons.IH r funpow_swap1)
qed simp

lemma replicate_keeps_ft: "same_ft N (replicate_over (member_env W rgid n) payload chs N)"
proof -
  have "co_ft ((deliver W rgid payload m ^^ k) c) = co_ft c" for m k c by (induction k) simp_all
  then show ?thesis by (simp add: same_ft_def replicate_over_net)
qed

lemma group_replicate_net:
  "same_ft N (in_group (member_env W rgid n) rgid (group_replicate (member_env W rgid n) payload) N)
   \<and> (\<forall>g. has_group N rgid n g \<longrightarrow>
      in_group (member_env W rgid n) rgid (group_replicate (member_env W rgid n) payload) N
      = replicate_over (member_env W rgid n) payload (CM_getMemberList (rg_clientDataManager g)) N)"
proof (cases "hm_find (ft_map (co_ft (N n))) rgid")
  case None
  then show ?thesis by (simp add: in_group_def getReplicationGroup_env [of _ n] has_group_def)
next
  case (Some a)
  let ?g = "ft_objs (co_ft (N n)) ! a"
  let ?N = "replicate_over (member_env W rgid n) payload (CM_getMemberList (rg_clientDataManager ?g)) N"
  have s: "same_ft N ?N" by (rule replicate_keeps_ft)
  then have c: "co_ft (?N n) = co_ft (N n)" by (simp add: same_ft_def)
  have "in_group (member_env W rgid n) rgid (group_replicate (member_env W rgid n) payload) N
     = ?N(n := (?N n)\<lparr>co_ft := co_ft (N n)\<rparr>)"
    using env_at_envs(3) [of W rgid n] c
    by (simp add: in_group_def getReplicationGroup_env [of _ n] Some on_group_def group_replicate_def env_at_def)
  also have "\<dots> = ?N" using c by (simp add: fun_upd_idem_iff)
  finally show ?thesis using s Some by (auto simp: has_group_def)
qed

section \<open>The steps keep the invariant\<close>

lemma data_break_member:
  assumes ids: "channel_ids W (set J)" and inv: "member_inv W J A n g"
    and ch: "ch \<in> set (CM_getMemberList (rg_clientDataManager g))" "fc_pid ch \<notin> A"
  shows "member_inv W J A n (data_close ch g)" "rg_groupUUID (data_close ch g) = rg_groupUUID g"
proof -
  obtain Q where Q: "chan_table (data_id W n) Q (rg_clientDataManager g)" "later J n \<inter> A \<subseteq> Q" "Q \<subseteq> later J n"
    using inv by (auto simp: member_inv_def)
  obtain q where q: "q \<in> Q" "ch = opened (data_id W n q) q" using chan_table_members [OF Q(1)] ch(1) by auto
  have inj: "inj (data_id W n)" using ids by (simp add: channel_ids_def)
  let ?ch = "ch\<lparr>ch_close := True\<rparr>"
  have id: "fc_channelID ?ch = data_id W n q" using q(2) by (simp add: opened_def FTChannel_ctor_def)
  have close: "channel_close False ch = (True, ?ch)" using q(2) by (simp add: channel_close_def)
  note rem = chan_table_remove [OF inj Q(1) q(1) id]
  have d: "data_close ch g = g\<lparr>rg_clientDataManager := snd (hm_unbind (data_id W n q) (rg_clientDataManager g))\<rparr>"
    by (simp add: data_close_def close data_onClose_def rem(1))
  have "q \<notin> A" using ch(2) q(2) by simp
  then have "later J n \<inter> A \<subseteq> Q - {q} \<and> Q - {q} \<subseteq> later J n" using Q by blast
  then show "member_inv W J A n (data_close ch g)" using inv rem(2)
    by (auto simp: member_inv_def d view_def)
  show "rg_groupUUID (data_close ch g) = rg_groupUUID g" by (simp add: d)
qed

lemma group_step_inv:
  assumes "group_step W rgid J s t" "run_inv W rgid J s"
  shows "run_inv W rgid J t"
  using assms
proof (induction rule: group_step.induct)
  case (Crash N A n)
  have "\<exists>g. has_group N rgid m g \<and> rg_groupUUID g = rgid \<and> member_inv W J (A - {n}) m g"
    if "m \<in> (A - {n}) \<inter> set J" for m
    using run_invD [OF Crash, of m] that member_inv_crash [of W J A m _ "A - {n}"] by blast
  then show ?case using Crash by (auto simp: run_inv_def)
next
  case (ControlBreaks n A N a ch)
  let ?E = "member_env W rgid n"
  have n: "n \<in> A" "n \<in> set J" using ControlBreaks(1) by auto
  obtain g where g: "has_group N rgid n g" "rg_groupUUID g = rgid" "member_inv W J A n g"
    using run_invD [OF ControlBreaks(5) n] by blast
  have a: "getReplicationGroup ?E rgid N = Some a"
    using ControlBreaks(2) by (simp add: getReplicationGroup_env [of _ n])
  have ga: "ft_objs (co_ft (N n)) ! a = g" using has_group_addr [OF g(1), of ?E] a by auto
  obtain r g' N' where run: "control_close ?E ch (g, N) = (r, (g', N'))" by (metis prod_cases3)
  have ids: "channel_ids W (set J)" "distinct J" using ControlBreaks(5) by (simp_all add: run_inv_def)
  have ch: "ch \<in> set (CM_getMemberList (rg_clientControlManager g))" using ControlBreaks(3) ga by simp
  have "ge_uuid ?E = n" using env_at_envs(3) [of W rgid n] by (simp add: env_at_def)
  note b = control_break_member [OF ids g(3) n ch ControlBreaks(4) this, of N, unfolded run, simplified]
  have keep: "same_ft N N'" "m \<noteq> n \<Longrightarrow> N' m = N m" for m
    using b(4) fire_keeps [of ?E W n rgid] by auto
  then have "co_ft (N' n) = co_ft (N n)" by (simp add: same_ft_def)
  note o = on_group_effect [where op = "control_close ?E ch", OF env_at_envs(3) g(1) a run this]
  show ?case
    by (rule run_inv_change [OF ControlBreaks(5), of n _ g'])
       (use o(2,3) b(1,2) g(2) keep(2) in \<open>auto simp: same_group_def\<close>)
next
  case (DataBreaks n A N a ch)
  let ?E = "member_env W rgid n"
  have n: "n \<in> A" "n \<in> set J" using DataBreaks(1) by auto
  obtain g where g: "has_group N rgid n g" "rg_groupUUID g = rgid" "member_inv W J A n g"
    using run_invD [OF DataBreaks(5) n] by blast
  have a: "getReplicationGroup ?E rgid N = Some a"
    using DataBreaks(2) by (simp add: getReplicationGroup_env [of _ n])
  have ga: "ft_objs (co_ft (N n)) ! a = g" using has_group_addr [OF g(1), of ?E] a by auto
  have ids: "channel_ids W (set J)" using DataBreaks(5) by (simp add: run_inv_def)
  have ch: "ch \<in> set (CM_getMemberList (rg_clientDataManager g))" using DataBreaks(3) ga by simp
  note b = data_break_member [OF ids g(3) ch DataBreaks(4)]
  have run: "(\<lambda>(g, N). (Inr (), (data_close ch g, N))) (g, N) = (Inr (), (data_close ch g, N))" by simp
  note o = on_group_effect [where op = "\<lambda>(g, N). (Inr (), (data_close ch g, N))", OF env_at_envs(3) g(1) a run refl]
  show ?case
    by (rule run_inv_change [OF DataBreaks(5), of n _ "data_close ch g"]) (use o(2,3) b g(2) in auto)
next
  case (Replicate n A N payload)
  then show ?case using group_replicate_net run_inv_same by blast
next
  case (Local c N n A)
  have "same_ft N (N(n := c))" using Local(1) by (simp add: same_ft_def)
  with Local(2) show ?case by (rule run_inv_same)
qed

lemma group_run_inv: "(group_step W rgid J)\<^sup>*\<^sup>* s t \<Longrightarrow> run_inv W rgid J s \<Longrightarrow> run_inv W rgid J t"
  by (induction rule: rtranclp_induct) (auto intro: group_step_inv)

section \<open>Views of the survivors\<close>

text \<open>No control channel of a running member leads to one that stopped.\<close>

definition quiescent :: "uuid \<Rightarrow> uuid list \<Rightarrow> 'x net \<times> uuid set \<Rightarrow> bool" where
  "quiescent rgid J s = (case s of (N, A) \<Rightarrow> \<forall>n\<in>A \<inter> set J. \<forall>g. has_group N rgid n g \<longrightarrow>
     (\<forall>ch\<in>set (CM_getMemberList (rg_clientControlManager g)). fc_pid ch \<in> A))"

definition acts_as_primary :: "'x p2p_net \<Rightarrow> uuid \<Rightarrow> 'x net \<Rightarrow> uuid \<Rightarrow> bool" where
  "acts_as_primary W rgid N n = (\<exists>g. has_group N rgid n g \<and> isThisPeerPrimary (local_env W n) g = Inr True)"

lemma primary_first:
  assumes "run_inv W rgid J (N, A)" "n \<in> A" "n \<in> set J" "acts_as_primary W rgid N n"
  shows "\<exists>us vs. J = us @ n # vs \<and> set us \<inter> A = {}"
proof -
  from run_invD [OF assms(1-3)] obtain g where g: "has_group N rgid n g" "member_inv W J A n g" by blast
  obtain D p where D: "D \<inter> A = {}" "view g = filter (\<lambda>q. q \<notin> D) J" "rg_primaryPeer g = Some p"
    using g(2) by (auto simp: member_inv_def)
  have "isThisPeerPrimary (local_env W n) g = Inr True"
    using assms(4) has_group_unique [OF g(1)] by (auto simp: acts_as_primary_def)
  then have "isEqual n (op_uuid p)" using D(3)
    by (simp add: isThisPeerPrimary_def isThisPeer_def local_env_def Let_def)
  moreover have v: "view g = op_uuid p # map op_uuid (rg_replicas g)" using D(3) by (simp add: view_def)
  moreover have "uuids (set J)" using assms(1) by (simp add: run_inv_def channel_ids_def)
  moreover have "op_uuid p \<in> set J" using D(2) v by (metis filter_is_subset list.set_intros(1) subsetD)
  ultimately have "op_uuid p = n" using uuids_isEqual assms(3) by blast
  with D(2) v obtain us vs where "J = us @ n # vs" "\<forall>u\<in>set us. u \<in> D"
    by (metis (no_types, lifting) Cons_eq_filterD)
  then show ?thesis using D(1) by blast
qed

lemma quiescent_view:
  assumes "run_inv W rgid J (N, A)" "quiescent rgid J (N, A)" "n \<in> A" "n \<in> set J" "has_group N rgid n g"
  shows "view g = filter (\<lambda>q. q \<in> A) J"
proof -
  have m: "member_inv W J A n g" using run_invD [OF assms(1,3,4)] has_group_unique [OF assms(5)] by blast
  then obtain D where D: "D \<inter> A = {}" "view g = filter (\<lambda>q. q \<notin> D) J" by (auto simp: member_inv_def)
  have t: "chan_table (control_id W n) (set (view g) - {n}) (rg_clientControlManager g)"
    using m by (simp add: member_inv_def)
  have "q \<in> A" if "q \<in> set (view g)" for q
  proof (cases "q = n")
    case False
    then have "opened (control_id W n q) q \<in> set (CM_getMemberList (rg_clientControlManager g))"
      using chan_table_members [OF t] that by auto
    then show ?thesis using assms by (force simp: quiescent_def)
  qed (use assms in simp)
  then show ?thesis using D by (auto intro!: filter_cong)
qed

text \<open>Breaking channels comes to an end: each break takes a member that stopped out of a view.\<close>

definition group_view :: "uuid \<Rightarrow> 'x net \<Rightarrow> uuid \<Rightarrow> uuid list" where
  "group_view rgid N n = (case hm_find (ft_map (co_ft (N n))) rgid of
      None \<Rightarrow> [] | Some a \<Rightarrow> view (ft_objs (co_ft (N n)) ! a))"

lemma group_view_has: "has_group N rgid n g \<Longrightarrow> group_view rgid N n = view g"
  by (auto simp: has_group_def group_view_def split: option.splits)

definition unnoticed :: "uuid \<Rightarrow> uuid list \<Rightarrow> 'x net \<Rightarrow> uuid set \<Rightarrow> nat" where
  "unnoticed rgid J N A = (\<Sum>n\<in>A \<inter> set J. length (filter (\<lambda>q. q \<notin> A) (group_view rgid N n)))"

lemma break_unnoticed:
  assumes inv: "run_inv W rgid J (N, A)" and n: "n \<in> A \<inter> set J" and g: "has_group N rgid n g"
    and ch: "ch \<in> set (CM_getMemberList (rg_clientControlManager g))" "fc_pid ch \<notin> A"
  shows "\<exists>N'. group_step W rgid J (N, A) (N', A) \<and> unnoticed rgid J N' A < unnoticed rgid J N A"
proof -
  let ?E = "member_env W rgid n"
  obtain a where a: "getReplicationGroup ?E rgid N = Some a" "ft_objs (co_ft (N n)) ! a = g"
    using has_group_addr [OF g env_at_envs(3)] by blast
  have m: "member_inv W J A n g" using run_invD [OF inv, of n] n has_group_unique [OF g] by blast
  have ids: "channel_ids W (set J)" "distinct J" using inv by (simp_all add: run_inv_def)
  obtain r g' N1 where run: "control_close ?E ch (g, N) = (r, (g', N1))" by (metis prod_cases3)
  have n': "n \<in> A" "n \<in> set J" using n by auto
  have "ge_uuid ?E = n" by simp
  note b = control_break_member [OF ids m n' ch this, of N, unfolded run, simplified]
  have keep: "same_ft N N1" "x \<noteq> n \<Longrightarrow> N1 x = N x" for x
    using b(4) fire_keeps [of ?E W n rgid] by auto
  then have "co_ft (N1 n) = co_ft (N n)" by (simp add: same_ft_def)
  note o = on_group_effect [where op = "control_close ?E ch", OF env_at_envs(3) g a(1) run this]
  let ?N = "snd (on_group ?E a (control_close ?E ch) N)"
  have "getReplicationGroup (local_env W n) rgid N = Some a" using a(1) by (simp add: getReplicationGroup_env [of _ n])
  then have step: "group_step W rgid J (N, A) (?N, A)"
    using group_step.ControlBreaks [OF n, of W rgid N a ch] ch a(2) by simp
  let ?f = "\<lambda>N x. length (filter (\<lambda>q. q \<notin> A) (group_view rgid N x))"
  have less: "?f ?N n < ?f N n"
  proof -
    have "fc_pid ch \<in> set (filter (\<lambda>q. q \<notin> A) (view g))" using control_channel [OF m ch(1)] ch(2) by simp
    note length_pos_if_in_set [OF this] this
    then have "length (filter (\<lambda>q. q \<notin> A) (remove1 (fc_pid ch) (view g))) < length (filter (\<lambda>q. q \<notin> A) (view g))"
      unfolding filter_remove1 by (simp add: length_remove1)
    then show ?thesis by (simp add: group_view_has [OF g] group_view_has [OF o(2)] b(3))
  qed
  have same: "?f ?N x = ?f N x" if "x \<noteq> n" for x
    unfolding group_view_def o(3) [OF that] keep(2) [OF that] ..
  have "finite (A \<inter> set J)" by simp
  then have "unnoticed rgid J ?N A < unnoticed rgid J N A"
    unfolding unnoticed_def using n less same by (intro sum_strict_mono_ex1) (auto intro: le_less_linear, metis less_imp_le order_refl)
  then show ?thesis using step by blast
qed

lemma settles:
  "run_inv W rgid J (N, A) \<Longrightarrow> \<exists>N'. (group_step W rgid J)\<^sup>*\<^sup>* (N, A) (N', A) \<and> quiescent rgid J (N', A)"
proof (induction "unnoticed rgid J N A" arbitrary: N rule: less_induct)
  case less
  show ?case
  proof (cases "quiescent rgid J (N, A)")
    case False
    then obtain n g ch where b: "n \<in> A \<inter> set J" "has_group N rgid n g"
      "ch \<in> set (CM_getMemberList (rg_clientControlManager g))" "fc_pid ch \<notin> A"
      by (auto simp: quiescent_def)
    from break_unnoticed [OF less.prems b] obtain N1 where 1: "group_step W rgid J (N, A) (N1, A)"
      "unnoticed rgid J N1 A < unnoticed rgid J N A" by blast
    from less.hyps [OF 1(2) group_step_inv [OF 1(1) less.prems]] 1(1) show ?thesis
      by (meson converse_rtranclp_into_rtranclp)
  qed blast
qed

end
