(* ===== verification/GroupFounding.thy ===== *)
theory GroupFounding
  imports GroupRuns
begin

text \<open>
  How a group comes about: what \<^verbatim>\<open>INIT_REPLICA\<close> makes of the runtime it reaches, the connections between
  the new replica and the older members that the primary asks for, and the loop in which the primary
  adds one replica after the other. The lemmas say what holds between the steps (\<open>joining\<close>,
  \<open>founding\<close>) and end in the invariant of the runs.
\<close>

section \<open>A replica is created\<close>

lemma ft_createServiceInstance [simp]: "co_ft (snd (createServiceInstance E sid iid c)) = co_ft c"
  unfolding createServiceInstance_def
  by (rule ft_whenValid)
     (auto simp: bindLocalService_def core_addServiceInstance_def Let_def
       split: option.split sum.split prod.split intro!: andThen_ft)

lemma ft_announce [simp]: "co_ft (snd (announce E sid iid c)) = co_ft c"
  unfolding announce_def
  by (rule andThen_ft) (auto simp: getInstanceOfService_info_def whenValid_def split: option.split)

lemma ft_small [simp]: "co_ft (snd (needFaultTolerance E c)) = co_ft c" "co_ft (snd (nextUUID E c)) = co_ft c"
  by (simp_all add: needFaultTolerance_def nextUUID_def)

lemma throws_service_Inr: "throws_service r = (Inr x, c) \<longleftrightarrow> r = (Inr x, c)"
  by (auto simp: throws_service_def split: prod.splits sum.splits exn.splits)

lemma createReplicationGroup_ft:
  assumes "createReplicationGroup E prim rs rgid sid params c = (Inr (), c')"
  shows "\<exists>a q s s'. ce_createGroup E (AsReplica prim rs) params rgid q a (s, co_ft c) = (Inr (), (s', co_ft c'))"
proof -
  have run: "(if core_isValid c then andThen (needFaultTolerance E c) (\<lambda>_ c.
     if sp_ftParams params = None then (Inl INVALID_FT_PARAMS, c)
     else andThen (nextUUID E c) (\<lambda>iid c.
       andThen (createServiceInstance E sid iid c) (\<lambda>a c.
       andThen (nextUUID E c) (\<lambda>cgroup c.
       let qos = (if co_reservationFlag c then co_runtimeQoSManager c else None)
       in andThen (createGroup E (AsReplica prim rs) params rgid qos a c) (\<lambda>_ c.
          andThen (on_object a (service_open (ce_class E) params FT_REPLICA qos) c) (\<lambda>_ c.
          announce E sid iid c)))))) else (Inl INVALID_RUNTIME, c)) = (Inr (), c')"
    using assms by (simp add: createReplicationGroup_def throws_service_Inr whenValid_def)
  then obtain iid a u1 u2 u3 c1 c2 c3 c4 c5 c6 q where steps: "needFaultTolerance E c = (Inr u1, c1)"
    "nextUUID E c1 = (Inr iid, c2)" "createServiceInstance E sid iid c2 = (Inr a, c3)"
    "nextUUID E c3 = (Inr u2, c4)" "createGroup E (AsReplica prim rs) params rgid q a c4 = (Inr u3, c5)"
    "on_object a (service_open (ce_class E) params FT_REPLICA q) c5 = (Inr (), c6)"
    "announce E sid iid c6 = (Inr (), c')"
    by (auto simp: andThen_Inr_iff Let_def split: if_splits)
  have ft: "co_ft c4 = co_ft c" "co_ft c' = co_ft c5"
    using ft_small [of E c] ft_small [of E c1] ft_small [of E c3] ft_createServiceInstance [of E sid iid c2]
      ft_on_object [of a _ c5] ft_announce [of E sid iid c6]
    by (simp_all add: steps) (metis ft_on_object snd_conv steps(6))
  obtain r s' f where g: "ce_createGroup E (AsReplica prim rs) params rgid q a (co_heap c4 ! a, co_ft c4) = (r, (s', f))"
    by (metis prod_cases3)
  with steps(5) have "r = Inr u3" "co_ft c5 = f" by (auto simp: createGroup_def)
  then show ?thesis using g ft by (metis (full_types) unit.exhaust)
qed

text \<open>The access point of an open group is one endpoint on its machine.\<close>

lemma FT_sap_open:
  assumes "SAP_open w itf FT_qosList k SAP_ctor = (Inr k', p)"
  shows "\<exists>ip e. ip_interface w itf = Some ip \<and> m_sapInfo p = Some [e] \<and> ep_host e = ip"
proof -
  obtain ip where ip: "ip_interface w itf = Some ip" "open_acceptors w ip FT_qosList k [] SAP_ctor = (Inr k', p)"
    using assms by (auto simp: SAP_open_def split: option.splits)
  from open_acceptors_result [OF ip(2)] have r: "m_sapInfo p = Some (m_acceptorList p)"
    "map ep_qos (m_acceptorList p) = FT_qosList" "\<forall>e\<in>set (m_acceptorList p). ep_host e = ip"
    by (auto simp: SAP_ctor_def FT_qosList_def)
  then obtain e where "m_acceptorList p = [e]" by (auto simp: FT_qosList_def)
  with r ip show ?thesis by auto
qed

lemma P3_create_replica:
  assumes run: "P3_createReplicationGroup (replica_ft_env n F) (AsReplica prim rs) rgid a sid params q (s, f)
      = (Inr (), (s', f'))"
    and f: "hm_ok (ft_map f)" "hm_find (ft_map f) rgid = None"
    and host: "\<And>itf ip. fn_interface F = Some itf \<Longrightarrow> ip_interface (fn_sapWorld F) itf = Some ip \<Longrightarrow> host ip = n"
  shows "\<exists>g e. hm_find (ft_map f') rgid = Some (length (ft_objs f)) \<and> hm_ok (ft_map f') \<and> ft_objs f' = ft_objs f @ [g]
    \<and> rg_groupUUID g = rgid \<and> rg_primaryPeer g = Some prim \<and> map op_uuid (rg_replicas g) = map op_uuid rs @ [n]
    \<and> \<not> rg_primary g \<and> rg_clientControlManager g = [] \<and> rg_clientDataManager g = []
    \<and> m_sapInfo (rg_dataSAP g) = Some [e] \<and> host (ep_host e) = n"
proof -
  let ?E = "replica_ft_env n F" and ?a = "length (ft_objs f)"
  let ?g = "ReplicationGroup_replica rgid a sid params prim rs q"
  define f2 where "f2 = f\<lparr>ft_objs := ft_objs f @ [?g], ft_map := snd (hm_bind (ce_pos (fn_core F)) rgid ?a (ft_map f))\<rparr>"
  have w2: "snd (addReplicationGroup ?E rgid ?a (s, f\<lparr>ft_objs := ft_objs f @ [?g]\<rparr>)) = (s, f2)"
    by (cases "hm_bind (ce_pos (fn_core F)) rgid ?a (ft_map f)")
       (simp add: addReplicationGroup_def replica_ft_env_def f2_def)
  have w1: "ge_setFt ?E ((ge_ft ?E (s, f))\<lparr>ft_objs := ft_objs (ge_ft ?E (s, f)) @ [?g]\<rparr>) (s, f)
      = (s, f\<lparr>ft_objs := ft_objs f @ [?g]\<rparr>)" "length (ft_objs (ge_ft ?E (s, f))) = ?a"
    by (simp_all add: replica_ft_env_def)
  define r where "r = throws_service (on_group ?E ?a (group_open ?E) (s, f2))"
  have "(case r of (Inl (ServiceException x), w3) \<Rightarrow> (Inl (ServiceException x), snd (removeReplicationGroup ?E rgid w3))
      | r \<Rightarrow> r) = (Inr (), (s', f'))"
    using run by (simp add: P3_createReplicationGroup_def Let_def w1 w2 r_def)
  then have "r = (Inr (), (s', f'))" by (auto split: prod.splits sum.splits exn.splits)
  then have "on_group ?E ?a (group_open ?E) (s, f2) = (Inr (), (s', f'))"
    by (simp add: r_def throws_service_Inr)
  then obtain g w where g: "group_open ?E (?g, (s, f2)) = (Inr (), (g, w))"
    "(s', f') = (fst w, (snd w)\<lparr>ft_objs := (ft_objs (snd w))[?a := g]\<rparr>)"
    by (auto simp: on_group_def f2_def replica_ft_env_def split: prod.splits)
  from g(1) obtain itf k p where o: "fn_interface F = Some itf"
    "SAP_open (fn_sapWorld F) itf FT_qosList (fn_sapTry F) SAP_ctor = (Inr k, p)"
    "openReplica ?E (?g\<lparr>rg_closed := False, rg_dataSAP := p\<rparr>, (s, f2)) = (Inr (), (g, w))"
    by (auto simp: group_open_def replica_ft_env_def ReplicationGroup_replica_def ReplicationGroup_primary_def Let_def
        split: option.splits prod.splits sum.splits)
  from FT_sap_open [OF o(2)] obtain ip e where e: "ip_interface (fn_sapWorld F) itf = Some ip"
    "m_sapInfo p = Some [e]" "ep_host e = ip" by blast
  from o(3) have r: "map op_uuid (rg_replicas g) = map op_uuid rs @ [n]" "rg_primaryPeer g = Some prim"
    "rg_groupUUID g = rgid" "\<not> rg_primary g" "rg_clientControlManager g = []" "rg_clientDataManager g = []"
    "rg_dataSAP g = p" "snd w = f2"
    by (auto simp: openReplica_def own_info_def setReplicationGroup_def replica_ft_env_def
        ReplicationGroup_replica_def ReplicationGroup_primary_def split: option.splits prod.splits sum.splits)
  note b = hm_bind_absent [OF f(2,1), of "ce_pos (fn_core F)" ?a]
  show ?thesis
    by (intro exI [of _ g] exI [of _ e]) (use g(2) r b e host [OF o(1) e(1)] in \<open>simp add: f2_def\<close>)
qed

section \<open>A member joins\<close>

definition ready_net :: "'x p2p_net \<Rightarrow> uuid set \<Rightarrow> bool" where
  "ready_net W J = (channel_ids W J
     \<and> (\<forall>n\<in>J. \<forall>q\<in>J. good_link (pn_control W n q) \<and> good_link (pn_data W n q))
     \<and> (\<forall>n\<in>J. fn_mesh (pn_node W n) \<noteq> None)
     \<and> (\<forall>n\<in>J. \<forall>itf ip. fn_interface (pn_node W n) = Some itf \<longrightarrow> ip_interface (fn_sapWorld (pn_node W n)) itf = Some ip
          \<longrightarrow> pn_host W ip = n))"

definition ready_site :: "'x p2p_net \<Rightarrow> 'x net \<Rightarrow> uuid \<Rightarrow> uuid \<Rightarrow> service_params \<Rightarrow> uuid \<Rightarrow> bool" where
  "ready_site W N rgid sid params n = (hm_ok (ft_map (co_ft (N n))) \<and> hm_find (ft_map (co_ft (N n))) rgid = None
     \<and> (\<forall>prim rs. fst (createReplicationGroup (node_core W n) prim rs rgid sid params (N n)) = Inr ()))"

text \<open>A group whose channels are open, and the state of a replica that only some members have reached.\<close>

definition joining :: "'x p2p_net \<Rightarrow> uuid \<Rightarrow> uuid list \<Rightarrow> uuid \<Rightarrow> uuid set \<Rightarrow> rgroup \<Rightarrow> bool" where
  "joining W rgid J b C g = (view g = J @ [b] \<and> rg_primaryPeer g \<noteq> None \<and> rg_groupUUID g = rgid \<and> \<not> rg_primary g
     \<and> chan_table (control_id W b) C (rg_clientControlManager g) \<and> rg_clientDataManager g = [])"

lemma channel_idsD: "channel_ids W J \<Longrightarrow> inj (control_id W n)" "channel_ids W J \<Longrightarrow> inj (data_id W n)"
  by (simp_all add: channel_ids_def)

lemma attach_control:
  assumes "channel_ids W J" "good_link l" "ln_channelID l = control_id W n q"
    and t: "chan_table (control_id W n) C (rg_clientControlManager g)" "q \<notin> C"
  shows "\<exists>m. attachControl E l q (g, w) = (Inr True, (g\<lparr>rg_clientControlManager := m\<rparr>, w))
    \<and> chan_table (control_id W n) (insert q C) m"
proof -
  have inj: "inj (control_id W n)" using assms(1) by (rule channel_idsD)
  have f: "hm_find (rg_clientControlManager g) (ln_channelID l) = None"
    using chan_table_find [OF inj t(1), of q] t(2) assms(3) by simp
  show ?thesis using attachControl_good [OF assms(2) f, of E q w] chan_table_bind [OF inj t] assms(3)
    by auto
qed

lemma attach_data:
  assumes "channel_ids W J" "good_link l" "ln_channelID l = data_id W n q"
    and t: "chan_table (data_id W n) C (rg_clientDataManager g)" "q \<notin> C"
  shows "\<exists>m. attachData E l q g = (True, g\<lparr>rg_clientDataManager := m\<rparr>) \<and> chan_table (data_id W n) (insert q C) m"
proof -
  have inj: "inj (data_id W n)" using assms(1) by (rule channel_idsD)
  have f: "hm_find (rg_clientDataManager g) (ln_channelID l) = None"
    using chan_table_find [OF inj t(1), of q] t(2) assms(3) by simp
  show ?thesis using attachData_good [OF assms(2) f, of E q] chan_table_bind [OF inj t] assms(3)
    by auto
qed

text \<open>The runtime of a new replica answers \<^verbatim>\<open>INIT_REPLICA\<close>.\<close>

lemma init_site:
  assumes net: "ready_net W J" "b \<in> J" and site: "ready_site W N rgid sid params b"
    and ip: "ip_rgid ip = rgid" "ip_sid ip = sid" "ip_params ip = params"
  shows "\<exists>N1 g e. FTControlSvcHandler_open W b (Some (InitReplica ip)) N = (Inr (Some (ip_uuid ip, rgid, Some [e])), N1)
    \<and> (\<forall>m. m \<noteq> b \<longrightarrow> N1 m = N m) \<and> has_group N1 rgid b g \<and> pn_host W (ep_host e) = b
    \<and> joining W rgid (op_uuid (ip_primary ip) # map op_uuid (ip_group ip)) b {} g"
proof -
  obtain c where c: "createReplicationGroup (node_core W b) (ip_primary ip) (ip_group ip) rgid sid params (N b) = (Inr (), c)"
    using site unfolding ready_site_def by (metis prod.collapse)
  from createReplicationGroup_ft [OF c] obtain a q s s' where
    g: "P3_createReplicationGroup (replica_ft_env b (pn_node W b)) (AsReplica (ip_primary ip) (ip_group ip)) rgid a
      (sa_sid s) params q (s, co_ft (N b)) = (Inr (), (s', co_ft c))"
    by (auto simp: node_core_def)
  have host: "\<And>itf i. fn_interface (pn_node W b) = Some itf \<Longrightarrow> ip_interface (fn_sapWorld (pn_node W b)) itf = Some i \<Longrightarrow>
      pn_host W i = b" using net by (simp add: ready_net_def)
  have m: "hm_ok (ft_map (co_ft (N b)))" "hm_find (ft_map (co_ft (N b))) rgid = None"
    using site by (simp_all add: ready_site_def)
  let ?N = "N(b := c)" and ?n = "length (ft_objs (co_ft (N b)))"
  from P3_create_replica [where host = "pn_host W", OF g m] host obtain g e where g:
    "hm_find (ft_map (co_ft c)) rgid = Some ?n" "ft_objs (co_ft c) = ft_objs (co_ft (N b)) @ [g]"
    "rg_groupUUID g = rgid" "rg_primaryPeer g = Some (ip_primary ip)"
    "map op_uuid (rg_replicas g) = map op_uuid (ip_group ip) @ [b]" "\<not> rg_primary g"
    "rg_clientControlManager g = []" "rg_clientDataManager g = []"
    "m_sapInfo (rg_dataSAP g) = Some [e]" "pn_host W (ep_host e) = b" by blast
  have "has_group ?N rgid b g" using g by (simp add: has_group_def)
  moreover have "joining W rgid (op_uuid (ip_primary ip) # map op_uuid (ip_group ip)) b {} g"
    using g by (simp add: joining_def view_def chan_table_def hm_ok_def)
  moreover have "FTControlSvcHandler_open W b (Some (InitReplica ip)) N = (Inr (Some (ip_uuid ip, rgid, Some [e])), ?N)"
    using c g ip by (simp add: FTControlSvcHandler_open_def at_node_def getReplicationGroup_env [of _ b] nth_append)
  ultimately show ?thesis using g(10) by (intro exI [of _ ?N] exI [of _ g] exI [of _ e]) simp
qed

text \<open>The acceptor of \<open>b\<close> takes a control channel from \<open>q\<close>.\<close>

lemma accept_channel:
  assumes net: "ready_net W J" "b \<in> J" "q \<in> J" "q \<notin> C"
    and opened: "FTControlSvcHandler_open W b hello N = (Inr (Some (q, rgid, sap)), N1)"
    and g: "has_group N1 rgid b g" "joining W rgid K b C g"
  shows "\<exists>N2 g2. FTControlAcceptor_handle_input W b hello N = (Inr (Some sap), N2)
    \<and> (\<forall>m. m \<noteq> b \<longrightarrow> N2 m = N1 m) \<and> has_group N2 rgid b g2 \<and> joining W rgid K b (insert q C) g2"
proof -
  let ?E = "local_env W b"
  obtain a where a: "getReplicationGroup ?E rgid N1 = Some a" using has_group_addr [OF g(1) env_at_envs(1)] by blast
  have ids: "channel_ids W J" "good_link (pn_control W b q)" using net by (simp_all add: ready_net_def)
  have t: "chan_table (control_id W b) C (rg_clientControlManager g)" using g(2) by (simp add: joining_def)
  have l: "ln_channelID (pn_control W b q) = control_id W b q" by (simp add: control_id_def)
  from attach_control [OF ids l t net(4), of ?E N1] obtain m where
    m: "attachControl ?E (pn_control W b q) q (g, N1) = (Inr True, (g\<lparr>rg_clientControlManager := m\<rparr>, N1))"
    "chan_table (control_id W b) (insert q C) m" by blast
  note o = on_group_effect [where op = "attachControl ?E (pn_control W b q) q", OF env_at_envs(1) g(1) a m(1) refl]
  have "FTControlAcceptor_handle_input W b hello N
      = (Inr (Some sap), snd (on_group ?E a (attachControl ?E (pn_control W b q) q) N1))"
    using o(1) by (simp add: FTControlAcceptor_handle_input_def opened a)
  moreover have "joining W rgid K b (insert q C) (g\<lparr>rg_clientControlManager := m\<rparr>)"
    using g(2) m(2) by (simp add: joining_def view_def)
  ultimately show ?thesis using o(2,3) by blast
qed

text \<open>Adding the new replica to the group of an older one.\<close>

lemma later_append: "n \<in> set J \<Longrightarrow> later (J @ [b]) n = insert b (later J n)"
proof -
  assume "n \<in> set J"
  then have "dropWhile (\<lambda>x. x \<noteq> n) J \<noteq> []" "dropWhile (\<lambda>x. x \<noteq> n) (J @ [b]) = dropWhile (\<lambda>x. x \<noteq> n) J @ [b]"
    by (auto simp: dropWhile_append2)
  then show ?thesis by (cases "dropWhile (\<lambda>x. x \<noteq> n) J") (auto simp: later_def)
qed

lemma member_inv_UNIV: "member_inv W J UNIV n g \<longleftrightarrow> view g = J \<and> rg_primaryPeer g \<noteq> None
    \<and> chan_table (control_id W n) (set J - {n}) (rg_clientControlManager g)
    \<and> chan_table (data_id W n) (later J n) (rg_clientDataManager g)"
  by (auto simp: member_inv_def dest: subset_antisym)

lemma member_inv_add:
  assumes "member_inv W J UNIV n g" "n \<in> set J" "b \<notin> set J" "op_uuid r = b"
    "chan_table (control_id W n) (insert b (set J - {n})) m" "chan_table (data_id W n) (insert b (later J n)) d"
  shows "member_inv W (J @ [b]) UNIV n (g\<lparr>rg_clientControlManager := m, rg_clientDataManager := d,
     rg_replicas := rg_replicas g @ [r]\<rparr>)"
proof -
  have "set (J @ [b]) - {n} = insert b (set J - {n})" using assms(2,3) by auto
  then show ?thesis using assms by (auto simp: member_inv_UNIV view_def later_append)
qed

definition reachable_info :: "'x p2p_net \<Rightarrow> overlay_peer_info \<Rightarrow> bool" where
  "reachable_info W r = (\<exists>e es. op_ftSAP r = Some (e # es) \<and> pn_host W (ep_host e) = op_uuid r)"

lemma first_endpoint_Cons [simp]: "first_endpoint (Some (e # es)) = Inr e"
  by (simp add: first_endpoint_def getFirstEndpoint_def)

lemma good_link_session [simp]: "good_link (l\<lparr>ln_session := s\<rparr>) = good_link l"
  by (simp add: good_link_def)

lemma has_group_at: "N' n = N n \<Longrightarrow> has_group N' rgid n = has_group N rgid n"
  by (simp add: fun_eq_iff has_group_def split: option.split)

lemma add_as_replica:
  assumes net: "ready_net W (set (J @ [b]))" "n \<in> set J" "b \<notin> set J" "n \<notin> C"
    and r: "op_uuid r = b" "reachable_info W r" "op_ftDataSAP r = Some [e]" "pn_host W (ep_host e) = b"
    and g: "has_group N rgid n g" "member_inv W J UNIV n g" "rg_groupUUID g = rgid" "\<not> rg_primary g"
    and gb: "has_group N rgid b gb" "joining W rgid J b C gb"
  defines "N' \<equiv> in_group (replica_env W n) rgid (handleAddReplicaPacket (replica_env W n) r) N"
  shows "(\<exists>g'. has_group N' rgid n g' \<and> member_inv W (J @ [b]) UNIV n g' \<and> rg_groupUUID g' = rgid \<and> \<not> rg_primary g')
    \<and> (\<exists>gb'. has_group N' rgid b gb' \<and> joining W rgid J b (insert n C) gb')
    \<and> (\<forall>m. m \<noteq> n \<longrightarrow> m \<noteq> b \<longrightarrow> N' m = N m)"
proof -
  let ?E = "replica_env W n" and ?l = "pn_control W n b" and ?d = "pn_data W n b"
  have nb: "n \<noteq> b" using net by auto
  have ids: "channel_ids W (set (J @ [b]))" using net by (simp add: ready_net_def)
  have links: "good_link ?l" "good_link ?d" "n \<in> set (J @ [b])" "b \<in> set (J @ [b])"
    using net by (simp_all add: ready_net_def)
  obtain fid sap where mesh: "fn_mesh (pn_node W n) = Some (fid, sap)" using net by (auto simp: ready_net_def)
  obtain e0 es where e0: "op_ftSAP r = Some (e0 # es)" "pn_host W (ep_host e0) = b"
    using r by (auto simp: reachable_info_def)
  obtain p where p: "rg_primaryPeer g = Some p" using g by (auto simp: member_inv_def)
  let ?h = "Some (Prebind \<lparr>pp_uuid = n, pp_fid = fid, pp_rgid = rgid\<rparr>)"
  have hello: "bind_hello ?E Prebind g = ?h" using mesh g(3) by (simp add: bind_hello_def)
  have "FTControlSvcHandler_open W b ?h N = (Inr (Some (n, rgid, None)), N)" by (simp add: FTControlSvcHandler_open_def)
  from accept_channel [OF net(1) links(4,3) net(4) this gb] obtain N2 gb2 where
    acc: "FTControlAcceptor_handle_input W b ?h N = (Inr (Some None), N2)" "\<forall>m. m \<noteq> b \<longrightarrow> N2 m = N m"
    "has_group N2 rgid b gb2" "joining W rgid J b (insert n C) gb2" by blast
  have con: "connect W n e0 ?h N = (?l\<lparr>ln_session := None\<rparr>, N2)" by (simp add: connect_def e0(2) acc(1))
  have t: "chan_table (control_id W n) (set J - {n}) (rg_clientControlManager g)" "b \<notin> set J - {n}"
    "chan_table (data_id W n) (later J n) (rg_clientDataManager g)" "b \<notin> later J n"
    using g(2) net(3) later_set [of J n] by (auto simp: member_inv_UNIV)
  have "ln_channelID (?l\<lparr>ln_session := None\<rparr>) = control_id W n b" "good_link (?l\<lparr>ln_session := None\<rparr>)"
    using links by (simp_all add: control_id_def)
  from attach_control [OF ids this(2,1) t(1,2), of ?E N2] obtain m where
    m: "attachControl ?E (?l\<lparr>ln_session := None\<rparr>) b (g, N2) = (Inr True, (g\<lparr>rg_clientControlManager := m\<rparr>, N2))"
    "chan_table (control_id W n) (insert b (set J - {n})) m" by blast
  let ?g = "g\<lparr>rg_clientControlManager := m\<rparr>"
  have ctl: "prebindControlToReplica ?E r (g, N) = (Inr True, (?g, N2))"
    using links(1) by (simp add: prebindControlToReplica_def e0(1) printMembers_def p hello con m(1) r(1) good_link_def)
  have dt: "chan_table (data_id W n) (later J n) (rg_clientDataManager ?g)" "ln_channelID ?d = data_id W n b"
    using t by (simp_all add: data_id_def)
  from attach_data [OF ids links(2) dt(2,1) t(4), of ?E] obtain d where
    d: "attachData ?E ?d b ?g = (True, ?g\<lparr>rg_clientDataManager := d\<rparr>)" "chan_table (data_id W n) (insert b (later J n)) d"
    by blast
  have dat: "prebindDataToReplica ?E r (?g, N2) = (Inr True, (?g\<lparr>rg_clientDataManager := d\<rparr>, N2))"
    using links(2) mesh by (simp add: prebindDataToReplica_def r bind_hello_def connect_def d(1) good_link_def)
  let ?g' = "?g\<lparr>rg_clientDataManager := d, rg_replicas := rg_replicas g @ [r]\<rparr>"
  have op: "handleAddReplicaPacket ?E r (g, N) = (Inr True, (?g', N2))"
    using g(4) by (simp add: handleAddReplicaPacket_def addReplica_def addReplicaAsReplica_def ctl dat printMembers_def p)
  obtain a where a: "getReplicationGroup ?E rgid N = Some a" using has_group_addr [OF g(1) env_at_envs(2)] by blast
  have "co_ft (N2 n) = co_ft (N n)" using acc(2) nb by simp
  note o = on_group_effect [where op = "handleAddReplicaPacket ?E r", OF env_at_envs(2) g(1) a op this]
  have N': "N' = snd (on_group ?E a (handleAddReplicaPacket ?E r) N)" by (simp add: N'_def in_group_def a)
  have "N' b = N2 b" using o(3) [of b] nb by (simp add: N')
  then have "has_group N' rgid b gb2" using acc(3) has_group_at [of N' b N2 rgid] by simp
  moreover have "member_inv W (J @ [b]) UNIV n ?g'" using member_inv_add [OF g(2) net(2,3) r(1) m(2) d(2)] by simp
  moreover have "N' m = N m" if "m \<noteq> n" "m \<noteq> b" for m using o(3) [of m] acc(2) that by (simp add: N')
  ultimately show ?thesis using o(2) acc(4) g(3,4) by (intro conjI exI [of _ ?g'] exI [of _ gb2]) (simp_all add: N')
qed

text \<open>The primary tells the members, in whatever order its table lists them.\<close>

lemma notify_all:
  assumes net: "ready_net W (set (J @ [b]))" "b \<notin> set J"
    and r: "op_uuid r = b" "reachable_info W r" "op_ftDataSAP r = Some [e]" "pn_host W (ep_host e) = b"
  shows "distinct (map fc_pid chs) \<Longrightarrow> \<forall>ch\<in>set chs. fc_pid ch \<in> insert b (set J) \<and> \<not> ch_close ch \<Longrightarrow>
    \<forall>n\<in>fc_pid ` set chs - {b}. n \<notin> C \<and> (\<exists>g. has_group N rgid n g \<and> member_inv W J UNIV n g \<and> rg_groupUUID g = rgid \<and> \<not> rg_primary g) \<Longrightarrow>
    has_group N rgid b gb \<Longrightarrow> joining W rgid J b C gb \<Longrightarrow>
    let N' = notify_members (member_env W rgid p) r chs N in
      (\<forall>n\<in>fc_pid ` set chs - {b}. \<exists>g'. has_group N' rgid n g' \<and> member_inv W (J @ [b]) UNIV n g'
        \<and> rg_groupUUID g' = rgid \<and> \<not> rg_primary g')
      \<and> (\<exists>gb'. has_group N' rgid b gb' \<and> joining W rgid J b (C \<union> (fc_pid ` set chs - {b})) gb')
      \<and> (\<forall>m. m \<notin> insert b (fc_pid ` set chs) \<longrightarrow> N' m = N m)"
proof (induction chs arbitrary: N C gb)
  case Nil
  then show ?case by (auto simp: Let_def)
next
  case (Cons ch chs)
  let ?n = "fc_pid ch" and ?E = "member_env W rgid p"
  have U: "uuids (insert b (set J))" using net by (simp add: ready_net_def channel_ids_def)
  have eq: "isEqual ?n (op_uuid r) \<longleftrightarrow> ?n = b" using uuids_isEqual [OF U] Cons.prems(2) r(1) by simp
  show ?case
  proof (cases "?n = b")
    case True
    then have b: "b \<notin> fc_pid ` set chs" using Cons.prems(1) by auto
    have step: "notify_members ?E r (ch # chs) N = notify_members ?E r chs N" using True eq by simp
    have sets: "fc_pid ` set (ch # chs) - {b} = fc_pid ` set chs - {b}" using True by auto
    show ?thesis using Cons.IH [of C N gb] Cons.prems True unfolding step sets Let_def by simp
  next
    case False
    let ?N = "in_group (replica_env W ?n) rgid (handleAddReplicaPacket (replica_env W ?n) r) N"
    have step: "notify_members ?E r (ch # chs) N = notify_members ?E r chs ?N"
      using False eq Cons.prems(2) by (simp add: member_env_def)
    obtain g where g: "has_group N rgid ?n g" "member_inv W J UNIV ?n g" "rg_groupUUID g = rgid" "\<not> rg_primary g"
      and nC: "?n \<notin> C" using Cons.prems(3) False by auto
    have nin: "?n \<notin> fc_pid ` set chs" using Cons.prems(1) by simp
    have nJ: "?n \<in> set J" using Cons.prems(2) False by auto
    note add = add_as_replica [OF net(1) nJ net(2) nC r g Cons.prems(4,5)]
    obtain gb1 where gb1: "has_group ?N rgid b gb1" "joining W rgid J b (insert ?n C) gb1" using add by blast
    have keep: "?N m = N m" if "m \<in> fc_pid ` set chs - {b}" for m
    proof -
      have "m \<noteq> ?n" "m \<noteq> b" using that nin by blast+
      then show ?thesis using add by blast
    qed
    have "\<forall>m\<in>fc_pid ` set chs - {b}. m \<notin> insert ?n C \<and> (\<exists>g. has_group ?N rgid m g \<and> member_inv W J UNIV m g
        \<and> rg_groupUUID g = rgid \<and> \<not> rg_primary g)"
    proof
      fix m assume m: "m \<in> fc_pid ` set chs - {b}"
      then have "m \<noteq> ?n" using nin by blast
      moreover have "m \<in> fc_pid ` set (ch # chs) - {b}" using m by auto
      ultimately show "m \<notin> insert ?n C \<and> (\<exists>g. has_group ?N rgid m g \<and> member_inv W J UNIV m g
          \<and> rg_groupUUID g = rgid \<and> \<not> rg_primary g)"
        using Cons.prems(3) has_group_at [where N = N and N' = ?N and n = m, OF keep [OF m]] by auto
    qed
    from Cons.IH [OF _ _ this gb1] Cons.prems(1,2)
    have IH: "(\<forall>m\<in>fc_pid ` set chs - {b}. \<exists>g'. has_group (notify_members ?E r chs ?N) rgid m g' \<and> member_inv W (J @ [b]) UNIV m g'
        \<and> rg_groupUUID g' = rgid \<and> \<not> rg_primary g')
      \<and> (\<exists>gb'. has_group (notify_members ?E r chs ?N) rgid b gb'
          \<and> joining W rgid J b (insert ?n C \<union> (fc_pid ` set chs - {b})) gb')
      \<and> (\<forall>m. m \<notin> insert b (fc_pid ` set chs) \<longrightarrow> notify_members ?E r chs ?N m = ?N m)"
      by (simp add: Let_def)
    have "notify_members ?E r chs ?N ?n = ?N ?n" using IH False nin by blast
    note has_group_at [where N = ?N and N' = "notify_members ?E r chs ?N" and n = ?n, OF this, of rgid]
    then have new: "\<exists>g'. has_group (notify_members ?E r chs ?N) rgid ?n g' \<and> member_inv W (J @ [b]) UNIV ?n g'
        \<and> rg_groupUUID g' = rgid \<and> \<not> rg_primary g'" using add by simp
    have sets: "insert ?n C \<union> (fc_pid ` set chs - {b}) = C \<union> (fc_pid ` set (ch # chs) - {b})" using False by auto
    show ?thesis unfolding step Let_def
    proof (intro conjI ballI allI impI)
      fix m assume m: "m \<in> fc_pid ` set (ch # chs) - {b}"
      show "\<exists>g'. has_group (notify_members ?E r chs ?N) rgid m g' \<and> member_inv W (J @ [b]) UNIV m g'
          \<and> rg_groupUUID g' = rgid \<and> \<not> rg_primary g'"
      proof (cases "m = ?n")
        case True
        then show ?thesis using new by simp
      next
        case False
        then have "m \<in> fc_pid ` set chs - {b}" using m by auto
        then show ?thesis using IH by blast
      qed
    next
      show "\<exists>gb'. has_group (notify_members ?E r chs ?N) rgid b gb'
          \<and> joining W rgid J b (C \<union> (fc_pid ` set (ch # chs) - {b})) gb'"
        using IH by (simp only: sets)
    next
      fix m assume m: "m \<notin> insert b (fc_pid ` set (ch # chs))"
      then have "m \<notin> insert b (fc_pid ` set chs)" "m \<noteq> ?n" "m \<noteq> b" by auto
      then show "notify_members ?E r chs ?N m = N m" using IH add by metis
    qed
  qed
qed

section \<open>A group is founded\<close>

text \<open>The state while the primary adds replicas: its own group is in the hands of the operation.\<close>

definition founding :: "'x p2p_net \<Rightarrow> uuid \<Rightarrow> uuid \<Rightarrow> uuid list \<Rightarrow> rgroup \<Rightarrow> 'x net \<Rightarrow> bool" where
  "founding W rgid p J g N = (member_inv W J UNIV p g \<and> rg_groupUUID g = rgid \<and> rg_primary g
     \<and> (\<forall>n\<in>set J - {p}. \<exists>g. has_group N rgid n g \<and> member_inv W J UNIV n g \<and> rg_groupUUID g = rgid \<and> \<not> rg_primary g))"

lemma add_as_primary:
  assumes net: "ready_net W (set (J @ [b]))" "p \<in> set J" "b \<notin> set J"
    and site: "ready_site W N rgid (rg_sid g) (rg_params g) b"
    and r: "op_uuid r = b" "reachable_info W r" and f: "founding W rgid p J g N"
  shows "\<exists>g' N'. addReplica (member_env W rgid p) r (g, N) = (Inr True, (g', N')) \<and> founding W rgid p (J @ [b]) g' N'
    \<and> (\<forall>m. m \<notin> insert b (set J - {p}) \<longrightarrow> N' m = N m) \<and> rg_sid g' = rg_sid g \<and> rg_params g' = rg_params g
    \<and> rg_svc g' = rg_svc g"
proof -
  let ?E = "member_env W rgid p" and ?l = "pn_control W p b" and ?d = "pn_data W p b"
  have pb: "p \<noteq> b" using net by auto
  have ids: "channel_ids W (set (J @ [b]))" using net by (simp add: ready_net_def)
  have links: "good_link ?l" "good_link ?d" "p \<in> set (J @ [b])" "b \<in> set (J @ [b])"
    using net by (simp_all add: ready_net_def)
  obtain fid sap where mesh: "fn_mesh (pn_node W p) = Some (fid, sap)" using net by (auto simp: ready_net_def)
  obtain e0 es where e0: "op_ftSAP r = Some (e0 # es)" "pn_host W (ep_host e0) = b"
    using r by (auto simp: reachable_info_def)
  have inv: "member_inv W J UNIV p g" "rg_groupUUID g = rgid" "rg_primary g" using f by (simp_all add: founding_def)
  obtain q where q: "rg_primaryPeer g = Some q" using inv by (auto simp: member_inv_def)
  let ?ip = "\<lparr>ip_uuid = p, ip_fid = fid, ip_rgid = rgid, ip_sid = rg_sid g, ip_iid = rgid, ip_params = rg_params g,
     ip_primary = q, ip_group = rg_replicas g\<rparr>"
  let ?h = "Some (InitReplica ?ip)"
  have hello: "control_hello ?E q g = ?h" using mesh inv(2) by (simp add: control_hello_def)
  have J: "op_uuid q # map op_uuid (rg_replicas g) = J" using inv(1) q by (auto simp: member_inv_UNIV view_def)
  from init_site [OF net(1) links(4) site, of ?ip] J obtain N1 g1 e where
    i: "FTControlSvcHandler_open W b ?h N = (Inr (Some (p, rgid, Some [e])), N1)" "\<forall>m. m \<noteq> b \<longrightarrow> N1 m = N m"
    "has_group N1 rgid b g1" "pn_host W (ep_host e) = b" "joining W rgid J b {} g1" by auto
  from accept_channel [OF net(1) links(4,3) _ i(1,3,5)] obtain N2 g2 where
    acc: "FTControlAcceptor_handle_input W b ?h N = (Inr (Some (Some [e])), N2)" "\<forall>m. m \<noteq> b \<longrightarrow> N2 m = N1 m"
    "has_group N2 rgid b g2" "joining W rgid J b {p} g2" by auto
  let ?l' = "?l\<lparr>ln_session := Some [e]\<rparr>"
  have con: "connect W p e0 ?h N = (?l', N2)" by (simp add: connect_def e0(2) acc(1))
  have t: "chan_table (control_id W p) (set J - {p}) (rg_clientControlManager g)" "b \<notin> set J - {p}"
    "chan_table (data_id W p) (later J p) (rg_clientDataManager g)" "b \<notin> later J p"
    using inv(1) net(3) later_set [of J p] by (auto simp: member_inv_UNIV)
  have "ln_channelID ?l' = control_id W p b" "good_link ?l'" using links by (simp_all add: control_id_def)
  from attach_control [OF ids this(2,1) t(1,2), of ?E N2] obtain m where
    m: "attachControl ?E ?l' b (g, N2) = (Inr True, (g\<lparr>rg_clientControlManager := m\<rparr>, N2))"
    "chan_table (control_id W p) (insert b (set J - {p})) m" by blast
  let ?g = "g\<lparr>rg_clientControlManager := m\<rparr>" and ?r = "r\<lparr>op_ftDataSAP := Some [e]\<rparr>"
  have ctl: "bindControlToReplica ?E r (g, N) = (Inr (True, ?r), (?g, N2))"
    using links(1) by (simp add: bindControlToReplica_def e0(1) q hello con m(1) r(1) good_link_def)
  have dt: "chan_table (data_id W p) (later J p) (rg_clientDataManager ?g)" "ln_channelID ?d = data_id W p b"
    using t by (simp_all add: data_id_def)
  from attach_data [OF ids links(2) dt(2,1) t(4), of ?E] obtain d where
    d: "attachData ?E ?d b ?g = (True, ?g\<lparr>rg_clientDataManager := d\<rparr>)" "chan_table (data_id W p) (insert b (later J p)) d"
    by blast
  have dat: "bindDataToReplica ?E ?r (?g, N2) = (Inr True, (?g\<lparr>rg_clientDataManager := d\<rparr>, N2))"
    using links(2) mesh i(4) by (simp add: bindDataToReplica_def r bind_hello_def connect_def d(1) good_link_def)
  let ?chs = "CM_getMemberList m"
  let ?g' = "?g\<lparr>rg_clientDataManager := d, rg_replicas := rg_replicas g @ [?r]\<rparr>"
  let ?N' = "notify_members ?E ?r ?chs N2"
  have op: "addReplica ?E r (g, N) = (Inr True, (?g', ?N'))"
    using inv(3) by (simp add: addReplica_def addReplicaAsPrimary_def ctl dat)
  have chs: "set ?chs = (\<lambda>q. opened (control_id W p q) q) ` insert b (set J - {p})" "distinct ?chs"
    using chan_table_members [OF m(2)] by simp_all
  have pids: "fc_pid ` set ?chs - {b} = set J - {p}" using net(3) by (auto simp: chs(1) image_image)
  have "distinct (map fc_pid ?chs)" using chs by (auto simp: distinct_map inj_on_def)
  moreover have "\<forall>ch\<in>set ?chs. fc_pid ch \<in> insert b (set J) \<and> \<not> ch_close ch" using chs(1) by auto
  moreover have "\<forall>n\<in>fc_pid ` set ?chs - {b}. n \<notin> {p} \<and> (\<exists>g. has_group N2 rgid n g \<and> member_inv W J UNIV n g
      \<and> rg_groupUUID g = rgid \<and> \<not> rg_primary g)"
  proof
    fix n assume "n \<in> fc_pid ` set ?chs - {b}"
    then have n: "n \<in> set J - {p}" using pids by simp
    then have "N2 n = N n" using acc(2) i(2) net(3) by auto
    then show "n \<notin> {p} \<and> (\<exists>g. has_group N2 rgid n g \<and> member_inv W J UNIV n g \<and> rg_groupUUID g = rgid \<and> \<not> rg_primary g)"
      using f n has_group_at [of N2 n N rgid] by (auto simp: founding_def)
  qed
  ultimately have fin: "(\<forall>n\<in>set J - {p}. \<exists>g'. has_group ?N' rgid n g' \<and> member_inv W (J @ [b]) UNIV n g'
      \<and> rg_groupUUID g' = rgid \<and> \<not> rg_primary g')"
    "(\<exists>gb'. has_group ?N' rgid b gb' \<and> joining W rgid J b ({p} \<union> (set J - {p})) gb')"
    "(\<forall>n. n \<notin> insert b (fc_pid ` set ?chs) \<longrightarrow> ?N' n = N2 n)"
    using notify_all [OF net(1,3), of ?r e "?chs" "{p}" N2 rgid g2 p] acc(3,4) r i(4) pids
    by (simp_all add: Let_def reachable_info_def)
  obtain gb where gb: "has_group ?N' rgid b gb" "joining W rgid J b (set J) gb" using fin(2) net(2) by (auto simp: insert_absorb)
  have "member_inv W (J @ [b]) UNIV b gb"
    using gb(2) net(3) by (auto simp: joining_def member_inv_UNIV later_def dropWhile_append2 chan_table_def hm_ok_def
        dropWhile_append split: if_splits)
  then have "founding W rgid p (J @ [b]) ?g' ?N'"
    using fin(1) gb inv member_inv_add [OF inv(1) net(2,3) _ m(2) d(2), of ?r] r(1)
    by (auto simp: founding_def joining_def)
  moreover have "?N' n = N n" if "n \<notin> insert b (set J - {p})" for n
  proof -
    have "n \<notin> insert b (fc_pid ` set ?chs)" using that pids by blast
    then show ?thesis using fin(3) acc(2) i(2) that by auto
  qed
  ultimately show ?thesis using op by auto
qed

lemma ready_net_subset: "ready_net W K \<Longrightarrow> J \<subseteq> K \<Longrightarrow> ready_net W J"
  unfolding ready_net_def channel_ids_def uuids_def by (intro conjI) blast+

lemma add_all_replicas:
  assumes "ready_net W (set (J @ map op_uuid rs))" "p \<in> set J" "distinct (J @ map op_uuid rs)"
    "\<forall>r\<in>set rs. ready_site W N rgid (rg_sid g) (rg_params g) (op_uuid r) \<and> reachable_info W r" "founding W rgid p J g N"
  shows "\<exists>g' N'. add_replicas (member_env W rgid p) rs (g, N) = (Inr (), (g', N'))
    \<and> founding W rgid p (J @ map op_uuid rs) g' N' \<and> N' p = N p \<and> rg_svc g' = rg_svc g"
  using assms
proof (induction rs arbitrary: J g N)
  case Nil
  then show ?case by auto
next
  case (Cons r rs)
  let ?b = "op_uuid r"
  have net: "ready_net W (set (J @ [?b]))" by (rule ready_net_subset [OF Cons.prems(1)]) auto
  have b: "?b \<notin> set J" using Cons.prems(3) by auto
  from add_as_primary [OF net Cons.prems(2) b _ refl _ Cons.prems(5)] Cons.prems(4) obtain g1 N1 where
    1: "addReplica (member_env W rgid p) r (g, N) = (Inr True, (g1, N1))" "founding W rgid p (J @ [?b]) g1 N1"
    "\<forall>m. m \<notin> insert ?b (set J - {p}) \<longrightarrow> N1 m = N m" "rg_sid g1 = rg_sid g" "rg_params g1 = rg_params g"
    "rg_svc g1 = rg_svc g" by auto
  have "\<forall>x\<in>set rs. ready_site W N1 rgid (rg_sid g1) (rg_params g1) (op_uuid x) \<and> reachable_info W x"
  proof
    fix x assume x: "x \<in> set rs"
    then have "op_uuid x \<in> op_uuid ` set rs" by simp
    moreover have "?b \<notin> op_uuid ` set rs" "set J \<inter> op_uuid ` set rs = {}" using Cons.prems(3) by auto
    ultimately have "op_uuid x \<notin> insert ?b (set J - {p})" by (metis DiffD1 disjoint_iff insertE)
    then have "N1 (op_uuid x) = N (op_uuid x)" using 1(3) by blast
    then show "ready_site W N1 rgid (rg_sid g1) (rg_params g1) (op_uuid x) \<and> reachable_info W x"
      using Cons.prems(4) x 1(4,5) by (simp add: ready_site_def)
  qed
  from Cons.IH [OF _ _ _ this 1(2)] Cons.prems(1-3) obtain g2 N2 where
    2: "add_replicas (member_env W rgid p) rs (g1, N1) = (Inr (), (g2, N2))"
    "founding W rgid p ((J @ [?b]) @ map op_uuid rs) g2 N2" "N2 p = N1 p" "rg_svc g2 = rg_svc g1" by auto
  have "p \<notin> insert ?b (set J - {p})" using Cons.prems(2) b by auto
  then have "N1 p = N p" using 1(3) by blast
  then show ?case using 1 2 by simp
qed

text \<open>What the discovery of sites is asked for: another runtime than this one and those excluded, with the
  address of its fault tolerance service.\<close>

definition finds_sites :: "'x p2p_net \<Rightarrow> uuid \<Rightarrow> uuid \<Rightarrow> bool" where
  "finds_sites W p sid = (\<forall>ex l. fn_findSite (pn_node W p) sid ex = Some l \<longrightarrow> ls_uuid l \<notin> insert p (set ex)
     \<and> (\<exists>e es. ls_ftSAP l = e # es \<and> pn_host W (ep_host e) = ls_uuid l))"

lemma findResources_sites:
  "findResources (member_env W rgid p) sid n peers = Inr (Some rs) \<Longrightarrow> finds_sites W p sid \<Longrightarrow>
   distinct (p # map op_uuid peers) \<Longrightarrow> \<forall>r\<in>set peers. reachable_info W r \<Longrightarrow>
   distinct (p # map op_uuid rs) \<and> (\<forall>r\<in>set rs. reachable_info W r) \<and> length rs = length peers + n"
proof (induction n arbitrary: peers)
  case (Suc n)
  have E: "ge_findSite (member_env W rgid p) = fn_findSite (pn_node W p)"
    by (simp add: member_env_def replica_env_def local_env_def Let_def)
  obtain l where l: "fn_findSite (pn_node W p) sid (map op_uuid peers) = Some l"
    using Suc.prems(1) E by (auto split: option.splits)
  then obtain e es where e: "ls_ftSAP l = e # es" "pn_host W (ep_host e) = ls_uuid l"
    "ls_uuid l \<notin> insert p (op_uuid ` set peers)" using Suc.prems(2) by (fastforce simp: finds_sites_def)
  let ?r = "\<lparr>op_uuid = ls_uuid l, op_fid = ls_fid l, op_meshSAP = Some (ls_meshSAP l), op_ftSAP = Some (ls_ftSAP l),
     op_ftDataSAP = None\<rparr>"
  have "findResources (member_env W rgid p) sid n (peers @ [?r]) = Inr (Some rs)" using Suc.prems(1) E l e by simp
  from Suc.IH [OF this Suc.prems(2)] show ?case using Suc.prems(3,4) e by (auto simp: reachable_info_def)
qed auto

lemma found_group_run:
  assumes net: "ready_net W (set (p # map op_uuid rs))" and svc: "sid = sa_sid (co_heap (N p) ! svc)"
    and ftp: "sp_ftParams params = Some ftp"
    and found: "findResources (member_env W rgid p) sid (unat (ftp_replicaCount ftp)) [] = Inr (Some rs)" "finds_sites W p sid"
    and sites: "\<forall>r\<in>set rs. ready_site W N rgid sid params (op_uuid r)"
    and sap: "fn_interface (pn_node W p) = Some itf"
      "SAP_open (fn_sapWorld (pn_node W p)) itf FT_qosList (fn_sapTry (pn_node W p)) SAP_ctor = (Inr k, sap)"
    and m: "hm_ok (ft_map (co_ft (N p)))" "hm_find (ft_map (co_ft (N p))) rgid = None"
  shows "\<exists>N'. found_group W p rgid svc params N = (Inr (), N') \<and> run_inv W rgid (p # map op_uuid rs) (N', UNIV)
    \<and> length rs = unat (ftp_replicaCount ftp)"
proof -
  let ?E = "member_env W rgid p" and ?f = "co_ft (N p)" and ?J = "p # map op_uuid rs"
  let ?a = "length (ft_objs ?f)" and ?g0 = "ReplicationGroup_primary rgid svc sid params None"
  from findResources_sites [OF found] have rs: "distinct ?J" "\<forall>r\<in>set rs. reachable_info W r"
    "length rs = unat (ftp_replicaCount ftp)" by auto
  have e: "ge_ft ?E = (\<lambda>N. co_ft (N p))" "ge_setFt ?E = (\<lambda>f N. N(p := (N p)\<lparr>co_ft := f\<rparr>))"
    using env_at_envs(3) [of W rgid p] by (simp_all add: env_at_def)
  define N2 where "N2 = N(p := (N p)\<lparr>co_ft := ?f\<lparr>ft_objs := ft_objs ?f @ [?g0], ft_map := snd (hm_bind (ge_pos ?E) rgid ?a (ft_map ?f))\<rparr>\<rparr>)"
  have w2: "snd (addReplicationGroup ?E rgid ?a (N(p := (N p)\<lparr>co_ft := ?f\<lparr>ft_objs := ft_objs ?f @ [?g0]\<rparr>\<rparr>))) = N2"
    by (cases "hm_bind (ge_pos ?E) rgid ?a (ft_map ?f)") (simp add: addReplicationGroup_def e N2_def)
  note b = hm_bind_absent [OF m(2,1), of "ge_pos ?E" ?a]
  have has2: "has_group N2 rgid p ?g0" using b by (simp add: has_group_def N2_def)
  have others: "N2 n = N n" if "n \<noteq> p" for n using that by (simp add: N2_def)
  let ?g1 = "?g0\<lparr>rg_closed := False, rg_dataSAP := sap\<rparr>"
  obtain fid ms where mesh: "fn_mesh (pn_node W p) = Some (fid, ms)" using net by (auto simp: ready_net_def)
  obtain q where q: "own_info ?E ?g1 = Inr q" "op_uuid q = p" using mesh by (simp add: own_info_def)
  let ?g2 = "?g1\<lparr>rg_primaryPeer := Some q\<rparr>"
  have "founding W rgid p [p] ?g2 N2"
    by (simp add: founding_def member_inv_UNIV view_def ReplicationGroup_primary_def q later_def chan_table_def hm_ok_def)
  moreover have "\<forall>r\<in>set rs. ready_site W N2 rgid (rg_sid ?g2) (rg_params ?g2) (op_uuid r) \<and> reachable_info W r"
  proof
    fix r assume r: "r \<in> set rs"
    then have "op_uuid r \<noteq> p" using rs(1) by auto
    then show "ready_site W N2 rgid (rg_sid ?g2) (rg_params ?g2) (op_uuid r) \<and> reachable_info W r"
      using sites rs(2) r others by (simp add: ready_site_def ReplicationGroup_primary_def)
  qed
  ultimately obtain g3 N3 where 3: "add_replicas ?E rs (?g2, N2) = (Inr (), (g3, N3))" "founding W rgid p ?J g3 N3"
    "N3 p = N2 p" "rg_svc g3 = rg_svc ?g2"
    using add_all_replicas [of W "[p]" rs p N2 rgid ?g2] net rs(1) by auto
  let ?N4 = "snd (snd (setReplicationGroup ?E (g3, N3)))"
  have s4: "setReplicationGroup ?E (g3, N3) = (Inr (), (g3, ?N4))" by (simp add: setReplicationGroup_def)
  have N4: "co_ft (?N4 n) = co_ft (N3 n)" "n \<noteq> p \<Longrightarrow> ?N4 n = N3 n" for n
    by (simp_all add: setReplicationGroup_def member_env_def replica_env_def local_env_def Let_def core_object_def)
  have open_p: "openPrimary ?E (?g1, N2) = (Inr (), (g3, ?N4))"
    using q(1) ftp found(1) 3(1) s4 by (simp add: openPrimary_def ReplicationGroup_primary_def)
  have op: "group_open ?E (?g0, N2) = (Inr (), (g3, ?N4))"
  proof -
    have "ge_interface ?E = Some itf" "ge_sapWorld ?E = fn_sapWorld (pn_node W p)" "ge_sapTry ?E = fn_sapTry (pn_node W p)"
      using sap(1) by (simp_all add: member_env_def replica_env_def local_env_def Let_def)
    then show ?thesis using sap(2) open_p by (simp add: group_open_def ReplicationGroup_primary_def Let_def)
  qed
  have a: "getReplicationGroup ?E rgid N2 = Some ?a" using b by (simp add: getReplicationGroup_env [of _ p] N2_def)
  have keep: "co_ft (?N4 p) = co_ft (N2 p)" using N4(1) [of p] 3(3) by simp
  note o = on_group_effect [where op = "group_open ?E", OF env_at_envs(3) has2 a op keep]
  define N' where "N' = snd (on_group ?E ?a (group_open ?E) N2)"
  have run: "on_group ?E ?a (group_open ?E) N2 = (Inr (), N')" using o(1) by (simp add: N'_def)
  note o = o(2,3) [folded N'_def]
  have "found_group W p rgid svc params N = (Inr (), N')"
    by (simp add: found_group_def P3_createReplicationGroup_def Let_def e svc [symmetric] w2 run throws_service_def)
  moreover have "run_inv W rgid ?J (N', UNIV)"
  proof -
    have "\<exists>g. has_group N' rgid n g \<and> rg_groupUUID g = rgid \<and> member_inv W ?J UNIV n g" if n: "n \<in> set ?J" for n
    proof (cases "n = p")
      case True
      then show ?thesis using o(1) 3(2) by (auto simp: founding_def)
    next
      case False
      have "N' n = N3 n" using o(2) [OF False] N4(2) [OF False] by simp
      then show ?thesis using 3(2) n False has_group_at [of N' n N3 rgid] by (auto simp: founding_def)
    qed
    then show ?thesis using rs(1) net by (auto simp: run_inv_def ready_net_def)
  qed
  ultimately show ?thesis using rs(3) by blast
qed

end
