(* ===== verification/GroupFailover.thy ===== *)
theory GroupFailover
  imports GroupFounding
begin

text \<open>
  Failover and replication in the runs of a group. After the lemmas on renaming an instance, on the
  member that acts as primary and on one update, a sample net of runtimes with addresses, services and
  replication groups is set up for the witnesses; then the properties of the fault tolerance
  service follow: founding, a single primary, agreement, replication and failover.
\<close>

section \<open>Failover\<close>

text \<open>Renaming an instance moves its entry, whether or not describing it to the mesh succeeds.\<close>

lemma changeIID_moves:
  fixes E :: "('x, 'f) core_env" and c :: "('x, 'f) core"
  assumes inv: "core_inv c" and valid: "core_isValid c"
    and a: "addr_at (co_serviceMap c) sid old = Some a" "addr_at (co_serviceMap c) sid new = None"
  defines "c' \<equiv> snd (changeIIDOfService E sid old new c)"
  shows "instance_at c' sid new = Some (setIID new (co_heap c ! a))" "instance_at c' sid old = None"
proof -
  obtain ls where ls: "hm_find (co_serviceMap c) sid = Some ls" "hm_find (ls_runningServicesMap ls) old = Some a"
    "hm_find (ls_runningServicesMap ls) new = None"
    using a by (auto simp: addr_at_def bind_eq_Some_conv)
  note l = core_invD [OF inv ls(1)]
  from setIID_moves [OF l(2) ls(2), of new "ce_pos E"] ls(3) obtain ls' where
    s: "LocalService_setIID (ce_pos E) old new (co_heap c, ls) = (Inr (), ((co_heap c)[a := setIID new (co_heap c ! a)], ls'))"
    "hm_find (ls_runningServicesMap ls') = ((hm_find (ls_runningServicesMap ls))(old := None))(new \<mapsto> a)" by blast
  let ?c = "c\<lparr>co_heap := (co_heap c)[a := setIID new (co_heap c ! a)],
     co_serviceMap := hm_update sid (\<lambda>_. ls') (co_serviceMap c)\<rparr>"
  have c': "co_heap c' = co_heap ?c" "co_serviceMap c' = co_serviceMap ?c"
    using valid ls(1) s(1) by (auto simp: c'_def changeIIDOfService_def whenValid_def andThen_def tellMesh_def Let_def
        split: sum.splits)
  have la: "a < length (co_heap c)" "old \<noteq> new" using ls_inv_find [OF l(2) ls(2)] ls(2,3) by auto
  show "instance_at c' sid new = Some (setIID new (co_heap c ! a))" "instance_at c' sid old = None"
    using ls(1) s(2) la by (simp_all add: instance_at_def addr_at_def c' hm_update_find)
qed

lemma control_break_primary:
  assumes ids: "channel_ids W (set J)" "distinct J" and inv: "member_inv W J A n g" and n: "n \<in> A" "n \<in> set J"
    and v: "view g = q # n # vs"
  defines "ch \<equiv> opened (control_id W n q) q"
  shows "ch \<in> set (CM_getMemberList (rg_clientControlManager g))"
    and "\<exists>m x xs. ge_uuid E = n \<longrightarrow> control_close E ch (g, w) = fireOnChangeToPrimary E
        (g\<lparr>rg_clientControlManager := m, rg_primaryPeer := Some x, rg_replicas := xs\<rparr>, w)
      \<and> op_uuid x = n \<and> map op_uuid xs = vs"
proof -
  have t: "chan_table (control_id W n) (set (view g) - {n}) (rg_clientControlManager g)" using inv by (simp add: member_inv_def)
  have d: "distinct (view g)" using inv ids(2) by (auto simp: member_inv_def)
  then have q: "q \<in> set (view g) - {n}" using v by auto
  then show "ch \<in> set (CM_getMemberList (rg_clientControlManager g))"
    using chan_table_members [OF t] by (auto simp: ch_def)
  have inj: "inj (control_id W n)" using ids by (simp add: channel_ids_def)
  let ?ch = "ch\<lparr>ch_close := True\<rparr>"
  have "fc_channelID ?ch = control_id W n q" by (simp add: ch_def opened_def FTChannel_ctor_def)
  note rem = chan_table_remove(1) [OF inj t q this]
  have close: "channel_close False ch = (True, ?ch)" by (simp add: channel_close_def ch_def)
  obtain p where p: "rg_primaryPeer g = Some p" using inv by (auto simp: member_inv_def)
  then obtain x xs where x: "op_uuid p = q" "rg_replicas g = x # xs" "op_uuid x = n" "map op_uuid xs = vs"
    using v by (auto simp: view_def)
  have pid: "fc_pid ch = q" by (simp add: ch_def)
  have eq: "isEqual q q" "isEqual n n" by (simp_all add: isEqual_def)
  have "control_close E ch (g, w) = fireOnChangeToPrimary E
     (g\<lparr>rg_clientControlManager := snd (hm_unbind (control_id W n q) (rg_clientControlManager g)),
        rg_primaryPeer := Some x, rg_replicas := xs\<rparr>, w)" if "ge_uuid E = n"
    using that p x eq by (simp add: control_close_def close control_onClose_def rem pid isPeerPrimary_def isThisPeer_def)
  then show "\<exists>m x xs. ge_uuid E = n \<longrightarrow> control_close E ch (g, w) = fireOnChangeToPrimary E
        (g\<lparr>rg_clientControlManager := m, rg_primaryPeer := Some x, rg_replicas := xs\<rparr>, w)
      \<and> op_uuid x = n \<and> map op_uuid xs = vs" using x by blast
qed

section \<open>Acting as the primary\<close>

lemma acts_as_primary_iff:
  assumes "run_inv W rgid J (N, A)" "n \<in> A" "n \<in> set J" "has_group N rgid n g"
  shows "acts_as_primary W rgid N n \<longleftrightarrow> n = hd (view g)"
proof -
  have m: "member_inv W J A n g" using run_invD [OF assms(1-3)] has_group_unique [OF assms(4)] by blast
  then obtain p where p: "rg_primaryPeer g = Some p" by (auto simp: member_inv_def)
  then have v: "view g = op_uuid p # map op_uuid (rg_replicas g)" by (simp add: view_def)
  have "uuids (set J)" using assms(1) by (simp add: run_inv_def channel_ids_def)
  moreover have "op_uuid p \<in> set J" using member_view(2) [OF m assms(2,3)] v by simp
  ultimately have "isEqual n (op_uuid p) \<longleftrightarrow> n = op_uuid p" using uuids_isEqual assms(3) by blast
  then have "isThisPeerPrimary (local_env W n) g = Inr True \<longleftrightarrow> n = hd (view g)"
    using p v by (simp add: isThisPeerPrimary_def isThisPeer_def)
  moreover have "acts_as_primary W rgid N n \<longleftrightarrow> isThisPeerPrimary (local_env W n) g = Inr True"
    unfolding acts_as_primary_def using has_group_unique [OF assms(4)] assms(4) by blast
  ultimately show ?thesis by simp
qed

lemma deliver_replica:
  assumes "run_inv W rgid J (N, A)" "n \<in> A" "n \<in> set J" "has_group N rgid n g" "\<not> acts_as_primary W rgid N n"
  shows "deliver W rgid payload n (N n) = snd (on_object (rg_svc g) (fn_onReplication (pn_node W n) payload) (N n))"
proof -
  have "member_inv W J A n g" using run_invD [OF assms(1-3)] has_group_unique [OF assms(4)] by blast
  then obtain p where "rg_primaryPeer g = Some p" by (auto simp: member_inv_def)
  moreover have "isThisPeerPrimary (local_env W n) g \<noteq> Inr True"
    using assms(4,5) unfolding acts_as_primary_def by blast
  ultimately have "isThisPeerPrimary (local_env W n) g = Inr False" by (simp add: isThisPeerPrimary_def)
  then show ?thesis using assms(4) by (auto simp: deliver_def has_group_def split: option.splits)
qed

lemma filter_eq_distinct: "distinct xs \<Longrightarrow> x \<in> set xs \<Longrightarrow> filter (\<lambda>y. y = x) xs = [x]"
  by (induction xs) (auto intro!: filter_False)

lemma replicate_over_table:
  assumes "chan_table (data_id W n) Q m"
  shows "replicate_over (member_env W rgid n) payload (CM_getMemberList m) N x
     = (if x \<in> Q then deliver W rgid payload x (N x) else N x)"
proof -
  let ?chs = "CM_getMemberList m"
  have s: "set ?chs = (\<lambda>q. opened (data_id W n q) q) ` Q" "distinct ?chs" using chan_table_members [OF assms] by simp_all
  have "filter (\<lambda>ch. fc_pid ch = x \<and> \<not> ch_close ch) ?chs = filter (\<lambda>ch. ch = opened (data_id W n x) x) ?chs"
    by (rule filter_cong) (auto simp: s(1))
  moreover have "x \<in> Q \<Longrightarrow> filter (\<lambda>ch. ch = opened (data_id W n x) x) ?chs = [opened (data_id W n x) x]"
    by (rule filter_eq_distinct) (use s in auto)
  moreover have "fc_pid ` set (filter (\<lambda>ch. \<not> ch_close ch) ?chs) = Q" by (auto simp: s(1) image_image)
  ultimately show ?thesis by (simp add: replicate_over_net)
qed

lemma core_inv_addr:
  assumes "core_inv c" "addr_at (co_serviceMap c) sid iid = Some a"
  shows "a < length (co_heap c)" "sa_sid (co_heap c ! a) = sid" "sa_iid (co_heap c ! a) = iid"
proof -
  obtain ls where ls: "hm_find (co_serviceMap c) sid = Some ls" "hm_find (ls_runningServicesMap ls) iid = Some a"
    using assms(2) by (auto simp: addr_at_def bind_eq_Some_conv)
  from core_invD [OF assms(1) ls(1)] ls_inv_find [OF _ ls(2)]
  show "a < length (co_heap c)" "sa_sid (co_heap c ! a) = sid" "sa_iid (co_heap c ! a) = iid" by auto
qed

lemma core_inv_object:
  assumes "core_inv c" "addr_at (co_serviceMap c) sid iid = Some a" "sa_sid s = sid" "sa_iid s = iid"
  shows "core_inv (core_object a (\<lambda>_. s) c)"
  using core_inv_addr [OF assms(1,2)] assms
  by (intro core_inv_cong [OF _ _ _ assms(1)]) (simp_all add: core_object_def same_ids_update)

section \<open>A sample net\<close>

text \<open>Identifiers of runtimes end in an octet of their own; the channels of a runtime with \<open>q\<close> are numbered
  after \<open>q\<close>. Every runtime has its own address and hosts the sample service of the runtime core.\<close>

definition sample_id :: "byte \<Rightarrow> uuid" where "sample_id b = replicate 15 0 @ [b]"

definition sample_host :: "uuid \<Rightarrow> string" where
  "sample_host n = (if n = sample_id 2 then ''10.0.0.2'' else if n = sample_id 3 then ''10.0.0.3'' else ''10.0.0.4'')"

definition sample_machine :: "string \<Rightarrow> sap_world" where
  "sample_machine ip = sample_sap_world\<lparr>ip_interface := (\<lambda>i. if i = ''eth0'' then Some ip else None)\<rparr>"

definition sample_ft_endpoint :: "uuid \<Rightarrow> endpoint" where
  "sample_ft_endpoint n = \<lparr>ep_type = EP_TCP, ep_host = sample_host n, ep_port = 2004, ep_qos = \<lparr>qe_type = 0, qe_priority = 48\<rparr>\<rparr>"

definition sample_ft_env :: "uuid \<Rightarrow> (sap option, p3_ft) core_env" where
  "sample_ft_env n = \<lparr>ce_class = RPCService_class (Some ''eth0'') (sample_machine (sample_host n)) 0,
     ce_duplicate = RPCService_duplicate [0], ce_getName = (\<lambda>s. ''RPCService''), ce_pos = (\<lambda>ks k. 0),
     ce_uuid = (\<lambda>i. [of_nat i]), ce_hasMesh = True, ce_hasFT = True, ce_overlay_open = Inr (), ce_overlay_close = Inr (),
     ce_createGroup = (\<lambda>role p rgid q a sf. (Inr (), sf)), ce_qosOpen = True, ce_runtimeManager = 1,
     ce_subDomain = (\<lambda>m path. Inr (Suc m)), ce_parseInt = (\<lambda>s. 0)\<rparr>"

definition sample_ft_node :: "launch_site option \<Rightarrow> uuid \<Rightarrow> (sap option) ft_node" where
  "sample_ft_node site n = \<lparr>fn_core = sample_ft_env n, fn_mesh = Some ([1], Some [sample_ft_endpoint n]),
     fn_ftSAP = Some [sample_ft_endpoint n], fn_interface = Some ''eth0'', fn_sapWorld = sample_machine (sample_host n),
     fn_sapTry = 4, fn_findSite = (\<lambda>sid ex. if ex = [] then site else None),
     fn_toPrimary = ServiceAbstract_changeToPrimaryRole, fn_onReplication = ServiceAbstract_onReplication\<rparr>"

definition sample_link :: "uuid \<Rightarrow> ft_link" where
  "sample_link cid = \<lparr>ln_channelID = cid, ln_connected = True, ln_session = None, ln_up = True, ln_registered = 0\<rparr>"

definition sample_net :: "launch_site option \<Rightarrow> (sap option) p2p_net" where
  "sample_net site = \<lparr>pn_node = sample_ft_node site,
     pn_host = (\<lambda>ip. if ip = ''10.0.0.2'' then sample_id 2 else if ip = ''10.0.0.3'' then sample_id 3 else sample_id 4),
     pn_control = (\<lambda>n q. sample_link (q @ [0])), pn_data = (\<lambda>n q. sample_link (q @ [1]))\<rparr>"

definition sample_idle :: "uuid \<Rightarrow> (sap option, p3_ft) core" where
  "sample_idle n = (SthenoCore_ctor n \<lparr>ft_map = [], ft_objs = []\<rparr>)\<lparr>co_status := CORE_RUNNING,
     co_overlay := Some \<lparr>ov_status = OV_RUNNING, ov_qosManager = None\<rparr>,
     co_serviceFactory := [([1], RPCService_ctor [1] [0])]\<rparr>"

definition sample_busy :: "uuid \<Rightarrow> uuid \<Rightarrow> (sap option, p3_ft) core" where
  "sample_busy n iid = (sample_idle n)\<lparr>co_heap := [RPCService_ctor [1] iid],
     co_serviceMap := [([1], \<lparr>ls_sid = [1], ls_runningServicesMap = [(iid, 0)]\<rparr>)]\<rparr>"

definition sample_ft_params :: service_params where
  "sample_ft_params = sample_params\<lparr>sp_ftParams := Some \<lparr>ftp_replicaCount = 1, ftp_policy = 0\<rparr>\<rparr>"

definition sample_replica :: "uuid \<Rightarrow> overlay_peer_info" where
  "sample_replica n = \<lparr>op_uuid = n, op_fid = [1], op_meshSAP = Some [sample_ft_endpoint n], op_ftSAP = Some [sample_ft_endpoint n],
     op_ftDataSAP = Some [sample_ft_endpoint n]\<rparr>"

definition sample_channels :: "byte \<Rightarrow> uuid list \<Rightarrow> ft_channel hmap" where
  "sample_channels b qs = map (\<lambda>q. (q @ [b], opened (q @ [b]) q)) qs"

definition sample_member :: "uuid list \<Rightarrow> uuid \<Rightarrow> rgroup" where
  "sample_member J n = (ReplicationGroup_replica [8] 0 [1] sample_ft_params (sample_replica (hd J)) (map sample_replica (tl J)) None)
     \<lparr>rg_clientControlManager := sample_channels 0 (filter (\<lambda>q. q \<noteq> n) J),
      rg_clientDataManager := sample_channels 1 (tl (dropWhile (\<lambda>q. q \<noteq> n) J))\<rparr>"

definition sample_runtimes :: "uuid list \<Rightarrow> (sap option) net" where
  "sample_runtimes J n = (sample_busy n [5])\<lparr>co_ft := \<lparr>ft_map = [([8], 0)], ft_objs = [sample_member J n]\<rparr>\<rparr>"

lemma sample_id_simps [simp]: "sample_id a = sample_id b \<longleftrightarrow> a = b" "length (sample_id b) = 16" "last (sample_id b) = b"
  by (simp_all add: sample_id_def)

lemma sample_channels_table: "distinct qs \<Longrightarrow> chan_table (\<lambda>q. q @ [b]) (set qs) (sample_channels b qs)"
  by (auto simp: chan_table_def hm_ok_def sample_channels_def distinct_map inj_on_def comp_def)

lemma sample_link_ids: "control_id (sample_net site) n q = q @ [0]" "data_id (sample_net site) n q = q @ [1]"
  by (simp_all add: control_id_def data_id_def sample_net_def sample_link_def)

lemma sample_channel_ids: "\<forall>u\<in>J. length u = 16 \<and> last u \<notin> {0, 1} \<Longrightarrow> channel_ids (sample_net site) J"
  by (force simp: channel_ids_def uuids_def sample_link_ids inj_on_def)

lemma sample_runtimes_group: "has_group (sample_runtimes J) [8] n (sample_member J n)"
  by (simp add: has_group_def sample_runtimes_def hm_find_map_of)

lemma sample_view: "J \<noteq> [] \<Longrightarrow> view (sample_member J n) = J"
proof -
  have "map op_uuid (map sample_replica qs) = qs" for qs by (induction qs) (simp_all add: sample_replica_def)
  then show "J \<noteq> [] \<Longrightarrow> view (sample_member J n) = J"
    by (cases J) (simp_all add: view_def sample_member_def ReplicationGroup_replica_def sample_replica_def)
qed

lemma sample_run:
  assumes J: "distinct J" "\<forall>u\<in>set J. length u = 16 \<and> last u \<notin> {0, 1}"
  shows "run_inv (sample_net site) [8] J (sample_runtimes J, UNIV)"
proof -
  have "member_inv (sample_net site) J UNIV n (sample_member J n)" if n: "n \<in> set J" for n
  proof -
    have "J \<noteq> []" using n by auto
    moreover have "distinct (tl (dropWhile (\<lambda>q. q \<noteq> n) J))" using J(1) by (simp add: distinct_tl)
    moreover have "set (filter (\<lambda>q. q \<noteq> n) J) = set J - {n}" by auto
    moreover have "rg_clientControlManager (sample_member J n) = sample_channels 0 (filter (\<lambda>q. q \<noteq> n) J)"
      "rg_clientDataManager (sample_member J n) = sample_channels 1 (tl (dropWhile (\<lambda>q. q \<noteq> n) J))"
      by (simp_all add: sample_member_def)
    moreover have "rg_primaryPeer (sample_member J n) \<noteq> None" by (simp add: sample_member_def ReplicationGroup_replica_def)
    moreover have "control_id (sample_net site) n = (\<lambda>q. q @ [0])" "data_id (sample_net site) n = (\<lambda>q. q @ [1])"
      by (simp_all add: fun_eq_iff sample_link_ids)
    ultimately show ?thesis
      using sample_channels_table [of "filter (\<lambda>q. q \<noteq> n) J" 0] sample_channels_table [of "tl (dropWhile (\<lambda>q. q \<noteq> n) J)" 1] J(1)
      by (simp add: member_inv_UNIV sample_view later_def)
  qed
  moreover have "rg_groupUUID (sample_member J n) = [8]" for n
    by (simp add: sample_member_def ReplicationGroup_replica_def ReplicationGroup_primary_def)
  ultimately have "\<exists>g. has_group (sample_runtimes J) [8] n g \<and> rg_groupUUID g = [8] \<and> member_inv (sample_net site) J UNIV n g"
    if "n \<in> set J" for n using sample_runtimes_group that by blast
  then show ?thesis using J sample_channel_ids [OF J(2)] by (simp add: run_inv_def)
qed

lemma sample_ft_sap: "SAP_open (sample_machine (sample_host n)) ''eth0'' FT_qosList 4 SAP_ctor = (Inr 5,
    \<lparr>m_acceptorList = [sample_ft_endpoint n], m_sapInfo = Some [sample_ft_endpoint n]\<rparr>)"
  by (simp add: SAP_open_def sample_machine_def sample_sap_world_def FT_qosList_def initAcceptor_def sample_ft_endpoint_def
        MAX_PORT_BIND_ATTEMPTS_def initAcceptor_loop_numeral Let_def addEndpoint_def SAP_ctor_def)

lemma sample_node_simps [simp]:
  "fn_mesh (pn_node (sample_net site) n) = Some ([1], Some [sample_ft_endpoint n])"
  "fn_interface (pn_node (sample_net site) n) = Some ''eth0''"
  "fn_sapWorld (pn_node (sample_net site) n) = sample_machine (sample_host n)"
  "fn_sapTry (pn_node (sample_net site) n) = 4"
  "fn_core (pn_node (sample_net site) n) = sample_ft_env n"
  "ge_findSite (member_env (sample_net site) rgid n) = (\<lambda>sid ex. if ex = [] then site else None)"
  by (simp_all add: sample_net_def sample_ft_node_def member_env_def replica_env_def local_env_def Let_def)

definition sample_site :: launch_site where
  "sample_site = \<lparr>ls_uuid = sample_id 3, ls_fid = [1], ls_meshSAP = [sample_ft_endpoint (sample_id 3)],
     ls_ftSAP = [sample_ft_endpoint (sample_id 3)]\<rparr>"

definition sample_start :: "(sap option) net" where
  "sample_start n = (if n = sample_id 2 then sample_busy n [8] else sample_idle n)"

lemma sample_ready_net: "ready_net (sample_net site) {sample_id 2, sample_id 3}"
proof -
  have "channel_ids (sample_net site) {sample_id 2, sample_id 3}" by (rule sample_channel_ids) simp
  moreover have "pn_host (sample_net site) (sample_host n) = n" if "n \<in> {sample_id 2, sample_id 3}" for n
    using that by (auto simp: sample_net_def sample_host_def)
  moreover have "ip_interface (sample_machine ip) ''eth0'' = Some ip" for ip by (simp add: sample_machine_def)
  moreover have "good_link (pn_control (sample_net site) n q)" "good_link (pn_data (sample_net site) n q)" for n q
    by (simp_all add: sample_net_def sample_link_def good_link_def)
  ultimately show ?thesis by (auto simp: ready_net_def)
qed

lemma sample_replica_group:
  "\<exists>f. P3_createReplicationGroup (replica_ft_env n (pn_node (sample_net site) n)) (AsReplica prim rs) [8] a [1] params None
      (s, \<lparr>ft_map = [], ft_objs = []\<rparr>) = (Inr (), (s\<lparr>sa_rg := Some [8]\<rparr>, f))"
proof -
  let ?E = "replica_ft_env n (pn_node (sample_net site) n)"
  let ?g = "ReplicationGroup_replica [8] a [1] params prim rs None" and ?f = "\<lparr>ft_map = [([8], 0)], ft_objs = []\<rparr>"
  have e: "ge_ft ?E = snd" "ge_setFt ?E = (\<lambda>f (s, _). (s, f))" "ge_mesh ?E = Some ([1], Some [sample_ft_endpoint n])"
    "ge_interface ?E = Some ''eth0''" "ge_sapWorld ?E = sample_machine (sample_host n)" "ge_sapTry ?E = 4"
    "ge_setGroup ?E = (\<lambda>a rg (s, f). (s\<lparr>sa_rg := rg\<rparr>, f))"
    by (simp_all add: replica_ft_env_def)
  have "group_open ?E (?g, (s, \<lparr>ft_map = [([8], 0)], ft_objs = [?g]\<rparr>))
      = openReplica ?E (?g\<lparr>rg_closed := False, rg_dataSAP := \<lparr>m_acceptorList = [sample_ft_endpoint n],
          m_sapInfo = Some [sample_ft_endpoint n]\<rparr>\<rparr>, (s, \<lparr>ft_map = [([8], 0)], ft_objs = [?g]\<rparr>))"
    by (simp add: group_open_def e sample_ft_sap ReplicationGroup_replica_def ReplicationGroup_primary_def Let_def)
  then have "\<exists>g. group_open ?E (?g, (s, \<lparr>ft_map = [([8], 0)], ft_objs = [?g]\<rparr>))
      = (Inr (), (g, (s\<lparr>sa_rg := Some [8]\<rparr>, \<lparr>ft_map = [([8], 0)], ft_objs = [?g]\<rparr>)))"
    by (simp add: openReplica_def own_info_def e setReplicationGroup_def getReplicationGroup_def hm_find_map_of
        ReplicationGroup_replica_def ReplicationGroup_primary_def)
  then obtain g where g: "group_open ?E (?g, (s, \<lparr>ft_map = [([8], 0)], ft_objs = [?g]\<rparr>))
      = (Inr (), (g, (s\<lparr>sa_rg := Some [8]\<rparr>, \<lparr>ft_map = [([8], 0)], ft_objs = [?g]\<rparr>)))" by blast
  have "addReplicationGroup ?E [8] 0 (s, \<lparr>ft_map = [], ft_objs = [?g]\<rparr>)
      = (True, (s, \<lparr>ft_map = [([8], 0)], ft_objs = [?g]\<rparr>))"
    by (simp add: addReplicationGroup_def e hm_bind_def hm_find_map_of)
  then show ?thesis
    using g by (simp add: P3_createReplicationGroup_def e Let_def on_group_def throws_service_def)
qed

lemma sample_ready_site: "n \<noteq> sample_id 2 \<Longrightarrow> ready_site (sample_net site) sample_start [8] [1] sample_ft_params n"
proof -
  assume n: "n \<noteq> sample_id 2"
  let ?E = "node_core (sample_net site) n" and ?C = "RPCService_class (Some ''eth0'') (sample_machine (sample_host n)) 0"
  let ?s = "setIID [0] (RPCService_ctor [1] [0])" and ?m = "[([1], \<lparr>ls_sid = [1], ls_runningServicesMap = [([0], 0)]\<rparr>)]"
  let ?c = "sample_idle n"
  have E: "ce_class ?E = ?C" "ce_duplicate ?E = RPCService_duplicate [0]" "ce_pos ?E = (\<lambda>ks k. 0)" "ce_hasFT ?E" "ce_hasMesh ?E"
    "ce_uuid ?E = (\<lambda>i. [of_nat i])" "ce_createGroup ?E role params rgid q a (s, f)
      = P3_createReplicationGroup (replica_ft_env n (pn_node (sample_net site) n)) role rgid a (sa_sid s) params q (s, f)" for role params rgid q a s f
    by (simp_all add: node_core_def sample_ft_env_def)
  have c: "core_isValid ?c" "co_overlay ?c \<noteq> None" "co_uuids ?c = 0" "co_heap ?c = []" "co_serviceMap ?c = []"
    "co_ft ?c = \<lparr>ft_map = [], ft_objs = []\<rparr>" "\<not> co_reservationFlag ?c" "co_status ?c = CORE_RUNNING"
    "hm_find (co_serviceFactory ?c) [1] = Some (RPCService_ctor [1] [0])"
    by (simp_all add: sample_idle_def SthenoCore_ctor_def core_isValid_def hm_find_map_of)
  have inst: "createServiceInstance ?E [1] [0] (?c\<lparr>co_uuids := 1\<rparr>) = (Inr 0, ?c\<lparr>co_uuids := 1, co_heap := [?s], co_serviceMap := ?m\<rparr>)"
    using c by (simp add: createServiceInstance_def whenValid_def core_isValid_def bindLocalService_def hm_find_map_of
        hm_bind_def core_addServiceInstance_def addServiceInstance_def hm_update_def LocalService_ctor_def
        Factory_getInstance_def Let_def RPCService_duplicate_def RPCService_ctor_def ServiceAbstract_ctor_def
        setIID_def E)
  obtain p where p: "SAP_open (sample_machine (sample_host n)) ''eth0'' RPC_qosList 0 SAP_ctor = (Inr 4, p)"
    by (simp add: SAP_open_def sample_machine_def sample_sap_world_def RPC_qosList_def initAcceptor_def
        MAX_PORT_BIND_ATTEMPTS_def initAcceptor_loop_numeral Let_def addEndpoint_def Endpoint_isEqual_def
        QoSEndpoint_isEqual_def SAP_ctor_def)
  let ?s1 = "?s\<lparr>sa_rg := Some [8]\<rparr>"
  define t where "t = ?s1\<lparr>sa_status := RUNNING, sa_qosManager := Some None, sa_ftType := Some FT_REPLICA,
      sa_impl := Some p\<rparr>"
  have open_s: "service_open ?C params FT_REPLICA None ?s1 = (Inr (), t)" for params
    by (simp add: service_open_def changeState_def handle_defs RPCService_class_def RPCService_open_i_def
        p setIID_def RPCService_ctor_def ServiceAbstract_ctor_def t_def)
  have info: "instance_info ?C t = Inr \<lparr>sii_sid = [1], sii_iid = [0], sii_sapInfo = m_sapInfo p\<rparr>"
    by (simp add: instance_info_def RPCService_class_def RPCService_getSAP_def t_def setIID_def
        RPCService_ctor_def ServiceAbstract_ctor_def)
  have "fst (createReplicationGroup ?E prim rs [8] [1] sample_ft_params ?c) = Inr ()" for prim rs
  proof -
    have sid: "sa_sid ?s = [1]" by (simp add: setIID_def RPCService_ctor_def ServiceAbstract_ctor_def)
    obtain f where f: "P3_createReplicationGroup (replica_ft_env n (pn_node (sample_net site) n)) (AsReplica prim rs) [8] 0 [1]
        sample_ft_params None (?s, \<lparr>ft_map = [], ft_objs = []\<rparr>) = (Inr (), (?s1, f))"
      using sample_replica_group by blast
    show ?thesis
      using c inst f open_s info sid
      by (simp add: createReplicationGroup_def throws_service_def whenValid_def needFaultTolerance_def nextUUID_def E
          sample_ft_params_def createGroup_def on_object_def announce_def getInstanceOfService_info_def core_isValid_def
          getInstancesOfServiceInfo_iid_def hm_find_map_of tellMesh_def Let_def eval_nat_numeral)
  qed
  then show ?thesis using n c by (simp add: ready_site_def sample_start_def hm_ok_def hm_find_map_of)
qed

section \<open>Properties\<close>

text \<open>C5: Founding a group. When the discovery finds the sites that are asked for, and each site's runtime
  creates the replica and all connections succeed, \<^verbatim>\<open>createReplicationGroup\<close> returns and the group has
  the replicas asked for; every member lists the same members in the same order, the primary
  first, holds one open control channel to each other member, and a data channel to each one that
  joined after it.\<close>

theorem group_founded:
  assumes "ready_net W (set (p # map op_uuid rs))" "sid = sa_sid (co_heap (N p) ! svc)"
    "sp_ftParams params = Some ftp"
    "findResources (member_env W rgid p) sid (unat (ftp_replicaCount ftp)) [] = Inr (Some rs)" "finds_sites W p sid"
    "\<forall>r\<in>set rs. ready_site W N rgid sid params (op_uuid r)"
    "fn_interface (pn_node W p) = Some itf"
    "SAP_open (fn_sapWorld (pn_node W p)) itf FT_qosList (fn_sapTry (pn_node W p)) SAP_ctor = (Inr k, sap)"
    "hm_ok (ft_map (co_ft (N p)))" "hm_find (ft_map (co_ft (N p))) rgid = None"
  defines "J \<equiv> p # map op_uuid rs"
  shows "\<exists>N'. found_group W p rgid svc params N = (Inr (), N') \<and> length J = Suc (unat (ftp_replicaCount ftp))
    \<and> (\<forall>n\<in>set J. \<exists>g. has_group N' rgid n g \<and> view g = J
        \<and> set (CM_getPeerList (rg_clientControlManager g)) = set J - {n} \<and> distinct (CM_getPeerList (rg_clientControlManager g))
        \<and> set (CM_getPeerList (rg_clientDataManager g)) = later J n
        \<and> (\<forall>ch\<in>set (CM_getMemberList (rg_clientControlManager g) @ CM_getMemberList (rg_clientDataManager g)). \<not> ch_close ch))
    \<and> run_inv W rgid J (N', UNIV)"
proof -
  from found_group_run [OF assms(1-10)] obtain N' where
    N': "found_group W p rgid svc params N = (Inr (), N')" "run_inv W rgid J (N', UNIV)"
    "length rs = unat (ftp_replicaCount ftp)" by (auto simp: J_def)
  have peers: "set (CM_getPeerList m) = Q \<and> distinct (CM_getPeerList m) \<and> (\<forall>ch\<in>set (CM_getMemberList m). \<not> ch_close ch)"
    if "chan_table cid Q m" for cid Q m
  proof -
    have "inj_on fc_pid (set (CM_getMemberList m))" using chan_table_members [OF that] by (auto simp: inj_on_def)
    moreover have "CM_getPeerList m = map fc_pid (CM_getMemberList m)" by (simp add: CM_getPeerList_def CM_getMemberList_def)
    ultimately show ?thesis using chan_table_members [OF that] by (auto simp: distinct_map image_image)
  qed
  have "\<exists>g. has_group N' rgid n g \<and> view g = J
        \<and> set (CM_getPeerList (rg_clientControlManager g)) = set J - {n} \<and> distinct (CM_getPeerList (rg_clientControlManager g))
        \<and> set (CM_getPeerList (rg_clientDataManager g)) = later J n
        \<and> (\<forall>ch\<in>set (CM_getMemberList (rg_clientControlManager g) @ CM_getMemberList (rg_clientDataManager g)). \<not> ch_close ch)"
    if n: "n \<in> set J" for n
  proof -
    obtain g where g: "has_group N' rgid n g" "member_inv W J UNIV n g" using run_invD [OF N'(2) UNIV_I n] by auto
    note m = iffD1 [OF member_inv_UNIV g(2)]
    from peers [of "control_id W n" "set J - {n}" "rg_clientControlManager g"] peers [of "data_id W n" "later J n" "rg_clientDataManager g"] m
    show ?thesis using g(1) by auto
  qed
  moreover have "length J = Suc (unat (ftp_replicaCount ftp))" using N'(3) by (simp add: J_def)
  ultimately show ?thesis using N'(1,2) by blast
qed

theorem group_founded_witness:
  "\<exists>N'. found_group (sample_net (Some sample_site)) (sample_id 2) [8] 0 sample_ft_params sample_start = (Inr (), N')
    \<and> (\<exists>g. has_group N' [8] (sample_id 2) g \<and> view g = [sample_id 2, sample_id 3])
    \<and> (\<exists>g. has_group N' [8] (sample_id 3) g \<and> view g = [sample_id 2, sample_id 3])"
proof -
  let ?W = "sample_net (Some sample_site)" and ?p = "sample_id 2"
  let ?r = "\<lparr>op_uuid = sample_id 3, op_fid = [1], op_meshSAP = Some [sample_ft_endpoint (sample_id 3)],
     op_ftSAP = Some [sample_ft_endpoint (sample_id 3)], op_ftDataSAP = None\<rparr>"
  let ?ftp = "\<lparr>ftp_replicaCount = 1, ftp_policy = 0\<rparr>"
  have h1: "ready_net ?W (set (?p # map op_uuid [?r]))" using sample_ready_net by simp
  have h2: "[1] = sa_sid (co_heap (sample_start ?p) ! 0)"
    by (simp add: sample_start_def sample_busy_def RPCService_ctor_def ServiceAbstract_ctor_def)
  have h3: "sp_ftParams sample_ft_params = Some ?ftp" by (simp add: sample_ft_params_def sample_params_def)
  have h4: "findResources (member_env ?W [8] ?p) [1] (unat (ftp_replicaCount ?ftp)) [] = Inr (Some [?r])"
    by (simp add: sample_site_def first_endpoint_def getFirstEndpoint_def)
  have h5: "finds_sites ?W ?p [1]"
    by (auto simp: finds_sites_def sample_net_def sample_ft_node_def sample_site_def sample_ft_endpoint_def sample_host_def
        split: if_splits)
  have h6: "\<forall>r\<in>set [?r]. ready_site ?W sample_start [8] [1] sample_ft_params (op_uuid r)" using sample_ready_site by simp
  have h7: "hm_ok (ft_map (co_ft (sample_start ?p)))" "hm_find (ft_map (co_ft (sample_start ?p))) [8] = None"
    by (simp_all add: sample_start_def sample_busy_def sample_idle_def SthenoCore_ctor_def hm_ok_def hm_find_map_of)
  from group_founded [OF h1 h2 h3 h4 h5 h6 sample_node_simps(2) _ h7, unfolded sample_node_simps, OF sample_ft_sap]
  show ?thesis by auto
qed

text \<open>C3: Whatever members crash and in whatever order the others notice - channels breaking one by one,
  updates and other work of the runtimes in between - two running members never both act as the
  primary of the group.\<close>

theorem at_most_one_primary:
  assumes "run_inv W rgid J (N0, UNIV)" "(group_step W rgid J)\<^sup>*\<^sup>* (N0, UNIV) (N, A)"
    "n \<in> A \<inter> set J" "acts_as_primary W rgid N n" "m \<in> A \<inter> set J" "acts_as_primary W rgid N m"
  shows "n = m"
proof -
  have inv: "run_inv W rgid J (N, A)" by (rule group_run_inv [OF assms(2,1)])
  obtain us vs us' vs' where J: "J = us @ n # vs" "set us \<inter> A = {}" "J = us' @ m # vs'" "set us' \<inter> A = {}"
    using primary_first [OF inv _ _ assms(4)] primary_first [OF inv _ _ assms(6)] assms(3,5) by blast
  then show ?thesis using assms(3,5) by (auto simp: append_eq_append_conv2 append_eq_Cons_conv Cons_eq_append_conv)
qed

theorem at_most_one_primary_witness:
  "acts_as_primary (sample_net None) [8] (sample_runtimes [sample_id 2, sample_id 3, sample_id 4]) (sample_id 2)
    \<and> \<not> acts_as_primary (sample_net None) [8] (sample_runtimes [sample_id 2, sample_id 3, sample_id 4]) (sample_id 4)"
proof -
  let ?J = "[sample_id 2, sample_id 3, sample_id 4]" and ?A = "UNIV - {sample_id 3}"
  let ?acts = "acts_as_primary (sample_net None) [8] (sample_runtimes ?J)"
  have inv: "run_inv (sample_net None) [8] ?J (sample_runtimes ?J, UNIV)" by (rule sample_run) simp_all
  have run: "(group_step (sample_net None) [8] ?J)\<^sup>*\<^sup>* (sample_runtimes ?J, UNIV) (sample_runtimes ?J, ?A)"
    by (rule r_into_rtranclp) (rule group_step.Crash)
  have 2: "?acts (sample_id 2)" using acts_as_primary_iff [OF inv _ _ sample_runtimes_group] by (simp add: sample_view)
  have "sample_id 2 \<in> ?A \<inter> set ?J" "sample_id 4 \<in> ?A \<inter> set ?J" by simp_all
  from at_most_one_primary [OF inv run this(1) 2 this(2)] have "\<not> ?acts (sample_id 4)" by auto
  with 2 show ?thesis by blast
qed

text \<open>C4: The members that survive come to agree. From any state in which some members have crashed, the
  channels that still break lead, without another crash, to a state in which no running member has a
  control channel to one that stopped; and in every such state all running members list the same
  members, those that run in the order in which they joined, and the first of them, and no other, acts as
  the primary.\<close>

theorem survivors_agree:
  assumes "run_inv W rgid J (N0, UNIV)" "(group_step W rgid J)\<^sup>*\<^sup>* (N0, UNIV) (N, A)"
  shows "(\<exists>N'. (group_step W rgid J)\<^sup>*\<^sup>* (N, A) (N', A) \<and> quiescent rgid J (N', A))
    \<and> (\<forall>N' B n. (group_step W rgid J)\<^sup>*\<^sup>* (N, A) (N', B) \<longrightarrow> quiescent rgid J (N', B) \<longrightarrow> n \<in> B \<inter> set J \<longrightarrow>
        (\<exists>g. has_group N' rgid n g \<and> view g = filter (\<lambda>q. q \<in> B) J)
        \<and> acts_as_primary W rgid N' n = (n = hd (filter (\<lambda>q. q \<in> B) J)))"
proof (intro conjI allI impI)
  note inv = group_run_inv [OF assms(2,1)]
  show "\<exists>N'. (group_step W rgid J)\<^sup>*\<^sup>* (N, A) (N', A) \<and> quiescent rgid J (N', A)" by (rule settles [OF inv])
  fix N' B n
  assume *: "(group_step W rgid J)\<^sup>*\<^sup>* (N, A) (N', B)" "quiescent rgid J (N', B)" "n \<in> B \<inter> set J"
  have inv': "run_inv W rgid J (N', B)" by (rule group_run_inv [OF *(1) inv])
  from run_invD [OF inv', of n] *(3) obtain g where g: "has_group N' rgid n g" "member_inv W J B n g" by auto
  have v: "view g = filter (\<lambda>q. q \<in> B) J" using quiescent_view [OF inv' *(2) _ _ g(1)] *(3) by simp
  show "\<exists>g. has_group N' rgid n g \<and> view g = filter (\<lambda>q. q \<in> B) J" using g(1) v by blast
  show "acts_as_primary W rgid N' n = (n = hd (filter (\<lambda>q. q \<in> B) J))"
    using acts_as_primary_iff [OF inv' _ _ g(1)] *(3) v by simp
qed

theorem survivors_agree_witness:
  "\<exists>N'. (group_step (sample_net None) [8] [sample_id 2, sample_id 3])\<^sup>*\<^sup>*
      (sample_runtimes [sample_id 2, sample_id 3], UNIV - {sample_id 2}) (N', UNIV - {sample_id 2})
    \<and> acts_as_primary (sample_net None) [8] N' (sample_id 3)"
proof -
  let ?J = "[sample_id 2, sample_id 3]" and ?A = "UNIV - {sample_id 2}"
  have inv: "run_inv (sample_net None) [8] ?J (sample_runtimes ?J, UNIV)" by (rule sample_run) simp_all
  have "(group_step (sample_net None) [8] ?J)\<^sup>*\<^sup>* (sample_runtimes ?J, UNIV) (sample_runtimes ?J, ?A)"
    by (rule r_into_rtranclp) (rule group_step.Crash)
  note a = survivors_agree [OF inv this]
  then obtain N' where N': "(group_step (sample_net None) [8] ?J)\<^sup>*\<^sup>* (sample_runtimes ?J, ?A) (N', ?A)"
    "quiescent [8] ?J (N', ?A)" by blast
  have "sample_id 3 \<in> ?A \<inter> set ?J" "hd (filter (\<lambda>q. q \<in> ?A) ?J) = sample_id 3" by simp_all
  with a [THEN conjunct2, rule_format, OF N'] have "acts_as_primary (sample_net None) [8] N' (sample_id 3)" by metis
  then show ?thesis using N'(1) by blast
qed



text \<open>C7: Failover. When the acting primary stops, the next member of the view takes over as soon as its channel to
  the primary breaks: it acts as primary, the other members of its view stay, and the service, in the
  state its change of role leaves it in, is registered under the identifier of the group instead of
  its own. When the change of role fails the group is closed, and renamed all the same. The flag that
  makes a member add replicas as a primary does stays as it was.\<close>

theorem failover_takes_over:
  assumes "run_inv W rgid J (N0, UNIV)" "(group_step W rgid J)\<^sup>*\<^sup>* (N0, UNIV) (N, A)" "n \<in> A \<inter> set J"
    "has_group N rgid n g" "view g = q # n # vs" "q \<notin> A" "core_inv (N n)" "core_isValid (N n)"
    "addr_at (co_serviceMap (N n)) (rg_sid g) iid = Some (rg_svc g)" "addr_at (co_serviceMap (N n)) (rg_sid g) rgid = None"
    "sa_sid s' = rg_sid g" "sa_iid s' = iid"
    "fn_toPrimary (pn_node W n) (co_heap (N n) ! rg_svc g) = (ok, s')"
  shows "\<exists>N' g'. group_step W rgid J (N, A) (N', A) \<and> has_group N' rgid n g' \<and> view g' = n # vs
    \<and> acts_as_primary W rgid N' n \<and> rg_primary g' = rg_primary g \<and> rg_closed g' = (rg_closed g \<or> \<not> ok)
    \<and> instance_at (N' n) (rg_sid g) rgid = Some (setIID rgid s') \<and> instance_at (N' n) (rg_sid g) iid = None
    \<and> (\<forall>m. m \<noteq> n \<longrightarrow> N' m = N m)"
proof -
  let ?E = "member_env W rgid n" and ?ch = "opened (control_id W n q) q" and ?c = "N n"
  have inv: "run_inv W rgid J (N, A)" by (rule group_run_inv [OF assms(2,1)])
  have n: "n \<in> A" "n \<in> set J" using assms(3) by auto
  have m: "member_inv W J A n g" "rg_groupUUID g = rgid" using run_invD [OF inv n] has_group_unique [OF assms(4)] by auto
  have ids: "channel_ids W (set J)" "distinct J" using inv by (simp_all add: run_inv_def)
  note b = control_break_primary [OF ids m(1) n assms(5)]
  obtain cm x xs where run: "control_close ?E ?ch (g, N) = fireOnChangeToPrimary ?E
      (g\<lparr>rg_clientControlManager := cm, rg_primaryPeer := Some x, rg_replicas := xs\<rparr>, N)" "op_uuid x = n" "map op_uuid xs = vs"
    using b(2) [of ?E N] by auto
  let ?g = "g\<lparr>rg_clientControlManager := cm, rg_primaryPeer := Some x, rg_replicas := xs\<rparr>"
  let ?c1 = "core_object (rg_svc g) (\<lambda>_. s') ?c"
  let ?r = "changeIIDOfService (node_core W n) (rg_sid g) iid rgid ?c1"
  let ?g' = "if ok then ?g else ReplicationGroup_close ?g" and ?N1 = "N(n := snd ?r)"
  have a: "rg_svc g < length (co_heap ?c)" using core_inv_addr(1) [OF assms(7,9)] .
  have fire: "fireOnChangeToPrimary ?E (?g, N) = (fst ?r, (?g', ?N1))"
    using assms(12,13) a m(2)
    by (simp add: fireOnChangeToPrimary_def member_env_def replica_env_def local_env_def Let_def at_node_def core_object_def
        split: prod.split)
  have keep: "co_ft (?N1 n) = co_ft (N n)" by (simp add: core_object_def)
  obtain ad where ad: "getReplicationGroup ?E rgid N = Some ad" "ft_objs (co_ft (N n)) ! ad = g"
    using has_group_addr [OF assms(4) env_at_envs(3)] by blast
  note o = on_group_effect [where op = "control_close ?E ?ch", OF env_at_envs(3) assms(4) ad(1) trans [OF run(1) fire] keep]
  let ?N = "snd (on_group ?E ad (control_close ?E ?ch) N)"
  have "getReplicationGroup (local_env W n) rgid N = Some ad" using ad(1) by (simp add: getReplicationGroup_env [of _ n])
  then have step: "group_step W rgid J (N, A) (?N, A)"
    using group_step.ControlBreaks [OF assms(3), of W rgid N ad ?ch] b(1) ad(2) assms(6) by simp
  have heap: "co_heap (?N n) = co_heap (snd ?r)" "co_serviceMap (?N n) = co_serviceMap (snd ?r)" using o(1) by simp_all
  have prim: "acts_as_primary W rgid ?N n"
    unfolding acts_as_primary_def
    by (intro exI [of _ ?g']) (use o(2) run(2) in
      \<open>auto simp: isThisPeerPrimary_def isThisPeer_def ReplicationGroup_close_def isEqual_def\<close>)
  have c1: "core_inv ?c1" "core_isValid ?c1" "addr_at (co_serviceMap ?c1) (rg_sid g) iid = Some (rg_svc g)"
    "addr_at (co_serviceMap ?c1) (rg_sid g) rgid = None"
    using assms(7-12) core_inv_object [OF assms(7,9), of s'] by (simp_all add: core_object_def core_isValid_def)
  have inst: "instance_at (?N n) (rg_sid g) rgid = Some (setIID rgid s')" "instance_at (?N n) (rg_sid g) iid = None"
    using changeIID_moves [OF c1, of "node_core W n"] a heap
    by (simp_all add: instance_at_def addr_at_def core_object_def)
  have "view ?g' = n # vs" "rg_primary ?g' = rg_primary g" "rg_closed ?g' = (rg_closed g \<or> \<not> ok)"
    using run(2,3) by (simp_all add: view_def ReplicationGroup_close_def)
  moreover have "?N k = N k" if "k \<noteq> n" for k using o(3) [OF that] that by simp
  ultimately show ?thesis using step o(2) prim inst by (intro exI [of _ ?N] exI [of _ ?g']) simp
qed

theorem failover_takes_over_witness:
  "\<exists>N' g'. group_step (sample_net None) [8] [sample_id 2, sample_id 3]
      (sample_runtimes [sample_id 2, sample_id 3], UNIV - {sample_id 2}) (N', UNIV - {sample_id 2})
    \<and> has_group N' [8] (sample_id 3) g' \<and> view g' = [sample_id 3] \<and> rg_closed g'
    \<and> instance_at (N' (sample_id 3)) [1] [8] = Some (RPCService_ctor [1] [8])"
proof -
  let ?J = "[sample_id 2, sample_id 3]" and ?W = "sample_net None" and ?n = "sample_id 3" and ?A = "UNIV - {sample_id 2}"
  let ?g = "sample_member ?J ?n" and ?s = "RPCService_ctor [1] [5]"
  have inv: "run_inv ?W [8] ?J (sample_runtimes ?J, UNIV)" by (rule sample_run) simp_all
  have run: "(group_step ?W [8] ?J)\<^sup>*\<^sup>* (sample_runtimes ?J, UNIV) (sample_runtimes ?J, ?A)"
    by (rule r_into_rtranclp) (rule group_step.Crash)
  have g: "view ?g = [sample_id 2, ?n]" "rg_sid ?g = [1]" "rg_svc ?g = 0" by (simp_all add: sample_view)
     (simp_all add: sample_member_def ReplicationGroup_replica_def ReplicationGroup_primary_def)
  let ?c = "sample_runtimes ?J ?n"
  have c: "core_inv ?c" "core_isValid ?c" "addr_at (co_serviceMap ?c) [1] [5] = Some 0"
    "addr_at (co_serviceMap ?c) [1] [8] = None" "co_heap ?c ! 0 = ?s"
    by (auto simp: sample_runtimes_def sample_busy_def sample_idle_def SthenoCore_ctor_def core_inv_def hm_ok_def hm_find_map_of
        ls_inv_def entry_ok_def RPCService_ctor_def ServiceAbstract_ctor_def core_isValid_def addr_at_def split: if_splits)
  have s: "sa_sid ?s = [1]" "sa_iid ?s = [5]" "setIID [8] ?s = RPCService_ctor [1] [8]"
    by (simp_all add: RPCService_ctor_def ServiceAbstract_ctor_def setIID_def)
  have "fn_toPrimary (pn_node ?W ?n) (co_heap ?c ! rg_svc ?g) = (False, ?s)"
    by (simp add: sample_net_def sample_ft_node_def ServiceAbstract_changeToPrimaryRole_def g c)
  note t = failover_takes_over [OF inv run _ sample_runtimes_group g(1), unfolded g, OF _ _ c(1-4) s(1,2) this [unfolded g], unfolded s]
  then show ?thesis by auto
qed



lemma creation_fails:
  assumes "fn_mesh (pn_node W p) = Some ms" "fn_interface (pn_node W p) = Some itf"
    "SAP_open (fn_sapWorld (pn_node W p)) itf FT_qosList (fn_sapTry (pn_node W p)) SAP_ctor = (Inr k, sap)"
    "sp_ftParams params = Some ftp" "hm_ok (ft_map (co_ft (N p)))"
    "findResources (member_env W rgid p) (sa_sid (co_heap (N p) ! svc)) (unat (ftp_replicaCount ftp)) [] = Inr None"
  shows "\<exists>N'. found_group W p rgid svc params N = (Inl INSUFFICIENT_RESOURCES, N')
    \<and> hm_find (ft_map (co_ft (N' p))) rgid = None \<and> (\<forall>n. n \<noteq> p \<longrightarrow> N' n = N n)
    \<and> co_serviceMap (N' p) = co_serviceMap (N p)"
proof -
  let ?E = "member_env W rgid p" and ?f = "co_ft (N p)"
  let ?sid = "sa_sid (co_heap (N p) ! svc)"
  let ?a = "length (ft_objs ?f)" and ?g0 = "ReplicationGroup_primary rgid svc ?sid params None"
  have e: "ge_ft ?E = (\<lambda>N. co_ft (N p))" "ge_setFt ?E = (\<lambda>f N. N(p := (N p)\<lparr>co_ft := f\<rparr>))"
    using env_at_envs(3) [of W rgid p] by (simp_all add: env_at_def)
  define m2 where "m2 = snd (hm_bind (ge_pos ?E) rgid ?a (ft_map ?f))"
  define N2 where "N2 = N(p := (N p)\<lparr>co_ft := ?f\<lparr>ft_objs := ft_objs ?f @ [?g0], ft_map := m2\<rparr>\<rparr>)"
  have w2: "snd (addReplicationGroup ?E rgid ?a (N(p := (N p)\<lparr>co_ft := ?f\<lparr>ft_objs := ft_objs ?f @ [?g0]\<rparr>\<rparr>))) = N2"
    by (cases "hm_bind (ge_pos ?E) rgid ?a (ft_map ?f)") (simp add: addReplicationGroup_def e N2_def m2_def)
  have ok: "hm_ok m2"
    using hm_bind_absent [OF _ assms(5)] hm_bind_present [of "ft_map ?f" rgid] assms(5)
    by (cases "hm_find (ft_map ?f) rgid") (simp_all add: m2_def)
  let ?g1 = "?g0\<lparr>rg_closed := False, rg_dataSAP := sap\<rparr>"
  obtain q where q: "own_info ?E ?g1 = Inr q" using assms(1) by (cases ms) (simp add: own_info_def)
  have g: "ge_interface ?E = Some itf" "ge_sapWorld ?E = fn_sapWorld (pn_node W p)" "ge_sapTry ?E = fn_sapTry (pn_node W p)"
    using assms(2) by (simp_all add: member_env_def replica_env_def local_env_def Let_def)
  have "openPrimary ?E (?g1, N2) = (Inl INSUFFICIENT_RESOURCES, (?g1\<lparr>rg_primaryPeer := Some q\<rparr>, N2))"
    using q assms(4,6) by (simp add: openPrimary_def ReplicationGroup_primary_def)
  then have "group_open ?E (?g0, N2) = (Inl INSUFFICIENT_RESOURCES, (?g1\<lparr>rg_primaryPeer := Some q\<rparr>, N2))"
    using assms(3) g by (simp add: group_open_def ReplicationGroup_primary_def Let_def)
  moreover have "ft_objs (ge_ft ?E N2) ! ?a = ?g0" by (simp add: e N2_def)
  ultimately obtain f' where o: "on_group ?E ?a (group_open ?E) N2 = (Inl INSUFFICIENT_RESOURCES, N2(p := (N2 p)\<lparr>co_ft := f'\<rparr>))"
    "ft_map f' = m2" by (simp add: on_group_def e) (simp add: N2_def)
  let ?N3 = "N2(p := (N2 p)\<lparr>co_ft := f'\<rparr>)"
  have "found_group W p rgid svc params N = (Inl INSUFFICIENT_RESOURCES, snd (removeReplicationGroup ?E rgid ?N3))"
    by (simp add: found_group_def P3_createReplicationGroup_def Let_def e w2 o(1) throws_service_def INSUFFICIENT_RESOURCES_def)
  moreover have "hm_find (ft_map (co_ft (snd (removeReplicationGroup ?E rgid ?N3) p))) rgid = None"
    using hm_unbind_find [OF ok, of rgid] o(2) by (simp add: removeReplicationGroup_def e case_prod_beta)
  moreover have "snd (removeReplicationGroup ?E rgid ?N3) n = N n" if "n \<noteq> p" for n
    using that by (simp add: removeReplicationGroup_def e N2_def split: prod.split)
  moreover have "co_serviceMap (snd (removeReplicationGroup ?E rgid ?N3) p) = co_serviceMap (N p)"
    by (simp add: removeReplicationGroup_def e N2_def split: prod.split)
  ultimately show ?thesis by blast
qed

text \<open>C29: Too few sites. When the discovery does not find as many sites as the parameters ask for, the
  creation of a group fails with \<^verbatim>\<open>INSUFFICIENT_RESOURCES\<close> and calls no other runtime; the runtime then has no group
  under that identifier - not even one that it had before, whose entry is removed with the failed one.\<close>

theorem creation_without_sites:
  assumes "fn_mesh (pn_node W p) = Some ms" "fn_interface (pn_node W p) = Some itf"
    "SAP_open (fn_sapWorld (pn_node W p)) itf FT_qosList (fn_sapTry (pn_node W p)) SAP_ctor = (Inr k, sap)"
    "sp_ftParams params = Some ftp" "hm_ok (ft_map (co_ft (N p)))"
    "findResources (member_env W rgid p) (sa_sid (co_heap (N p) ! svc)) (unat (ftp_replicaCount ftp)) [] = Inr None"
  shows "\<exists>N'. found_group W p rgid svc params N = (Inl INSUFFICIENT_RESOURCES, N')
    \<and> hm_find (ft_map (co_ft (N' p))) rgid = None \<and> (\<forall>n. n \<noteq> p \<longrightarrow> N' n = N n)
    \<and> co_serviceMap (N' p) = co_serviceMap (N p)"
  using assms by (rule creation_fails)

theorem creation_without_sites_witness:
  "\<exists>N'. found_group (sample_net None) (sample_id 2) [8] 0 sample_ft_params (sample_runtimes [sample_id 2])
      = (Inl INSUFFICIENT_RESOURCES, N')
    \<and> has_group (sample_runtimes [sample_id 2]) [8] (sample_id 2) (sample_member [sample_id 2] (sample_id 2))
    \<and> hm_find (ft_map (co_ft (N' (sample_id 2)))) [8] = None"
proof -
  let ?N = "sample_runtimes [sample_id 2]" and ?p = "sample_id 2"
  have "sp_ftParams sample_ft_params = Some \<lparr>ftp_replicaCount = 1, ftp_policy = 0\<rparr>"
    by (simp add: sample_ft_params_def sample_params_def)
  moreover have "hm_ok (ft_map (co_ft (?N ?p)))" by (simp add: sample_runtimes_def hm_ok_def)
  moreover have "findResources (member_env (sample_net None) [8] ?p) sid (unat (ftp_replicaCount \<lparr>ftp_replicaCount = 1, ftp_policy = 0\<rparr>)) []
      = Inr None" for sid by simp
  ultimately show ?thesis
    using creation_without_sites [OF sample_node_simps(1,2), unfolded sample_node_simps, OF sample_ft_sap, of sample_ft_params _ ?N ?p None "[8]" 0]
      sample_runtimes_group by blast
qed

end
