(* ===== verification/GroupSites.thy ===== *)
theory GroupSites
  imports DiscoveryService GroupFailover
begin

text \<open>
  Replication groups on the discovery service: the sites of a group, which are a parameter where groups are founded,
  are those the discovery of an overlay finds.
\<close>

text \<open>The answer of discovery as \<^verbatim>\<open>findResources\<close> uses it; a search that goes wrong has no site.\<close>

definition site_from :: "overlay_net \<Rightarrow> nat \<Rightarrow> uuid \<Rightarrow> uuid list \<Rightarrow> launch_site option" where
  "site_from V n sid flt = (case findSite V n sid flt of
      Some (Inr (Some s)) \<Rightarrow> (case (st_meshSAP s, st_ftSAP s) of
          (Some mesh, Some ft) \<Rightarrow> Some \<lparr>ls_uuid = st_uuid s, ls_fid = st_fid s, ls_meshSAP = mesh, ls_ftSAP = ft\<rparr>
        | _ \<Rightarrow> None)
    | _ \<Rightarrow> None)"

lemma root_site_from:
  "connect_above V n = None \<Longrightarrow> serving_root (on_superpeer V n) t \<Longrightarrow> site_from V n sid flt = None"
  by (simp add: site_from_def root_finds_no_site)

lemma member_env_findSite: "ge_findSite (member_env W rgid p) = fn_findSite (pn_node W p)"
  by (simp add: member_env_def replica_env_def local_env_def Let_def)

text \<open>C30: the root of an overlay founds no group. However many superpeers it has in its tree, creating a replicated service on
  the root fails with \<^verbatim>\<open>INSUFFICIENT_RESOURCES\<close>, calls no other runtime and leaves no group, because the
  query for a site that the root asks itself is read as one that excludes everybody.\<close>

theorem root_founds_no_group:
  assumes "connect_above V n = None" "serving_root (on_superpeer V n) t"
    and "fn_findSite (pn_node W p) = site_from V n"
    and "fn_mesh (pn_node W p) = Some ms" "fn_interface (pn_node W p) = Some itf"
    "SAP_open (fn_sapWorld (pn_node W p)) itf FT_qosList (fn_sapTry (pn_node W p)) SAP_ctor = (Inr k, sap)"
    "sp_ftParams params = Some ftp" "ftp_replicaCount ftp \<noteq> 0" "hm_ok (ft_map (co_ft (N p)))"
  shows "\<exists>N'. found_group W p rgid svc params N = (Inl INSUFFICIENT_RESOURCES, N')
    \<and> hm_find (ft_map (co_ft (N' p))) rgid = None \<and> (\<forall>q. q \<noteq> p \<longrightarrow> N' q = N q)"
proof -
  obtain c where "unat (ftp_replicaCount ftp) = Suc c" using assms(8) by (metis not0_implies_Suc unat_0_iff)
  then have "findResources (member_env W rgid p) (sa_sid (co_heap (N p) ! svc)) (unat (ftp_replicaCount ftp)) [] = Inr None"
    by (simp add: member_env_findSite assms(3) root_site_from [OF assms(1,2)])
  from creation_fails [where N = N and p = p and svc = svc, OF assms(4-7,9) this] show ?thesis by blast
qed

definition sample_discovering :: "(sap option) p2p_net" where
  "sample_discovering = (sample_net None)\<lparr>pn_node := (\<lambda>p. (pn_node (sample_net None) p)\<lparr>fn_findSite := site_from sample_overlay 0\<rparr>)\<rparr>"

theorem root_founds_no_group_witness:
  "\<exists>N'. found_group sample_discovering (sample_id 2) [8] 0 sample_ft_params (sample_runtimes [sample_id 2])
      = (Inl INSUFFICIENT_RESOURCES, N') \<and> hm_find (ft_map (co_ft (N' (sample_id 2)))) [8] = None"
proof -
  let ?p = "sample_id 2" and ?N = "sample_runtimes [sample_id 2]"
  have root: "serving_root (on_superpeer sample_overlay 0) sample_site_tree" by (simp add: sample_serving_root)
  have node: "pn_node sample_discovering ?p = (pn_node (sample_net None) ?p)\<lparr>fn_findSite := site_from sample_overlay 0\<rparr>"
    by (simp add: sample_discovering_def)
  have f: "fn_findSite (pn_node sample_discovering ?p) = site_from sample_overlay 0"
    and m: "fn_mesh (pn_node sample_discovering ?p) = Some ([1], Some [sample_ft_endpoint ?p])"
    and i: "fn_interface (pn_node sample_discovering ?p) = Some ''eth0''"
    and s: "SAP_open (fn_sapWorld (pn_node sample_discovering ?p)) ''eth0'' FT_qosList (fn_sapTry (pn_node sample_discovering ?p)) SAP_ctor
      = (Inr 5, \<lparr>m_acceptorList = [sample_ft_endpoint ?p], m_sapInfo = Some [sample_ft_endpoint ?p]\<rparr>)"
    using sample_ft_sap by (simp_all add: node)
  have params: "sp_ftParams sample_ft_params = Some \<lparr>ftp_replicaCount = 1, ftp_policy = 0\<rparr>"
    by (simp add: sample_ft_params_def sample_params_def)
  have "ftp_replicaCount \<lparr>ftp_replicaCount = 1, ftp_policy = 0\<rparr> \<noteq> 0" by simp
  moreover have "hm_ok (ft_map (co_ft (?N ?p)))" by (simp add: sample_runtimes_def hm_ok_def)
  ultimately show ?thesis using root_founds_no_group [where N = ?N and svc = 0 and rgid = "[8]", OF sample_top root f m i s params] by blast
qed

end
