(* ===== verification/Requests.thy ===== *)
theory Requests
  imports Prelude
begin

text \<open>
  Requests that wait for a reply: events with a state and a listener (\<^verbatim>\<open>euryale/event/Event.cpp\<close>), futures
  (\<^verbatim>\<open>EventFuture.h\<close>), the requests of a channel and the engine that finds the request to which a reply
  belongs (\<^verbatim>\<open>net/ChannelRequest.h\<close>, \<^verbatim>\<open>net/ChannelRequestEngine.h\<close>), groups of requests that are awaited together
  (\<^verbatim>\<open>net/RequestGroup.h\<close>), and a channel that sends requests (\<^verbatim>\<open>FTControlClientHandler.h\<close>). Requests are shared
  between the engine, the caller and groups, so they are objects in a heap. Waiting is one turn of the
  loop of \<^verbatim>\<open>waitFuture\<close>, whose result is \<open>None\<close> when the caller keeps waiting.
\<close>

section \<open>Events and futures\<close>

datatype event_state = ES_IDLE | SS_ACTIVE | ES_SUCCESS | ES_ERROR | ES_TIMEOUT | ES_CANCEL

fun isStateFinal :: "event_state \<Rightarrow> bool" where
  "isStateFinal ES_ERROR = True"
| "isStateFinal ES_SUCCESS = True"
| "isStateFinal ES_TIMEOUT = True"
| "isStateFinal ES_CANCEL = True"
| "isStateFinal _ = False"

definition keepWaiting :: "event_state \<Rightarrow> bool" where
  "keepWaiting st = (st \<noteq> ES_SUCCESS \<or> st \<noteq> ES_ERROR)"

text \<open>A request of a channel; a null \<^verbatim>\<open>m_result\<close> or \<^verbatim>\<open>m_engine\<close> is \<open>None\<close>. The only listeners set on requests are groups;
  engines, like the channels they belong to, and groups are numbered.\<close>

record 'r channel_request =
  cr_state :: event_state
  cr_result :: "'r list option"
  cr_expectedSize :: u32
  cr_listener :: "nat option"
  cr_id :: u32
  cr_engine :: "nat option"
  cr_channel :: nat
  cr_wb :: bool
  cr_disableClearMap :: bool

record request_group =
  gr_state :: event_state
  gr_result :: "nat list option"
  gr_expectedSize :: u32
  gr_finishedRequests :: u32
  gr_opened :: bool

record 'r requests =
  rq_heap :: "'r channel_request list"
  rq_maps :: "nat \<Rightarrow> (u32 \<times> nat) list"
  rq_groups :: "request_group list"
  rq_close :: "nat \<Rightarrow> bool"

definition no_requests :: "'r requests" where
  "no_requests = \<lparr>rq_heap = [], rq_maps = (\<lambda>_. []), rq_groups = [], rq_close = (\<lambda>_. False)\<rparr>"

text \<open>\<^verbatim>\<open>ChannelRequest\<close> leaves \<^verbatim>\<open>m_disableClearMap\<close> uninitialised: \<open>raw\<close> is what it then holds.\<close>

definition ChannelRequest_ctor :: "bool \<Rightarrow> nat \<Rightarrow> u32 \<Rightarrow> 'r channel_request" where
  "ChannelRequest_ctor raw ch nr = \<lparr>cr_state = ES_IDLE, cr_result = Some [], cr_expectedSize = 1, cr_listener = None,
     cr_id = nr, cr_engine = Some ch, cr_channel = ch, cr_wb = False, cr_disableClearMap = raw\<rparr>"

definition on_request ::
    "nat \<Rightarrow> ('r channel_request \<Rightarrow> 'r channel_request) \<Rightarrow> 'r requests \<Rightarrow> 'r requests" where
  "on_request a f s = s\<lparr>rq_heap := (rq_heap s)[a := f (rq_heap s ! a)]\<rparr>"

definition update_group :: "nat \<Rightarrow> (request_group \<Rightarrow> request_group) \<Rightarrow> 'r requests \<Rightarrow> 'r requests" where
  "update_group g f s = s\<lparr>rq_groups := (rq_groups s)[g := f (rq_groups s ! g)]\<rparr>"

definition isAllEventFinal :: "request_group \<Rightarrow> bool" where
  "isAllEventFinal G = (gr_expectedSize G = gr_finishedRequests G)"

text \<open>\<^verbatim>\<open>RequestGroup::onEvent\<close>; a group has no write block and no listener of its own.\<close>

definition RequestGroup_onEvent :: "event_state \<Rightarrow> request_group \<Rightarrow> request_group" where
  "RequestGroup_onEvent st G =
     (let G' = (if isStateFinal st then G\<lparr>gr_finishedRequests := gr_finishedRequests G + 1\<rparr> else G)
      in if isAllEventFinal G' then G'\<lparr>gr_state := ES_SUCCESS\<rparr> else G')"

definition fireEventChange :: "nat \<Rightarrow> 'r requests \<Rightarrow> 'r requests" where
  "fireEventChange a s = (case cr_listener (rq_heap s ! a) of
      None \<Rightarrow> s
    | Some g \<Rightarrow> update_group g (RequestGroup_onEvent (cr_state (rq_heap s ! a))) s)"

definition stateChanged :: "nat \<Rightarrow> event_state \<Rightarrow> 'r requests \<Rightarrow> 'r requests" where
  "stateChanged a st s = fireEventChange a (on_request a (\<lambda>q. q\<lparr>cr_state := st\<rparr>) s)"

definition setListener :: "nat \<Rightarrow> nat \<Rightarrow> 'r requests \<Rightarrow> 'r requests" where
  "setListener a g s =
     (let s' = on_request a (\<lambda>q. q\<lparr>cr_listener := Some g\<rparr>) s
      in if isStateFinal (cr_state (rq_heap s ! a)) then fireEventChange a s' else s')"

definition removeListener :: "nat \<Rightarrow> 'r requests \<Rightarrow> 'r requests" where
  "removeListener a s = on_request a (\<lambda>q. q\<lparr>cr_listener := None\<rparr>) s"

definition EventFuture_setFuture :: "nat \<Rightarrow> 'r \<Rightarrow> 'r requests \<Rightarrow> int \<times> 'r requests" where
  "EventFuture_setFuture a r s = (case cr_result (rq_heap s ! a) of
      None \<Rightarrow> (-1, s)
    | Some rs \<Rightarrow>
        (let s' = on_request a (\<lambda>q. q\<lparr>cr_result := Some (rs @ [r])\<rparr>) s
         in if unat (cr_expectedSize (rq_heap s ! a)) \<le> length (rs @ [r])
            then (0, stateChanged a ES_SUCCESS s') else (0, s')))"

definition detach :: "nat \<Rightarrow> 'r requests \<Rightarrow> 'r list option \<times> 'r requests" where
  "detach a s = (cr_result (rq_heap s ! a), on_request a (\<lambda>q. q\<lparr>cr_result := None\<rparr>) s)"

text \<open>One turn of the loop: \<open>expired\<close> says that waiting for a signal ended without one.\<close>

definition EventFuture_waitFuture :: "nat \<Rightarrow> bool \<Rightarrow> 'r requests \<Rightarrow> 'r list option option \<times> 'r requests" where
  "EventFuture_waitFuture a expired s =
     (if isStateFinal (cr_state (rq_heap s ! a)) then (case detach a s of (l, s') \<Rightarrow> (Some l, s'))
      else if expired then (case detach a (stateChanged a ES_TIMEOUT s) of (l, s') \<Rightarrow> (Some l, s'))
      else (None, s))"

section \<open>The engine of a channel\<close>

type_synonym upos = "u32 list \<Rightarrow> u32 \<Rightarrow> nat"

text \<open>A number that is already bound keeps its request.\<close>

definition engine_bind :: "upos \<Rightarrow> nat \<Rightarrow> nat \<Rightarrow> 'r requests \<Rightarrow> 'r requests" where
  "engine_bind pos e a s =
     (let m = rq_maps s e; nr = cr_id (rq_heap s ! a); i = pos (map fst m) nr
      in if map_of m nr \<noteq> None then s
         else s\<lparr>rq_maps := (rq_maps s)(e := take i m @ (nr, a) # drop i m)\<rparr>)"

definition engine_get :: "nat \<Rightarrow> u32 \<Rightarrow> 'r requests \<Rightarrow> nat option" where
  "engine_get e nr s = map_of (rq_maps s e) nr"

definition engine_unbind :: "nat \<Rightarrow> u32 \<Rightarrow> 'r requests \<Rightarrow> nat option \<times> 'r requests" where
  "engine_unbind e nr s = (case map_of (rq_maps s e) nr of
      None \<Rightarrow> (None, s)
    | Some a \<Rightarrow> (Some a, s\<lparr>rq_maps := (rq_maps s)(e := filter (\<lambda>x. fst x \<noteq> nr) (rq_maps s e))\<rparr>))"

definition engine_clear :: "nat \<Rightarrow> u32 \<Rightarrow> 'r requests \<Rightarrow> 'r requests" where
  "engine_clear e nr s = snd (engine_unbind e nr s)"

definition ChannelRequest_setFuture :: "nat \<Rightarrow> 'r \<Rightarrow> 'r requests \<Rightarrow> int \<times> 'r requests" where
  "ChannelRequest_setFuture a r s = EventFuture_setFuture a r (on_request a (\<lambda>q. q\<lparr>cr_engine := None\<rparr>) s)"

definition engine_setReply :: "nat \<Rightarrow> u32 \<Rightarrow> 'r \<Rightarrow> 'r requests \<Rightarrow> int \<times> 'r requests" where
  "engine_setReply e nr r s = (case map_of (rq_maps s e) nr of
      None \<Rightarrow> (-1, s)
    | Some a \<Rightarrow> (0, engine_clear e nr (snd (ChannelRequest_setFuture a r s))))"

definition ChannelRequest_cancel :: "bool \<Rightarrow> nat \<Rightarrow> 'r requests \<Rightarrow> 'r requests" where
  "ChannelRequest_cancel clearMap a s =
     (let q = rq_heap s ! a;
          s' = (case cr_engine q of
              None \<Rightarrow> s
            | Some e \<Rightarrow> if clearMap \<and> \<not> cr_disableClearMap q then engine_clear e (cr_id q) s else s)
      in stateChanged a ES_CANCEL (on_request a (\<lambda>q. q\<lparr>cr_engine := None\<rparr>) s'))"

definition ChannelRequest_close :: "nat \<Rightarrow> 'r requests \<Rightarrow> 'r requests" where
  "ChannelRequest_close = ChannelRequest_cancel True"

fun clearAll_loop :: "(u32 \<times> nat) list \<Rightarrow> 'r requests \<Rightarrow> 'r requests" where
  "clearAll_loop [] s = s"
| "clearAll_loop ((nr, a) # m) s =
     clearAll_loop m (ChannelRequest_cancel False a (on_request a (\<lambda>q. q\<lparr>cr_disableClearMap := True\<rparr>) s))"

definition engine_clearAll :: "nat \<Rightarrow> 'r requests \<Rightarrow> 'r requests" where
  "engine_clearAll e s = (let s' = clearAll_loop (rq_maps s e) s in s'\<lparr>rq_maps := (rq_maps s')(e := [])\<rparr>)"

text \<open>The event of the block that an asynchronous write sends: all states that the second branch tests are final.
  Without a block the first branch follows a null pointer: \<open>None\<close>.\<close>

definition attachWriteBlock :: "nat \<Rightarrow> 'r requests \<Rightarrow> int \<times> 'r requests" where
  "attachWriteBlock a s = (if cr_wb (rq_heap s ! a) then (-1, s) else (0, on_request a (\<lambda>q. q\<lparr>cr_wb := True\<rparr>) s))"

definition ChannelRequest_onEvent :: "nat \<Rightarrow> event_state \<Rightarrow> 'r requests \<Rightarrow> 'r requests option" where
  "ChannelRequest_onEvent a st s =
     (if isStateFinal st then
        if cr_wb (rq_heap s ! a) then Some (on_request a (\<lambda>q. q\<lparr>cr_wb := False\<rparr>) s) else None
      else if st \<in> {ES_CANCEL, ES_ERROR, ES_TIMEOUT} then Some (ChannelRequest_cancel True a s)
      else Some s)"

section \<open>A channel that sends requests\<close>

text \<open>\<^verbatim>\<open>sendRequest\<close>: a request that could not be written is dropped by the caller and stays in the engine.\<close>

definition sendRequest :: "upos \<Rightarrow> bool \<Rightarrow> nat \<Rightarrow> u32 \<Rightarrow> bool \<Rightarrow> bool \<Rightarrow> 'r requests \<Rightarrow> nat option \<times> 'r requests" where
  "sendRequest pos raw ch nr asyncWrite written s =
     (if rq_close s ch then (None, s)
      else let a = length (rq_heap s);
               s1 = engine_bind pos ch a (s\<lparr>rq_heap := rq_heap s @ [ChannelRequest_ctor raw ch nr]\<rparr>);
               s2 = (if asyncWrite then snd (attachWriteBlock a s1) else s1)
           in (if written then Some a else None, s2))"

text \<open>\<^verbatim>\<open>close\<close> releases the lock of the channel between clearing its engine and closing the channel below.\<close>

definition close_requests :: "nat \<Rightarrow> 'r requests \<Rightarrow> 'r requests" where
  "close_requests ch s = (if rq_close s ch then s else engine_clearAll ch s)"

definition close_channel :: "nat \<Rightarrow> 'r requests \<Rightarrow> 'r requests" where
  "close_channel ch s = s\<lparr>rq_close := (rq_close s)(ch := True)\<rparr>"

section \<open>Groups of requests\<close>

definition RequestGroup_ctor :: request_group where
  "RequestGroup_ctor = \<lparr>gr_state = ES_IDLE, gr_result = Some [], gr_expectedSize = 0, gr_finishedRequests = 0, gr_opened = False\<rparr>"

definition addRequest :: "nat \<Rightarrow> nat \<Rightarrow> 'r requests \<Rightarrow> int \<times> 'r requests" where
  "addRequest g a s = (case gr_result (rq_groups s ! g) of
      None \<Rightarrow> (-1, s)
    | Some l \<Rightarrow> (0, update_group g (\<lambda>G. G\<lparr>gr_result := Some (l @ [a]), gr_expectedSize := gr_expectedSize G + 1\<rparr>) s))"

fun open_loop :: "nat \<Rightarrow> nat list \<Rightarrow> 'r requests \<Rightarrow> 'r requests" where
  "open_loop g [] s = s"
| "open_loop g (a # l) s = open_loop g l
     (if isStateFinal (cr_state (rq_heap s ! a))
      then update_group g (\<lambda>G. G\<lparr>gr_finishedRequests := gr_finishedRequests G + 1\<rparr>) s
      else setListener a g s)"

text \<open>Opening a group whose list was taken away, as waiting does, follows a null pointer: \<open>None\<close>.\<close>

definition RequestGroup_open :: "nat \<Rightarrow> 'r requests \<Rightarrow> (int \<times> 'r requests) option" where
  "RequestGroup_open g s = (if gr_opened (rq_groups s ! g) then Some (-1, s)
     else map_option (\<lambda>l. (0, open_loop g l (update_group g (\<lambda>G. G\<lparr>gr_opened := True\<rparr>) s)))
            (gr_result (rq_groups s ! g)))"

fun detach_loop :: "nat list \<Rightarrow> 'r requests \<Rightarrow> 'r requests" where
  "detach_loop [] s = s"
| "detach_loop (a # l) s = detach_loop l (ChannelRequest_close a (removeListener a s))"

definition RequestGroup_detach :: "nat \<Rightarrow> 'r requests \<Rightarrow> (nat list \<times> 'r requests) option" where
  "RequestGroup_detach g s = map_option (\<lambda>l.
     (l, update_group g (\<lambda>G. G\<lparr>gr_result := None\<rparr>) (detach_loop l s))) (gr_result (rq_groups s ! g))"

definition RequestGroup_waitFuture ::
    "nat \<Rightarrow> bool \<Rightarrow> 'r requests \<Rightarrow> (nat list option \<times> 'r requests) option" where
  "RequestGroup_waitFuture g expired s =
     (let G = rq_groups s ! g;
          leave = (\<lambda>s. map_option (\<lambda>(l, s'). (Some l, s')) (RequestGroup_detach g s))
      in if isAllEventFinal G then leave (update_group g (\<lambda>G. G\<lparr>gr_state := ES_SUCCESS\<rparr>) s)
         else if isStateFinal (gr_state G) then leave s
         else if expired then leave (update_group g (\<lambda>G. G\<lparr>gr_state := ES_TIMEOUT\<rparr>) s)
         else Some (None, s))"

definition RequestGroup_cancel :: "nat \<Rightarrow> 'r requests \<Rightarrow> 'r requests" where
  "RequestGroup_cancel g s = update_group g (\<lambda>G. G\<lparr>gr_state := ES_CANCEL\<rparr>)
     (case gr_result (rq_groups s ! g) of None \<Rightarrow> s | Some l \<Rightarrow> detach_loop l s)"

text \<open>A new group of the requests \<open>l\<close> is filled and opened.\<close>

definition open_group :: "nat list \<Rightarrow> 'r requests \<Rightarrow> 'r requests" where
  "open_group l s =
     (let g = length (rq_groups s);
          s' = fold (\<lambda>a s. snd (addRequest g a s)) l (s\<lparr>rq_groups := rq_groups s @ [RequestGroup_ctor]\<rparr>)
      in case RequestGroup_open g s' of Some (_, s'') \<Rightarrow> s'' | None \<Rightarrow> s')"

end
