(* ===== verification/RequestRuns.thy ===== *)
theory RequestRuns
  imports Requests
begin

text \<open>
  Runs of channels that send requests: replies in any order, writes that end or fail, channels that close,
  groups that are opened. The invariants say that a request is either pending under its number in the engine of
  its channel or has ended by a reply or by a closing, and that an opened group counts those of its
  requests that have ended. From them follows what waiting returns.
\<close>

section \<open>Runs\<close>

text \<open>What happens to the channels: a request is sent, a reply arrives, an asynchronous write ends, and the two
  steps of closing a channel; and a group of requests is opened. A block that has no listener tells nobody
  how it ended.\<close>

datatype 'r request_event = Send bool nat u32 bool bool | Reply nat u32 'r | WriteEnds nat event_state
  | CloseRequests nat | CloseChannel nat | OpenGroup "nat list"

fun request_step :: "upos \<Rightarrow> 'r request_event \<Rightarrow> 'r requests \<Rightarrow> 'r requests" where
  "request_step pos (Send raw ch nr asyncWrite written) s = snd (sendRequest pos raw ch nr asyncWrite written s)"
| "request_step pos (Reply ch nr r) s = snd (engine_setReply ch nr r s)"
| "request_step pos (WriteEnds a st) s =
     (if a < length (rq_heap s) \<and> cr_wb (rq_heap s ! a) then the (ChannelRequest_onEvent a st s) else s)"
| "request_step pos (CloseRequests ch) s = close_requests ch s"
| "request_step pos (CloseChannel ch) s = close_channel ch s"
| "request_step pos (OpenGroup l) s = open_group l s"

definition request_run :: "upos \<Rightarrow> 'r request_event list \<Rightarrow> 'r requests \<Rightarrow> 'r requests" where
  "request_run pos evs s = fold (request_step pos) evs s"

text \<open>No number is used again while a request with it is pending, and no request is in two groups.\<close>

definition may_open :: "nat list \<Rightarrow> 'r requests \<Rightarrow> bool" where
  "may_open l s = (distinct l \<and> length l < 2 ^ 32
     \<and> (\<forall>a\<in>set l. a < length (rq_heap s) \<and> cr_listener (rq_heap s ! a) = None))"

fun fresh_ids :: "upos \<Rightarrow> 'r request_event list \<Rightarrow> 'r requests \<Rightarrow> bool" where
  "fresh_ids pos [] s = True"
| "fresh_ids pos (ev # evs) s = ((case ev of
      Send raw ch nr asyncWrite written \<Rightarrow> rq_close s ch \<or> map_of (rq_maps s ch) nr = None
    | OpenGroup l \<Rightarrow> may_open l s
    | _ \<Rightarrow> True) \<and> fresh_ids pos evs (request_step pos ev s))"

text \<open>The requests of a run: pending ones are in the engine of their channel under their own number, and
  the others have their reply, or were cancelled when their channel closed.\<close>

definition pending :: "nat \<Rightarrow> u32 \<Rightarrow> 'r channel_request \<Rightarrow> bool" where
  "pending ch nr q = (cr_state q = ES_IDLE \<and> cr_result q = Some [] \<and> cr_expectedSize q = 1 \<and> cr_id q = nr
     \<and> cr_channel q = ch \<and> cr_engine q = Some ch)"

definition settled :: "'r request_event set \<Rightarrow> 'r channel_request \<Rightarrow> bool" where
  "settled H q = (cr_state q = ES_SUCCESS \<and> (\<exists>r. cr_result q = Some [r] \<and> Reply (cr_channel q) (cr_id q) r \<in> H)
     \<or> cr_state q = ES_CANCEL \<and> cr_result q = Some [] \<and> CloseRequests (cr_channel q) \<in> H)"

definition requests_inv :: "'r request_event set \<Rightarrow> (nat \<Rightarrow> (u32 \<times> nat) list) \<Rightarrow> 'r requests \<Rightarrow> bool" where
  "requests_inv H M s = ((\<forall>ch. distinct (map fst (M ch)))
     \<and> (\<forall>ch. \<forall>(nr, a)\<in>set (M ch). a < length (rq_heap s) \<and> pending ch nr (rq_heap s ! a))
     \<and> (\<forall>a<length (rq_heap s). let q = rq_heap s ! a in settled H q \<or> (cr_id q, a) \<in> set (M (cr_channel q))))"

text \<open>A request reaches a final state, and its listener hears of it.\<close>

definition settle :: "nat \<Rightarrow> 'r channel_request \<Rightarrow> 'r requests \<Rightarrow> 'r requests" where
  "settle a q s = s\<lparr>rq_heap := (rq_heap s)[a := q],
     rq_groups := (case cr_listener q of None \<Rightarrow> rq_groups s
       | Some g \<Rightarrow> (rq_groups s)[g := RequestGroup_onEvent (cr_state q) (rq_groups s ! g)])\<rparr>"

lemma settle_simps [simp]: "rq_heap (settle a q s) = (rq_heap s)[a := q]" "rq_maps (settle a q s) = rq_maps s"
  "rq_close (settle a q s) = rq_close s"
  by (simp_all add: settle_def)

lemma stateChanged_settle:
  "a < length (rq_heap s) \<Longrightarrow> stateChanged a st s = settle a ((rq_heap s ! a)\<lparr>cr_state := st\<rparr>) s"
  by (simp add: stateChanged_def fireEventChange_def on_request_def settle_def update_group_def split: option.split)

lemma nth_list_update_if: "xs[i := v] ! j = (if i = j \<and> i < length xs then v else xs ! j)"
  by (cases "i < length xs") (simp_all add: nth_list_update list_update_beyond)

lemma requests_invI:
  assumes "\<And>c. distinct (map fst (M c))"
    "\<And>c j b. (j, b) \<in> set (M c) \<Longrightarrow> b < length (rq_heap s) \<and> pending c j (rq_heap s ! b)"
    "\<And>b. b < length (rq_heap s) \<Longrightarrow>
       settled H (rq_heap s ! b) \<or> (cr_id (rq_heap s ! b), b) \<in> set (M (cr_channel (rq_heap s ! b)))"
  shows "requests_inv H M s"
  using assms by (fastforce simp: requests_inv_def Let_def)

lemma requests_inv_pending:
  "requests_inv H M s \<Longrightarrow> map_of (M ch) nr = Some a \<Longrightarrow> a < length (rq_heap s) \<and> pending ch nr (rq_heap s ! a)"
  by (auto simp: requests_inv_def dest!: map_of_SomeD)

lemma settle_inv:
  assumes inv: "requests_inv H M s" and a: "(nr, a) \<in> set (M ch)"
    and q: "settled H q" "cr_channel q = ch" "cr_id q = nr"
  shows "requests_inv H (M(ch := filter (\<lambda>x. fst x \<noteq> nr) (M ch))) (settle a q s)"
proof -
  let ?M = "M(ch := filter (\<lambda>x. fst x \<noteq> nr) (M ch))"
  have d: "distinct (map fst (M c))" for c using inv by (simp add: requests_inv_def)
  have p: "a < length (rq_heap s)" "pending ch nr (rq_heap s ! a)" using inv a by (auto simp: requests_inv_def)
  have other: "(j, a) \<in> set (M c) \<Longrightarrow> c = ch \<and> j = nr" for c j
    using inv p(2) by (fastforce simp: requests_inv_def pending_def)
  have 1: "b < length (rq_heap (settle a q s)) \<and> pending c j (rq_heap (settle a q s) ! b)" if "(j, b) \<in> set (?M c)" for c j b
  proof -
    have m: "(j, b) \<in> set (M c)" "c = ch \<Longrightarrow> j \<noteq> nr" using that by (auto split: if_splits)
    then have "b \<noteq> a" using other by blast
    then show ?thesis using inv m(1) by (fastforce simp: requests_inv_def)
  qed
  have 2: "settled H (rq_heap (settle a q s) ! b) \<or> (cr_id (rq_heap (settle a q s) ! b), b) \<in> set (?M (cr_channel (rq_heap (settle a q s) ! b)))"
    if b: "b < length (rq_heap (settle a q s))" for b
  proof (cases "b = a")
    case True
    then show ?thesis using q(1) p(1) b by simp
  next
    case False
    define x where x: "x = rq_heap s ! b"
    have "settled H x \<or> (cr_id x, b) \<in> set (M (cr_channel x))" using inv b x by (simp add: requests_inv_def Let_def)
    moreover have "(cr_id x, b) \<in> set (M ch) \<Longrightarrow> cr_channel x = ch \<Longrightarrow> cr_id x \<noteq> nr"
      using False a d [of ch] by (auto dest: eq_key_imp_eq_value)
    ultimately show ?thesis using False x by auto
  qed
  have "distinct (map fst (?M c))" for c using d by (simp add: distinct_map_filter)
  from this 1 2 show ?thesis by (rule requests_invI)
qed

lemma setReply_settles:
  assumes p: "a < length (rq_heap s)" "pending ch nr (rq_heap s ! a)" and nr: "map_of (rq_maps s ch) nr = Some a"
  shows "engine_setReply ch nr r s = (0, (settle a ((rq_heap s ! a)\<lparr>cr_engine := None, cr_result := Some [r], cr_state := ES_SUCCESS\<rparr>) s)
     \<lparr>rq_maps := (rq_maps s)(ch := filter (\<lambda>x. fst x \<noteq> nr) (rq_maps s ch))\<rparr>)"
proof -
  let ?s = "on_request a (\<lambda>q. q\<lparr>cr_result := Some [r]\<rparr>) (on_request a (\<lambda>q. q\<lparr>cr_engine := None\<rparr>) s)"
  have "snd (ChannelRequest_setFuture a r s) = stateChanged a ES_SUCCESS ?s"
    using p by (simp add: ChannelRequest_setFuture_def EventFuture_setFuture_def pending_def on_request_def)
  also have "\<dots> = settle a ((rq_heap s ! a)\<lparr>cr_engine := None, cr_result := Some [r], cr_state := ES_SUCCESS\<rparr>) s"
    using p by (simp add: stateChanged_settle on_request_def settle_def split: option.split)
  finally show ?thesis using nr by (simp add: engine_setReply_def engine_clear_def engine_unbind_def)
qed

lemma cancel_settles:
  assumes "a < length (rq_heap s)"
  shows "ChannelRequest_cancel False a (on_request a (\<lambda>q. q\<lparr>cr_disableClearMap := True\<rparr>) s)
     = settle a ((rq_heap s ! a)\<lparr>cr_disableClearMap := True, cr_engine := None, cr_state := ES_CANCEL\<rparr>) s"
  using assms by (simp add: ChannelRequest_cancel_def stateChanged_settle on_request_def settle_def Let_def split: option.split)

lemma clearAll_step:
  assumes inv: "requests_inv H (M(ch := (nr, a) # m)) s" and c: "CloseRequests ch \<in> H"
  defines "q \<equiv> (rq_heap s ! a)\<lparr>cr_disableClearMap := True, cr_engine := None, cr_state := ES_CANCEL\<rparr>"
  shows "a < length (rq_heap s)" "pending ch nr (rq_heap s ! a)" "requests_inv H (M(ch := m)) (settle a q s)"
proof -
  have d: "distinct (map fst ((nr, a) # m))" using inv unfolding requests_inv_def by (metis fun_upd_same)
  then have m: "filter (\<lambda>y. fst y \<noteq> nr) m = m" by (auto simp: filter_id_conv)
  show p: "a < length (rq_heap s)" "pending ch nr (rq_heap s ! a)" using requests_inv_pending [OF inv, of ch nr a] by simp_all
  have "settled H q" "cr_channel q = ch" "cr_id q = nr" using p(2) c by (simp_all add: settled_def pending_def q_def)
  from settle_inv [OF inv, of nr a ch, OF _ this] show "requests_inv H (M(ch := m)) (settle a q s)" using m by simp
qed

lemma clearAll_inv:
  "requests_inv H (M(ch := m)) s \<Longrightarrow> CloseRequests ch \<in> H \<Longrightarrow>
   requests_inv H (M(ch := [])) (clearAll_loop m s) \<and> rq_maps (clearAll_loop m s) = rq_maps s
     \<and> rq_close (clearAll_loop m s) = rq_close s"
proof (induction m arbitrary: s)
  case (Cons x m)
  obtain nr a where x: "x = (nr, a)" by (cases x)
  note step = clearAll_step [OF Cons.prems(1)[unfolded x] Cons.prems(2)]
  from Cons.IH [OF step(3) Cons.prems(2)] show ?case by (simp add: x cancel_settles [OF step(1)])
qed simp

lemma rest_kept [simp]:
  "rq_close (on_request a f s) = rq_close s" "rq_maps (on_request a f s) = rq_maps s"
  "rq_close (update_group g h s) = rq_close s" "rq_maps (update_group g h s) = rq_maps s"
  "rq_close (stateChanged a st s) = rq_close s" "rq_maps (stateChanged a st s) = rq_maps s"
  by (simp_all add: on_request_def update_group_def stateChanged_def fireEventChange_def split: option.split)

lemma clearAll_close: "rq_close (clearAll_loop m s) = rq_close s \<and> rq_maps (clearAll_loop m s) = rq_maps s"
  by (induction m s rule: clearAll_loop.induct) (simp_all add: ChannelRequest_cancel_def Let_def split: option.split)

lemma sendRequest_eq:
  "\<not> rq_close s ch \<Longrightarrow> sendRequest pos raw ch nr asyncWrite written s = (if written then Some (length (rq_heap s)) else None,
     s\<lparr>rq_heap := rq_heap s @ [(ChannelRequest_ctor raw ch nr)\<lparr>cr_wb := asyncWrite\<rparr>],
       rq_maps := (if map_of (rq_maps s ch) nr = None then (rq_maps s)(ch := take (pos (map fst (rq_maps s ch)) nr) (rq_maps s ch)
         @ (nr, length (rq_heap s)) # drop (pos (map fst (rq_maps s ch)) nr) (rq_maps s ch)) else rq_maps s)\<rparr>)"
  by (simp add: sendRequest_def Let_def engine_bind_def attachWriteBlock_def on_request_def ChannelRequest_ctor_def)

lemma distinct_keys_insert:
  "distinct (map fst (xs @ ys)) \<Longrightarrow> k \<notin> fst ` set (xs @ ys) \<Longrightarrow> distinct (map fst (xs @ (k, a) # ys))"
  by auto

lemma sendRequest_inv:
  assumes inv: "requests_inv H (rq_maps s) s" and fresh: "rq_close s ch \<or> map_of (rq_maps s ch) nr = None"
  shows "requests_inv H (rq_maps (snd (sendRequest pos raw ch nr asyncWrite written s)))
    (snd (sendRequest pos raw ch nr asyncWrite written s))"
proof (cases "rq_close s ch")
  case True
  then show ?thesis using inv by (simp add: sendRequest_def)
next
  case False
  let ?a = "length (rq_heap s)" and ?m = "rq_maps s ch"
  let ?i = "pos (map fst ?m) nr"
  let ?q = "(ChannelRequest_ctor raw ch nr)\<lparr>cr_wb := asyncWrite\<rparr>"
  let ?M = "(rq_maps s)(ch := take ?i ?m @ (nr, ?a) # drop ?i ?m)"
  let ?s = "s\<lparr>rq_heap := rq_heap s @ [?q], rq_maps := ?M\<rparr>"
  have new: "map_of ?m nr = None" using fresh False by simp
  have run: "snd (sendRequest pos raw ch nr asyncWrite written s) = ?s"
    using new by (simp add: sendRequest_eq [OF False])
  have set: "set (?M ch) = insert (nr, ?a) (set ?m)"
    by simp (metis append_take_drop_id set_append)
  have keys: "nr \<notin> fst ` set ?m" using new by (simp add: map_of_eq_None_iff)
  have "distinct (map fst (?M ch))"
    using distinct_keys_insert [of "take ?i ?m" "drop ?i ?m" nr ?a] inv keys by (simp add: requests_inv_def)
  then have 0: "distinct (map fst (?M c))" for c using inv by (simp add: requests_inv_def)
  have 1: "b < length (rq_heap ?s) \<and> pending c j (rq_heap ?s ! b)" if "(j, b) \<in> set (?M c)" for c j b
  proof (cases "c = ch \<and> j = nr \<and> b = ?a")
    case True
    then show ?thesis by (simp add: pending_def ChannelRequest_ctor_def)
  next
    case False
    then have "(j, b) \<in> set (rq_maps s c)" using that set by (cases "c = ch") auto
    then show ?thesis using inv by (fastforce simp: requests_inv_def nth_append)
  qed
  have 2: "settled H (rq_heap ?s ! b) \<or> (cr_id (rq_heap ?s ! b), b) \<in> set (?M (cr_channel (rq_heap ?s ! b)))" if "b < length (rq_heap ?s)" for b
  proof (cases "b = ?a")
    case True
    then show ?thesis using set by (simp add: ChannelRequest_ctor_def Let_def)
  next
    case False
    then have b: "b < ?a" "rq_heap ?s ! b = rq_heap s ! b" using that by (simp_all add: nth_append)
    then have "settled H (rq_heap s ! b) \<or> (cr_id (rq_heap s ! b), b) \<in> set (rq_maps s (cr_channel (rq_heap s ! b)))"
      using inv by (simp add: requests_inv_def Let_def)
    then show ?thesis using set b(2) by (metis fun_upd_apply insertI2)
  qed
  from 0 1 2 have "requests_inv H ?M ?s" by (rule requests_invI)
  then show ?thesis unfolding run by simp
qed

lemma requests_inv_cong:
  assumes inv: "requests_inv H M s" and len: "length (rq_heap s') = length (rq_heap s)"
    and q: "\<And>b. \<exists>f w. rq_heap s' ! b = (rq_heap s ! b)\<lparr>cr_listener := f, cr_wb := w\<rparr>"
  shows "requests_inv H M s'"
proof -
  have "pending c j (rq_heap s' ! b) = pending c j (rq_heap s ! b)" "settled H (rq_heap s' ! b) = settled H (rq_heap s ! b)"
    "cr_id (rq_heap s' ! b) = cr_id (rq_heap s ! b)" "cr_channel (rq_heap s' ! b) = cr_channel (rq_heap s ! b)" for c j b
    using q [of b] by (auto simp: pending_def settled_def)
  then show ?thesis using inv len by (simp add: requests_inv_def Let_def)
qed

lemma request_id: "q = q\<lparr>cr_listener := cr_listener q, cr_wb := cr_wb q\<rparr>"
  by simp

lemma write_ends_inv:
  assumes "requests_inv H (rq_maps s) s"
  shows "requests_inv H (rq_maps s) (on_request a (\<lambda>q. q\<lparr>cr_wb := False\<rparr>) s)"
proof (rule requests_inv_cong [OF assms])
  show "\<exists>f w. rq_heap (on_request a (\<lambda>q. q\<lparr>cr_wb := False\<rparr>) s) ! b = (rq_heap s ! b)\<lparr>cr_listener := f, cr_wb := w\<rparr>" for b
  proof (cases "b = a \<and> a < length (rq_heap s)")
    case True
    then show ?thesis by (intro exI [of _ "cr_listener (rq_heap s ! b)"] exI [of _ False]) (simp add: on_request_def)
  next
    case False
    then have "rq_heap (on_request a (\<lambda>q. q\<lparr>cr_wb := False\<rparr>) s) ! b = rq_heap s ! b"
      by (auto simp: on_request_def nth_list_update_if)
    then show ?thesis using request_id by metis
  qed
qed (simp add: on_request_def)

lemma ChannelRequest_onEvent_simp:
  "cr_wb (rq_heap s ! a) \<Longrightarrow>
   ChannelRequest_onEvent a st s = Some (if isStateFinal st then on_request a (\<lambda>q. q\<lparr>cr_wb := False\<rparr>) s else s)"
  by (cases st) (simp_all add: ChannelRequest_onEvent_def)

lemma setReply_inv:
  assumes inv: "requests_inv H (rq_maps s) s" and r: "Reply ch nr r \<in> H"
  shows "requests_inv H (rq_maps (snd (engine_setReply ch nr r s))) (snd (engine_setReply ch nr r s))"
proof (cases "map_of (rq_maps s ch) nr")
  case None
  then show ?thesis using inv by (simp add: engine_setReply_def)
next
  case (Some a)
  let ?q = "(rq_heap s ! a)\<lparr>cr_engine := None, cr_result := Some [r], cr_state := ES_SUCCESS\<rparr>"
  have p: "a < length (rq_heap s)" "pending ch nr (rq_heap s ! a)" using requests_inv_pending [OF inv Some] by simp_all
  then have "settled H ?q" "cr_channel ?q = ch" "cr_id ?q = nr" using r using p by (simp_all add: settled_def pending_def)
  from settle_inv [OF inv map_of_SomeD [OF Some] this] show ?thesis
    using setReply_settles [OF p Some, of r] by (simp add: requests_inv_def)
qed

lemma close_requests_inv:
  assumes inv: "requests_inv H (rq_maps s) s" and c: "CloseRequests ch \<in> H"
  shows "requests_inv H (rq_maps (close_requests ch s)) (close_requests ch s)"
proof (cases "rq_close s ch")
  case False
  have "requests_inv H ((rq_maps s)(ch := rq_maps s ch)) s" using inv by simp
  note clearAll_inv [OF this c]
  then show ?thesis using False by (simp add: close_requests_def engine_clearAll_def Let_def requests_inv_def)
qed (use inv in \<open>simp add: close_requests_def\<close>)

section \<open>Groups in runs\<close>

definition final_at :: "'r requests \<Rightarrow> nat \<Rightarrow> bool" where
  "final_at s a = isStateFinal (cr_state (rq_heap s ! a))"

text \<open>A group counts its final requests, and listens to the others.\<close>

definition group_inv :: "nat \<Rightarrow> nat list \<Rightarrow> 'r requests \<Rightarrow> bool" where
  "group_inv g l s = (gr_opened (rq_groups s ! g) \<and> gr_result (rq_groups s ! g) = Some l \<and> distinct l
     \<and> length l < 2 ^ 32 \<and> gr_expectedSize (rq_groups s ! g) = of_nat (length l)
     \<and> gr_finishedRequests (rq_groups s ! g) = of_nat (length (filter (final_at s) l))
     \<and> (isStateFinal (gr_state (rq_groups s ! g)) \<longrightarrow> (\<forall>a\<in>set l. final_at s a))
     \<and> (\<forall>a\<in>set l. a < length (rq_heap s) \<and> (\<not> final_at s a \<longrightarrow> cr_listener (rq_heap s ! a) = Some g)))"

definition groups_inv :: "'r requests \<Rightarrow> bool" where
  "groups_inv s = ((\<forall>g<length (rq_groups s). \<exists>l. group_inv g l s)
     \<and> (\<forall>a<length (rq_heap s). \<forall>g. cr_listener (rq_heap s ! a) = Some g \<longrightarrow>
          g < length (rq_groups s) \<and> (\<exists>l. gr_result (rq_groups s ! g) = Some l \<and> a \<in> set l)))"

lemma of_nat_u32_eq: "m < 2 ^ 32 \<Longrightarrow> n < 2 ^ 32 \<Longrightarrow> (of_nat m :: u32) = of_nat n \<longleftrightarrow> m = n"
proof -
  assume "m < 2 ^ 32" "n < 2 ^ 32"
  then have "unat (of_nat m :: u32) = m" "unat (of_nat n :: u32) = n" by (simp_all add: unat_of_nat)
  then show ?thesis by metis
qed

lemma filter_all_iff: "length (filter P l) = length l \<longleftrightarrow> (\<forall>a\<in>set l. P a)"
  by (metis filter_True filter_id_conv length_filter_less less_irrefl)

lemma isAllEventFinal_iff:
  assumes "group_inv g l s"
  shows "isAllEventFinal (rq_groups s ! g) \<longleftrightarrow> (\<forall>a\<in>set l. final_at s a)"
proof -
  have "length (filter (final_at s) l) \<le> length l" "length l < 2 ^ 32"
    using assms by (simp_all add: group_inv_def)
  then have "(of_nat (length l) :: u32) = of_nat (length (filter (final_at s) l)) \<longleftrightarrow> length (filter (final_at s) l) = length l"
    by (metis le_less_trans of_nat_u32_eq)
  then show ?thesis using assms by (simp add: isAllEventFinal_def group_inv_def filter_all_iff)
qed

lemma groups_inv_cong:
  assumes inv: "groups_inv s" and g: "rq_groups s' = rq_groups s" and len: "length (rq_heap s) \<le> length (rq_heap s')"
    and old: "\<And>a. a < length (rq_heap s) \<Longrightarrow> cr_listener (rq_heap s' ! a) = cr_listener (rq_heap s ! a)
       \<and> cr_state (rq_heap s' ! a) = cr_state (rq_heap s ! a)"
    and new: "\<And>a. a < length (rq_heap s') \<Longrightarrow> \<not> a < length (rq_heap s) \<Longrightarrow> cr_listener (rq_heap s' ! a) = None"
  shows "groups_inv s'"
proof -
  have "group_inv k l s'" if "group_inv k l s" for k l
  proof -
    have l: "\<forall>a\<in>set l. a < length (rq_heap s)" using that by (simp add: group_inv_def)
    then have f: "\<forall>a\<in>set l. final_at s' a = final_at s a" using old by (simp add: final_at_def)
    then have "filter (final_at s') l = filter (final_at s) l" by (intro filter_cong) auto
    then show ?thesis using that g f l len old by (auto simp: group_inv_def)
  qed
  moreover have "k < length (rq_groups s) \<and> (\<exists>l. gr_result (rq_groups s ! k) = Some l \<and> a \<in> set l)"
    if "a < length (rq_heap s')" "cr_listener (rq_heap s' ! a) = Some k" for a k
  proof (cases "a < length (rq_heap s)")
    case True
    then show ?thesis using inv that(2) old [OF True] by (simp add: groups_inv_def)
  next
    case False
    then show ?thesis using new [OF that(1) False] that(2) by simp
  qed
  ultimately show ?thesis using inv g unfolding groups_inv_def by metis
qed

lemma settle_group_other:
  assumes "group_inv k l s" "a \<notin> set l" "rq_groups s' ! k = rq_groups s ! k" "rq_heap s' = (rq_heap s)[a := q]"
  shows "group_inv k l s'"
proof -
  have "\<forall>b\<in>set l. rq_heap s' ! b = rq_heap s ! b" using assms(2,4) by (metis nth_list_update_neq)
  moreover from this have "filter (final_at s') l = filter (final_at s) l" by (intro filter_cong) (auto simp: final_at_def)
  ultimately show ?thesis using assms(1,3,4) by (simp add: group_inv_def final_at_def)
qed

lemma settle_group_member:
  assumes inv: "group_inv g l s" and a: "a \<in> set l" "\<not> final_at s a" and q: "isStateFinal (cr_state q)"
    and s': "rq_heap s' = (rq_heap s)[a := q]" "rq_groups s' ! g = RequestGroup_onEvent (cr_state q) (rq_groups s ! g)"
  shows "group_inv g l s'"
proof -
  let ?G = "rq_groups s ! g"
  let ?G' = "?G\<lparr>gr_finishedRequests := gr_finishedRequests ?G + 1\<rparr>"
  have len: "a < length (rq_heap s)" and d: "distinct l" using inv a(1) by (auto simp: group_inv_def)
  have f: "final_at s' b = (b = a \<or> final_at s b)" for b using len q by (simp add: final_at_def s'(1) nth_list_update_if)
  have "{x. final_at s' x} \<inter> set l = insert a ({x. final_at s x} \<inter> set l)" using a(1) by (auto simp: f)
  then have "length (filter (final_at s') l) = Suc (length (filter (final_at s) l))"
    using a(2) by (simp add: distinct_length_filter [OF d])
  then have count: "gr_finishedRequests ?G' = of_nat (length (filter (final_at s') l))"
    using inv by (simp add: group_inv_def)
  have G: "rq_groups s' ! g = (if isAllEventFinal ?G' then ?G'\<lparr>gr_state := ES_SUCCESS\<rparr> else ?G')"
    using q by (simp add: s'(2) RequestGroup_onEvent_def Let_def)
  have state: "\<not> isStateFinal (gr_state ?G)" using inv a by (auto simp: group_inv_def)
  have le: "length (filter (final_at s') l) \<le> length l" "length l < 2 ^ 32" using inv by (simp_all add: group_inv_def)
  have "isAllEventFinal ?G' \<Longrightarrow> \<forall>b\<in>set l. final_at s' b"
  proof -
    assume "isAllEventFinal ?G'"
    then have "(of_nat (length l) :: u32) = of_nat (length (filter (final_at s') l))"
      using inv count by (simp add: isAllEventFinal_def group_inv_def)
    then have "length (filter (final_at s') l) = length l" using le by (metis le_less_trans of_nat_u32_eq)
    then show ?thesis by (simp add: filter_all_iff)
  qed
  then have "isStateFinal (gr_state (rq_groups s' ! g)) \<longrightarrow> (\<forall>b\<in>set l. final_at s' b)" using state by (simp add: G)
  moreover have "\<forall>b\<in>set l. b < length (rq_heap s') \<and> (\<not> final_at s' b \<longrightarrow> cr_listener (rq_heap s' ! b) = Some g)"
    using inv by (auto simp: group_inv_def f s'(1))
  moreover have "gr_opened (rq_groups s' ! g)" "gr_result (rq_groups s' ! g) = Some l" "distinct l" "length l < 2 ^ 32"
    "gr_expectedSize (rq_groups s' ! g) = of_nat (length l)"
    using inv by (simp_all add: group_inv_def G)
  moreover have "gr_finishedRequests (rq_groups s' ! g) = of_nat (length (filter (final_at s') l))"
    using count by (simp only: G split: if_split) simp
  ultimately show ?thesis unfolding group_inv_def by blast
qed

lemma settle_groups_inv:
  assumes inv: "groups_inv s" and a: "a < length (rq_heap s)" "\<not> final_at s a"
    and q: "isStateFinal (cr_state q)" "cr_listener q = cr_listener (rq_heap s ! a)"
  shows "groups_inv (settle a q s)"
proof -
  let ?s = "settle a q s"
  have heap: "rq_heap ?s = (rq_heap s)[a := q]" by simp
  have len: "length (rq_groups ?s) = length (rq_groups s)" by (simp add: settle_def split: option.split)
  have ev: "\<exists>l. group_inv k l ?s" if k: "k < length (rq_groups s)" for k
  proof -
    obtain l where l: "group_inv k l s" using inv k by (auto simp: groups_inv_def)
    show ?thesis
    proof (cases "a \<in> set l")
      case True
      then have "cr_listener q = Some k" using l a(2) q(2) by (simp add: group_inv_def)
      then have "rq_groups ?s ! k = RequestGroup_onEvent (cr_state q) (rq_groups s ! k)" using k by (simp add: settle_def)
      from settle_group_member [OF l True a(2) q(1) heap this] show ?thesis ..
    next
      case False
      have "cr_listener q \<noteq> Some k"
        using inv a(1) q(2) False l by (auto simp: groups_inv_def group_inv_def)
      then have "rq_groups ?s ! k = rq_groups s ! k" by (cases "cr_listener q") (auto simp: settle_def)
      from settle_group_other [OF l False this heap] show ?thesis ..
    qed
  qed
  have res: "gr_result (rq_groups ?s ! k) = gr_result (rq_groups s ! k)" for k
    by (auto simp: settle_def RequestGroup_onEvent_def Let_def nth_list_update_if split: option.split)
  have "k < length (rq_groups ?s) \<and> (\<exists>l. gr_result (rq_groups ?s ! k) = Some l \<and> b \<in> set l)"
    if b: "b < length (rq_heap ?s)" "cr_listener (rq_heap ?s ! b) = Some k" for b k
  proof -
    have "cr_listener (rq_heap s ! b) = Some k" using b q(2) by (cases "b = a") simp_all
    then show ?thesis using inv b(1) len res by (simp add: groups_inv_def)
  qed
  then show ?thesis using ev len unfolding groups_inv_def by simp
qed

lemma pending_not_final: "pending ch nr (rq_heap s ! a) \<Longrightarrow> \<not> final_at s a"
  by (simp add: pending_def final_at_def)

lemma setReply_groups:
  assumes inv: "requests_inv H (rq_maps s) s" and g: "groups_inv s"
  shows "groups_inv (snd (engine_setReply ch nr r s))"
proof (cases "map_of (rq_maps s ch) nr")
  case None
  then show ?thesis using g by (simp add: engine_setReply_def)
next
  case (Some a)
  let ?q = "(rq_heap s ! a)\<lparr>cr_engine := None, cr_result := Some [r], cr_state := ES_SUCCESS\<rparr>"
  have p: "a < length (rq_heap s)" "pending ch nr (rq_heap s ! a)" using requests_inv_pending [OF inv Some] by simp_all
  have "groups_inv (settle a ?q s)" by (intro settle_groups_inv g p(1) pending_not_final [OF p(2)]) simp_all
  then show ?thesis
    by (simp add: setReply_settles [OF p Some] groups_inv_def group_inv_def final_at_def [abs_def])
qed

lemma clearAll_groups:
  "requests_inv H (M(ch := m)) s \<Longrightarrow> CloseRequests ch \<in> H \<Longrightarrow> groups_inv s \<Longrightarrow> groups_inv (clearAll_loop m s)"
proof (induction m arbitrary: s)
  case (Cons x m)
  obtain nr a where x: "x = (nr, a)" by (cases x)
  let ?q = "(rq_heap s ! a)\<lparr>cr_disableClearMap := True, cr_engine := None, cr_state := ES_CANCEL\<rparr>"
  have p: "a < length (rq_heap s)" "pending ch nr (rq_heap s ! a)" and inv: "requests_inv H (M(ch := m)) (settle a ?q s)"
    using clearAll_step [OF Cons.prems(1)[unfolded x] Cons.prems(2)] by auto
  have "groups_inv (settle a ?q s)"
    by (intro settle_groups_inv Cons.prems p pending_not_final [OF p(2)]) simp_all
  from Cons.IH [OF inv Cons.prems(2) this] show ?case by (simp add: x cancel_settles [OF p(1)])
qed simp

lemma sendRequest_groups:
  assumes "groups_inv s"
  shows "groups_inv (snd (sendRequest pos raw ch nr asyncWrite written s))"
proof (cases "rq_close s ch")
  case False
  let ?s = "snd (sendRequest pos raw ch nr asyncWrite written s)"
  have "rq_groups ?s = rq_groups s" "rq_heap ?s = rq_heap s @ [(ChannelRequest_ctor raw ch nr)\<lparr>cr_wb := asyncWrite\<rparr>]"
    by (simp_all add: sendRequest_eq [OF False])
  then show ?thesis
    by (intro groups_inv_cong [OF assms]) (auto simp: nth_append ChannelRequest_ctor_def less_Suc_eq)
qed (use assms in \<open>simp add: sendRequest_def\<close>)

lemma write_ends_groups: "groups_inv s \<Longrightarrow> groups_inv (on_request a (\<lambda>q. q\<lparr>cr_wb := False\<rparr>) s)"
  by (erule groups_inv_cong) (auto simp: on_request_def nth_list_update_if)

lemma groups_inv_more [simp]: "groups_inv (s\<lparr>rq_maps := M\<rparr>) = groups_inv s" "groups_inv (s\<lparr>rq_close := C\<rparr>) = groups_inv s"
  by (simp_all add: groups_inv_def group_inv_def final_at_def [abs_def])

subsection \<open>Opening a group\<close>

lemma same_result: "gr_result G = Some l \<Longrightarrow> G\<lparr>gr_result := Some l\<rparr> = G"
  by (cases G) simp

lemma add_requests:
  "g < length (rq_groups s) \<Longrightarrow> gr_result (rq_groups s ! g) = Some xs \<Longrightarrow>
   fold (\<lambda>a s. snd (addRequest g a s)) l s = update_group g (\<lambda>G. G\<lparr>gr_result := Some (xs @ l),
     gr_expectedSize := gr_expectedSize G + of_nat (length l)\<rparr>) s"
proof (induction l arbitrary: s xs)
  case Nil
  then show ?case by (simp add: update_group_def same_result)
next
  case (Cons a l)
  let ?s = "snd (addRequest g a s)"
  have s: "?s = update_group g (\<lambda>G. G\<lparr>gr_result := Some (xs @ [a]), gr_expectedSize := gr_expectedSize G + 1\<rparr>) s"
    using Cons.prems by (simp add: addRequest_def)
  have "g < length (rq_groups ?s)" "gr_result (rq_groups ?s ! g) = Some (xs @ [a])"
    using Cons.prems(1) by (simp_all add: s update_group_def)
  from Cons.IH [OF this] show ?case using Cons.prems(1) by (simp add: s update_group_def algebra_simps)
qed

lemma open_loop_simps:
  "distinct l \<Longrightarrow> \<forall>a\<in>set l. a < length (rq_heap s) \<Longrightarrow> g < length (rq_groups s) \<Longrightarrow>
   rq_maps (open_loop g l s) = rq_maps s \<and> rq_close (open_loop g l s) = rq_close s
   \<and> rq_groups (open_loop g l s) = (rq_groups s)[g := (rq_groups s ! g)\<lparr>gr_finishedRequests :=
        gr_finishedRequests (rq_groups s ! g) + of_nat (length (filter (final_at s) l))\<rparr>]
   \<and> length (rq_heap (open_loop g l s)) = length (rq_heap s)
   \<and> (\<forall>b. rq_heap (open_loop g l s) ! b = (if b \<in> set l \<and> \<not> final_at s b then (rq_heap s ! b)\<lparr>cr_listener := Some g\<rparr>
        else rq_heap s ! b))"
proof (induction l arbitrary: s)
  case (Cons a l)
  show ?case
  proof (cases "final_at s a")
    case True
    let ?s = "update_group g (\<lambda>G. G\<lparr>gr_finishedRequests := gr_finishedRequests G + 1\<rparr>) s"
    have "final_at ?s = final_at s" "rq_heap ?s = rq_heap s" by (simp_all add: final_at_def [abs_def] update_group_def)
    then show ?thesis using Cons.IH [of ?s] Cons.prems True
      by (auto simp: final_at_def update_group_def algebra_simps)
  next
    case False
    let ?s = "on_request a (\<lambda>q. q\<lparr>cr_listener := Some g\<rparr>) s"
    have f: "final_at ?s = final_at s" using Cons.prems by (auto simp: final_at_def on_request_def nth_list_update_if fun_eq_iff)
    have "setListener a g s = ?s" using False by (simp add: setListener_def final_at_def)
    then have s: "open_loop g (a # l) s = open_loop g l ?s" using False by (simp add: final_at_def)
    have "rq_groups ?s = rq_groups s" "length (rq_heap ?s) = length (rq_heap s)" "rq_maps ?s = rq_maps s" "rq_close ?s = rq_close s"
      "rq_heap ?s ! b = (if b = a then (rq_heap s ! b)\<lparr>cr_listener := Some g\<rparr> else rq_heap s ! b)" for b
      using Cons.prems(2) by (simp_all add: on_request_def)
    then show ?thesis unfolding s using Cons.IH [of ?s] Cons.prems False by (auto simp: f)
  qed
qed simp

definition filled_group :: "nat list \<Rightarrow> request_group" where
  "filled_group l = RequestGroup_ctor\<lparr>gr_result := Some l, gr_expectedSize := of_nat (length l), gr_opened := True\<rparr>"

lemma open_group_eq:
  "open_group l s = open_loop (length (rq_groups s)) l (s\<lparr>rq_groups := rq_groups s @ [filled_group l]\<rparr>)"
proof -
  let ?g = "length (rq_groups s)"
  let ?s = "s\<lparr>rq_groups := rq_groups s @ [RequestGroup_ctor]\<rparr>"
  have "?g < length (rq_groups ?s)" "gr_result (rq_groups ?s ! ?g) = Some []" by (simp_all add: RequestGroup_ctor_def)
  note add = add_requests [OF this, of l]
  show ?thesis unfolding open_group_def Let_def add
    by (simp add: RequestGroup_open_def update_group_def filled_group_def RequestGroup_ctor_def)
qed

lemma open_group_simps:
  assumes "may_open l s"
  shows "rq_maps (open_group l s) = rq_maps s" "rq_close (open_group l s) = rq_close s"
    "rq_groups (open_group l s) = rq_groups s @ [(filled_group l)\<lparr>gr_finishedRequests := of_nat (length (filter (final_at s) l))\<rparr>]"
    "length (rq_heap (open_group l s)) = length (rq_heap s)"
    "rq_heap (open_group l s) ! b = (if b \<in> set l \<and> \<not> final_at s b
       then (rq_heap s ! b)\<lparr>cr_listener := Some (length (rq_groups s))\<rparr> else rq_heap s ! b)"
proof -
  let ?s = "s\<lparr>rq_groups := rq_groups s @ [filled_group l]\<rparr>"
  have "final_at ?s = final_at s" by (simp add: final_at_def fun_eq_iff)
  moreover have "distinct l" "\<forall>a\<in>set l. a < length (rq_heap ?s)" "length (rq_groups s) < length (rq_groups ?s)"
    using assms by (simp_all add: may_open_def)
  note open_loop_simps [OF this]
  ultimately show "rq_maps (open_group l s) = rq_maps s" "rq_close (open_group l s) = rq_close s"
    "rq_groups (open_group l s) = rq_groups s @ [(filled_group l)\<lparr>gr_finishedRequests := of_nat (length (filter (final_at s) l))\<rparr>]"
    "length (rq_heap (open_group l s)) = length (rq_heap s)"
    "rq_heap (open_group l s) ! b = (if b \<in> set l \<and> \<not> final_at s b
       then (rq_heap s ! b)\<lparr>cr_listener := Some (length (rq_groups s))\<rparr> else rq_heap s ! b)"
    by (simp_all add: open_group_eq) (simp add: filled_group_def RequestGroup_ctor_def)
qed

lemma open_group_inv:
  assumes inv: "requests_inv H (rq_maps s) s" and ok: "may_open l s"
  shows "requests_inv H (rq_maps (open_group l s)) (open_group l s)"
proof -
  have "\<exists>f w. rq_heap (open_group l s) ! b = (rq_heap s ! b)\<lparr>cr_listener := f, cr_wb := w\<rparr>" for b
  proof (cases "b \<in> set l \<and> \<not> final_at s b")
    case True
    then show ?thesis
      by (intro exI [of _ "Some (length (rq_groups s))"] exI [of _ "cr_wb (rq_heap s ! b)"]) (simp add: open_group_simps [OF ok])
  next
    case False
    then have "rq_heap (open_group l s) ! b = rq_heap s ! b" by (auto simp: open_group_simps [OF ok])
    then show ?thesis using request_id by metis
  qed
  from requests_inv_cong [OF inv open_group_simps(4) [OF ok] this] show ?thesis by (simp only: open_group_simps(1) [OF ok])
qed

lemma open_group_groups:
  assumes inv: "groups_inv s" and ok: "may_open l s"
  shows "groups_inv (open_group l s)"
proof -
  let ?s = "open_group l s" and ?n = "length (rq_groups s)"
  note simps = open_group_simps [OF ok]
  have f: "final_at ?s = final_at s" by (simp add: final_at_def fun_eq_iff simps)
  have "group_inv ?n l ?s" using ok
    by (simp add: group_inv_def f simps may_open_def) (simp add: filled_group_def RequestGroup_ctor_def)
  moreover have "group_inv k m ?s" if k: "k < ?n" and m: "group_inv k m s" for k m
  proof -
    have "cr_listener (rq_heap ?s ! a) = Some k" if "a \<in> set m" "\<not> final_at s a" for a
      using that m ok by (auto simp: group_inv_def simps may_open_def)
    then show ?thesis using m k by (simp add: group_inv_def f simps nth_append)
  qed
  ultimately have "\<exists>m. group_inv k m ?s" if "k < Suc ?n" for k
    using inv that by (metis groups_inv_def less_antisym)
  moreover have "k < Suc ?n \<and> (\<exists>m. gr_result (rq_groups ?s ! k) = Some m \<and> a \<in> set m)"
    if a: "a < length (rq_heap ?s)" "cr_listener (rq_heap ?s ! a) = Some k" for a k
  proof (cases "a \<in> set l \<and> \<not> final_at s a")
    case True
    then show ?thesis using a by (auto simp: simps filled_group_def)
  next
    case False
    then have "cr_listener (rq_heap s ! a) = Some k" using a(2) by (simp add: simps split: if_splits)
    then have "k < ?n" "\<exists>m. gr_result (rq_groups s ! k) = Some m \<and> a \<in> set m"
      using inv a(1) by (simp_all add: groups_inv_def simps)
    then show ?thesis by (simp add: simps nth_append)
  qed
  ultimately show ?thesis unfolding groups_inv_def by (simp add: simps)
qed

lemma request_step_inv:
  assumes "requests_inv H (rq_maps s) s" "ev \<in> H" "fresh_ids pos [ev] s"
  shows "requests_inv H (rq_maps (request_step pos ev s)) (request_step pos ev s)"
proof (cases ev)
  case (Send raw ch nr asyncWrite written)
  then show ?thesis using sendRequest_inv [OF assms(1)] assms(3) by simp
next
  case (Reply ch nr r)
  then show ?thesis using setReply_inv [OF assms(1)] assms(2) by simp
next
  case (WriteEnds a st)
  then show ?thesis using write_ends_inv [OF assms(1)] assms(1)
    by (auto simp: ChannelRequest_onEvent_simp)
next
  case (CloseRequests ch)
  then show ?thesis using close_requests_inv [OF assms(1)] assms(2) by simp
next
  case (CloseChannel ch)
  then show ?thesis using assms(1) by (simp add: close_channel_def requests_inv_def)
next
  case (OpenGroup l)
  then show ?thesis using open_group_inv [OF assms(1)] assms(3) by simp
qed

lemma request_run_inv:
  "requests_inv H (rq_maps s) s \<Longrightarrow> set evs \<subseteq> H \<Longrightarrow> fresh_ids pos evs s \<Longrightarrow>
   requests_inv H (rq_maps (request_run pos evs s)) (request_run pos evs s)"
proof (induction evs arbitrary: s)
  case (Cons ev evs)
  then have "requests_inv H (rq_maps (request_step pos ev s)) (request_step pos ev s)" by (intro request_step_inv) auto
  then show ?case using Cons by (simp add: request_run_def)
qed (simp add: request_run_def)

lemma no_requests_inv [simp]: "requests_inv H (rq_maps no_requests) no_requests"
  by (simp add: requests_inv_def no_requests_def)

lemma request_step_groups:
  assumes inv: "requests_inv H (rq_maps s) s" "groups_inv s" and ev: "ev \<in> H" "fresh_ids pos [ev] s"
  shows "groups_inv (request_step pos ev s)"
proof (cases ev)
  case (CloseRequests ch)
  have "requests_inv H ((rq_maps s)(ch := rq_maps s ch)) s" using inv(1) by simp
  from clearAll_groups [OF this _ inv(2)] ev show ?thesis
    by (simp add: CloseRequests close_requests_def engine_clearAll_def Let_def inv(2))
next
  case (WriteEnds a st)
  then show ?thesis using inv(2) write_ends_groups [OF inv(2), of a] by (simp add: ChannelRequest_onEvent_simp)
qed (use assms in \<open>simp_all add: sendRequest_groups setReply_groups open_group_groups close_channel_def\<close>)

lemma request_run_groups:
  "requests_inv H (rq_maps s) s \<Longrightarrow> groups_inv s \<Longrightarrow> set evs \<subseteq> H \<Longrightarrow> fresh_ids pos evs s \<Longrightarrow>
   groups_inv (request_run pos evs s)"
proof (induction evs arbitrary: s)
  case (Cons ev evs)
  then have "groups_inv (request_step pos ev s)" "requests_inv H (rq_maps (request_step pos ev s)) (request_step pos ev s)"
    using request_step_groups [of H s ev pos] request_step_inv [of H s ev pos] by simp_all
  then show ?case using Cons by (simp add: request_run_def)
qed (simp add: request_run_def)

lemma requests_of_run:
  assumes "fresh_ids pos evs no_requests"
  shows "requests_inv (set evs) (rq_maps (request_run pos evs no_requests)) (request_run pos evs no_requests)"
    "groups_inv (request_run pos evs no_requests)"
proof -
  have "groups_inv no_requests" by (simp add: groups_inv_def no_requests_def)
  then show "requests_inv (set evs) (rq_maps (request_run pos evs no_requests)) (request_run pos evs no_requests)"
    "groups_inv (request_run pos evs no_requests)"
    using request_run_inv [OF no_requests_inv order_refl assms] request_run_groups [OF no_requests_inv _ order_refl assms] by auto
qed

section \<open>What waiting returns\<close>

lemma wait_final: "final_at s a \<Longrightarrow> fst (EventFuture_waitFuture a expired s) = Some (cr_result (rq_heap s ! a))"
  by (simp add: final_at_def EventFuture_waitFuture_def detach_def)

lemma wait_pending: "\<not> final_at s a \<Longrightarrow> EventFuture_waitFuture a False s = (None, s)"
  by (simp add: final_at_def EventFuture_waitFuture_def)

lemma settled_final: "settled H (rq_heap s ! a) \<Longrightarrow> final_at s a"
  by (auto simp: settled_def final_at_def)

lemma clearAll_heap:
  "\<forall>x\<in>set m. snd x < length (rq_heap s) \<Longrightarrow> rq_heap (clearAll_loop m s) ! b = (if b \<in> snd ` set m
     then (rq_heap s ! b)\<lparr>cr_disableClearMap := True, cr_engine := None, cr_state := ES_CANCEL\<rparr> else rq_heap s ! b)"
proof (induction m arbitrary: s)
  case (Cons x m)
  obtain nr a where x: "x = (nr, a)" by (cases x)
  let ?s = "settle a ((rq_heap s ! a)\<lparr>cr_disableClearMap := True, cr_engine := None, cr_state := ES_CANCEL\<rparr>) s"
  have a: "a < length (rq_heap s)" and "\<forall>y\<in>set m. snd y < length (rq_heap ?s)" using Cons.prems by (simp_all add: x)
  from Cons.IH [OF this(2)] show ?case using a by (simp add: x cancel_settles nth_list_update_if)
qed simp

lemma close_requests_heap:
  assumes "\<not> rq_close s ch" "\<forall>x\<in>set (rq_maps s ch). snd x < length (rq_heap s)"
  shows "rq_heap (close_requests ch s) ! b = (if b \<in> snd ` set (rq_maps s ch)
     then (rq_heap s ! b)\<lparr>cr_disableClearMap := True, cr_engine := None, cr_state := ES_CANCEL\<rparr> else rq_heap s ! b)"
  using assms by (simp add: close_requests_def engine_clearAll_def Let_def clearAll_heap)

text \<open>C12: a request that was sent waits exactly until its reply arrives or the engine of its channel is cleared. Waiting for
  it returns one reply, which arrived on its channel and carries its number, or no reply after its
  channel was closed; and as long as it keeps waiting, a reply with its number would end it with that
  reply, and closing the channel would end it without.\<close>

theorem requests_end:
  assumes "fresh_ids pos evs no_requests" "s = request_run pos evs no_requests" "a < length (rq_heap s)"
    and "q = rq_heap s ! a"
  shows "case fst (EventFuture_waitFuture a False s) of
      Some (Some [r]) \<Rightarrow> Reply (cr_channel q) (cr_id q) r \<in> set evs
    | Some (Some []) \<Rightarrow> CloseRequests (cr_channel q) \<in> set evs
    | None \<Rightarrow> (\<forall>r. fst (EventFuture_waitFuture a False (snd (engine_setReply (cr_channel q) (cr_id q) r s))) = Some (Some [r]))
        \<and> (\<not> rq_close s (cr_channel q) \<longrightarrow> fst (EventFuture_waitFuture a False (close_requests (cr_channel q) s)) = Some (Some []))
    | _ \<Rightarrow> False"
proof (cases "settled (set evs) q")
  case True
  then show ?thesis using wait_final [OF settled_final, of "set evs" s a False] assms(4) by (auto simp: settled_def)
next
  case False
  have inv: "requests_inv (set evs) (rq_maps s) s" using requests_of_run(1) [OF assms(1)] assms(2) by simp
  let ?ch = "cr_channel q" and ?nr = "cr_id q"
  have m: "(?nr, a) \<in> set (rq_maps s ?ch)" using inv False assms(3,4) by (auto simp: requests_inv_def Let_def)
  then have map: "map_of (rq_maps s ?ch) ?nr = Some a" using inv by (simp add: requests_inv_def)
  have p: "pending ?ch ?nr (rq_heap s ! a)" using requests_inv_pending [OF inv map] by simp
  have "fst (EventFuture_waitFuture a False (snd (engine_setReply ?ch ?nr r s))) = Some (Some [r])" for r
    using setReply_settles [OF assms(3) p map, of r] assms(3) by (subst wait_final) (simp_all add: final_at_def)
  moreover have "fst (EventFuture_waitFuture a False (close_requests ?ch s)) = Some (Some [])" if "\<not> rq_close s ?ch"
  proof -
    have "\<forall>x\<in>set (rq_maps s ?ch). snd x < length (rq_heap s)" using inv by (force simp: requests_inv_def)
    from close_requests_heap [OF that this, of a] have "rq_heap (close_requests ?ch s) ! a
      = (rq_heap s ! a)\<lparr>cr_disableClearMap := True, cr_engine := None, cr_state := ES_CANCEL\<rparr>" using m by force
    then show ?thesis using p by (subst wait_final) (simp_all add: final_at_def pending_def)
  qed
  ultimately show ?thesis by (simp add: wait_pending pending_not_final [OF p])
qed

lemma member_close:
  assumes "a < length (rq_heap s)"
  shows "rq_heap (ChannelRequest_close a (removeListener a s)) = (rq_heap s)[a :=
     (rq_heap s ! a)\<lparr>cr_listener := None, cr_engine := None, cr_state := ES_CANCEL\<rparr>]"
    "rq_groups (ChannelRequest_close a (removeListener a s)) = rq_groups s"
  using assms by (auto simp: ChannelRequest_close_def ChannelRequest_cancel_def removeListener_def on_request_def
      stateChanged_def fireEventChange_def engine_clear_def engine_unbind_def Let_def split: option.splits if_splits)

lemma detach_loop_simps:
  "\<forall>a\<in>set l. a < length (rq_heap s) \<Longrightarrow>
   rq_heap (detach_loop l s) ! b = (if b \<in> set l
     then (rq_heap s ! b)\<lparr>cr_listener := None, cr_engine := None, cr_state := ES_CANCEL\<rparr> else rq_heap s ! b)
   \<and> rq_groups (detach_loop l s) = rq_groups s"
proof (induction l arbitrary: s)
  case (Cons a l)
  let ?s = "ChannelRequest_close a (removeListener a s)"
  have a: "a < length (rq_heap s)" and "\<forall>b\<in>set l. b < length (rq_heap ?s)" using Cons.prems by (simp_all add: member_close)
  from Cons.IH [OF this(2)] show ?case using a by (simp add: member_close nth_list_update_if)
qed simp

text \<open>C13: a group of requests waits for all of them. Whatever replies, writes and closings came before, after or between its
  requests, waiting for an opened group returns the list of its requests exactly when each of them has ended, and
  keeps waiting otherwise. The requests keep their replies, but all of them are cancelled then, the answered ones too.\<close>

theorem group_waits_for_all:
  assumes "fresh_ids pos evs no_requests" "s = request_run pos evs no_requests" "g < length (rq_groups s)"
    "gr_result (rq_groups s ! g) = Some l"
  shows "if \<forall>a\<in>set l. isStateFinal (cr_state (rq_heap s ! a))
    then \<exists>s'. RequestGroup_waitFuture g False s = Some (Some l, s')
        \<and> map (\<lambda>a. cr_result (rq_heap s' ! a)) l = map (\<lambda>a. cr_result (rq_heap s ! a)) l
        \<and> map (\<lambda>a. cr_state (rq_heap s' ! a)) l = map (\<lambda>_. ES_CANCEL) l
    else RequestGroup_waitFuture g False s = Some (None, s)"
proof -
  have "groups_inv s" using requests_of_run(2) [OF assms(1)] assms(2) by simp
  then have inv: "group_inv g l s" using assms(3,4) by (auto simp: groups_inv_def group_inv_def)
  show ?thesis
  proof (cases "\<forall>a\<in>set l. final_at s a")
    case True
    let ?s = "update_group g (\<lambda>G. G\<lparr>gr_state := ES_SUCCESS\<rparr>) s"
    let ?s' = "update_group g (\<lambda>G. G\<lparr>gr_result := None\<rparr>) (detach_loop l ?s)"
    have "\<forall>a\<in>set l. a < length (rq_heap ?s)" "rq_heap ?s = rq_heap s" "rq_heap ?s' = rq_heap (detach_loop l ?s)"
      using inv by (simp_all add: group_inv_def update_group_def)
    note heap = detach_loop_simps [OF this(1)] this(2,3)
    have "isAllEventFinal (rq_groups s ! g)" using isAllEventFinal_iff [OF inv] True by simp
    then have "RequestGroup_waitFuture g False s = Some (Some l, ?s')"
      using assms(3,4) by (simp add: RequestGroup_waitFuture_def RequestGroup_detach_def Let_def) (simp add: update_group_def)
    moreover have "map (\<lambda>a. cr_result (rq_heap ?s' ! a)) l = map (\<lambda>a. cr_result (rq_heap s ! a)) l"
      "map (\<lambda>a. cr_state (rq_heap ?s' ! a)) l = map (\<lambda>_. ES_CANCEL) l"
      using heap by simp_all
    ultimately show ?thesis using True by (simp add: final_at_def)
  next
    case False
    then have "\<not> isAllEventFinal (rq_groups s ! g)" "\<not> isStateFinal (gr_state (rq_groups s ! g))"
      using isAllEventFinal_iff [OF inv] inv by (auto simp: group_inv_def)
    then show ?thesis using False by (simp add: RequestGroup_waitFuture_def final_at_def Let_def)
  qed
qed

section \<open>Requests that never end\<close>

text \<open>C33: numbers must not be used again while they wait. When a request is sent with a number that is
  pending on its channel, it reports success, the reply goes to the older request, and neither a reply
  nor closing the channel ever ends the new one.\<close>

theorem number_in_use_never_answered:
  assumes "fresh_ids pos evs no_requests" "s = request_run pos evs no_requests"
    "\<not> rq_close s ch" "map_of (rq_maps s ch) nr = Some b" "a = length (rq_heap s)"
    "s1 = snd (sendRequest pos raw ch nr asyncWrite True s)"
  shows "fst (sendRequest pos raw ch nr asyncWrite True s) = Some a
    \<and> fst (EventFuture_waitFuture b False (snd (engine_setReply ch nr r s1))) = Some (Some [r])
    \<and> fst (EventFuture_waitFuture a False (snd (engine_setReply ch nr r s1))) = None
    \<and> fst (EventFuture_waitFuture a False (close_requests ch s1)) = None"
proof -
  have inv: "requests_inv (set evs) (rq_maps s) s" using requests_of_run(1) [OF assms(1)] assms(2) by simp
  note b = requests_inv_pending [OF inv assms(4)]
  let ?q = "(ChannelRequest_ctor raw ch nr)\<lparr>cr_wb := asyncWrite\<rparr>"
  have send: "fst (sendRequest pos raw ch nr asyncWrite True s) = Some a" "s1 = s\<lparr>rq_heap := rq_heap s @ [?q]\<rparr>"
    using assms(4-6) by (simp_all add: sendRequest_eq [OF assms(3)])
  have b1: "b < length (rq_heap s1)" "pending ch nr (rq_heap s1 ! b)" "map_of (rq_maps s1 ch) nr = Some b" "b \<noteq> a"
    using b assms(4,5) send(2) by (simp_all add: nth_append)
  have a1: "rq_heap s1 ! a = ?q" "\<not> final_at s1 a" using send(2) assms(5) by (simp_all add: ChannelRequest_ctor_def final_at_def)
  note reply = setReply_settles [OF b1(1-3), of r]
  have "fst (EventFuture_waitFuture b False (snd (engine_setReply ch nr r s1))) = Some (Some [r])"
    using b1(1) by (subst wait_final) (simp_all add: reply final_at_def)
  moreover have "fst (EventFuture_waitFuture a False (snd (engine_setReply ch nr r s1))) = None"
    using a1(2) b1(4) by (subst wait_pending) (simp_all add: reply final_at_def)
  moreover have "fst (EventFuture_waitFuture a False (close_requests ch s1)) = None"
  proof -
    have lt: "\<forall>x\<in>set (rq_maps s ch). snd x < length (rq_heap s)" using inv by (force simp: requests_inv_def)
    then have "\<forall>x\<in>set (rq_maps s1 ch). snd x < length (rq_heap s1)" "a \<notin> snd ` set (rq_maps s1 ch)" "\<not> rq_close s1 ch"
      using send(2) assms(3,5) by auto
    from close_requests_heap [OF this(3,1), of a] this(2) have "rq_heap (close_requests ch s1) ! a = rq_heap s1 ! a" by simp
    then show ?thesis using a1(2) by (subst wait_pending) (simp_all add: final_at_def)
  qed
  ultimately show ?thesis using send(1) by simp
qed

text \<open>Closing a channel ends the requests it has, and not those that come while it closes. The lock of the channel is
  free between the two steps of closing; a request that is sent then reports success, is not ended by
  the closing, and closing the channel again changes nothing.\<close>

lemma request_in_close_gap:
  assumes "\<not> rq_close s ch" "s1 = close_requests ch s" "a = length (rq_heap s1)"
    "s2 = close_channel ch (snd (sendRequest pos raw ch nr asyncWrite True s1))"
  shows "fst (sendRequest pos raw ch nr asyncWrite True s1) = Some a
    \<and> fst (EventFuture_waitFuture a False s2) = None \<and> close_channel ch (close_requests ch s2) = s2"
proof -
  have "\<not> rq_close s1 ch" "rq_maps s1 ch = []"
    using assms(1,2) clearAll_close [of "rq_maps s ch" s] by (simp_all add: close_requests_def engine_clearAll_def Let_def)
  then have "fst (sendRequest pos raw ch nr asyncWrite True s1) = Some a" "rq_heap s2 ! a = (ChannelRequest_ctor raw ch nr)\<lparr>cr_wb := asyncWrite\<rparr>"
    "rq_close s2 = (rq_close s1)(ch := True)"
    using assms(3,4) by (simp_all add: sendRequest_eq close_channel_def)
  then show ?thesis by (simp add: wait_pending final_at_def ChannelRequest_ctor_def) (simp add: close_requests_def close_channel_def)
qed

text \<open>An asynchronous write that fails does not end its request.\<close>

lemma failed_write_keeps_request:
  "cr_wb (rq_heap s ! a) \<Longrightarrow> \<exists>s'. ChannelRequest_onEvent a ES_ERROR s = Some s' \<and> rq_maps s' = rq_maps s
     \<and> map cr_state (rq_heap s') = map cr_state (rq_heap s)"
  by (simp add: ChannelRequest_onEvent_simp on_request_def map_update) (metis list_update_id map_update)

text \<open>A request that could not be written stays in the engine, although its sender has no request to wait for.\<close>

lemma unwritten_request_stays:
  assumes "\<not> rq_close s ch" "map_of (rq_maps s ch) nr = None" "sendRequest pos raw ch nr asyncWrite False s = (r, s')"
  shows "r = None \<and> (nr, length (rq_heap s)) \<in> set (rq_maps s' ch)"
  using assms by (auto simp: sendRequest_eq)

text \<open>A reply that comes after its caller gave up is accepted by the engine and lost.\<close>

lemma late_reply_lost:
  assumes "a < length (rq_heap s)" "pending ch nr (rq_heap s ! a)" "map_of (rq_maps s ch) nr = Some a"
    and "EventFuture_waitFuture a True s = (l, s1)"
  shows "l = Some (Some []) \<and> fst (engine_setReply ch nr r s1) = 0
     \<and> cr_result (rq_heap (snd (engine_setReply ch nr r s1)) ! a) = None"
proof -
  let ?t = "stateChanged a ES_TIMEOUT s"
  have t: "rq_heap ?t = (rq_heap s)[a := (rq_heap s ! a)\<lparr>cr_state := ES_TIMEOUT\<rparr>]"
    using assms(1) by (simp add: stateChanged_settle)
  have "l = Some (Some [])" and s1: "s1 = on_request a (\<lambda>q. q\<lparr>cr_result := None\<rparr>) ?t"
    using assms(1,2,4) by (auto simp: EventFuture_waitFuture_def pending_def detach_def t)
  have "rq_heap s1 ! a = (rq_heap s ! a)\<lparr>cr_state := ES_TIMEOUT, cr_result := None\<rparr>" "a < length (rq_heap s1)"
    using assms(1) by (simp_all add: s1 on_request_def t)
  then have "snd (ChannelRequest_setFuture a r s1) = on_request a (\<lambda>q. q\<lparr>cr_engine := None\<rparr>) s1"
    "cr_result (rq_heap (on_request a (\<lambda>q. q\<lparr>cr_engine := None\<rparr>) s1) ! a) = None"
    by (simp_all add: ChannelRequest_setFuture_def EventFuture_setFuture_def on_request_def)
  then show ?thesis using \<open>l = Some (Some [])\<close> assms(3)
    by (simp add: engine_setReply_def engine_clear_def engine_unbind_def s1 split: option.split)
qed

section \<open>Witnesses\<close>

text \<open>Two requests to one channel and one to another are awaited as a group. The first is answered although its write fails
  later, the second channel closes, and the last request is never answered.\<close>

definition ask_sent :: "nat request_event list" where
  "ask_sent = [Send True 3 7 True True, Send False 2 7 False True, Send False 3 8 True True]"

definition ask_ended :: "nat request_event list" where
  "ask_ended = [Reply 3 7 42, WriteEnds 0 ES_ERROR, CloseRequests 2, CloseChannel 2]"

definition ask :: "nat request_event list" where
  "ask = ask_sent @ OpenGroup [0, 1] # ask_ended"

definition asked :: "nat requests" where
  "asked = request_run (\<lambda>_ _. 0) ask no_requests"

lemma asked_requests:
  "rq_heap asked = [\<lparr>cr_state = ES_SUCCESS, cr_result = Some [42], cr_expectedSize = 1, cr_listener = Some 0, cr_id = 7,
       cr_engine = None, cr_channel = 3, cr_wb = False, cr_disableClearMap = True\<rparr>,
     \<lparr>cr_state = ES_CANCEL, cr_result = Some [], cr_expectedSize = 1, cr_listener = Some 0, cr_id = 7,
       cr_engine = None, cr_channel = 2, cr_wb = False, cr_disableClearMap = True\<rparr>,
     \<lparr>cr_state = ES_IDLE, cr_result = Some [], cr_expectedSize = 1, cr_listener = None, cr_id = 8,
       cr_engine = Some 3, cr_channel = 3, cr_wb = True, cr_disableClearMap = False\<rparr>]"
  "rq_groups asked = [\<lparr>gr_state = ES_SUCCESS, gr_result = Some [0, 1], gr_expectedSize = 2, gr_finishedRequests = 2, gr_opened = True\<rparr>]"
  "rq_maps asked 3 = [(8, 2)]" "\<not> rq_close asked 3"
  by (code_simp, code_simp, code_simp, code_simp)+

lemma fresh_ids_append:
  "fresh_ids pos (xs @ ys) s = (fresh_ids pos xs s \<and> fresh_ids pos ys (request_run pos xs s))"
  by (induction xs arbitrary: s) (auto simp: request_run_def)

lemma ask_fresh: "fresh_ids (\<lambda>_ _. 0) ask no_requests"
proof -
  let ?s = "request_run (\<lambda>_ _. 0) ask_sent no_requests"
  have "fresh_ids (\<lambda>_ _. 0) ask_sent no_requests" by code_simp
  moreover have "\<forall>a\<in>set [0, 1]. a < length (rq_heap ?s) \<and> cr_listener (rq_heap ?s ! a) = None" by code_simp
  then have "may_open [0, 1] ?s" by (simp add: may_open_def)
  moreover have "fresh_ids (\<lambda>_ _. 0) ask_ended (open_group [0, 1] ?s)" by code_simp
  ultimately show ?thesis by (simp add: ask_def fresh_ids_append)
qed

theorem requests_end_witness:
  "fst (EventFuture_waitFuture 0 False asked) = Some (Some [42]) \<and> Reply 3 7 42 \<in> set ask
   \<and> fst (EventFuture_waitFuture 1 False asked) = Some (Some []) \<and> CloseRequests 2 \<in> set ask
   \<and> fst (EventFuture_waitFuture 2 False asked) = None
   \<and> fst (EventFuture_waitFuture 2 False (snd (engine_setReply 3 8 5 asked))) = Some (Some [5])"
proof -
  have wait: "fst (EventFuture_waitFuture 0 False asked) = Some (Some [42])" "fst (EventFuture_waitFuture 1 False asked) = Some (Some [])"
    "fst (EventFuture_waitFuture 2 False asked) = None"
    by (simp_all add: EventFuture_waitFuture_def detach_def asked_requests)
  note ends = requests_end [OF ask_fresh asked_def _ refl]
  from ends [of 0] ends [of 1] ends [of 2] wait show ?thesis by (auto simp: asked_requests)
qed

theorem group_waits_for_all_witness:
  "map_option fst (RequestGroup_waitFuture 0 False asked) = Some (Some [0, 1])"
proof -
  have "0 < length (rq_groups asked)" "gr_result (rq_groups asked ! 0) = Some [0, 1]"
    "\<forall>a\<in>set [0, 1]. isStateFinal (cr_state (rq_heap asked ! a))"
    by (simp_all add: asked_requests)
  from group_waits_for_all [OF ask_fresh asked_def this(1,2)] this(3) show ?thesis by (auto simp: asked_requests)
qed

theorem number_in_use_never_answered_witness:
  "fst (EventFuture_waitFuture 3 False (snd (engine_setReply 3 8 5 (snd (sendRequest (\<lambda>_ _. 0) False 3 8 True True asked))))) = None"
proof -
  have "\<not> rq_close asked 3" "map_of (rq_maps asked 3) 8 = Some 2" "3 = length (rq_heap asked)" by (simp_all add: asked_requests)
  from number_in_use_never_answered [OF ask_fresh asked_def this refl] show ?thesis by blast
qed

end
