(* ===== verification/Spec2Isabelle.thy ===== *)
theory Spec2Isabelle
  imports UUIDDistances CellFailover CellRequests GroupSites RequestRuns
begin

text \<open>
  \<^bold>\<open>Stheno, a resource-aware peer-to-peer middleware: data model, wire format, cells, runtime, services and replication groups.\<close>

  Stheno runs services on an overlay of superpeers. The P3 overlay (\<^verbatim>\<open>src/p3\<close>) groups superpeers
  into cells and cells into a tree. In every cell one superpeer is the coordinator: it holds the part of the
  tree below its cell, serves the other superpeers of the cell (followers, which keep a copy of the tree),
  the coordinators of child cells and the leaves (sensors, monitors), and has a channel to the
  coordinator of the parent cell. Everything they exchange is written with the streams of Euryale
  (\<^verbatim>\<open>src/euryale\<close>), the layer below. Most of P3's own logic is in \<^verbatim>\<open>superpeer/cell\<close>, which is what this
  development models first, together with the data it is built on and the channels its packets travel on.
  Above the overlay the runtime (\<^verbatim>\<open>src/stheno/core\<close>) keeps the services of a peer: it creates and stops
  instances, for its owner or on the request of a remote peer that comes through the mesh, and tells the mesh of
  the new ones. A service can be replicated: the fault tolerance service of P3 (\<^verbatim>\<open>p3/ft\<close>) keeps a group of
  runtimes that run an instance each, one of them the primary, and replaces the primary when it stops.

  \<^bold>\<open>Conventions.\<close> C++ integers are words of their width. Identifiers and wire data are lists of bytes. Smart
  pointers to values are the values, nullable ones options; containers of the standard library are
  lists; the hash tables of ACE are association lists whose iteration order is a parameter. A write to a
  stream is a value (\<open>wop\<close>), so that one serializer can be run on the stream, on the size counter and on the
  abstract encoding. Following a null or a dangling pointer and every exception is an error value. What the code
  gets from outside is a parameter: the configuration (\<open>node_env\<close>), memory (\<open>alloc\<close>),
  uninitialised members (\<open>raw_*\<close>), and, for a cell, its \<open>cell_world\<close>: fresh identifiers, random numbers, the
  verdict of the parent on a request, what connecting gives, the answers of discovery.

  \<^bold>\<open>Streams and encoding.\<close>
  \<^item> \<open>Prelude\<close>: little-endian layout, first-match searches, results with errors.
  \<^item> \<open>OutStreams\<close>: \<^verbatim>\<open>ByteOutputStream\<close> (growth of the block chain, alignment, all write operations),
    \<^verbatim>\<open>StreamSize\<close>, the growth policy of \<^verbatim>\<open>Types.inl\<close>. The chain holds the bytes of the calls however it grew;
    the counter agrees with the stream; growing terminates.
  \<^item> \<open>InStreams\<close>: \<^verbatim>\<open>ByteInputStream\<close>; no read leaves the input.
  \<^item> \<open>Codecs\<close>: serializable classes as an interface (locale \<open>codec\<close> and its variant up to a relation),
    interpreted for every class below; lists and optional members once and for all.
  \<^item> \<open>UUIDs\<close>, \<open>UUIDDistances\<close>, \<open>CellIDs\<close>: identifiers, their text and comparison, the edit distance against its
    recursive definition, levels of cell identifiers.
  \<^item> \<open>Endpoints\<close>, \<open>HashMaps\<close>, \<open>PeerInfos\<close>: endpoints and access points, tables, services and peers; registering
    and unregistering services refines a set of running instances.

  \<^bold>\<open>The cell tree.\<close>
  \<^item> \<open>CellTreeNodes\<close>, \<open>CellTrees\<close>: a cell with its peers, limits and child slots; the tree with paths in place
    of node pointers, and its root pointer, which can be null or dangling (\<^verbatim>\<open>CellTreeNode.cpp\<close>, \<^verbatim>\<open>CellTree.cpp\<close>).
  \<^item> \<open>CellPlacement\<close>, \<open>LeastLoad\<close>: where a new cell or a peer is placed; the peer of least load found by
    the loop of \<^verbatim>\<open>getPoL\<close> with its explicit stack, which terminates.
  \<^item> \<open>CellTreeUpdates\<close>: which cells an operation touches, and the invariant of every tree that
    operations can build.

  \<^bold>\<open>Protocols.\<close>
  \<^item> \<open>CellPackets\<close>, \<open>DiscoveryPackets\<close>: header, bodies and factories of the two protocols; the locale
    \<open>packet_family\<close> proves the round trip once for both.
  \<^item> \<open>InfoUpdates\<close>: the updates spread over the mesh and what they do to a peer of the tree.

  \<^item> \<open>PacketChannels\<close>: the stream channel and the packet channel on it (\<^verbatim>\<open>AbstractStreamChannel.h\<close>,
    \<^verbatim>\<open>PacketChannel.h\<close>): what is sent is delivered, for every way the byte stream can be cut; what hostile or
    unknown headers do; the output queue.
  \<^item> \<open>Requests\<close>, \<open>RequestRuns\<close>: requests as futures (\<^verbatim>\<open>Event.cpp\<close>, \<^verbatim>\<open>EventFuture.h\<close>, \<^verbatim>\<open>ChannelRequest.h\<close>), the engine of
    a channel that matches replies with them (\<^verbatim>\<open>ChannelRequestEngine.h\<close>), groups that await several
    (\<^verbatim>\<open>RequestGroup.h\<close>); for every sequence of replies, writes and closings, what waiting for them returns.

  \<^bold>\<open>The runtime.\<close>
  \<^item> \<open>Services\<close>: the life cycle of \<^verbatim>\<open>ServiceAbstract\<close>, its hooks as an interface (locale \<open>service_hooks\<close>,
    interpreted for the RPC service), access points (\<^verbatim>\<open>SAP.h\<close>), and the instances of one service
    (\<^verbatim>\<open>LocalService\<close>), which share the heap of services with their holders.
  \<^item> \<open>RuntimeCore\<close>: \<^verbatim>\<open>SthenoCore\<close> with its factory, the overlay's states and the mesh's handler of creation
    requests; locale \<open>core_surroundings\<close> is what the runtime relies on. Creation and stop are specified on the
    map from identifiers to instances, and every sequence of calls keeps the registry in order.

  \<^bold>\<open>Replication groups.\<close>
  \<^item> \<open>ReplicationGroups\<close>: a group as one member keeps it (\<^verbatim>\<open>P3ReplicationGroup.cpp\<close>, \<^verbatim>\<open>ReplicationGroup.cpp\<close>), its channel
    managers (\<^verbatim>\<open>StreamChannelGroup.h\<close>), the table of groups (\<^verbatim>\<open>P3FaultTolerance.cpp\<close>), and every operation: opening,
    adding and losing members, failover, replication. The list of members is the abstract view of a group.
  \<^item> \<open>GroupRuns\<close>: runtimes of a net, each with the runtime core and the groups above; the accepting side of
    connections; crashes, breaking channels and replication as a step relation, its invariant and a measure
    by which the survivors settle.
  \<^item> \<open>GroupFounding\<close>: a group is founded member by member, and ends in that invariant.
  \<^item> \<open>GroupFailover\<close>: one primary at most, agreement of the survivors, what replication reaches, failover, and what
    goes wrong when sites are missing or a connection fails.
  \<^item> \<open>DiscoveryService\<close>, \<open>GroupSites\<close>: queries (\<^verbatim>\<open>DiscoveryQuery.cpp\<close>), the provider that answers them from the tree
    (\<^verbatim>\<open>P3GeneralProvider.cpp\<close>), their way from superpeer to superpeer up to the root (\<^verbatim>\<open>SuperPeerDiscovery.cpp\<close>), and the
    search for the sites of a group on them: what is found, and why the root finds nothing.

  \<^bold>\<open>The cell.\<close>
  \<^item> \<open>Cells\<close>: the state of \<^verbatim>\<open>Cell\<close>, the packets it sends (\<^verbatim>\<open>CellGroup\<close>, \<^verbatim>\<open>ParentCellClientHandler\<close>,
    \<^verbatim>\<open>CellClientHandler\<close>) and the handlers of requests, as functions to the result, the packets sent in order and
    the new state. A handler changes the cell only while it holds the lock of the cell, so a call is one step.
  \<^item> \<open>CellBinding\<close>: answers to discovery, binding to a parent or a coordinator, failures, opening and closing.
  \<^item> \<open>CellChannels\<close>: the dispatch of \<^verbatim>\<open>CellSvcHandler\<close> and \<^verbatim>\<open>CellFollowerSvcHandler\<close>, and that handlers keep the
    invariant of the cell.
  \<^item> \<open>CellRuns\<close>: the cell as a state machine, its reachable states and their invariant.
  \<^item> \<open>CellReplication\<close>: coordinator and followers as a primary with backups (locale \<open>primary_backup\<close>): which requests
    leave them in agreement, and what happens for the others.
  \<^item> \<open>CellFailover\<close>, \<open>CellRequests\<close>: election after a failure, the end of rebinding, answers, updates, offers,
    leaving.

  \<^bold>\<open>Bounds and termination.\<close> Functions are total. \<open>fireRebind_loop\<close> may run forever and is a partial function whose
  value None is just that, and so is \<open>executeQuery\<close>, for superpeers that are above each other.
  Reading a tree takes a bound on the nesting; one above the length of the input is never reached, and
  reading what was written needs no more than the height of the tree, which is at most the length of
  its encoding.

  \<^bold>\<open>Not modelled.\<close> Sockets, acceptors, reactors, threads and the locks between them, timeouts, quality of
  service reservations (wrappers of the operating system and of ACE); in the cell and the mesh the waiting for
  replies, which \<open>RequestRuns\<close> treats by itself (the verdict of a request is a parameter there);
  the multicast exchange of \<^verbatim>\<open>CellDiscovery\<close>; the
  mesh and leaf services above the cell, asynchronous queries and the bytes of replies to queries;
  of the fault tolerance service the bytes of its packets, which are values here, and its own opening. A run of a group begins
  when the group has been founded, members do not join or leave it except by stopping, and a
  connection between two running members does not break; \<^verbatim>\<open>SthenoCore::startService\<close> and \<^verbatim>\<open>getClient\<close>, which act on remote peers, its logs and
  traces; configuration files; \<^verbatim>\<open>RDRStream\<close>, an older copy of the streams; wide characters and long doubles; text forms for logging;
  \<^verbatim>\<open>CellTree::removeCell\<close>, \<^verbatim>\<open>CellTreeNode::replaceSibling\<close> and \<^verbatim>\<open>CellID::getNextGroupID\<close>. Interference between handlers that run between
  releasing the lock and sending is not modelled either: packets are those of the state the handler
  left.

  \<^bold>\<open>Plan.\<close> Requests of the cell as futures; cell discovery; the remaining operations of the tree.
\<close>

section \<open>Sending a tree to another superpeer\<close>

text \<open>C24: a tree handed to a joining superpeer. A superpeer serializes its cell tree into a
  \<^verbatim>\<open>ByteOutputStream\<close> and puts the bytes, in a chain of blocks that can be sent, as the state of a
  \<^verbatim>\<open>JoinCellReplyPacket\<close>. The receiver's factory builds the reply with the same request number and
  stops at the end of the packet, and a \<^verbatim>\<open>CellTree\<close> read from the state it carries has every cell in
  its place with the same fields and the same peers.\<close>

theorem tree_snapshot_transfer:
  assumes "node_ok t" "height t \<le> fuel" "consts_ok c" "alloc_ok alloc" "raw_ok raw"
    "run_ops bos_put (node_serialize t) (bos_ctor c alloc True tradeoff sz) = Some s"
    "chain_ok st" "chain_data st = bos_content s" "sh_messageType h = 0x12"
  shows "CellTree_serialize (Root t) = Inr (node_serialize t)
    \<and> (\<exists>st' m. createPacket raw h (input (encode (serializeBody (JoinCellReplyPacket req (Some st))) @ r))
          = Some (JoinCellReplyPacket req (Some st'), input r)
        \<and> CellTree_deserialize fuel pos raw' (input (chain_data st')) = Some (Root m, input []) \<and> node_sim t m)"
proof -
  have "bos_content s = encode (node_serialize t)"
    using wire_run [OF node_calls [OF assms(1)] assms(3,4), of tradeoff sz] assms(6) by auto
  moreover obtain m where "node_deserialize fuel pos raw' (input (encode (node_serialize t) @ [])) = Some (m, input [])"
    "node_sim t m" using node_back [OF assms(1,2), of pos raw' "[]"] by blast
  ultimately have m: "CellTree_deserialize fuel pos raw' (input (chain_data st)) = Some (Root m, input [])" "node_sim t m"
    using assms(8) by (simp_all add: CellTree_deserialize_def)
  have "body_ok (JoinCellReplyPacket req (Some st))" "sh_messageType h = packet_type (JoinCellReplyPacket req (Some st))"
    using assms(7,9) by simp_all
  from body_back [OF this(1) assms(5) this(2), of r] obtain b' where
    b': "createPacket raw h (input (encode (serializeBody (JoinCellReplyPacket req (Some st))) @ r)) = Some (b', input r)"
    "rel_cell_packet same_bytes (JoinCellReplyPacket req (Some st)) b'" by blast
  then obtain st' where "b' = JoinCellReplyPacket req (Some st')" "chain_data st = chain_data st'"
    by (cases b') (auto simp: same_bytes_def option_rel_Some1)
  with b' m show ?thesis by (auto simp: CellTree_serialize_def with_root_def)
qed

lemma sample_tree_bytes: "length (encode (node_serialize sample_tree)) < 1000"
  by code_simp

theorem tree_snapshot_transfer_witness:
  "\<exists>st' m. createPacket sample_raw_packet (sample_header 0x12)
        (input (encode (serializeBody (JoinCellReplyPacket 3 (Some
          [(\<lparr>blk_base = encode (node_serialize sample_tree), blk_rd = 0,
             blk_wr = length (encode (node_serialize sample_tree))\<rparr>, False)])))))
        = Some (JoinCellReplyPacket 3 (Some st'), input [])
      \<and> CellTree_deserialize 2 (\<lambda>_ _. 0) sample_raw (input (chain_data st')) = Some (Root m, input [])
      \<and> node_sim sample_tree m"
proof -
  let ?e = "encode (node_serialize sample_tree)"
  let ?st = "[(\<lparr>blk_base = ?e, blk_rd = 0, blk_wr = length ?e\<rparr>, False)]"
  from wire_run [OF node_calls [OF sample_tree_ok(1)] sample_stream_ok, of 256 0] obtain s where
    s: "run_ops bos_put (node_serialize sample_tree) (bos_ctor sample_consts zero_alloc True 256 0) = Some s"
    "bos_content s = ?e" by blast
  have "length ?e < 2 ^ 32" using sample_tree_bytes by simp
  then have st: "chain_ok ?st" "chain_data ?st = bos_content s"
    by (simp_all add: chain_ok_def chain_length_def chain_data_def blk_ok_def blk_size_def blk_length_def blk_data_def s(2))
  have h: "sh_messageType (sample_header 0x12) = 0x12" by (simp add: sample_header_def SthenoHeader_ctor_def)
  have raw: "raw_ok sample_raw_packet" by (simp add: raw_ok_def sample_raw_packet_def)
  show ?thesis
    using tree_snapshot_transfer [OF sample_tree_ok(1) _ sample_stream_ok raw s(1) st h, of 2 3 "[]" "\<lambda>_ _. 0" sample_raw]
      sample_tree_ok(2) by simp
qed

end
